(* ===== verification/Prelude.thy ===== *)
theory Prelude
  imports Main "HOL-Library.Word" "HOL-Library.Multiset"
begin

text \<open>
  Shared vocabulary of the development: the machine integers of the sources, the ways a
  call can fail to return, and the arithmetic of 64-bit words (masks, shifts, rounding)
  and of lists that the component theories use.
\<close>

unbundle bit_operations_syntax

section \<open>Types\<close>

type_synonym u8 = "8 word"
type_synonym u16 = "16 word"
type_synonym u32 = "32 word"
type_synonym u64 = "64 word"

text \<open>
  What the code does instead of returning: \<open>CHECK\<close> failing (\<open>Panic\<close>), a spinlock taken
  twice by the same thread (\<open>Deadlock\<close>), a loop that never ends (\<open>Diverge\<close>), a division
  by zero, an access past the end of an array or of a page table, a null pointer followed, and \<^verbatim>\<open>va_arg\<close> without a next
  argument of the requested type.
\<close>

datatype fault = Panic | Deadlock | Diverge | DivByZero | OutOfBounds | BadArgument | NullPointer

type_synonym 'a res = "fault + 'a"

text \<open>The largest size the checked memory functions accept, \<^verbatim>\<open>inc/pg/std.h\<close>.\<close>

definition RSIZE_MAX :: nat where "RSIZE_MAX = 128 * 1024 * 1024"

fun res_bind :: "'a res \<Rightarrow> ('a \<Rightarrow> 'b res) \<Rightarrow> 'b res" where
  "res_bind (Inl e) f = Inl e"
| "res_bind (Inr x) f = f x"

definition res_of_option :: "('a res) option \<Rightarrow> 'a res" where
  "res_of_option r = (case r of None \<Rightarrow> Inl Diverge | Some x \<Rightarrow> x)"

lemma res_of_option_simps [simp]:
  "res_of_option None = Inl Diverge" "res_of_option (Some x) = x"
  by (simp_all add: res_of_option_def)

text \<open>A \<^verbatim>\<open>for\<close> loop whose body may fail.\<close>

primrec fold_res :: "('i \<Rightarrow> 's \<Rightarrow> 's res) \<Rightarrow> 'i list \<Rightarrow> 's \<Rightarrow> 's res" where
  "fold_res f [] s = Inr s"
| "fold_res f (i # is) s = res_bind (f i s) (fold_res f is)"

lemma res_bind_eq_Inr: "res_bind r f = Inr y \<longleftrightarrow> (\<exists>x. r = Inr x \<and> f x = Inr y)"
  by (cases r) auto

lemma res_bind_cong [fundef_cong]:
  "r = r' \<Longrightarrow> (\<And>x. r' = Inr x \<Longrightarrow> f x = f' x) \<Longrightarrow> res_bind r f = res_bind r' f'"
  by (cases r') auto

section \<open>Words\<close>

named_theorems word_nat \<open>equations that move 64-bit words to natural numbers\<close>

lemma unat_lt64 [simp]: "unat (x :: u64) < 18446744073709551616"
  using unsigned_less [of x, where ?'a = nat] by simp

lemma power2_lt64: "n < 64 \<Longrightarrow> (2 :: nat) ^ n < 18446744073709551616"
  using power_strict_increasing [of n 64 "2 :: nat"] by simp

lemma unat_power64 [simp]: "n < 64 \<Longrightarrow> unat ((2 :: u64) ^ n) = 2 ^ n"
proof -
  assume "n < 64"
  then have "unat (word_of_nat (2 ^ n) :: u64) = 2 ^ n"
    by (simp add: unat_of_nat power2_lt64 del: of_nat_power)
  then show ?thesis by simp
qed

lemma unat_add64 [word_nat]:
  "unat a + unat b < 18446744073709551616 \<Longrightarrow> unat (a + b :: u64) = unat a + unat b"
  by (simp add: unat_word_ariths)

lemma unat_Suc64: "unat it < unat x \<Longrightarrow> unat (it + 1) = Suc (unat (it :: u64))" for x :: u64
proof -
  assume "unat it < unat x"
  then have "unat it + unat (1 :: u64) < 18446744073709551616"
    using unat_lt64 [of x] unfolding unsigned_1 by linarith
  then show ?thesis by (subst unat_add64) simp_all
qed

lemma unat_mult64 [word_nat]:
  "unat a * unat b < 18446744073709551616 \<Longrightarrow> unat (a * b :: u64) = unat a * unat b"
  by (simp add: unat_word_ariths)

lemma unat_sub64 [word_nat]:
  "unat b \<le> unat a \<Longrightarrow> unat (a - b :: u64) = unat a - unat b"
  by (simp add: unat_sub word_le_nat_alt)

lemma unat_of_nat64 [word_nat]:
  "n < 18446744073709551616 \<Longrightarrow> unat (word_of_nat n :: u64) = n"
  by (simp add: unat_of_nat)

lemma unat_drop_bit64 [word_nat]: "unat (drop_bit n (x :: u64)) = unat x div 2 ^ n"
  by (simp only: unat_drop_bit_eq) (rule drop_bit_eq_div)

lemma unat_take_bit64 [word_nat]: "unat (take_bit n (x :: u64)) = unat x mod 2 ^ n"
  by (simp only: unsigned_take_bit_eq) (rule take_bit_eq_mod)

lemma unat_and_mask64 [word_nat]: "unat ((x :: u64) AND mask n) = unat x mod 2 ^ n"
  unfolding take_bit_eq_mask [symmetric] by (rule unat_take_bit64)

lemma unat_push_bit64 [word_nat]:
  "unat x * 2 ^ n < 18446744073709551616 \<Longrightarrow> unat (push_bit n (x :: u64)) = unat x * 2 ^ n"
  unfolding unsigned_push_bit_eq by (simp add: push_bit_eq_mult take_bit_eq_mod)

lemma and_not_mask_alt: "(x :: u64) AND NOT (mask n) = push_bit n (drop_bit n x)"
  by (rule bit_eqI) (auto simp: bit_simps)

lemma and_not_mask_sub: "(x :: u64) AND NOT (mask n) = x - take_bit n x"
proof -
  have "push_bit n (drop_bit n x) + take_bit n x = x" by (rule bits_ident)
  then show ?thesis unfolding and_not_mask_alt by (simp add: eq_diff_eq)
qed

lemma unat_and_not_mask64 [word_nat]:
  "unat ((x :: u64) AND NOT (mask n)) = unat x div 2 ^ n * 2 ^ n"
proof -
  have "unat (take_bit n x) \<le> unat x" unfolding unat_take_bit64 by simp
  then have "unat (x - take_bit n x) = unat x - unat (take_bit n x)"
    by (rule unat_sub64)
  then show ?thesis
    unfolding and_not_mask_sub unat_take_bit64 by (simp add: minus_mod_eq_div_mult)
qed

lemma power_minus_1_mask: "(2 :: u64) ^ n - 1 = mask n"
  by (simp add: mask_eq_exp_minus_1)

lemma unat_eq_iff64: "a = b \<longleftrightarrow> unat (a :: u64) = unat b"
  by (simp add: word_unat_eq_iff)

section \<open>Lists\<close>

lemma upd_split: "n < length xs \<Longrightarrow> xs[n := y] = take n xs @ y # drop (Suc n) xs"
  by (rule upd_conv_take_nth_drop)

lemma mset_concat_upd:
  "n < length xs \<Longrightarrow>
   mset (concat (map f (xs[n := y]))) + mset (f (xs ! n)) = mset (concat (map f xs)) + mset (f y)"
  by (induction xs arbitrary: n) (auto split: nat.split simp: ac_simps)

lemma distinct_mset_eq: "mset xs = mset ys \<Longrightarrow> distinct xs \<Longrightarrow> distinct ys"
  by (metis distinct_count_atmost_1 set_mset_mset)

end
