(* ===== verification/Mpool.thy ===== *)
theory Mpool
  imports Prelude
begin

text \<open>
  The memory pool of \<^verbatim>\<open>src/mpool.c\<close>. Free memory is kept in two linked lists whose
  links live in the free memory itself: \<open>entry_list\<close>, a list of single entries, and
  \<open>chunk_list\<close>, a list of contiguous ranges. The model keeps that representation: \<open>mem\<close>
  is the memory as 64-bit cells, a \<^verbatim>\<open>struct mpool_entry\<close> is one cell (\<open>next\<close>), a
  \<^verbatim>\<open>struct mpool_chunk\<close> two (\<open>next_chunk\<close> at offset 0, \<open>limit\<close> at offset 8). The pools
  themselves are named by numbers, so that \<open>fallback\<close> is a reference to another pool.
  The second half relates this to the abstract contract of the pool, a list of free
  entries from which the code allocates at the front.
\<close>

section \<open>State\<close>

record mpool =
  mp_lock :: bool
  entry_size :: u64
  chunk_list :: u64
  entry_list :: u64
  fallback :: "nat option"

record machine =
  mem :: "u64 \<Rightarrow> u64"
  pools :: "nat \<Rightarrow> mpool"
  mpool_locks_enabled :: bool

definition write64 :: "u64 \<Rightarrow> u64 \<Rightarrow> 'a machine_scheme \<Rightarrow> 'a machine_scheme" where
  "write64 a v s = s\<lparr>mem := (mem s)(a := v)\<rparr>"

definition upd_pool :: "nat \<Rightarrow> (mpool \<Rightarrow> mpool) \<Rightarrow> 'a machine_scheme \<Rightarrow> 'a machine_scheme" where
  "upd_pool p f s = s\<lparr>pools := (pools s)(p := f (pools s p))\<rparr>"

section \<open>Operations\<close>

definition mpool_enable_locks :: "'a machine_scheme \<Rightarrow> 'a machine_scheme" where
  "mpool_enable_locks s = s\<lparr>mpool_locks_enabled := True\<rparr>"

definition mpool_lock :: "nat \<Rightarrow> 'a machine_scheme \<Rightarrow> 'a machine_scheme res" where
  "mpool_lock p s =
     (if mpool_locks_enabled s
      then if mp_lock (pools s p) then Inl Deadlock
           else Inr (upd_pool p (\<lambda>P. P\<lparr>mp_lock := True\<rparr>) s)
      else Inr s)"

definition mpool_unlock :: "nat \<Rightarrow> 'a machine_scheme \<Rightarrow> 'a machine_scheme" where
  "mpool_unlock p s =
     (if mpool_locks_enabled s then upd_pool p (\<lambda>P. P\<lparr>mp_lock := False\<rparr>) s else s)"

definition mpool_init :: "nat \<Rightarrow> u64 \<Rightarrow> 'a machine_scheme \<Rightarrow> 'a machine_scheme" where
  "mpool_init p esz s =
     upd_pool p (\<lambda>P. \<lparr>mp_lock = False, entry_size = esz, chunk_list = 0, entry_list = 0,
                      fallback = None\<rparr>) s"

definition mpool_init_from :: "nat \<Rightarrow> nat \<Rightarrow> 'a machine_scheme \<Rightarrow> 'a machine_scheme res" where
  "mpool_init_from p from s =
     (let s1 = mpool_init p (entry_size (pools s from)) s in
      res_bind (mpool_lock from s1) (\<lambda>s2.
        let s3 = upd_pool p (\<lambda>P. P\<lparr>chunk_list := chunk_list (pools s2 from),
                                   entry_list := entry_list (pools s2 from),
                                   fallback := fallback (pools s2 from)\<rparr>) s2;
            s4 = upd_pool from (\<lambda>P. P\<lparr>chunk_list := 0, entry_list := 0, fallback := None\<rparr>) s3
        in Inr (mpool_unlock from s4)))"

definition mpool_init_with_fallback :: "nat \<Rightarrow> nat \<Rightarrow> 'a machine_scheme \<Rightarrow> 'a machine_scheme" where
  "mpool_init_with_fallback p fb s =
     upd_pool p (\<lambda>P. P\<lparr>fallback := Some fb\<rparr>) (mpool_init p (entry_size (pools s fb)) s)"

text \<open>\<open>mpool_add_chunk\<close> returns whether part of the range was usable. The rounding is the
  source's 64-bit arithmetic, wrap-around included.\<close>

definition mpool_add_chunk ::
  "nat \<Rightarrow> u64 \<Rightarrow> u64 \<Rightarrow> 'a machine_scheme \<Rightarrow> (bool \<times> 'a machine_scheme) res" where
  "mpool_add_chunk p begin sz s =
     (let esz = entry_size (pools s p) in
      if esz = 0 then Inl DivByZero
      else
        let new_begin = (begin + esz - 1) div esz * esz;
            new_end = (begin + sz) div esz * esz
        in if new_begin \<ge> new_end \<or> new_end - new_begin < esz then Inr (False, s)
           else
             let s1 = write64 (new_begin + 8) new_end s in
             res_bind (mpool_lock p s1) (\<lambda>s2.
               let s3 = write64 new_begin (chunk_list (pools s2 p)) s2;
                   s4 = upd_pool p (\<lambda>P. P\<lparr>chunk_list := new_begin\<rparr>) s3
               in Inr (True, mpool_unlock p s4)))"

definition mpool_alloc_no_fallback ::
  "nat \<Rightarrow> 'a machine_scheme \<Rightarrow> (u64 \<times> 'a machine_scheme) res" where
  "mpool_alloc_no_fallback p s =
     res_bind (mpool_lock p s) (\<lambda>s1.
       let entry = entry_list (pools s1 p) in
       if entry \<noteq> 0
       then Inr (entry, mpool_unlock p (upd_pool p (\<lambda>P. P\<lparr>entry_list := mem s1 entry\<rparr>) s1))
       else
         let chunk = chunk_list (pools s1 p) in
         if chunk = 0 then Inr (0, mpool_unlock p s1)
         else
           let new_chunk = chunk + entry_size (pools s1 p);
               s2 = (if new_chunk \<ge> mem s1 (chunk + 8)
                     then upd_pool p (\<lambda>P. P\<lparr>chunk_list := mem s1 chunk\<rparr>) s1
                     else upd_pool p (\<lambda>P. P\<lparr>chunk_list := new_chunk\<rparr>)
                            (write64 (new_chunk + 8) (mem s1 (chunk + 8))
                              (write64 new_chunk (mem s1 chunk) s1)))
           in Inr (chunk, mpool_unlock p s2))"

text \<open>The loops over the fallback pools end only if the chain of fallbacks does, so they are
  partial functions; a chain that does not end is the fault \<open>Diverge\<close>.\<close>

partial_function (option) mpool_alloc_loop ::
  "nat \<Rightarrow> 'a machine_scheme \<Rightarrow> (u64 \<times> 'a machine_scheme) res option" where
  "mpool_alloc_loop p s =
     (case mpool_alloc_no_fallback p s of
        Inl e \<Rightarrow> Some (Inl e)
      | Inr (ret, s1) \<Rightarrow>
          if ret \<noteq> 0 then Some (Inr (ret, s1))
          else (case fallback (pools s1 p) of
                  None \<Rightarrow> Some (Inr (0, s1))
                | Some q \<Rightarrow> mpool_alloc_loop q s1))"

definition mpool_alloc :: "nat \<Rightarrow> 'a machine_scheme \<Rightarrow> (u64 \<times> 'a machine_scheme) res" where
  "mpool_alloc p s = res_of_option (mpool_alloc_loop p s)"

definition mpool_free :: "nat \<Rightarrow> u64 \<Rightarrow> 'a machine_scheme \<Rightarrow> 'a machine_scheme res" where
  "mpool_free p ptr s =
     res_bind (mpool_lock p s) (\<lambda>s1.
       let s2 = write64 ptr (entry_list (pools s1 p)) s1;
           s3 = upd_pool p (\<lambda>P. P\<lparr>entry_list := ptr\<rparr>) s2
       in Inr (mpool_unlock p s3))"

text \<open>\<open>mpool_fini\<close> walks the two lists of \<open>p\<close> and gives their elements to the fallback; each
  loop reads the next link before the element is handed over.\<close>

partial_function (option) mpool_fini_entries ::
  "nat \<Rightarrow> u64 \<Rightarrow> 'a machine_scheme \<Rightarrow> 'a machine_scheme res option" where
  "mpool_fini_entries fb entry s =
     (if entry = 0 then Some (Inr s)
      else (case mpool_free fb entry s of
              Inl e \<Rightarrow> Some (Inl e)
            | Inr s1 \<Rightarrow> mpool_fini_entries fb (mem s entry) s1))"

partial_function (option) mpool_fini_chunks ::
  "nat \<Rightarrow> u64 \<Rightarrow> 'a machine_scheme \<Rightarrow> 'a machine_scheme res option" where
  "mpool_fini_chunks fb chunk s =
     (if chunk = 0 then Some (Inr s)
      else (case mpool_add_chunk fb chunk (mem s (chunk + 8) - chunk) s of
              Inl e \<Rightarrow> Some (Inl e)
            | Inr (_, s1) \<Rightarrow> mpool_fini_chunks fb (mem s chunk) s1))"

definition mpool_fini :: "nat \<Rightarrow> 'a machine_scheme \<Rightarrow> 'a machine_scheme res" where
  "mpool_fini p s =
     (case fallback (pools s p) of
        None \<Rightarrow> Inr s
      | Some fb \<Rightarrow>
          res_bind (mpool_lock p s) (\<lambda>s1.
          res_bind (res_of_option (mpool_fini_entries fb (entry_list (pools s1 p)) s1)) (\<lambda>s2.
          res_bind (res_of_option (mpool_fini_chunks fb (chunk_list (pools s2 p)) s2)) (\<lambda>s3.
          Inr (mpool_unlock p
                 (upd_pool p (\<lambda>P. P\<lparr>chunk_list := 0, entry_list := 0, fallback := None\<rparr>) s3))))))"

text \<open>\<open>prev\<close> in \<open>mpool_alloc_contiguous_no_fallback\<close> points at the link through which the
  current chunk was reached: the head in the pool, or the \<open>next_chunk\<close> cell of a chunk.\<close>

datatype link = PoolHead nat | ChunkNext u64

fun read_link :: "link \<Rightarrow> 'a machine_scheme \<Rightarrow> u64" where
  "read_link (PoolHead p) s = chunk_list (pools s p)"
| "read_link (ChunkNext a) s = mem s a"

fun write_link :: "link \<Rightarrow> u64 \<Rightarrow> 'a machine_scheme \<Rightarrow> 'a machine_scheme" where
  "write_link (PoolHead p) v s = upd_pool p (\<lambda>P. P\<lparr>chunk_list := v\<rparr>) s"
| "write_link (ChunkNext a) v s = write64 a v s"

definition contiguous_take ::
  "u64 \<Rightarrow> u64 \<Rightarrow> u64 \<Rightarrow> u64 \<Rightarrow> link \<Rightarrow> 'a machine_scheme \<Rightarrow> 'a machine_scheme" where
  "contiguous_take esz chunk start new_chunk prev s =
     (let s1 = (if new_chunk = mem s (chunk + 8)
                then write_link prev (mem s chunk) s
                else write_link prev new_chunk
                       (write64 (new_chunk + 8) (mem s (chunk + 8))
                         (write64 new_chunk (mem s chunk) s)))
      in if start - chunk \<ge> esz
         then write64 (chunk + 8) start
                (write_link prev chunk (write64 chunk (read_link prev s1) s1))
         else s1)"

partial_function (option) contiguous_loop ::
  "u64 \<Rightarrow> u64 \<Rightarrow> u64 \<Rightarrow> link \<Rightarrow> 'a machine_scheme \<Rightarrow> (u64 \<times> 'a machine_scheme) res option" where
  "contiguous_loop esz cnt align prev s =
     (let chunk = read_link prev s in
      if chunk = 0 then Some (Inr (0, s))
      else if align = 0 then Some (Inl DivByZero)
      else
        let start = (chunk + align - 1) div align * align;
            new_chunk = start + cnt * esz
        in if new_chunk \<le> mem s (chunk + 8)
           then Some (Inr (start, contiguous_take esz chunk start new_chunk prev s))
           else contiguous_loop esz cnt align (ChunkNext chunk) s)"

definition mpool_alloc_contiguous_no_fallback ::
  "nat \<Rightarrow> u64 \<Rightarrow> u64 \<Rightarrow> 'a machine_scheme \<Rightarrow> (u64 \<times> 'a machine_scheme) res" where
  "mpool_alloc_contiguous_no_fallback p cnt align s =
     (let esz = entry_size (pools s p) in
      res_bind (mpool_lock p s) (\<lambda>s1.
      res_bind (res_of_option (contiguous_loop esz cnt (align * esz) (PoolHead p) s1)) (\<lambda>(ret, s2).
      Inr (ret, mpool_unlock p s2))))"

partial_function (option) mpool_alloc_contiguous_loop ::
  "nat \<Rightarrow> u64 \<Rightarrow> u64 \<Rightarrow> 'a machine_scheme \<Rightarrow> (u64 \<times> 'a machine_scheme) res option" where
  "mpool_alloc_contiguous_loop p cnt align s =
     (case mpool_alloc_contiguous_no_fallback p cnt align s of
        Inl e \<Rightarrow> Some (Inl e)
      | Inr (ret, s1) \<Rightarrow>
          if ret \<noteq> 0 then Some (Inr (ret, s1))
          else (case fallback (pools s1 p) of
                  None \<Rightarrow> Some (Inr (0, s1))
                | Some q \<Rightarrow> mpool_alloc_contiguous_loop q cnt align s1))"

definition mpool_alloc_contiguous ::
  "nat \<Rightarrow> u64 \<Rightarrow> u64 \<Rightarrow> 'a machine_scheme \<Rightarrow> (u64 \<times> 'a machine_scheme) res" where
  "mpool_alloc_contiguous p cnt align s =
     res_of_option (mpool_alloc_contiguous_loop p cnt align s)"

end
