(* ===== verification/Mpool_Refine.thy ===== *)
theory Mpool_Refine
  imports Mpool
begin

text \<open>
  What the pool promises, and that \<^verbatim>\<open>src/mpool.c\<close> keeps it. The contract is the list of
  free entries of a pool followed by those of its fallbacks: \<open>pool_rep E s p qs fl\<close> says
  that in state \<open>s\<close> the pool \<open>p\<close> with entry size \<open>E\<close> and the chain \<open>qs\<close> of itself and its
  fallbacks holds exactly the free entries \<open>fl\<close>, all
  distinct, aligned and non-null. \<open>mpool_alloc\<close> takes the head of that list,
  \<open>mpool_free\<close> puts an entry in front, and no operation writes outside free memory.
\<close>

section \<open>Pages and frames\<close>

definition esz_ok :: "u64 \<Rightarrow> bool" where
  "esz_ok E \<longleftrightarrow> 16 \<le> unat E \<and> 8 dvd unat E"

definition page_ok :: "u64 \<Rightarrow> u64 \<Rightarrow> bool" where
  "page_ok E x \<longleftrightarrow> x \<noteq> 0 \<and> unat E dvd unat x \<and> unat x + unat E \<le> 18446744073709551616"

definition in_page :: "u64 \<Rightarrow> u64 \<Rightarrow> u64 \<Rightarrow> bool" where
  "in_page E x a \<longleftrightarrow> unat a div unat E = unat x div unat E"

definition same_off :: "u64 \<Rightarrow> u64 set \<Rightarrow> (u64 \<Rightarrow> u64) \<Rightarrow> (u64 \<Rightarrow> u64) \<Rightarrow> bool" where
  "same_off E X m m' \<longleftrightarrow> (\<forall>a. (\<forall>x\<in>X. \<not> in_page E x a) \<longrightarrow> m' a = m a)"

definition framed :: "u64 \<Rightarrow> u64 set \<Rightarrow> 'a machine_scheme \<Rightarrow> 'a machine_scheme \<Rightarrow> bool" where
  "framed E X s s' \<longleftrightarrow>
     mpool_locks_enabled s' = mpool_locks_enabled s \<and> machine.more s' = machine.more s \<and>
     same_off E X (mem s) (mem s')"

lemma esz_okD: "esz_ok E \<Longrightarrow> 0 < unat E" "esz_ok E \<Longrightarrow> 16 \<le> unat E" "esz_ok E \<Longrightarrow> E \<noteq> 0"
  by (auto simp: esz_ok_def)

lemma page_okD: "page_ok E x \<Longrightarrow> x \<noteq> 0" "page_ok E x \<Longrightarrow> unat E dvd unat x"
  by (auto simp: page_ok_def)

lemma in_page_self [simp]: "in_page E x x"
  by (simp add: in_page_def)

lemma unat_page_offset:
  "page_ok E x \<Longrightarrow> off < unat E \<Longrightarrow> unat (x + word_of_nat off) = unat x + off"
  by (auto simp: page_ok_def unat_word_ariths unat_of_nat)

lemma in_page_offset:
  "page_ok E x \<Longrightarrow> off < unat E \<Longrightarrow> in_page E x (x + word_of_nat off)"
  by (auto simp: in_page_def unat_page_offset dest!: page_okD(2))

lemma in_page_8: "esz_ok E \<Longrightarrow> page_ok E x \<Longrightarrow> in_page E x (x + 8)"
  using in_page_offset [of E x 8] by (auto simp: esz_ok_def)

lemma in_page_unique:
  "page_ok E x \<Longrightarrow> page_ok E y \<Longrightarrow> in_page E x a \<Longrightarrow> in_page E y a \<Longrightarrow> x = y"
  unfolding in_page_def unat_eq_iff64 by (metis dvd_div_mult_self page_okD(2))

lemma same_off_refl [simp]: "same_off E X m m"
  by (simp add: same_off_def)

lemma same_off_trans: "same_off E X m m1 \<Longrightarrow> same_off E X m1 m2 \<Longrightarrow> same_off E X m m2"
  by (simp add: same_off_def)

lemma same_off_mono: "same_off E X m m' \<Longrightarrow> X \<subseteq> Y \<Longrightarrow> same_off E Y m m'"
  by (auto simp: same_off_def)

lemma same_off_upd: "same_off E X m m' \<Longrightarrow> x \<in> X \<Longrightarrow> in_page E x a \<Longrightarrow> same_off E X m (m'(a := v))"
  by (auto simp: same_off_def)

lemma same_offD:
  "same_off E X m m' \<Longrightarrow> page_ok E y \<Longrightarrow> y \<notin> X \<Longrightarrow> \<forall>x\<in>X. page_ok E x \<Longrightarrow> in_page E y a \<Longrightarrow> m' a = m a"
  unfolding same_off_def by (blast dest: in_page_unique)

lemma framed_refl [simp]: "framed E X s s"
  by (simp add: framed_def)

lemma framed_trans: "framed E X s s1 \<Longrightarrow> framed E X s1 s2 \<Longrightarrow> framed E X s s2"
  unfolding framed_def by (auto intro: same_off_trans)

lemma framed_mono: "framed E X s s' \<Longrightarrow> X \<subseteq> Y \<Longrightarrow> framed E Y s s'"
  unfolding framed_def by (auto intro: same_off_mono)

section \<open>The lists in memory\<close>

definition chunk_ok :: "u64 \<Rightarrow> u64 \<times> u64 \<Rightarrow> bool" where
  "chunk_ok E c = (case c of (b, l) \<Rightarrow>
     b \<noteq> 0 \<and> unat E dvd unat b \<and> unat E dvd unat l \<and> unat b < unat l)"

definition chunk_pages :: "u64 \<Rightarrow> u64 \<times> u64 \<Rightarrow> u64 list" where
  "chunk_pages E c = (case c of (b, l) \<Rightarrow>
     map (\<lambda>i. b + word_of_nat i * E) [0..<(unat l - unat b) div unat E])"

fun entries_at :: "(u64 \<Rightarrow> u64) \<Rightarrow> u64 \<Rightarrow> u64 list \<Rightarrow> bool" where
  "entries_at m a [] \<longleftrightarrow> a = 0"
| "entries_at m a (e # es) \<longleftrightarrow> a = e \<and> e \<noteq> 0 \<and> entries_at m (m e) es"

fun chunks_at :: "u64 \<Rightarrow> (u64 \<Rightarrow> u64) \<Rightarrow> u64 \<Rightarrow> (u64 \<times> u64) list \<Rightarrow> bool" where
  "chunks_at E m a [] \<longleftrightarrow> a = 0"
| "chunks_at E m a ((b, l) # cs) \<longleftrightarrow>
     a = b \<and> chunk_ok E (b, l) \<and> m (b + 8) = l \<and> chunks_at E m (m b) cs"

definition pool_free :: "u64 \<Rightarrow> u64 list \<Rightarrow> (u64 \<times> u64) list \<Rightarrow> u64 list" where
  "pool_free E es cs = es @ concat (map (chunk_pages E) cs)"

definition unlocked :: "'a machine_scheme \<Rightarrow> nat \<Rightarrow> bool" where
  "unlocked s p \<longleftrightarrow> (mpool_locks_enabled s \<longrightarrow> \<not> mp_lock (pools s p))"

definition pool_at ::
  "u64 \<Rightarrow> 'a machine_scheme \<Rightarrow> nat \<Rightarrow> u64 list \<Rightarrow> (u64 \<times> u64) list \<Rightarrow> bool" where
  "pool_at E s p es cs \<longleftrightarrow>
     unlocked s p \<and> entry_size (pools s p) = E \<and>
     entries_at (mem s) (entry_list (pools s p)) es \<and>
     chunks_at E (mem s) (chunk_list (pools s p)) cs"

fun chain_rep ::
  "u64 \<Rightarrow> 'a machine_scheme \<Rightarrow> nat option \<Rightarrow> (nat \<times> u64 list \<times> (u64 \<times> u64) list) list \<Rightarrow> bool" where
  "chain_rep E s r [] \<longleftrightarrow> r = None"
| "chain_rep E s r ((p, es, cs) # xs) \<longleftrightarrow>
     r = Some p \<and> pool_at E s p es cs \<and> chain_rep E s (fallback (pools s p)) xs"

definition chain_free :: "u64 \<Rightarrow> (nat \<times> u64 list \<times> (u64 \<times> u64) list) list \<Rightarrow> u64 list" where
  "chain_free E xs = concat (map (\<lambda>(p, es, cs). pool_free E es cs) xs)"

definition free_ok :: "u64 \<Rightarrow> u64 list \<Rightarrow> bool" where
  "free_ok E fl \<longleftrightarrow> esz_ok E \<and> distinct fl \<and> (\<forall>x\<in>set fl. page_ok E x)"

definition pool_rep :: "u64 \<Rightarrow> 'a machine_scheme \<Rightarrow> nat \<Rightarrow> nat list \<Rightarrow> u64 list \<Rightarrow> bool" where
  "pool_rep E s p qs fl \<longleftrightarrow>
     (\<exists>xs. chain_rep E s (Some p) xs \<and> map fst xs = qs \<and> chain_free E xs = fl) \<and>
     distinct qs \<and> free_ok E fl"

text \<open>An operation on the chain \<open>qs\<close> that writes free memory \<open>X\<close> only.\<close>

definition touches ::
  "u64 \<Rightarrow> u64 set \<Rightarrow> nat list \<Rightarrow> 'a machine_scheme \<Rightarrow> 'a machine_scheme \<Rightarrow> bool" where
  "touches E X qs s s' \<longleftrightarrow> framed E X s s' \<and> (\<forall>q. q \<notin> set qs \<longrightarrow> pools s' q = pools s q)"

lemma chain_free_simps [simp]:
  "chain_free E [] = []"
  "chain_free E ((p, es, cs) # xs) = pool_free E es cs @ chain_free E xs"
  by (simp_all add: chain_free_def)

lemma pool_free_simps [simp]:
  "pool_free E (e # es) cs = e # pool_free E es cs"
  "pool_free E [] [] = []"
  "pool_free E [] (c # cs) = chunk_pages E c @ pool_free E [] cs"
  by (simp_all add: pool_free_def)

lemma set_pool_free: "set (pool_free E es cs) = set es \<union> (\<Union>c\<in>set cs. set (chunk_pages E c))"
  by (simp add: pool_free_def)

lemma unat_chunk_begin_plus:
  assumes "chunk_ok E (b, l)" "0 < unat E"
  shows "unat (b + E) = unat b + unat E" "unat b + unat E \<le> unat l"
proof -
  from assms obtain k j where k: "unat b = unat E * k" and j: "unat l = unat E * j"
    by (auto simp: chunk_ok_def elim!: dvdE)
  with assms have "k < j" by (auto simp: chunk_ok_def)
  then have "unat E * Suc k \<le> unat E * j" by (intro mult_le_mono2) simp
  then show 1: "unat b + unat E \<le> unat l" by (simp add: k j)
  then show "unat (b + E) = unat b + unat E"
    using unat_lt64 [of l] by (intro unat_add64) linarith
qed

lemma chunk_pages_empty [simp]: "chunk_pages E (b, b) = []"
  by (simp add: chunk_pages_def)

lemma chunk_pages_Cons:
  assumes "chunk_ok E (b, l)" "0 < unat E"
  shows "chunk_pages E (b, l) = b # chunk_pages E (b + E, l)"
proof -
  note u = unat_chunk_begin_plus [OF assms]
  let ?n = "(unat l - unat (b + E)) div unat E"
  have "unat l - unat b = unat l - unat (b + E) + unat E" using u by simp
  then have "(unat l - unat b) div unat E = Suc ?n" using assms(2) by (simp add: div_add_self2)
  then have "chunk_pages E (b, l) = map (\<lambda>i. b + word_of_nat i * E) [0..<Suc ?n]"
    by (simp add: chunk_pages_def)
  also have "\<dots> = b # map (\<lambda>i. b + word_of_nat i * E) (map Suc [0..<?n])"
    by (simp add: upt_conv_Cons map_Suc_upt del: upt_Suc)
  also have "\<dots> = b # chunk_pages E (b + E, l)"
    by (simp add: chunk_pages_def algebra_simps)
  finally show ?thesis .
qed

lemma chunk_ok_next:
  assumes "chunk_ok E (b, l)" "0 < unat E" "b + E < l"
  shows "chunk_ok E (b + E, l)"
proof -
  note u = unat_chunk_begin_plus [OF assms(1,2)]
  have "0 < unat (b + E)" using u(1) assms(2) by simp
  then have "b + E \<noteq> 0" by (metis gr_implies_not0 unsigned_0)
  then show ?thesis
    using assms u by (auto simp: chunk_ok_def word_less_nat_alt)
qed

lemma chunk_next_end:
  assumes "chunk_ok E (b, l)" "0 < unat E" "\<not> b + E < l"
  shows "b + E = l"
  using unat_chunk_begin_plus [OF assms(1,2)] assms(3)
  by (simp add: word_less_nat_alt word_unat_eq_iff)

lemma entries_at_cong:
  "(\<And>e. e \<in> set es \<Longrightarrow> m' e = m e) \<Longrightarrow> entries_at m' a es = entries_at m a es"
  by (induction es arbitrary: a) auto

lemma entries_at_upd [simp]:
  "x \<notin> set es \<Longrightarrow> entries_at (m(x := v)) a es = entries_at m a es"
  by (rule entries_at_cong) auto

lemma chunks_at_cong:
  "(\<And>b l. (b, l) \<in> set cs \<Longrightarrow> m' b = m b \<and> m' (b + 8) = m (b + 8)) \<Longrightarrow>
   chunks_at E m' a cs = chunks_at E m a cs"
proof (induction cs arbitrary: a)
  case (Cons c cs)
  obtain b l where c: "c = (b, l)" by (cases c)
  have "m' b = m b" "m' (b + 8) = m (b + 8)" using Cons.prems [of b l] by (auto simp: c)
  moreover have "chunks_at E m' (m b) cs = chunks_at E m (m b) cs"
    by (intro Cons.IH Cons.prems) auto
  ultimately show ?case by (simp add: c)
qed simp

lemma chunks_at_ok: "chunks_at E m a cs \<Longrightarrow> c \<in> set cs \<Longrightarrow> chunk_ok E c"
  by (induction cs arbitrary: a) auto

lemma chunk_begin_page: "chunk_ok E (b, l) \<Longrightarrow> 0 < unat E \<Longrightarrow> b \<in> set (chunk_pages E (b, l))"
  by (simp add: chunk_pages_Cons)

lemma pool_at_frame:
  assumes "pool_at E s q es cs" and "pools s' q = pools s q" and "framed E X s s'"
    and "free_ok E (pool_free E es cs)" and "\<forall>x\<in>X. page_ok E x"
    and "X \<inter> set (pool_free E es cs) = {}"
  shows "pool_at E s' q es cs"
proof -
  have same: "mem s' a = mem s a" if "x \<in> set (pool_free E es cs)" "in_page E x a" for x a
    using that assms(3-6) by (auto simp: framed_def free_ok_def intro: same_offD)
  have E: "esz_ok E" using assms(4) by (simp add: free_ok_def)
  have es: "mem s' e = mem s e" if "e \<in> set es" for e
    using that by (intro same [of e]) (auto simp: set_pool_free)
  have cs: "mem s' b = mem s b \<and> mem s' (b + 8) = mem s (b + 8)" if bl: "(b, l) \<in> set cs" for b l
  proof -
    have "chunk_ok E (b, l)" using assms(1) bl by (auto simp: pool_at_def intro: chunks_at_ok)
    then have b: "b \<in> set (pool_free E es cs)"
      using bl esz_okD(1) [OF E] by (auto simp: set_pool_free intro!: bexI [of _ "(b, l)"] chunk_begin_page)
    moreover have "page_ok E b" using b assms(4) by (simp add: free_ok_def)
    ultimately show ?thesis using same in_page_self in_page_8 [OF E] by blast
  qed
  show ?thesis
    using assms(1-3) entries_at_cong [of es "mem s'" "mem s"] chunks_at_cong [of cs "mem s'" "mem s"] es cs
    by (auto simp: pool_at_def unlocked_def framed_def)
qed

section \<open>Allocation of one entry\<close>

lemmas mpool_state_defs =
  mpool_lock_def mpool_unlock_def upd_pool_def write64_def unlocked_def Let_def

text \<open>With the lock free, a locked section leaves the lock as it was, so each operation is an
  update of the memory and of the two list heads.\<close>

definition set_lists :: "nat \<Rightarrow> u64 \<Rightarrow> u64 \<Rightarrow> 'a machine_scheme \<Rightarrow> 'a machine_scheme" where
  "set_lists p e c s = upd_pool p (\<lambda>P. P\<lparr>entry_list := e, chunk_list := c\<rparr>) s"

lemma alloc_entry_eq:
  assumes "unlocked s p" "entry_list (pools s p) \<noteq> 0"
  shows "mpool_alloc_no_fallback p s =
    Inr (entry_list (pools s p),
         set_lists p (mem s (entry_list (pools s p))) (chunk_list (pools s p)) s)"
  using assms by (cases "pools s p") (auto simp: mpool_alloc_no_fallback_def mpool_state_defs set_lists_def)

lemma alloc_none_eq:
  assumes "unlocked s p" "entry_list (pools s p) = 0" "chunk_list (pools s p) = 0"
  shows "mpool_alloc_no_fallback p s = Inr (0, s)"
  using assms by (cases "pools s p", cases s) (auto simp: mpool_alloc_no_fallback_def mpool_state_defs)

lemma alloc_chunk_eq:
  assumes "unlocked s p" "entry_list (pools s p) = 0" "chunk_list (pools s p) = c" "c \<noteq> 0"
    "entry_size (pools s p) = E"
  shows "mpool_alloc_no_fallback p s =
    Inr (c, if c + E \<ge> mem s (c + 8) then set_lists p 0 (mem s c) s
            else set_lists p 0 (c + E)
                   (write64 (c + E + 8) (mem s (c + 8)) (write64 (c + E) (mem s c) s)))"
  using assms by (cases "pools s p") (auto simp: mpool_alloc_no_fallback_def mpool_state_defs set_lists_def)

lemma set_lists_simps [simp]:
  "pools (set_lists p e c s) p = (pools s p)\<lparr>entry_list := e, chunk_list := c\<rparr>"
  "q \<noteq> p \<Longrightarrow> pools (set_lists p e c s) q = pools s q"
  "mem (set_lists p e c s) = mem s"
  "mpool_locks_enabled (set_lists p e c s) = mpool_locks_enabled s"
  "machine.more (set_lists p e c s) = machine.more s"
  by (simp_all add: set_lists_def upd_pool_def)

lemma write64_simps [simp]:
  "pools (write64 a v s) = pools s"
  "mem (write64 a v s) = (mem s)(a := v)"
  "mpool_locks_enabled (write64 a v s) = mpool_locks_enabled s"
  "machine.more (write64 a v s) = machine.more s"
  by (simp_all add: write64_def)

text \<open>What an operation on one pool of a chain leaves alone.\<close>

definition pool_step :: "u64 \<Rightarrow> u64 set \<Rightarrow> nat \<Rightarrow> 'a machine_scheme \<Rightarrow> 'a machine_scheme \<Rightarrow> bool" where
  "pool_step E X p s s' \<longleftrightarrow>
     framed E X s s' \<and> (\<forall>q. q \<noteq> p \<longrightarrow> pools s' q = pools s q) \<and>
     fallback (pools s' p) = fallback (pools s p)"

lemma chunks_at_upd_notin:
  assumes "chunks_at E m a cs" "esz_ok E" "page_ok E x" "in_page E x w"
    "\<forall>c\<in>set cs. \<forall>y\<in>set (chunk_pages E c). page_ok E y \<and> y \<noteq> x"
  shows "chunks_at E (m(w := v)) a cs"
proof -
  have "(m(w := v)) b = m b \<and> (m(w := v)) (b + 8) = m (b + 8)" if bl: "(b, l) \<in> set cs" for b l
  proof -
    have "b \<in> set (chunk_pages E (b, l))"
      using bl assms(1,2) by (intro chunk_begin_page chunks_at_ok) (auto dest: esz_okD)
    then have b: "page_ok E b" "b \<noteq> x" using bl assms(5) by auto
    then have "w \<noteq> b" "w \<noteq> b + 8"
      using in_page_unique [OF b(1) assms(3)] in_page_self in_page_8 [OF assms(2) b(1)] assms(4) by metis+
    then show ?thesis by simp
  qed
  then show ?thesis using assms(1) chunks_at_cong [of cs "m(w := v)" m] by blast
qed

lemma alloc_no_fallback_Nil:
  assumes "pool_at E s p es cs" "pool_free E es cs = []" "esz_ok E"
  shows "mpool_alloc_no_fallback p s = Inr (0, s)"
proof -
  have "cs = []"
  proof (rule ccontr)
    assume "cs \<noteq> []"
    then obtain b l cs' where cs: "cs = (b, l) # cs'" by (cases cs) auto
    with assms(1) have "chunk_ok E (b, l)" by (auto simp: pool_at_def)
    then have "b \<in> set (chunk_pages E (b, l))" by (rule chunk_begin_page [OF _ esz_okD(1) [OF assms(3)]])
    then have "b \<in> set (pool_free E es cs)" by (simp add: set_pool_free cs)
    with assms(2) show False by simp
  qed
  with assms show ?thesis by (intro alloc_none_eq) (auto simp: pool_at_def pool_free_def)
qed

lemma alloc_no_fallback_Cons:
  assumes at: "pool_at E s p es cs" and fl: "pool_free E es cs = x # fl" and ok: "free_ok E (x # fl)"
  shows "\<exists>s' es' cs'. mpool_alloc_no_fallback p s = Inr (x, s') \<and> pool_at E s' p es' cs' \<and>
           pool_free E es' cs' = fl \<and> pool_step E (set (x # fl)) p s s'"
proof (cases es)
  case (Cons e es')
  with at fl have "mpool_alloc_no_fallback p s =
      Inr (x, set_lists p (mem s x) (chunk_list (pools s p)) s)"
    using alloc_entry_eq [of s p] by (auto simp: pool_at_def)
  moreover have "pool_at E (set_lists p (mem s x) (chunk_list (pools s p)) s) p es' cs"
    using at fl Cons by (auto simp: pool_at_def unlocked_def)
  ultimately show ?thesis
    using fl Cons by (intro exI conjI) (auto simp: pool_step_def framed_def)
next
  case Nil
  then obtain b l cs' where cs: "cs = (b, l) # cs'" using fl by (cases cs) auto
  have E: "esz_ok E" using ok by (simp add: free_ok_def)
  note E0 = esz_okD(1) [OF E]
  have b: "chunk_ok E (b, l)" "mem s (b + 8) = l" "chunks_at E (mem s) (mem s b) cs'"
    and heads: "unlocked s p" "entry_list (pools s p) = 0" "chunk_list (pools s p) = b" "b \<noteq> 0"
      "entry_size (pools s p) = E"
    using at Nil cs by (auto simp: pool_at_def chunk_ok_def)
  have pages: "x = b" "fl = chunk_pages E (b + E, l) @ pool_free E [] cs'"
    using fl Nil cs chunk_pages_Cons [OF b(1) E0] by auto
  show ?thesis
  proof (cases "b + E < l")
    case False
    then have "mpool_alloc_no_fallback p s = Inr (x, set_lists p 0 (mem s b) s)"
      using alloc_chunk_eq [OF heads] b(2) pages(1) by simp
    moreover have "pool_free E [] cs' = fl"
      using chunk_next_end [OF b(1) E0 False] pages(2) by simp
    moreover have "pool_at E (set_lists p 0 (mem s b) s) p [] cs'"
      using heads b by (auto simp: pool_at_def unlocked_def)
    ultimately show ?thesis by (intro exI conjI) (auto simp: pool_step_def framed_def)
  next
    case True
    let ?n = "b + E"
    let ?s = "write64 (?n + 8) (mem s (b + 8)) (write64 ?n (mem s b) s)"
    have nok: "chunk_ok E (?n, l)" by (rule chunk_ok_next [OF b(1) E0 True])
    then have nin: "?n \<in> set fl" using pages(2) E0 by (simp add: chunk_begin_page)
    then have npage: "page_ok E ?n" and n8: "in_page E ?n (?n + 8)"
      using ok in_page_8 [OF E] by (auto simp: free_ok_def)
    have dis: "\<forall>c\<in>set cs'. \<forall>y\<in>set (chunk_pages E c). page_ok E y \<and> y \<noteq> ?n"
    proof (intro ballI)
      fix c y assume "c \<in> set cs'" "y \<in> set (chunk_pages E c)"
      then have y: "y \<in> set (pool_free E [] cs')" by (auto simp: set_pool_free)
      moreover have "?n \<in> set (chunk_pages E (?n, l))" by (rule chunk_begin_page [OF nok E0])
      ultimately show "page_ok E y \<and> y \<noteq> ?n" using ok pages(2) by (auto simp: free_ok_def)
    qed
    have "chunks_at E (mem ?s) (mem s b) cs'"
      using chunks_at_upd_notin [OF chunks_at_upd_notin [OF b(3) E npage in_page_self dis] E npage n8 dis]
      by simp
    then have "pool_at E (set_lists p 0 ?n ?s) p [] ((?n, l) # cs')"
      using heads b(2) nok by (auto simp: pool_at_def unlocked_def)
    moreover have "mpool_alloc_no_fallback p s = Inr (x, set_lists p 0 ?n ?s)"
      using alloc_chunk_eq [OF heads] b(2) pages(1) True by simp
    moreover have "pool_step E (set (x # fl)) p s (set_lists p 0 ?n ?s)"
      using nin n8 by (auto simp: pool_step_def framed_def intro!: same_off_upd [where x = ?n])
    ultimately show ?thesis using pages(2) by (intro exI conjI) auto
  qed
qed

section \<open>Chains of fallback pools\<close>

lemma free_ok_append:
  "free_ok E (xs @ ys) \<longleftrightarrow> free_ok E xs \<and> free_ok E ys \<and> set xs \<inter> set ys = {}"
  by (auto simp: free_ok_def)

lemma chain_rep_frame:
  assumes "chain_rep E s r xs" "framed E X s s'" "\<forall>q\<in>set (map fst xs). pools s' q = pools s q"
    "free_ok E (chain_free E xs)" "\<forall>x\<in>X. page_ok E x" "X \<inter> set (chain_free E xs) = {}"
  shows "chain_rep E s' r xs"
  using assms
proof (induction xs arbitrary: r)
  case (Cons c xs)
  obtain p es cs where c: "c = (p, es, cs)" by (cases c)
  have "pool_at E s' p es cs"
    using Cons.prems by (intro pool_at_frame [of E s p es cs s' X]) (auto simp: c free_ok_append)
  moreover have "chain_rep E s' (fallback (pools s p)) xs"
    using Cons.prems by (intro Cons.IH) (auto simp: c free_ok_append)
  ultimately show ?case using Cons.prems by (simp add: c)
qed simp

lemma chain_rep_step:
  assumes "chain_rep E s (Some p) ((p, es, cs) # xs)" "distinct (map fst ((p, es, cs) # xs))"
    "pool_step E X p s s'" "pool_at E s' p es' cs'"
    "free_ok E (chain_free E xs)" "\<forall>x\<in>X. page_ok E x" "X \<inter> set (chain_free E xs) = {}"
  shows "chain_rep E s' (Some p) ((p, es', cs') # xs)"
proof -
  have "chain_rep E s' (fallback (pools s p)) xs"
    using assms by (intro chain_rep_frame [of E s _ xs X s']) (auto simp: pool_step_def)
  then show ?thesis using assms by (simp add: pool_step_def)
qed

text \<open>The loop over the chain: it ends, and takes the head of the free list.\<close>

lemma alloc_loop_chain:
  assumes "chain_rep E s (Some p) xs" "distinct (map fst xs)" "free_ok E (chain_free E xs)"
  shows "\<exists>ret s' xs'. mpool_alloc_loop p s = Some (Inr (ret, s')) \<and> chain_rep E s' (Some p) xs' \<and>
           map fst xs' = map fst xs \<and> framed E (set (chain_free E xs)) s s' \<and>
           (\<forall>q. q \<notin> set (map fst xs) \<longrightarrow> pools s' q = pools s q) \<and>
           (if chain_free E xs = [] then ret = 0 \<and> s' = s \<and> xs' = xs
            else chain_free E xs = ret # chain_free E xs')"
  using assms
proof (induction xs arbitrary: p)
  case (Cons c xs)
  obtain es cs where c: "c = (p, es, cs)" using Cons.prems(1) by (cases c) auto
  have ok: "free_ok E (pool_free E es cs)" "free_ok E (chain_free E xs)"
    and dis: "set (pool_free E es cs) \<inter> set (chain_free E xs) = {}"
    using Cons.prems(3) by (auto simp: c free_ok_append)
  have at: "pool_at E s p es cs" and ch: "chain_rep E s (fallback (pools s p)) xs"
    using Cons.prems(1) by (auto simp: c)
  show ?case
  proof (cases "pool_free E es cs")
    case (Cons x fl)
    with at ok obtain s' es' cs' where s': "mpool_alloc_no_fallback p s = Inr (x, s')"
      "pool_at E s' p es' cs'" "pool_free E es' cs' = fl" "pool_step E (set (x # fl)) p s s'"
      using alloc_no_fallback_Cons [of E s p es cs x fl] by auto
    have "x \<noteq> 0" using ok(1) Cons by (simp add: free_ok_def page_ok_def)
    then have loop: "mpool_alloc_loop p s = Some (Inr (x, s'))"
      using s'(1) by (subst mpool_alloc_loop.simps) simp
    have "chain_rep E s' (Some p) ((p, es', cs') # xs)"
      using chain_rep_step [of E s p es cs xs "set (x # fl)" s' es' cs'] s' ok dis Cons.prems Cons
      by (auto simp: c free_ok_def)
    moreover have "framed E (set (chain_free E (c # xs))) s s'"
      using s'(4) Cons by (auto simp: pool_step_def c intro: framed_mono)
    ultimately show ?thesis
      using loop s'(3,4) Cons
      by (intro exI [of _ x] exI [of _ s'] exI [of _ "(p, es', cs') # xs"] conjI)
         (auto simp: c pool_step_def)
  next
    case Nil
    have E: "esz_ok E" using ok by (simp add: free_ok_def)
    have none: "mpool_alloc_no_fallback p s = Inr (0, s)"
      by (rule alloc_no_fallback_Nil [OF at Nil E])
    show ?thesis
    proof (cases "fallback (pools s p)")
      case None
      with ch have "xs = []" by (cases xs) auto
      moreover have "mpool_alloc_loop p s = Some (Inr (0, s))"
        using none None by (subst mpool_alloc_loop.simps) simp
      ultimately show ?thesis using Cons.prems Nil by (intro exI conjI) (auto simp: c)
    next
      case (Some q)
      then obtain ret s' xs' where r: "mpool_alloc_loop q s = Some (Inr (ret, s'))"
        "chain_rep E s' (Some q) xs'" "map fst xs' = map fst xs" "framed E (set (chain_free E xs)) s s'"
        "\<forall>q. q \<notin> set (map fst xs) \<longrightarrow> pools s' q = pools s q"
        "if chain_free E xs = [] then ret = 0 \<and> s' = s \<and> xs' = xs
         else chain_free E xs = ret # chain_free E xs'"
        using Cons.IH [of q] ch Cons.prems ok by auto
      have loop: "mpool_alloc_loop p s = Some (Inr (ret, s'))"
        using none r(1) Some by (subst mpool_alloc_loop.simps) simp
      have p: "pools s' p = pools s p" using r(5) Cons.prems(2) by (auto simp: c)
      have "pool_at E s' p es cs"
        using pool_at_frame [OF at p r(4) ok(1)] ok(2) Nil by (auto simp: free_ok_def)
      then have "chain_rep E s' (Some p) ((p, es, cs) # xs')" using r(2) p Some by simp
      then show ?thesis
        using loop r(3-6) Nil
        by (intro exI [of _ ret] exI [of _ s'] exI [of _ "(p, es, cs) # xs'"] conjI)
           (auto simp: c split: if_splits)
    qed
  qed
qed simp

lemma mpool_alloc_rep:
  assumes "pool_rep E s p qs fl"
  shows "case fl of [] \<Rightarrow> mpool_alloc p s = Inr (0, s)
    | x # fl' \<Rightarrow> \<exists>s'. mpool_alloc p s = Inr (x, s') \<and> pool_rep E s' p qs fl' \<and> touches E (set fl) qs s s'"
proof -
  from assms obtain xs where xs: "chain_rep E s (Some p) xs" "distinct (map fst xs)"
    "chain_free E xs = fl" "free_ok E fl" "map fst xs = qs" by (auto simp: pool_rep_def)
  then obtain ret s' xs' where r: "mpool_alloc_loop p s = Some (Inr (ret, s'))"
    "chain_rep E s' (Some p) xs'" "map fst xs' = map fst xs" "framed E (set fl) s s'"
    "\<forall>q. q \<notin> set qs \<longrightarrow> pools s' q = pools s q"
    "if fl = [] then ret = 0 \<and> s' = s \<and> xs' = xs else fl = ret # chain_free E xs'"
    using alloc_loop_chain [of E s p xs] by auto
  show ?thesis
  proof (cases fl)
    case Nil
    with r show ?thesis by (simp add: mpool_alloc_def)
  next
    case (Cons x fl')
    have "pool_rep E s' p qs fl'"
      using r Cons xs by (auto simp: pool_rep_def free_ok_def intro!: exI [of _ xs'])
    with r Cons show ?thesis by (auto simp: mpool_alloc_def touches_def)
  qed
qed

section \<open>Freeing and adding memory\<close>

lemma mpool_free_eq:
  assumes "unlocked s p"
  shows "mpool_free p x s =
    Inr (set_lists p x (chunk_list (pools s p)) (write64 x (entry_list (pools s p)) s))"
  using assms by (cases "pools s p") (auto simp: mpool_free_def mpool_state_defs set_lists_def)

lemma chunks_at_upd_page:
  assumes "chunks_at E m a cs" "esz_ok E" "page_ok E x" "in_page E x w"
    "free_ok E (pool_free E es cs)" "x \<notin> set (pool_free E es cs)"
  shows "chunks_at E (m(w := v)) a cs"
  using assms by (intro chunks_at_upd_notin [of E m a cs x w v]) (auto simp: free_ok_def set_pool_free)

lemma pool_at_free:
  assumes at: "pool_at E s p es cs" and ok: "free_ok E (pool_free E es cs)"
    and x: "page_ok E x" "x \<notin> set (pool_free E es cs)"
  shows "\<exists>s'. mpool_free p x s = Inr s' \<and> pool_at E s' p (x # es) cs \<and> pool_step E {x} p s s'"
proof -
  let ?s = "set_lists p x (chunk_list (pools s p)) (write64 x (entry_list (pools s p)) s)"
  have E: "esz_ok E" using ok by (simp add: free_ok_def)
  have "entries_at ((mem s)(x := v)) (entry_list (pools s p)) es" for v
    using at x(2) by (auto simp: pool_at_def set_pool_free)
  moreover have "chunks_at E ((mem s)(x := v)) (chunk_list (pools s p)) cs" for v
    using at chunks_at_upd_page [OF _ E x(1) in_page_self ok x(2)] by (auto simp: pool_at_def)
  ultimately have "pool_at E ?s p (x # es) cs"
    using at x(1) by (auto simp: pool_at_def unlocked_def page_ok_def)
  moreover have "pool_step E {x} p s ?s"
    by (auto simp: pool_step_def framed_def intro!: same_off_upd [where x = x])
  moreover have "mpool_free p x s = Inr ?s" using at by (intro mpool_free_eq) (simp add: pool_at_def)
  ultimately show ?thesis by blast
qed

lemma pool_rep_step:
  assumes rep: "chain_rep E s (Some p) ((p, es, cs) # xs)" "distinct (map fst ((p, es, cs) # xs))"
    and step: "pool_step E X p s s'" "pool_at E s' p es' cs'"
    and ok: "free_ok E (chain_free E xs)" "\<forall>x\<in>X. page_ok E x" "X \<inter> set (chain_free E xs) = {}"
    and ok': "free_ok E (pool_free E es' cs' @ chain_free E xs)"
  shows "pool_rep E s' p (p # map fst xs) (pool_free E es' cs' @ chain_free E xs)"
  unfolding pool_rep_def
  using chain_rep_step [OF rep step ok] rep(2) ok'
  by (intro conjI exI [of _ "(p, es', cs') # xs"]) auto

lemma pool_rep_cases:
  assumes "pool_rep E s p qs fl"
  obtains es cs xs where "qs = p # map fst xs" "chain_rep E s (Some p) ((p, es, cs) # xs)" "distinct (map fst ((p, es, cs) # xs))"
    "fl = pool_free E es cs @ chain_free E xs" "pool_at E s p es cs"
    "free_ok E (pool_free E es cs)" "free_ok E (chain_free E xs)"
    "set (pool_free E es cs) \<inter> set (chain_free E xs) = {}"
proof -
  from assms obtain ys where ys: "chain_rep E s (Some p) ys" "distinct (map fst ys)"
    "chain_free E ys = fl" "free_ok E fl" "map fst ys = qs" by (auto simp: pool_rep_def)
  then obtain es cs xs where "ys = (p, es, cs) # xs" by (cases ys) auto
  with ys that show thesis by (auto simp: free_ok_append)
qed

lemma mpool_free_rep:
  assumes "pool_rep E s p qs fl" and x: "page_ok E x" "x \<notin> set fl"
  shows "\<exists>s'. mpool_free p x s = Inr s' \<and> pool_rep E s' p qs (x # fl) \<and> touches E {x} qs s s'"
proof -
  from assms(1) obtain es cs xs where q: "qs = p # map fst xs"
    and r: "chain_rep E s (Some p) ((p, es, cs) # xs)"
    "distinct (map fst ((p, es, cs) # xs))" "fl = pool_free E es cs @ chain_free E xs"
    "pool_at E s p es cs" "free_ok E (pool_free E es cs)" "free_ok E (chain_free E xs)"
    "set (pool_free E es cs) \<inter> set (chain_free E xs) = {}"
    by (rule pool_rep_cases)
  then obtain s' where s': "mpool_free p x s = Inr s'" "pool_at E s' p (x # es) cs" "pool_step E {x} p s s'"
    using pool_at_free [OF r(4,5) x(1)] x(2) by auto
  have "pool_rep E s' p qs (pool_free E (x # es) cs @ chain_free E xs)"
    unfolding q
    using r x by (intro pool_rep_step [OF r(1,2) s'(3,2) r(6)]) (auto simp: free_ok_append free_ok_def)
  with s' r(3) show ?thesis by (auto simp: pool_step_def touches_def q)
qed

lemma pool_rep_frame:
  assumes "pool_rep E s p qs fl" "framed E X s s'" "\<forall>q\<in>set qs. pools s' q = pools s q"
    "\<forall>x\<in>X. page_ok E x" "X \<inter> set fl = {}"
  shows "pool_rep E s' p qs fl"
proof -
  from assms(1) obtain xs where xs: "chain_rep E s (Some p) xs" "chain_free E xs = fl" "map fst xs = qs"
    "free_ok E fl" "distinct qs" by (auto simp: pool_rep_def)
  then have "chain_rep E s' (Some p) xs" using assms by (intro chain_rep_frame [OF xs(1)]) auto
  with xs show ?thesis by (auto simp: pool_rep_def)
qed

lemma pool_rep_free_ok: "pool_rep E s p qs fl \<Longrightarrow> free_ok E fl"
  by (simp add: pool_rep_def)

lemma pool_rep_in: "pool_rep E s p qs fl \<Longrightarrow> p \<in> set qs"
  by (auto elim: pool_rep_cases)

lemma touches_refl [simp]: "touches E X qs s s"
  by (simp add: touches_def)

lemma touches_trans: "touches E X qs s s1 \<Longrightarrow> touches E X qs s1 s2 \<Longrightarrow> touches E X qs s s2"
  unfolding touches_def using framed_trans by fastforce

lemma touches_mono: "touches E X qs s s' \<Longrightarrow> X \<subseteq> Y \<Longrightarrow> set qs \<subseteq> set rs \<Longrightarrow> touches E Y rs s s'"
  unfolding touches_def using framed_mono by blast

lemma pool_step_touches: "pool_step E X p s s' \<Longrightarrow> p \<in> set qs \<Longrightarrow> touches E X qs s s'"
  by (auto simp: pool_step_def touches_def)

text \<open>The entries of a chunk are the aligned addresses of its range.\<close>

lemma unat_chunk_page:
  fixes E b l :: u64
  assumes "unat E dvd unat b" "unat E dvd unat l" "0 < unat E" "i < (unat l - unat b) div unat E"
  shows "unat (b + word_of_nat i * E) = unat b + i * unat E" "unat b + i * unat E + unat E \<le> unat l"
proof -
  let ?n = "(unat l - unat b) div unat E"
  have "Suc i \<le> ?n" using assms(4) by simp
  then have "Suc i * unat E \<le> ?n * unat E" by (rule mult_le_mono1)
  also have "\<dots> \<le> unat l - unat b" by simp
  finally have le: "Suc i * unat E \<le> unat l - unat b" .
  moreover from this assms(3) have "unat b \<le> unat l" by (cases "unat b \<le> unat l") auto
  ultimately show 2: "unat b + i * unat E + unat E \<le> unat l" by simp
  have "i * unat E < 18446744073709551616" using 2 unat_lt64 [of l] by linarith
  moreover have "i \<le> i * unat E" using assms(3) by simp
  ultimately have "unat (word_of_nat i :: u64) = i" by (intro unat_of_nat64) linarith
  then have "unat (word_of_nat i * E) = i * unat E"
    using \<open>i * unat E < _\<close> by (subst unat_mult64) simp_all
  then show "unat (b + word_of_nat i * E) = unat b + i * unat E"
    using 2 unat_lt64 [of l] by (subst unat_add64) linarith+
qed

lemma set_chunk_pages:
  assumes "unat E dvd unat b" "unat E dvd unat l" "0 < unat E"
  shows "x \<in> set (chunk_pages E (b, l)) \<longleftrightarrow> unat E dvd unat x \<and> unat b \<le> unat x \<and> unat x < unat l"
proof
  assume "x \<in> set (chunk_pages E (b, l))"
  then obtain i where i: "i < (unat l - unat b) div unat E" "x = b + word_of_nat i * E"
    by (auto simp: chunk_pages_def)
  show "unat E dvd unat x \<and> unat b \<le> unat x \<and> unat x < unat l"
    using unat_chunk_page [OF assms i(1)] assms(1,3) i(2) by auto
next
  assume x: "unat E dvd unat x \<and> unat b \<le> unat x \<and> unat x < unat l"
  let ?i = "(unat x - unat b) div unat E"
  have d: "unat E dvd unat x - unat b" "unat E dvd unat l - unat b"
    using x assms by (auto intro: dvd_diff_nat)
  have "?i * unat E < (unat l - unat b) div unat E * unat E"
    using x d by (simp add: dvd_div_mult_self diff_less_mono)
  then have i: "?i < (unat l - unat b) div unat E" by (rule mult_less_cancel2 [THEN iffD1, THEN conjunct2])
  have "unat (b + word_of_nat ?i * E) = unat x"
    using unat_chunk_page(1) [OF assms i] x d(1) by (simp add: dvd_div_mult_self)
  then have "x = b + word_of_nat ?i * E" by (simp add: word_unat_eq_iff)
  with i show "x \<in> set (chunk_pages E (b, l))" by (force simp: chunk_pages_def)
qed

lemma distinct_chunk_pages:
  assumes "unat E dvd unat b" "unat E dvd unat l" "0 < unat E"
  shows "distinct (chunk_pages E (b, l))"
proof -
  have "inj_on (\<lambda>i. b + word_of_nat i * E) {0..<(unat l - unat b) div unat E}"
  proof (rule inj_onI)
    fix i j assume "i \<in> {0..<(unat l - unat b) div unat E}" "j \<in> {0..<(unat l - unat b) div unat E}"
      and eq: "b + word_of_nat i * E = b + word_of_nat j * E"
    then have "unat b + i * unat E = unat b + j * unat E"
      using unat_chunk_page(1) [OF assms, of i] unat_chunk_page(1) [OF assms, of j]
      unfolding eq by auto
    then show "i = j" using assms(3) by simp
  qed
  then show ?thesis by (simp add: chunk_pages_def distinct_map)
qed

lemma chunk_pages_split:
  assumes "unat E dvd unat b" "unat E dvd unat c" "unat E dvd unat l" "0 < unat E"
    "unat b \<le> unat c" "unat c \<le> unat l"
  shows "mset (chunk_pages E (b, l)) = mset (chunk_pages E (b, c)) + mset (chunk_pages E (c, l))"
proof -
  have "mset (chunk_pages E (b, l)) = mset (chunk_pages E (b, c) @ chunk_pages E (c, l))"
    using assms by (intro set_eq_iff_mset_eq_distinct [THEN iffD1])
      (auto simp: set_chunk_pages distinct_chunk_pages)
  then show ?thesis by simp
qed

text \<open>The usable part of a range: the entries that lie wholly inside it.\<close>

definition range_pages :: "u64 \<Rightarrow> u64 \<Rightarrow> u64 \<Rightarrow> u64 list" where
  "range_pages E begin sz =
     chunk_pages E ((begin + E - 1) div E * E, (begin + sz) div E * E)"

lemma unat_round:
  fixes E sz :: u64
  assumes "0 < unat E" "unat (begin :: u64) + unat E + unat sz < 18446744073709551616"
  shows "unat ((begin + E - 1) div E * E) = (unat begin + unat E - 1) div unat E * unat E"
    "unat ((begin + sz) div E * E) = (unat begin + unat sz) div unat E * unat E"
proof -
  have 1: "unat (begin + E - 1) = unat begin + unat E - 1"
  proof -
    have "unat (begin + E) = unat begin + unat E" using assms by (intro unat_add64) linarith
    then show ?thesis using assms(1) by (simp add: unat_sub64)
  qed
  have 2: "unat (begin + sz) = unat begin + unat sz" using assms by (intro unat_add64) linarith
  have lt: "n div unat E * unat E < 18446744073709551616" if "n < 18446744073709551616" for n
    using that by (rule le_less_trans [OF div_times_less_eq_dividend])
  show "unat ((begin + E - 1) div E * E) = (unat begin + unat E - 1) div unat E * unat E"
    using assms lt [of "unat begin + unat E - 1"] by (subst unat_mult64) (auto simp: unat_div 1)
  show "unat ((begin + sz) div E * E) = (unat begin + unat sz) div unat E * unat E"
    using assms lt [of "unat begin + unat sz"] by (subst unat_mult64) (auto simp: unat_div 2)
qed

lemma set_range_pages:
  fixes E sz x :: u64
  assumes "0 < unat E" "unat (begin :: u64) + unat E + unat sz < 18446744073709551616"
  shows "x \<in> set (range_pages E begin sz) \<longleftrightarrow>
    unat E dvd unat x \<and> unat begin \<le> unat x \<and> unat x + unat E \<le> unat begin + unat sz"
proof -
  note r = unat_round [OF assms]
  have up: "(unat begin + unat E - 1) div unat E * unat E \<le> n \<longleftrightarrow> unat begin \<le> n"
    if n: "unat E dvd n" for n
  proof -
    obtain k where k: "n = k * unat E" using n by (auto simp: dvd_def mult.commute)
    have "(unat begin + unat E - 1) div unat E \<le> k \<longleftrightarrow> (unat begin + unat E - 1) div unat E < Suc k" by auto
    also have "\<dots> \<longleftrightarrow> unat begin + unat E - 1 < Suc k * unat E"
      using assms(1) by (simp only: div_less_iff_less_mult)
    also have "\<dots> \<longleftrightarrow> unat begin \<le> n" using assms(1) by (auto simp: k)
    finally show ?thesis using assms(1) by (simp add: k)
  qed
  have down: "n < (unat begin + unat sz) div unat E * unat E \<longleftrightarrow> n + unat E \<le> unat begin + unat sz"
    if n: "unat E dvd n" for n
  proof -
    obtain k where k: "n = k * unat E" using n by (auto simp: dvd_def mult.commute)
    have "k < (unat begin + unat sz) div unat E \<longleftrightarrow> Suc k \<le> (unat begin + unat sz) div unat E" by auto
    also have "\<dots> \<longleftrightarrow> Suc k * unat E \<le> unat begin + unat sz"
      using assms(1) by (simp only: less_eq_div_iff_mult_less_eq)
    finally show ?thesis using assms(1) by (simp add: k add.commute)
  qed
  show ?thesis
    unfolding range_pages_def using assms(1) up down
    by (subst set_chunk_pages) (auto simp: r)
qed

end
