(* ===== verification/Mpool_Contig.thy ===== *)
theory Mpool_Contig imports Mpool_Refine begin

text \<open>
  Ranges: \<open>mpool_add_chunk\<close> adds the whole entries of a range of memory as one chunk, and
  \<open>mpool_alloc_contiguous_no_fallback\<close> cuts an aligned range out of the chunks of one pool.
\<close>

lemma mpool_add_chunk_eq:
  assumes "unlocked s p" "entry_size (pools s p) = E" "0 < unat E"
    and nb: "nb = (begin + E - 1) div E * E" and ne: "ne = (begin + sz) div E * E" 
    and "unat E dvd unat nb" "unat E dvd unat ne"
  shows "mpool_add_chunk p begin sz s =
    (if unat nb < unat ne
     then Inr (True, set_lists p (entry_list (pools s p)) nb
                       (write64 nb (chunk_list (pools s p)) (write64 (nb + 8) ne s)))
     else Inr (False, s))"
proof -
  have E0: "E \<noteq> 0" using assms(3) by auto
  have room: "\<not> ne - nb < E" if lt: "unat nb < unat ne"
  proof -
    have "unat E dvd unat ne - unat nb" using assms(6,7) by (rule dvd_diff_nat [rotated])
    then have "unat E \<le> unat ne - unat nb" using lt by (intro dvd_imp_le) auto
    then show ?thesis using lt by (simp add: word_less_nat_alt unat_sub64)
  qed
  show ?thesis
  proof (cases "unat nb < unat ne")
    case True
    then show ?thesis
      using assms(1,2) E0 room unfolding mpool_add_chunk_def Let_def
      by (cases "pools s p")
         (auto simp: nb [symmetric] ne [symmetric] mpool_state_defs set_lists_def word_le_nat_alt fun_upd_twist)
  next
    case False
    then show ?thesis
      using assms(2) E0 by (auto simp: mpool_add_chunk_def nb [symmetric] ne [symmetric] word_le_nat_alt Let_def)
  qed
qed

lemma mpool_add_chunk_rep:
  assumes rep: "pool_rep E s p qs fl" and b: "begin \<noteq> 0"
    and lt: "unat begin + unat E + unat sz < 18446744073709551616"
    and dis: "set (range_pages E begin sz) \<inter> set fl = {}"
  shows "\<exists>s' fl1 fl2. mpool_add_chunk p begin sz s = Inr (range_pages E begin sz \<noteq> [], s') \<and>
    fl = fl1 @ fl2 \<and> pool_rep E s' p qs (fl1 @ range_pages E begin sz @ fl2) \<and>
    touches E (set (range_pages E begin sz)) qs s s'"
proof -
  from rep obtain es cs xs where q: "qs = p # map fst xs" and r: "chain_rep E s (Some p) ((p, es, cs) # xs)"
    "distinct (map fst ((p, es, cs) # xs))" "fl = pool_free E es cs @ chain_free E xs"
    "pool_at E s p es cs" "free_ok E (pool_free E es cs)" "free_ok E (chain_free E xs)"
    "set (pool_free E es cs) \<inter> set (chain_free E xs) = {}"
    by (rule pool_rep_cases)
  have E: "esz_ok E" and E0: "0 < unat E" using r(5) by (auto simp: free_ok_def esz_ok_def)
  define nb ne where n: "nb = (begin + E - 1) div E * E" "ne = (begin + sz) div E * E"
  let ?new = "range_pages E begin sz"
  have dvd: "unat E dvd unat nb" "unat E dvd unat ne" using unat_round [OF E0 lt] by (auto simp: n)
  have new: "?new = chunk_pages E (nb, ne)" by (simp add: range_pages_def n)
  have eq: "mpool_add_chunk p begin sz s =
    (if unat nb < unat ne
     then Inr (True, set_lists p (entry_list (pools s p)) nb
                       (write64 nb (chunk_list (pools s p)) (write64 (nb + 8) ne s)))
     else Inr (False, s))"
    using r(4) E0 dvd by (intro mpool_add_chunk_eq) (auto simp: pool_at_def n)
  show ?thesis
  proof (cases "unat nb < unat ne")
    case False
    then have "?new = []" by (simp add: new chunk_pages_def)
    with eq False rep show ?thesis by (intro exI [of _ s] exI [of _ fl] exI [of _ "[]"]) simp
  next
    case True
    let ?s = "set_lists p (entry_list (pools s p)) nb
                       (write64 nb (chunk_list (pools s p)) (write64 (nb + 8) ne s))"
    have ok: "page_ok E x" if "x \<in> set ?new" for x
      using that set_range_pages [OF E0 lt, of x] b lt by (auto simp: page_ok_def unat_eq_zero)
    have nbin: "nb \<in> set ?new" using True by (simp add: new set_chunk_pages [OF dvd E0] dvd)
    note nbok = ok [OF nbin]
    have cok: "chunk_ok E (nb, ne)" using True dvd page_okD(1) [OF nbok] by (simp add: chunk_ok_def)
    have nin: "nb \<notin> set (pool_free E es cs)" using nbin dis r(3) by auto
    have n8: "in_page E nb (nb + 8)" by (rule in_page_8 [OF E nbok])
    have "chunks_at E ((mem s)(nb + 8 := ne, nb := chunk_list (pools s p))) (chunk_list (pools s p)) cs"
      using r(4) by (intro chunks_at_upd_page [OF _ E nbok _ r(5) nin] in_page_self n8) (simp add: pool_at_def)
    moreover have "nb + 8 \<notin> set es"
    proof
      assume "nb + 8 \<in> set es"
      then have e: "nb + 8 \<in> set (pool_free E es cs)" by (simp add: set_pool_free)
      then have "page_ok E (nb + 8)" using r(5) by (simp add: free_ok_def)
      from in_page_unique [OF nbok this n8 in_page_self] e nin show False by simp
    qed
    ultimately have at: "pool_at E ?s p es ((nb, ne) # cs)"
      using r(4) cok nin by (auto simp: pool_at_def unlocked_def set_pool_free)
    have step: "pool_step E (set ?new) p s ?s"
      using nbin n8 by (auto simp: pool_step_def framed_def intro!: same_off_upd [where x = nb])
    have "distinct ?new" unfolding new by (rule distinct_chunk_pages [OF dvd E0])
    then have "free_ok E (pool_free E es ((nb, ne) # cs) @ chain_free E xs)"
      using r(3,5-7) dis ok new by (auto simp: free_ok_def pool_free_def)
    then have "pool_rep E ?s p qs (pool_free E es ((nb, ne) # cs) @ chain_free E xs)"
      unfolding q using r dis ok by (intro pool_rep_step [OF r(1,2) step at r(6)]) auto
    moreover have "fl = es @ (pool_free E [] cs @ chain_free E xs)"
      using r(3) by (simp add: pool_free_def)
    moreover have "pool_free E es ((nb, ne) # cs) @ chain_free E xs =
        es @ ?new @ (pool_free E [] cs @ chain_free E xs)"
      by (simp add: pool_free_def new)
    ultimately show ?thesis
      using eq True step nbin
      by (intro exI [of _ ?s] exI [of _ es] exI [of _ "pool_free E [] cs @ chain_free E xs"])
         (auto simp: pool_step_def touches_def q)
  qed
qed

section \<open>Contiguous allocation\<close>

fun chunks_path :: "u64 \<Rightarrow> (u64 \<Rightarrow> u64) \<Rightarrow> u64 \<Rightarrow> (u64 \<times> u64) list \<Rightarrow> u64 \<Rightarrow> bool" where
  "chunks_path E m a [] z \<longleftrightarrow> a = z"
| "chunks_path E m a ((b, l) # cs) z \<longleftrightarrow>
     a = b \<and> chunk_ok E (b, l) \<and> m (b + 8) = l \<and> chunks_path E m (m b) cs z"

definition link_of :: "nat \<Rightarrow> (u64 \<times> u64) list \<Rightarrow> link" where
  "link_of p cs = (if cs = [] then PoolHead p else ChunkNext (fst (last cs)))"

lemma chunks_at_append:
  "chunks_at E m a (cs1 @ cs2) \<longleftrightarrow> (\<exists>z. chunks_path E m a cs1 z \<and> chunks_at E m z cs2)"
  by (induction cs1 arbitrary: a) auto

lemma chunks_path_append:
  "chunks_path E m a (cs1 @ cs2) z \<longleftrightarrow> (\<exists>y. chunks_path E m a cs1 y \<and> chunks_path E m y cs2 z)"
  by (induction cs1 arbitrary: a) auto

text \<open>Writes into a page that holds no chunk header leave both predicates alone.\<close>

definition heads_off :: "u64 \<Rightarrow> u64 \<Rightarrow> (u64 \<times> u64) list \<Rightarrow> bool" where
  "heads_off E x cs \<longleftrightarrow> page_ok E x \<and> (\<forall>c\<in>set cs. page_ok E (fst c) \<and> fst c \<noteq> x)"

lemma heads_off_neq:
  assumes "heads_off E x cs" "esz_ok E" "in_page E x w" "(b, l) \<in> set cs"
  shows "b \<noteq> w" "b + 8 \<noteq> w"
proof -
  have b: "page_ok E b" "b \<noteq> x" "page_ok E x" using assms(1,4) by (force simp: heads_off_def)+
  then show "b \<noteq> w" "b + 8 \<noteq> w"
    using in_page_unique [OF b(1,3)] in_page_self in_page_8 [OF assms(2) b(1)] assms(3) by metis+
qed

lemma chunks_path_off:
  "chunks_path E m a cs z \<Longrightarrow> heads_off E x cs \<Longrightarrow> esz_ok E \<Longrightarrow> in_page E x w \<Longrightarrow>
   chunks_path E (m(w := v)) a cs z"
proof (induction cs arbitrary: a)
  case (Cons c cs)
  obtain b l where c: "c = (b, l)" by (cases c)
  have "b \<noteq> w" "b + 8 \<noteq> w" using heads_off_neq [OF Cons.prems(2-4)] c by auto
  moreover have "chunks_path E (m(w := v)) (m b) cs z"
    using Cons.prems by (intro Cons.IH) (auto simp: c heads_off_def)
  ultimately show ?case using Cons.prems(1) by (simp add: c fun_upd_def)
qed simp

lemma chunks_at_off:
  assumes "chunks_at E m a cs" "heads_off E x cs" "esz_ok E" "in_page E x w"
  shows "chunks_at E (m(w := v)) a cs"
  using assms(1) chunks_at_cong [of cs "m(w := v)" m] heads_off_neq [OF assms(2-4)] by auto

lemma path_read_link:
  "chunks_path E (mem s) (chunk_list (pools s p)) cs z \<Longrightarrow> read_link (link_of p cs) s = z"
  by (cases cs rule: rev_cases) (auto simp: link_of_def chunks_path_append)

lemma path_write_link:
  assumes "chunks_path E (mem s) (chunk_list (pools s p)) cs z" "esz_ok E"
    "distinct (map fst cs)" "\<forall>c\<in>set cs. page_ok E (fst c)" "s' = write_link (link_of p cs) y s"
  shows "chunks_path E (mem s') (chunk_list (pools s' p)) cs y"
proof (cases cs rule: rev_cases)
  case Nil
  with assms(5) show ?thesis by (simp add: link_of_def upd_pool_def)
next
  case (snoc ds c)
  obtain b l where c: "c = (b, l)" by (cases c)
  have path: "chunks_path E (mem s) (chunk_list (pools s p)) ds b" "chunk_ok E (b, l)" "mem s (b + 8) = l"
    using assms(1) by (auto simp: snoc c chunks_path_append)
  have "heads_off E b ds" using assms(3,4) by (force simp: heads_off_def snoc c)
  then have "chunks_path E ((mem s)(b := y)) (chunk_list (pools s p)) ds b"
    using path(1) assms(2) by (intro chunks_path_off [where x = b]) auto
  then show ?thesis
    using path(2,3) assms(5) by (auto simp: snoc c chunks_path_append link_of_def)
qed

text \<open>Writing a link changes only the head of the pool's list or a cell of a listed chunk.\<close>

lemma write_link_frame:
  assumes "\<forall>c\<in>set cs. fst c \<in> X"
  shows "pool_step E X p s (write_link (link_of p cs) y s)"
    "entry_list (pools (write_link (link_of p cs) y s) p) = entry_list (pools s p)"
    "entry_size (pools (write_link (link_of p cs) y s) p) = entry_size (pools s p)"
    "mp_lock (pools (write_link (link_of p cs) y s) p) = mp_lock (pools s p)"
  using assms
  by (auto simp: link_of_def pool_step_def framed_def upd_pool_def last_in_set
           intro!: same_off_upd [where x = "fst (last cs)"])

lemma write_link_mem_off:
  assumes "chunks_at E (mem s) a ds" "heads_off E x ds \<or> cs = []" "cs \<noteq> [] \<Longrightarrow> x = fst (last cs)" "esz_ok E"
  shows "chunks_at E (mem (write_link (link_of p cs) y s)) a ds"
  using assms chunks_at_off [OF assms(1), of x "fst (last cs)" y]
  by (auto simp: link_of_def upd_pool_def)

text \<open>The list of chunks after \<open>start\<close> up to \<open>new_chunk\<close> has been cut out of a chunk.\<close>

definition cut :: "u64 \<Rightarrow> u64 \<Rightarrow> u64 \<Rightarrow> u64 \<Rightarrow> u64 \<Rightarrow> (u64 \<times> u64) list" where
  "cut E b l st nc = (if unat E \<le> unat st - unat b then [(b, st)] else []) @
     (if nc = l then [] else [(nc, l)])"

lemma link_redirect:
  assumes "chunks_path E (mem s) (chunk_list (pools s p)) cs z" "esz_ok E"
    "distinct (map fst cs)" "\<forall>c\<in>set cs. page_ok E (fst c)"
    "chunks_at E (mem s) y ds" "cs = [] \<or> heads_off E (fst (last cs)) ds"
    "s' = write_link (link_of p cs) y s"
  shows "chunks_path E (mem s') (chunk_list (pools s' p)) cs y" "chunks_at E (mem s') y ds"
  using path_write_link [OF assms(1-4,7)] write_link_mem_off [OF assms(5), of "fst (last cs)" cs p y] assms
  by auto

lemma contiguous_take_chunks:
  assumes E: "esz_ok E"
    and path: "chunks_path E (mem s) (chunk_list (pools s p)) cs1 b"
    and rest: "chunk_ok E (b, l)" "mem s (b + 8) = l" "chunks_at E (mem s) (mem s b) cs2"
    and dis: "distinct (map fst (cs1 @ (b, l) # cs2))"
    and pages: "\<forall>c\<in>set (cs1 @ (b, l) # cs2). page_ok E (fst c)"
    and st: "unat E dvd unat st" "unat E dvd unat nc" "unat b \<le> unat st" "unat st < unat nc" "unat nc \<le> unat l"
    and nc: "nc \<noteq> l \<Longrightarrow> heads_off E nc (cs1 @ (b, l) # cs2)"
    and s': "s' = contiguous_take E b st nc (link_of p cs1) s"
  shows "chunks_at E (mem s') (chunk_list (pools s' p)) (cs1 @ cut E b l st nc @ cs2)"
proof -
  let ?lk = "link_of p cs1"
  let ?mid = "if nc = l then [] else [(nc, l)]"
  let ?z = "if nc = l then mem s b else nc"
  have d1: "distinct (map fst cs1)" "\<forall>c\<in>set cs1. page_ok E (fst c)" using dis pages by auto
  have b: "page_ok E b" using pages by simp
  have offb: "heads_off E b cs1" "heads_off E b (?mid @ cs2)"
    using dis pages nc by (force simp: heads_off_def)+
  have "heads_off E (fst (last cs1)) (?mid @ cs2) \<and> fst (last cs1) \<noteq> b" if "cs1 \<noteq> []"
  proof -
    have a: "last cs1 \<in> set cs1" using that by simp
    then have "fst (last cs1) \<in> set (map fst cs1)" by simp
    then have n: "fst (last cs1) \<notin> set (map fst ((b, l) # cs2))"
      using dis unfolding map_append distinct_append by blast
    moreover have "page_ok E nc \<and> nc \<noteq> fst (last cs1)" if "nc \<noteq> l"
      using nc [OF that] a by (auto simp: heads_off_def)
    moreover have "\<forall>c\<in>set cs2. fst c \<noteq> fst (last cs1)"
      using n unfolding set_map by (metis image_eqI list.set_intros(2))
    ultimately show ?thesis using pages a by (auto simp: heads_off_def)
  qed
  then have offl: "cs1 = [] \<or> heads_off E (fst (last cs1)) (?mid @ cs2)" "cs1 = [] \<or> fst (last cs1) \<noteq> b"
    by blast+
  define s0 where "s0 = (if nc = l then s else write64 (nc + 8) l (write64 nc (mem s b) s))"
  define s1 where "s1 = write_link ?lk ?z s0"
  have "chunks_path E (mem s0) (chunk_list (pools s0 p)) cs1 b \<and> chunks_at E (mem s0) ?z (?mid @ cs2)"
  proof (cases "nc = l")
    case True
    then show ?thesis using path rest(3) by (simp add: s0_def)
  next
    case False
    then have off: "heads_off E nc cs1" "heads_off E nc cs2" and ncok: "page_ok E nc"
      using nc by (auto simp: heads_off_def)
    note n8 = in_page_8 [OF E ncok]
    have "chunk_ok E (nc, l)"
      using False st rest(1) ncok by (auto simp: chunk_ok_def page_ok_def unat_eq_iff64)
    moreover have "chunks_at E (mem s0) (mem s b) cs2"
      using False chunks_at_off [OF chunks_at_off [OF rest(3) off(2) E in_page_self] off(2) E n8]
      by (simp add: s0_def)
    moreover have "chunks_path E (mem s0) (chunk_list (pools s0 p)) cs1 b"
      using False chunks_path_off [OF chunks_path_off [OF path off(1) E in_page_self] off(1) E n8]
      by (simp add: s0_def)
    ultimately show ?thesis using False by (simp add: s0_def)
  qed
  then have S1: "chunks_path E (mem s1) (chunk_list (pools s1 p)) cs1 ?z" "chunks_at E (mem s1) ?z (?mid @ cs2)"
    using link_redirect [OF _ E d1, of s0 p b ?z "?mid @ cs2" s1] offl(1) by (auto simp: s1_def)
  show ?thesis
  proof (cases "unat E \<le> unat st - unat b")
    case False
    then have "\<not> st - b \<ge> E" using st(3) by (simp add: word_le_nat_alt unat_sub64)
    then have "s' = s1" by (simp add: s' contiguous_take_def s1_def s0_def rest(2))
    with S1 False show ?thesis by (auto simp: cut_def chunks_at_append)
  next
    case True
    then have ge: "st - b \<ge> E" using st(3) by (simp add: word_le_nat_alt unat_sub64)
    define s2 where "s2 = write64 b ?z s1"
    define s3 where "s3 = write_link ?lk b s2"
    have s4: "s' = write64 (b + 8) st s3"
      using ge path_read_link [OF S1(1)]
      by (cases "nc = l")
         (simp_all add: s' contiguous_take_def s1_def s0_def s2_def s3_def rest(2) Let_def)
    note b8 = in_page_8 [OF E b]
    have S2: "chunks_path E (mem s2) (chunk_list (pools s2 p)) cs1 ?z" "chunks_at E (mem s2) ?z (?mid @ cs2)"
      using chunks_path_off [OF S1(1) offb(1) E in_page_self] chunks_at_off [OF S1(2) offb(2) E in_page_self]
      by (simp_all add: s2_def)
    have S3: "chunks_path E (mem s3) (chunk_list (pools s3 p)) cs1 b"
      by (rule path_write_link [OF S2(1) E d1 s3_def])
    have "chunks_at E (mem s3) ?z (?mid @ cs2)"
      unfolding s3_def using S2(2) offl(1) E by (intro write_link_mem_off [where x = "fst (last cs1)"]) auto
    moreover have "mem s3 b = ?z" using offl(2) by (auto simp: s3_def s2_def link_of_def upd_pool_def)
    ultimately have "chunks_at E (mem s') b ((b, st) # ?mid @ cs2)"
      using chunks_at_off [of E "mem s3" ?z "?mid @ cs2" b "b + 8" st] offb(2) E b8 rest(1) st True esz_okD(1) [OF E]
      by (auto simp: s4 chunk_ok_def)
    moreover have "chunks_path E (mem s') (chunk_list (pools s' p)) cs1 b"
      using chunks_path_off [OF S3 offb(1) E b8] by (simp add: s4)
    ultimately show ?thesis using True by (auto simp: cut_def chunks_at_append)
  qed
qed

lemma pool_step_refl [simp]: "pool_step E X p s s"
  by (simp add: pool_step_def)

lemma pool_step_trans: "pool_step E X p s s1 \<Longrightarrow> pool_step E X p s1 s2 \<Longrightarrow> pool_step E X p s s2"
  by (auto simp: pool_step_def intro: framed_trans)

lemma pool_step_write: "x \<in> X \<Longrightarrow> in_page E x a \<Longrightarrow> pool_step E X p s (write64 a v s)"
  by (auto simp: pool_step_def framed_def intro!: same_off_upd [where x = x])

text \<open>The fields of a pool that contiguous allocation does not touch.\<close>

definition same_pool :: "nat \<Rightarrow> 'a machine_scheme \<Rightarrow> 'a machine_scheme \<Rightarrow> bool" where
  "same_pool p s s' \<longleftrightarrow> entry_list (pools s' p) = entry_list (pools s p) \<and>
     entry_size (pools s' p) = entry_size (pools s p) \<and> mp_lock (pools s' p) = mp_lock (pools s p)"

lemma same_pool_write [simp]: "same_pool p s (write64 a v s')  = same_pool p s s'" "same_pool p s s"
  by (simp_all add: same_pool_def)

lemma same_pool_link [simp]: "same_pool p s (write_link (link_of p cs) y s') = same_pool p s s'"
  by (auto simp: same_pool_def link_of_def upd_pool_def)

lemma contiguous_take_step:
  assumes E: "esz_ok E" and b: "page_ok E b" "b \<in> X" and cs: "\<forall>c\<in>set cs. fst c \<in> X"
    and nc: "nc \<noteq> mem s (b + 8) \<Longrightarrow> page_ok E nc \<and> nc \<in> X"
  shows "pool_step E X p s (contiguous_take E b st nc (link_of p cs) s)"
    "same_pool p s (contiguous_take E b st nc (link_of p cs) s)"
proof -
  have w: "pool_step E X p s (write64 x v s')" "pool_step E X p s (write64 (x + 8) v s')"
    if "pool_step E X p s s'" "page_ok E x" "x \<in> X" for s' :: "'a machine_scheme" and x v
    using pool_step_trans [OF that(1) pool_step_write [OF that(3) in_page_self]]
      pool_step_trans [OF that(1) pool_step_write [OF that(3) in_page_8 [OF E that(2)]]] by simp_all
  have l: "pool_step E X p s (write_link (link_of p cs) y s')" if "pool_step E X p s s'"
    for s' :: "'a machine_scheme" and y
    by (rule pool_step_trans [OF that write_link_frame(1) [OF cs]])
  define s1 where "s1 = (if nc = mem s (b + 8) then write_link (link_of p cs) (mem s b) s
     else write_link (link_of p cs) nc (write64 (nc + 8) (mem s (b + 8)) (write64 nc (mem s b) s)))"
  have eq: "contiguous_take E b st nc (link_of p cs) s =
     (if st - b \<ge> E then write64 (b + 8) st (write_link (link_of p cs) b (write64 b (read_link (link_of p cs) s1) s1))
      else s1)"
    by (simp add: contiguous_take_def s1_def Let_def)
  have 1: "pool_step E X p s s1"
    unfolding s1_def using nc by (auto intro!: l w)
  then show "pool_step E X p s (contiguous_take E b st nc (link_of p cs) s)"
    unfolding eq using b by (auto intro!: l w)
  show "same_pool p s (contiguous_take E b st nc (link_of p cs) s)"
    by (simp add: eq s1_def)
qed

text \<open>A chunk fits a request of \<open>n\<close> bytes aligned to \<open>A\<close> if the range starting at the first
  aligned address of the chunk ends before its limit.\<close>

definition chunk_fits :: "nat \<Rightarrow> nat \<Rightarrow> u64 \<times> u64 \<Rightarrow> bool" where
  "chunk_fits A n c = (case c of (b, l) \<Rightarrow> (unat b + A - 1) div A * A + n \<le> unat l)"

lemma contiguous_start:
  fixes A E b l cnt :: u64
  assumes A: "0 < unat A" "unat A \<le> 2 ^ 62" "unat E dvd unat A"
    and b: "chunk_ok E (b, l)" "unat l \<le> 2 ^ 62" "0 < unat cnt" "unat cnt * unat E \<le> 2 ^ 62" "0 < unat E"
    and st: "st = (b + A - 1) div A * A" and nc: "nc = st + cnt * E"
  shows "unat A dvd unat st" "unat b \<le> unat st" "unat nc = unat st + unat cnt * unat E"
    "unat E dvd unat st" "unat E dvd unat nc" "unat st < unat nc"
    "nc \<le> l \<longleftrightarrow> chunk_fits (unat A) (unat cnt * unat E) (b, l)"
proof -
  have bl: "unat b < 2 ^ 62" using b by (simp add: chunk_ok_def)
  have s: "unat st = (unat b + unat A - 1) div unat A * unat A"
    unfolding st using A bl by (subst unat_round(1) [of A b 0]) simp_all
  have le: "unat st \<le> unat b + unat A - 1" unfolding s by simp
  have ge: "unat b \<le> unat st"
  proof -
    have "unat b + unat A - 1 < ((unat b + unat A - 1) div unat A + 1) * unat A"
      using A(1) dividend_less_div_times [of "unat A" "unat b + unat A - 1"] by (simp add: add.commute)
    then show ?thesis unfolding s using A(1) by simp
  qed
  have c: "unat (cnt * E) = unat cnt * unat E" using b by (intro unat_mult64) simp
  have n: "unat nc = unat st + unat cnt * unat E"
    unfolding nc using le A b bl by (subst unat_add64) (simp_all add: c)
  show "unat A dvd unat st" unfolding s by simp
  then show "unat E dvd unat st" using A(3) by (rule dvd_trans [rotated])
  then show "unat E dvd unat nc" unfolding n by simp
  show "unat b \<le> unat st" "unat nc = unat st + unat cnt * unat E" by fact+
  then show "unat st < unat nc" using b by simp
  show "nc \<le> l \<longleftrightarrow> chunk_fits (unat A) (unat cnt * unat E) (b, l)"
    by (simp add: chunk_fits_def word_le_nat_alt n s)
qed

text \<open>The search through the chunks of one pool.\<close>

definition room_for :: "u64 \<Rightarrow> u64 \<Rightarrow> u64 \<Rightarrow> u64 list \<Rightarrow> bool" where
  "room_for E cnt al fl \<longleftrightarrow> 0 < unat cnt \<and> unat cnt * unat E \<le> 2 ^ 62 \<and>
     0 < unat al \<and> unat al * unat E \<le> 2 ^ 62 \<and> (\<forall>x\<in>set fl. unat x + unat E \<le> 2 ^ 62)"

lemma contiguous_loop_spec:
  assumes E: "esz_ok E" and A: "0 < unat A" "unat A \<le> 2 ^ 62" "unat E dvd unat A"
    and cnt: "0 < unat cnt" "unat cnt * unat E \<le> 2 ^ 62"
    and "chunks_path E (mem s) (chunk_list (pools s p)) cs1 z" "chunks_at E (mem s) z cs2"
    and lim: "\<forall>c\<in>set cs2. unat (snd c) \<le> 2 ^ 62"
  shows "contiguous_loop E cnt A (link_of p cs1) s = Some (Inr (0, s)) \<and>
      (\<forall>c\<in>set cs2. \<not> chunk_fits (unat A) (unat cnt * unat E) c) \<or>
    (\<exists>ds b l cs' st nc. cs1 @ cs2 = ds @ (b, l) # cs' \<and>
       contiguous_loop E cnt A (link_of p cs1) s = Some (Inr (st, contiguous_take E b st nc (link_of p ds) s)) \<and>
       chunks_path E (mem s) (chunk_list (pools s p)) ds b \<and> chunks_at E (mem s) b ((b, l) # cs') \<and>
       unat A dvd unat st \<and> unat E dvd unat st \<and> unat E dvd unat nc \<and> unat b \<le> unat st \<and>
       unat st < unat nc \<and> unat nc \<le> unat l \<and> unat nc = unat st + unat cnt * unat E \<and>
       (\<exists>c\<in>set cs2. chunk_fits (unat A) (unat cnt * unat E) c))"
  using assms(7-9)
proof (induction cs2 arbitrary: cs1 z)
  case Nil
  then have "read_link (link_of p cs1) s = 0" by (simp add: path_read_link)
  then show ?case by (subst contiguous_loop.simps) simp
next
  case (Cons c cs2)
  obtain b l where c: "c = (b, l)" by (cases c)
  have zb: "z = b" "chunk_ok E (b, l)" "mem s (b + 8) = l" "chunks_at E (mem s) (mem s b) cs2"
    using Cons.prems(2) by (auto simp: c)
  have rd: "read_link (link_of p cs1) s = b" using Cons.prems(1) zb(1) by (simp add: path_read_link)
  have nz: "b \<noteq> 0" "A \<noteq> 0" using zb(2) A(1) by (auto simp: chunk_ok_def)
  define st where "st = (b + A - 1) div A * A"
  define nc where "nc = st + cnt * E"
  have l62: "unat l \<le> 2 ^ 62" using Cons.prems(3) c by simp
  note ar = contiguous_start [OF A zb(2) l62 cnt esz_okD(1) [OF E] st_def nc_def]
  show ?case
  proof (cases "nc \<le> l")
    case True
    then have "contiguous_loop E cnt A (link_of p cs1) s = Some (Inr (st, contiguous_take E b st nc (link_of p cs1) s))"
      using rd nz zb(3) by (subst contiguous_loop.simps) (simp add: Let_def st_def [symmetric] nc_def [symmetric])
    with True ar Cons.prems zb show ?thesis
      by (intro disjI2 exI [of _ cs1] exI [of _ b] exI [of _ l] exI [of _ cs2] exI [of _ st] exI [of _ nc])
         (auto simp: c word_le_nat_alt)
  next
    case False
    then have step: "contiguous_loop E cnt A (link_of p cs1) s = contiguous_loop E cnt A (link_of p (cs1 @ [c])) s"
      using rd nz zb(3)
      by (subst contiguous_loop.simps) (simp add: Let_def st_def [symmetric] nc_def [symmetric] link_of_def c)
    have "chunks_path E (mem s) (chunk_list (pools s p)) (cs1 @ [c]) (mem s b)"
      using Cons.prems(1) zb by (auto simp: chunks_path_append c)
    from Cons.IH [OF this zb(4)] Cons.prems(3) False show ?thesis
      unfolding step ar(7) by (auto simp: c)
  qed
qed

definition with_lock :: "nat \<Rightarrow> 'a machine_scheme \<Rightarrow> 'a machine_scheme" where
  "with_lock p s = (if mpool_locks_enabled s then upd_pool p (\<lambda>P. P\<lparr>mp_lock := True\<rparr>) s else s)"

lemma mpool_lock_eq: "unlocked s p \<Longrightarrow> mpool_lock p s = Inr (with_lock p s)"
  by (simp add: mpool_lock_def with_lock_def unlocked_def)

lemma with_lock_simps [simp]:
  "mem (with_lock p s) = mem s" "machine.more (with_lock p s) = machine.more s"
  "mpool_locks_enabled (with_lock p s) = mpool_locks_enabled s"
  "q \<noteq> p \<Longrightarrow> pools (with_lock p s) q = pools s q"
  "chunk_list (pools (with_lock p s) q) = chunk_list (pools s q)"
  "entry_list (pools (with_lock p s) q) = entry_list (pools s q)"
  "entry_size (pools (with_lock p s) q) = entry_size (pools s q)"
  "fallback (pools (with_lock p s) q) = fallback (pools s q)"
  by (simp_all add: with_lock_def upd_pool_def)

lemma mpool_unlock_simps [simp]:
  "mem (mpool_unlock p s) = mem s" "machine.more (mpool_unlock p s) = machine.more s"
  "mpool_locks_enabled (mpool_unlock p s) = mpool_locks_enabled s"
  "q \<noteq> p \<Longrightarrow> pools (mpool_unlock p s) q = pools s q"
  "chunk_list (pools (mpool_unlock p s) q) = chunk_list (pools s q)"
  "entry_list (pools (mpool_unlock p s) q) = entry_list (pools s q)"
  "entry_size (pools (mpool_unlock p s) q) = entry_size (pools s q)"
  "fallback (pools (mpool_unlock p s) q) = fallback (pools s q)"
  "unlocked (mpool_unlock p s) p"
  by (simp_all add: mpool_unlock_def upd_pool_def unlocked_def)

lemma mpool_unlock_with_lock: "unlocked s p \<Longrightarrow> mpool_unlock p (with_lock p s) = s"
  by (cases s, cases "pools s p") (auto simp: mpool_unlock_def with_lock_def upd_pool_def unlocked_def)

lemma chunk_limit_bound:
  assumes "chunk_ok E (b, l)" "0 < unat E" "\<forall>x\<in>set (chunk_pages E (b, l)). unat x + unat E \<le> n"
  shows "unat l \<le> n"
proof -
  have le: "unat E \<le> unat l" using unat_chunk_begin_plus [OF assms(1,2)] by simp
  then have u: "unat (l - E) = unat l - unat E" by (rule unat_sub64)
  have "l - E \<in> set (chunk_pages E (b, l))"
    using assms(1,2) unat_chunk_begin_plus [OF assms(1,2)] le
    by (subst set_chunk_pages) (auto simp: chunk_ok_def u intro: dvd_diff_nat)
  then show ?thesis using assms(3) u le by auto
qed

lemma cut_pages:
  assumes "unat E dvd unat b" "unat E dvd unat st" "unat E dvd unat nc" "unat E dvd unat l" "0 < unat E"
    "unat b \<le> unat st" "unat st < unat nc" "unat nc \<le> unat l"
  shows "mset (chunk_pages E (b, l)) = mset (concat (map (chunk_pages E) (cut E b l st nc))) + mset (chunk_pages E (st, nc))"
proof -
  have "unat E dvd unat st - unat b" using assms by (auto intro: dvd_diff_nat)
  then have "unat st = unat b" if "\<not> unat E \<le> unat st - unat b"
    using that assms(6) by (metis diff_is_0_eq dvd_imp_le le_antisym not_gr_zero)
  then have st: "st = b" if "\<not> unat E \<le> unat st - unat b" using that by (simp add: unat_eq_iff64)
  have "mset (chunk_pages E (b, l)) =
      mset (chunk_pages E (b, st)) + mset (chunk_pages E (st, nc)) + mset (chunk_pages E (nc, l))"
    using assms by (simp add: chunk_pages_split [of E b st l] chunk_pages_split [of E st nc l])
  then show ?thesis using st by (auto simp: cut_def)
qed

lemma heads_in_free:
  assumes "chunks_at E m a cs" "0 < unat E" "c \<in> set cs"
  shows "fst c \<in> set (chunk_pages E c)"
  using chunks_at_ok [OF assms(1,3)] assms(2) by (cases c) (auto intro: chunk_begin_page)

lemma distinct_heads:
  assumes "chunks_at E m a cs" "0 < unat E" "distinct (concat (map (chunk_pages E) cs))"
  shows "distinct (map fst cs)"
  using assms
proof (induction cs arbitrary: a)
  case (Cons c cs)
  obtain b l where c: "c = (b, l)" by (cases c)
  have "chunks_at E m (m b) cs" using Cons.prems(1) by (auto simp: c)
  moreover have "fst c \<notin> fst ` set cs"
  proof
    assume "fst c \<in> fst ` set cs"
    then obtain d where d: "d \<in> set cs" "fst d = fst c" by force
    have "fst c \<in> set (chunk_pages E c)" "fst d \<in> set (chunk_pages E d)"
      using heads_in_free [OF Cons.prems(1,2)] d(1) by auto
    with Cons.prems(3) d show False by auto
  qed
  ultimately show ?case using Cons.IH [of "m b"] Cons.prems by auto
qed simp

text \<open>Where the cut-out range lies in a chunk of a pool.\<close>

definition cut_at :: "u64 \<Rightarrow> (u64 \<times> u64) list \<Rightarrow> (u64 \<times> u64) list \<Rightarrow> u64 \<Rightarrow> u64 \<Rightarrow> (u64 \<times> u64) list \<Rightarrow>
    u64 \<Rightarrow> u64 \<Rightarrow> bool" where
  "cut_at E cs ds b l cs' st nc \<longleftrightarrow> cs = ds @ (b, l) # cs' \<and> unat E dvd unat st \<and> unat E dvd unat nc \<and>
     unat b \<le> unat st \<and> unat st < unat nc \<and> unat nc \<le> unat l"

lemma cut_at_heads:
  assumes cs: "chunks_at E m a cs" and c: "cut_at E cs ds b l cs' st nc" and ok: "free_ok E (pool_free E es cs)"
  shows "distinct (map fst cs)" "\<forall>c\<in>set cs. page_ok E (fst c) \<and> fst c \<in> set (pool_free E es cs) - set es"
    "nc \<noteq> l \<Longrightarrow> heads_off E nc cs \<and> nc \<in> set (pool_free E es cs) - set es"
proof -
  have E0: "0 < unat E" using ok by (simp add: free_ok_def esz_ok_def)
  have dist: "distinct (concat (map (chunk_pages E) cs))" "set es \<inter> set (concat (map (chunk_pages E) cs)) = {}"
    using ok by (auto simp: free_ok_def pool_free_def)
  show "distinct (map fst cs)" by (rule distinct_heads [OF cs E0 dist(1)])
  have heads: "fst c \<in> set (chunk_pages E c)" if "c \<in> set cs" for c
    by (rule heads_in_free [OF cs E0 that])
  show pages: "\<forall>c\<in>set cs. page_ok E (fst c) \<and> fst c \<in> set (pool_free E es cs) - set es"
  proof
    fix c assume c: "c \<in> set cs"
    show "page_ok E (fst c) \<and> fst c \<in> set (pool_free E es cs) - set es"
      using heads [OF c] c dist(2) ok unfolding free_ok_def set_pool_free set_concat set_map by blast
  qed
  show "heads_off E nc cs \<and> nc \<in> set (pool_free E es cs) - set es" if "nc \<noteq> l"
  proof -
    have bl: "chunk_ok E (b, l)" "(b, l) \<in> set cs"
      using c chunks_at_ok [OF cs] by (auto simp: cut_at_def)
    have "unat nc < unat l" using c that by (auto simp: cut_at_def unat_eq_iff64)
    then have nc: "nc \<in> set (chunk_pages E (b, l))"
      using c bl(1) E0 by (subst set_chunk_pages) (auto simp: cut_at_def chunk_ok_def)
    then have ncf: "nc \<in> set (pool_free E es cs)" using bl(2) by (auto simp: set_pool_free)
    moreover have "nc \<notin> set es" using nc bl(2) dist(2) by auto
    moreover have "fst d \<noteq> nc" if d: "d \<in> set cs" for d
    proof (cases "d = (b, l)")
      case True
      then show ?thesis using c by (auto simp: cut_at_def)
    next
      case False
      then have "d \<in> set ds \<union> set cs'" using d c by (auto simp: cut_at_def)
      then have "set (chunk_pages E d) \<inter> set (chunk_pages E (b, l)) = {}"
        using dist(1) c by (auto simp: cut_at_def)
      then show ?thesis using heads [OF d] nc by auto
    qed
    ultimately show ?thesis using pages ok by (auto simp: heads_off_def free_ok_def)
  qed
qed

lemma contiguous_take_pool:
  assumes at: "pool_at E s p es cs" and ok: "free_ok E (pool_free E es cs)" and c: "cut_at E cs ds b l cs' st nc"
    and path: "chunks_path E (mem s) (chunk_list (pools s p)) ds b" "chunks_at E (mem s) b ((b, l) # cs')"
    and s': "s' = mpool_unlock p (contiguous_take E b st nc (link_of p ds) (with_lock p s))"
  shows "pool_at E s' p es (ds @ cut E b l st nc @ cs')" "pool_step E (set (pool_free E es cs)) p s s'"
proof -
  let ?s1 = "with_lock p s"
  let ?s2 = "contiguous_take E b st nc (link_of p ds) ?s1"
  let ?Y = "set (pool_free E es cs) - set es"
  have E: "esz_ok E" using ok by (simp add: free_ok_def)
  have cs: "chunks_at E (mem s) (chunk_list (pools s p)) cs" using at by (simp add: pool_at_def)
  note h = cut_at_heads [OF cs c ok]
  have ceq: "cs = ds @ (b, l) # cs'" using c by (simp add: cut_at_def)
  have b: "page_ok E b" "b \<in> ?Y" "\<forall>c\<in>set ds. fst c \<in> ?Y" using h(2) by (auto simp: ceq)
  have l: "mem ?s1 (b + 8) = l" using path(2) by simp
  have step: "pool_step E ?Y p ?s1 ?s2" and same: "same_pool p ?s1 ?s2"
    using h(3) l by (auto intro!: contiguous_take_step [OF E b(1) b(2) b(3)] simp: heads_off_def)
  then have fr: "same_off E ?Y (mem s) (mem ?s2)" by (simp add: pool_step_def framed_def)
  have "chunks_at E (mem ?s2) (chunk_list (pools ?s2 p)) (ds @ cut E b l st nc @ cs')"
    using path c h by (intro contiguous_take_chunks [OF E, where s = ?s1]) (auto simp: cut_at_def ceq)
  moreover have "entries_at (mem ?s2) (entry_list (pools s p)) es"
  proof -
    have "mem ?s2 e = mem s e" if "e \<in> set es" for e
      using that ok by (intro same_offD [OF fr]) (auto simp: free_ok_def set_pool_free)
    then show ?thesis using at entries_at_cong [of es "mem ?s2" "mem s"] by (auto simp: pool_at_def)
  qed
  ultimately show "pool_at E s' p es (ds @ cut E b l st nc @ cs')"
    using same at by (auto simp: pool_at_def s' same_pool_def)
  show "pool_step E (set (pool_free E es cs)) p s s'"
    using step by (auto simp: pool_step_def framed_def s' intro: same_off_mono)
qed

lemma contiguous_pool:
  assumes at: "pool_at E s p es cs" and ok: "free_ok E (pool_free E es cs)"
    and room: "room_for E cnt al (pool_free E es cs)"
  shows "mpool_alloc_contiguous_no_fallback p cnt al s = Inr (0, s) \<and>
      (\<forall>c\<in>set cs. \<not> chunk_fits (unat al * unat E) (unat cnt * unat E) c) \<or>
    (\<exists>c\<in>set cs. chunk_fits (unat al * unat E) (unat cnt * unat E) c) \<and>
    (\<exists>ret s' cs'. mpool_alloc_contiguous_no_fallback p cnt al s = Inr (ret, s') \<and> ret \<noteq> 0 \<and>
       unat al * unat E dvd unat ret \<and> pool_at E s' p es cs' \<and>
       pool_step E (set (pool_free E es cs)) p s s' \<and>
       mset (pool_free E es cs) = mset (pool_free E es cs') + mset (chunk_pages E (ret, ret + cnt * E)))"
proof -
  let ?s = "with_lock p s" and ?A = "al * E"
  have E: "esz_ok E" and E0: "0 < unat E" using ok by (auto simp: free_ok_def esz_ok_def)
  have A: "unat ?A = unat al * unat E" using room by (intro unat_mult64) (simp add: room_for_def)
  have A': "0 < unat ?A" "unat ?A \<le> 2 ^ 62" "unat E dvd unat ?A"
    using room E0 by (simp_all add: A room_for_def)
  define F where "F \<longleftrightarrow> (\<exists>c\<in>set cs. chunk_fits (unat ?A) (unat cnt * unat E) c)"
  have un: "unlocked s p" and esz: "entry_size (pools s p) = E"
    and cs: "chunks_at E (mem s) (chunk_list (pools s p)) cs"
    and es: "entries_at (mem s) (entry_list (pools s p)) es" using at by (auto simp: pool_at_def)
  have lim: "\<forall>c\<in>set cs. unat (snd c) \<le> 2 ^ 62"
  proof
    fix c assume c: "c \<in> set cs"
    obtain b l where bl: "c = (b, l)" by (cases c)
    have "\<forall>x\<in>set (chunk_pages E (b, l)). unat x + unat E \<le> 2 ^ 62"
      using room c bl by (auto simp: room_for_def set_pool_free)
    then show "unat (snd c) \<le> 2 ^ 62"
      using chunk_limit_bound [OF _ E0, of b l] chunks_at_ok [OF cs c] bl by simp
  qed
  have eq: "mpool_alloc_contiguous_no_fallback p cnt al s =
      (case contiguous_loop E cnt ?A (link_of p []) ?s of None \<Rightarrow> Inl Diverge
       | Some (Inl e) \<Rightarrow> Inl e | Some (Inr (ret, s2)) \<Rightarrow> Inr (ret, mpool_unlock p s2))"
    using mpool_lock_eq [OF un]
    by (simp add: mpool_alloc_contiguous_no_fallback_def esz link_of_def Let_def split: option.split sum.split)
  have spec: "contiguous_loop E cnt ?A (link_of p []) ?s = Some (Inr (0, ?s)) \<and>
      (\<forall>c\<in>set cs. \<not> chunk_fits (unat ?A) (unat cnt * unat E) c) \<or>
    (\<exists>ds b l cs' st nc. [] @ cs = ds @ (b, l) # cs' \<and>
       contiguous_loop E cnt ?A (link_of p []) ?s = Some (Inr (st, contiguous_take E b st nc (link_of p ds) ?s)) \<and>
       chunks_path E (mem ?s) (chunk_list (pools ?s p)) ds b \<and> chunks_at E (mem ?s) b ((b, l) # cs') \<and>
       unat ?A dvd unat st \<and> unat E dvd unat st \<and> unat E dvd unat nc \<and> unat b \<le> unat st \<and>
       unat st < unat nc \<and> unat nc \<le> unat l \<and> unat nc = unat st + unat cnt * unat E \<and>
       F)"
    using room cs lim unfolding F_def by (intro contiguous_loop_spec [OF E A']) (auto simp: room_for_def)
  then show ?thesis
  proof
    assume "contiguous_loop E cnt ?A (link_of p []) ?s = Some (Inr (0, ?s)) \<and>
      (\<forall>c\<in>set cs. \<not> chunk_fits (unat ?A) (unat cnt * unat E) c)"
    then show ?thesis using mpool_unlock_with_lock [OF un] by (simp add: eq A)
  next
    assume "\<exists>ds b l cs' st nc. [] @ cs = ds @ (b, l) # cs' \<and>
       contiguous_loop E cnt ?A (link_of p []) ?s = Some (Inr (st, contiguous_take E b st nc (link_of p ds) ?s)) \<and>
       chunks_path E (mem ?s) (chunk_list (pools ?s p)) ds b \<and> chunks_at E (mem ?s) b ((b, l) # cs') \<and>
       unat ?A dvd unat st \<and> unat E dvd unat st \<and> unat E dvd unat nc \<and> unat b \<le> unat st \<and>
       unat st < unat nc \<and> unat nc \<le> unat l \<and> unat nc = unat st + unat cnt * unat E \<and>
       F"
    then obtain ds b l cs' st nc where r: "cs = ds @ (b, l) # cs'"
      "contiguous_loop E cnt ?A (link_of p []) ?s = Some (Inr (st, contiguous_take E b st nc (link_of p ds) ?s))"
      "chunks_path E (mem s) (chunk_list (pools ?s p)) ds b" "chunk_ok E (b, l)" "mem s (b + 8) = l"
      "chunks_at E (mem s) (mem s b) cs'" "unat ?A dvd unat st"
      "unat E dvd unat st" "unat E dvd unat nc" "unat b \<le> unat st" "unat st < unat nc" "unat nc \<le> unat l"
      "unat nc = unat st + unat cnt * unat E" F
      by auto
    let ?t = "mpool_unlock p (contiguous_take E b st nc (link_of p ds) ?s)"
    have c: "cut_at E cs ds b l cs' st nc" using r by (simp add: cut_at_def)
    have t: "pool_at E ?t p es (ds @ cut E b l st nc @ cs')" "pool_step E (set (pool_free E es cs)) p s ?t"
      using contiguous_take_pool [OF at ok c, of ?t] r by auto
    have "mset (pool_free E es cs) = mset (pool_free E es (ds @ cut E b l st nc @ cs')) + mset (chunk_pages E (st, nc))"
      using cut_pages [of E b st nc l] r E0 by (simp add: pool_free_def chunk_ok_def)
    moreover have "nc = st + cnt * E"
      using r(13) room unat_lt64 [of nc] by (simp add: unat_eq_iff64 room_for_def unat_word_ariths)
    moreover have "st \<noteq> 0" using r(4,10) by (auto simp: chunk_ok_def unat_eq_zero)
    ultimately show ?thesis
      using r(2,7,14) t by (intro disjI2 conjI exI [of _ st] exI [of _ ?t] exI [of _ "ds @ cut E b l st nc @ cs'"])
        (simp_all add: eq A F_def)
  qed
qed

end
