(* ===== verification/Mpool_Life.thy ===== *)
theory Mpool_Life
  imports Mpool_Contig
begin

text \<open>
  The pool operations that concern whole pools: contiguous allocation along the chain of
  fallbacks, the three initialisers, and \<open>mpool_fini\<close>, which gives all memory of a pool to
  its fallback. The theory ends with the interface the page-table code uses, a locale of
  allocator laws, interpreted on the model's operations.
\<close>

section \<open>Contiguous allocation along the chain\<close>

definition chain_fits ::
  "u64 \<Rightarrow> u64 \<Rightarrow> u64 \<Rightarrow> (nat \<times> u64 list \<times> (u64 \<times> u64) list) list \<Rightarrow> bool" where
  "chain_fits E cnt al xs \<longleftrightarrow>
     (\<exists>(p, es, cs)\<in>set xs. \<exists>c\<in>set cs. chunk_fits (unat al * unat E) (unat cnt * unat E) c)"

definition contiguous_result ::
  "u64 \<Rightarrow> u64 \<Rightarrow> u64 \<Rightarrow> u64 \<Rightarrow> u64 list \<Rightarrow> u64 list \<Rightarrow> bool" where
  "contiguous_result E cnt al ret fl fl' \<longleftrightarrow> ret \<noteq> 0 \<and> unat al * unat E dvd unat ret \<and>
     mset fl = mset fl' + mset (chunk_pages E (ret, ret + cnt * E))"

lemma room_for_append: "room_for E cnt al (xs @ ys) \<longleftrightarrow> room_for E cnt al xs \<and> room_for E cnt al ys"
  by (auto simp: room_for_def)

lemma contiguous_chain:
  assumes "chain_rep E s (Some p) xs" "distinct (map fst xs)" "free_ok E (chain_free E xs)"
    "room_for E cnt al (chain_free E xs)"
  shows "\<exists>ret s' xs'. mpool_alloc_contiguous_loop p cnt al s = Some (Inr (ret, s')) \<and>
     chain_rep E s' (Some p) xs' \<and> map fst xs' = map fst xs \<and>
     touches E (set (chain_free E xs)) (map fst xs) s s' \<and>
     (if chain_fits E cnt al xs then contiguous_result E cnt al ret (chain_free E xs) (chain_free E xs')
      else ret = 0 \<and> s' = s \<and> xs' = xs)"
  using assms
proof (induction xs arbitrary: p)
  case (Cons c xs)
  obtain es cs where c: "c = (p, es, cs)" using Cons.prems(1) by (cases c) auto
  have ok: "free_ok E (pool_free E es cs)" "free_ok E (chain_free E xs)"
    and dis: "set (pool_free E es cs) \<inter> set (chain_free E xs) = {}"
    and room: "room_for E cnt al (pool_free E es cs)" "room_for E cnt al (chain_free E xs)"
    using Cons.prems(3,4) by (auto simp: c free_ok_append room_for_append)
  have at: "pool_at E s p es cs" and ch: "chain_rep E s (fallback (pools s p)) xs"
    using Cons.prems(1) by (auto simp: c)
  from contiguous_pool [OF at ok(1) room(1)] show ?case
  proof (elim disjE conjE exE)
    fix ret s' cs'
    assume fits: "\<exists>c\<in>set cs. chunk_fits (unat al * unat E) (unat cnt * unat E) c"
      and r: "mpool_alloc_contiguous_no_fallback p cnt al s = Inr (ret, s')" "ret \<noteq> 0"
        "unat al * unat E dvd unat ret" "pool_at E s' p es cs'" "pool_step E (set (pool_free E es cs)) p s s'"
        "mset (pool_free E es cs) = mset (pool_free E es cs') + mset (chunk_pages E (ret, ret + cnt * E))"
    have "mpool_alloc_contiguous_loop p cnt al s = Some (Inr (ret, s'))"
      using r(1,2) by (subst mpool_alloc_contiguous_loop.simps) simp
    moreover have "chain_rep E s' (Some p) ((p, es, cs') # xs)"
      using Cons.prems ok dis by (intro chain_rep_step [OF _ _ r(5,4) ok(2)]) (auto simp: c free_ok_def)
    moreover have "touches E (set (chain_free E (c # xs))) (map fst (c # xs)) s s'"
      using pool_step_touches [OF r(5), of "[p]"] by (rule touches_mono) (auto simp: c)
    moreover have "chain_fits E cnt al (c # xs)" using fits by (simp add: chain_fits_def c)
    ultimately show ?thesis
      using r by (intro exI [of _ ret] exI [of _ s'] exI [of _ "(p, es, cs') # xs"])
        (simp add: c contiguous_result_def)
  next
    assume none: "mpool_alloc_contiguous_no_fallback p cnt al s = Inr (0, s)"
      and nofit: "\<forall>c\<in>set cs. \<not> chunk_fits (unat al * unat E) (unat cnt * unat E) c"
    then have fits: "chain_fits E cnt al (c # xs) = chain_fits E cnt al xs" by (auto simp: chain_fits_def c)
    show ?thesis
    proof (cases "fallback (pools s p)")
      case None
      with ch have "xs = []" by (cases xs) auto
      moreover have "mpool_alloc_contiguous_loop p cnt al s = Some (Inr (0, s))"
        using none None by (subst mpool_alloc_contiguous_loop.simps) simp
      ultimately show ?thesis using Cons.prems fits
        by (intro exI [of _ 0] exI [of _ s] exI [of _ "c # xs"]) (simp add: chain_fits_def)
    next
      case (Some q)
      then obtain ret s' xs' where r: "mpool_alloc_contiguous_loop q cnt al s = Some (Inr (ret, s'))"
        "chain_rep E s' (Some q) xs'" "map fst xs' = map fst xs"
        "touches E (set (chain_free E xs)) (map fst xs) s s'"
        "if chain_fits E cnt al xs then contiguous_result E cnt al ret (chain_free E xs) (chain_free E xs')
         else ret = 0 \<and> s' = s \<and> xs' = xs"
        using Cons.IH [of q] ch Cons.prems ok room by auto
      have loop: "mpool_alloc_contiguous_loop p cnt al s = Some (Inr (ret, s'))"
        using none r(1) Some by (subst mpool_alloc_contiguous_loop.simps) simp
      have p: "pools s' p = pools s p" using r(4) Cons.prems(2) by (auto simp: c touches_def)
      have "pool_at E s' p es cs"
        using r(4) ok dis by (intro pool_at_frame [OF at p _ ok(1), of "set (chain_free E xs)"])
          (auto simp: free_ok_def touches_def)
      then have "chain_rep E s' (Some p) ((p, es, cs) # xs')" using r(2) p Some by simp
      moreover have "touches E (set (chain_free E (c # xs))) (map fst (c # xs)) s s'"
        using r(4) by (rule touches_mono) (auto simp: c)
      ultimately show ?thesis
        using loop r(3,5) unfolding fits
        by (intro exI [of _ ret] exI [of _ s'] exI [of _ "(p, es, cs) # xs'"])
           (auto simp: c contiguous_result_def)
    qed
  qed
qed simp

section \<open>Initialisation\<close>

lemma mpool_init_rep:
  assumes "esz_ok E"
  shows "pool_rep E (mpool_init p E s) p [p] []"
proof -
  have "chain_rep E (mpool_init p E s) (Some p) [(p, [], [])]"
    by (simp add: mpool_init_def upd_pool_def pool_at_def unlocked_def)
  then show ?thesis
    using assms by (auto simp: pool_rep_def free_ok_def simp del: chain_rep.simps intro!: exI [of _ "[(p, [], [])]"])
qed

lemma pool_rep_entry_size: "pool_rep E s p qs fl \<Longrightarrow> entry_size (pools s p) = E"
  by (erule pool_rep_cases) (simp add: pool_at_def)

text \<open>A new pool in front of a chain shares all memory of the chain.\<close>

lemma mpool_init_with_fallback_rep:
  assumes rep: "pool_rep E s fb qs fl" and p: "p \<notin> set qs"
  shows "pool_rep E (mpool_init_with_fallback p fb s) p (p # qs) fl"
proof -
  let ?s = "mpool_init_with_fallback p fb s"
  have pools: "pools ?s q = pools s q" if "q \<noteq> p" for q
    using that by (simp add: mpool_init_with_fallback_def mpool_init_def upd_pool_def)
  have "pool_rep E ?s fb qs fl"
    using p pools by (intro pool_rep_frame [OF rep, of "{}"])
      (auto simp: framed_def mpool_init_with_fallback_def mpool_init_def upd_pool_def)
  then obtain xs where xs: "chain_rep E ?s (Some fb) xs" "map fst xs = qs" "chain_free E xs = fl"
    "distinct qs" "free_ok E fl" by (auto simp: pool_rep_def)
  have "chain_rep E ?s (Some p) ((p, [], []) # xs)"
    using xs(1) pool_rep_entry_size [OF rep]
    by (simp add: mpool_init_with_fallback_def mpool_init_def upd_pool_def pool_at_def unlocked_def)
  with xs p show ?thesis by (auto simp: pool_rep_def intro!: exI [of _ "(p, [], []) # xs"])
qed

text \<open>\<open>mpool_init_from\<close> moves everything, fallbacks included, and leaves the source empty.\<close>

lemma mpool_init_from_rep:
  assumes rep: "pool_rep E s from (from # qs) fl" and p: "p \<notin> set (from # qs)"
  shows "\<exists>s'. mpool_init_from p from s = Inr s' \<and> pool_rep E s' p (p # qs) fl \<and>
    pool_rep E s' from [from] [] \<and> touches E {} [p, from] s s'"
proof -
  from rep obtain es cs xs where q: "from # qs = from # map fst xs"
    and r: "chain_rep E s (Some from) ((from, es, cs) # xs)"
    "distinct (map fst ((from, es, cs) # xs))" "fl = pool_free E es cs @ chain_free E xs"
    "pool_at E s from es cs" "free_ok E (pool_free E es cs)" "free_ok E (chain_free E xs)"
    "set (pool_free E es cs) \<inter> set (chain_free E xs) = {}"
    by (rule pool_rep_cases)
  have un: "unlocked s from" and esz: "entry_size (pools s from) = E" using r(4) by (auto simp: pool_at_def)
  define s' where "s' = mpool_unlock from
    (upd_pool from (\<lambda>P. P\<lparr>chunk_list := 0, entry_list := 0, fallback := None\<rparr>)
      (upd_pool p (\<lambda>P. P\<lparr>chunk_list := chunk_list (pools s from), entry_list := entry_list (pools s from),
          fallback := fallback (pools s from)\<rparr>) (with_lock from (mpool_init p E s))))"
  have pf: "p \<noteq> from" using p by auto
  have "unlocked (mpool_init p E s) from" using un pf by (simp add: unlocked_def mpool_init_def upd_pool_def)
  then have run: "mpool_init_from p from s = Inr s'"
    using pf by (simp add: mpool_init_from_def esz mpool_lock_eq Let_def s'_def)
      (simp add: mpool_init_def upd_pool_def)
  have pools: "pools s' k = pools s k" if "k \<noteq> p" "k \<noteq> from" for k
    using that by (simp add: s'_def upd_pool_def mpool_init_def)
  have t: "touches E {} [p, from] s s'"
    using pools by (simp add: touches_def framed_def s'_def upd_pool_def mpool_init_def)
  have "pool_at E s' p es cs" "fallback (pools s' p) = fallback (pools s from)"
    using r(4) pf by (auto simp: pool_at_def s'_def upd_pool_def mpool_init_def unlocked_def)
  moreover have "chain_rep E s' (fallback (pools s from)) xs"
  proof (rule chain_rep_frame [of E s _ xs "{}" s'])
    show "\<forall>k\<in>set (map fst xs). pools s' k = pools s k" using r(2) q p by (intro ballI pools) auto
  qed (use r t in \<open>auto simp: touches_def\<close>)
  ultimately have "chain_rep E s' (Some p) ((p, es, cs) # xs)" by simp
  moreover have "chain_rep E s' (Some from) [(from, [], [])]"
    using esz pf by (simp add: pool_at_def s'_def upd_pool_def mpool_init_def unlocked_def)
       (simp add: mpool_unlock_def upd_pool_def)
  ultimately show ?thesis
    using run t rep r q p unfolding pool_rep_def
    by (intro exI [of _ s'] conjI exI [of _ "(p, es, cs) # xs"] exI [of _ "[(from, [], [])]"])
       (auto simp: free_ok_def)
qed

section \<open>Finalisation\<close>

lemma entries_at_touch:
  assumes "entries_at m a es" "same_off E X m m'" "X \<inter> set es = {}"
    "\<forall>x\<in>X. page_ok E x" "\<forall>x\<in>set es. page_ok E x"
  shows "entries_at m' a es"
  using assms entries_at_cong [of es m' m a] same_offD [OF assms(2)] by (metis disjoint_iff in_page_self)

lemma chunks_at_touch:
  assumes cs: "chunks_at E m a cs" and off: "same_off E X m m'" and ok: "free_ok E (pool_free E [] cs)"
    and X: "X \<inter> set (pool_free E [] cs) = {}" "\<forall>x\<in>X. page_ok E x"
  shows "chunks_at E m' a cs"
proof -
  have E: "esz_ok E" using ok by (simp add: free_ok_def)
  have "m' b = m b \<and> m' (b + 8) = m (b + 8)" if bl: "(b, l) \<in> set cs" for b l
  proof -
    have "b \<in> set (chunk_pages E (b, l))"
      using chunks_at_ok [OF cs bl] by (rule chunk_begin_page [OF _ esz_okD(1) [OF E]])
    then have b: "b \<in> set (pool_free E [] cs)" using bl by (auto simp: set_pool_free)
    then have ok: "page_ok E b" "b \<notin> X" using ok X by (auto simp: free_ok_def)
    show ?thesis
      using same_offD [OF off ok X(2)] in_page_8 [OF E ok(1)] by simp
  qed
  then show ?thesis using cs chunks_at_cong [of cs m' m] by blast
qed

lemma fini_entries:
  assumes "entries_at (mem s) a es" "pool_rep E s fb qs fl" "free_ok E (es @ fl)"
  shows "\<exists>s'. mpool_fini_entries fb a s = Some (Inr s') \<and> pool_rep E s' fb qs (rev es @ fl) \<and>
    touches E (set es) qs s s'"
  using assms
proof (induction es arbitrary: a s fl)
  case Nil
  then show ?case by (subst mpool_fini_entries.simps) simp
next
  case (Cons e es)
  have ok: "page_ok E e" "e \<notin> set fl" "e \<notin> set es" "\<forall>x\<in>set es. page_ok E x"
    using Cons.prems(3) by (auto simp: free_ok_def)
  obtain s1 where s1: "mpool_free fb e s = Inr s1" "pool_rep E s1 fb qs (e # fl)" "touches E {e} qs s s1"
    using mpool_free_rep [OF Cons.prems(2) ok(1,2)] by blast
  have "entries_at (mem s1) (mem s e) es"
  proof (rule entries_at_touch)
    show "same_off E {e} (mem s) (mem s1)" using s1(3) by (simp add: touches_def framed_def)
  qed (use Cons.prems(1) ok in auto)
  moreover have "free_ok E (es @ e # fl)" using Cons.prems(3) by (auto simp: free_ok_def)
  ultimately obtain s2 where s2: "mpool_fini_entries fb (mem s e) s1 = Some (Inr s2)"
    "pool_rep E s2 fb qs (rev es @ e # fl)" "touches E (set es) qs s1 s2"
    using Cons.IH [OF _ s1(2)] by blast
  have "mpool_fini_entries fb a s = Some (Inr s2)"
    using Cons.prems(1) s1(1) s2(1) by (subst mpool_fini_entries.simps) auto
  moreover have "touches E (set (e # es)) qs s s2"
    by (rule touches_trans [OF touches_mono [OF s1(3)] touches_mono [OF s2(3)]]) auto
  ultimately show ?case using s2(2) by auto
qed

text \<open>Rounding leaves an aligned range as it is. The last bytes of the address space are not
  usable: the code computes \<open>limit + entry_size - 1\<close> when it rounds.\<close>

lemma range_pages_chunk:
  assumes c: "chunk_ok E (b, l)" and E: "0 < unat E" and lim: "unat l + unat E < 18446744073709551616"
  shows "range_pages E b (l - b) = chunk_pages E (b, l)" "unat b + unat E + unat (l - b) < 18446744073709551616"
proof -
  have u: "unat (l - b) = unat l - unat b" using c by (intro unat_sub64) (simp add: chunk_ok_def)
  show lt: "unat b + unat E + unat (l - b) < 18446744073709551616" using c lim by (simp add: u chunk_ok_def)
  obtain k j where k: "unat b = unat E * k" "unat l = unat E * j" using c by (auto simp: chunk_ok_def elim!: dvdE)
  have "(unat E * k + unat E - 1) div unat E = k"
    using E by (intro div_nat_eqI) (auto simp: algebra_simps)
  then have "(b + E - 1) div E * E = b"
    using unat_round(1) [OF E lt] by (simp add: unat_eq_iff64 k mult.commute)
  moreover have "(b + (l - b)) div E * E = l"
  proof -
    have "(unat b + unat (l - b)) div unat E = j" using c E by (simp add: u chunk_ok_def k)
    then show ?thesis using unat_round(2) [OF E lt] by (simp add: unat_eq_iff64 k mult.commute)
  qed
  ultimately show "range_pages E b (l - b) = chunk_pages E (b, l)" by (simp add: range_pages_def)
qed

definition low_pages :: "u64 \<Rightarrow> u64 list \<Rightarrow> bool" where
  "low_pages E fl \<longleftrightarrow> (\<forall>x\<in>set fl. unat x + 2 * unat E < 18446744073709551616)"

lemma low_pages_chunk:
  assumes "chunk_ok E (b, l)" "0 < unat E" "low_pages E (chunk_pages E (b, l))"
  shows "unat l + unat E < 18446744073709551616"
proof -
  have "unat l \<le> 18446744073709551615 - unat E"
    using assms by (intro chunk_limit_bound [OF assms(1,2)]) (auto simp: low_pages_def)
  moreover have "unat E \<le> unat l" using unat_chunk_begin_plus [OF assms(1,2)] by linarith
  ultimately show ?thesis using assms(2) by linarith
qed

lemma fini_chunks:
  assumes "chunks_at E (mem s) a cs" "pool_rep E s fb qs fl" "free_ok E (pool_free E [] cs @ fl)"
    "low_pages E (pool_free E [] cs)"
  shows "\<exists>s' fl'. mpool_fini_chunks fb a s = Some (Inr s') \<and> pool_rep E s' fb qs fl' \<and>
    mset fl' = mset (pool_free E [] cs) + mset fl \<and> touches E (set (pool_free E [] cs)) qs s s'"
  using assms
proof (induction cs arbitrary: a s fl)
  case Nil
  then show ?case by (subst mpool_fini_chunks.simps) auto
next
  case (Cons c cs)
  obtain b l where c: "c = (b, l)" by (cases c)
  have E: "0 < unat E" using Cons.prems(3) by (auto simp: free_ok_def esz_ok_def)
  have b: "a = b" "b \<noteq> 0" "chunk_ok E (b, l)" "mem s (b + 8) = l" "chunks_at E (mem s) (mem s b) cs"
    using Cons.prems(1) by (auto simp: c chunk_ok_def)
  have "low_pages E (chunk_pages E (b, l))" using Cons.prems(4) by (simp add: low_pages_def c)
  note rg = range_pages_chunk [OF b(3) E low_pages_chunk [OF b(3) E this]]
  let ?P = "chunk_pages E (b, l)"
  have d: "set ?P \<inter> set fl = {}" "set ?P \<inter> set (pool_free E [] cs) = {}" "\<forall>x\<in>set ?P. page_ok E x"
    using Cons.prems(3) by (auto simp: c free_ok_def)
  obtain s1 fl1 fl2 ok where s1: "mpool_add_chunk fb b (l - b) s = Inr (ok, s1)"
    "fl = fl1 @ fl2" "pool_rep E s1 fb qs (fl1 @ ?P @ fl2)" "touches E (set ?P) qs s s1"
    using mpool_add_chunk_rep [OF Cons.prems(2) b(2) rg(2)] d(1) unfolding rg(1) by blast
  have "chunks_at E (mem s1) (mem s b) cs"
    using Cons.prems(3) d s1(4)
    by (rule_tac chunks_at_touch [OF b(5), of "set ?P"]) (auto simp: c free_ok_append touches_def framed_def)
  moreover have "free_ok E (pool_free E [] cs @ fl1 @ ?P @ fl2)"
    using Cons.prems(3) s1(2) by (auto simp: c free_ok_def)
  moreover have "low_pages E (pool_free E [] cs)" using Cons.prems(4) by (simp add: c low_pages_def)
  ultimately obtain s2 fl' where s2: "mpool_fini_chunks fb (mem s b) s1 = Some (Inr s2)"
    "pool_rep E s2 fb qs fl'" "mset fl' = mset (pool_free E [] cs) + mset (fl1 @ ?P @ fl2)"
    "touches E (set (pool_free E [] cs)) qs s1 s2"
    using Cons.IH [OF _ s1(3)] by blast
  have "mpool_fini_chunks fb a s = Some (Inr s2)"
    using b s1(1) s2(1) by (subst mpool_fini_chunks.simps) simp
  moreover have "touches E (set (pool_free E [] (c # cs))) qs s s2"
    by (rule touches_trans [OF touches_mono [OF s1(4)] touches_mono [OF s2(4)]]) (auto simp: c)
  ultimately show ?case using s2(2,3) s1(2) by (intro exI [of _ s2] exI [of _ fl']) (simp add: c)
qed

lemma mpool_fini_none: "fallback (pools s p) = None \<Longrightarrow> mpool_fini p s = Inr s"
  by (simp add: mpool_fini_def)

lemma pool_free_split: "pool_free E es cs = es @ pool_free E [] cs"
  by (simp add: pool_free_def)

lemma mpool_fini_rep:
  assumes rep: "pool_rep E s p (p # qs) fl" and fb: "fallback (pools s p) = Some fb"
    and low: "low_pages E fl"
  shows "\<exists>s' fl'. mpool_fini p s = Inr s' \<and> pool_rep E s' fb qs fl' \<and> mset fl' = mset fl \<and>
    pool_rep E s' p [p] [] \<and> touches E (set fl) (p # qs) s s'"
proof -
  from rep obtain es cs xs where q: "p # qs = p # map fst xs"
    and r: "chain_rep E s (Some p) ((p, es, cs) # xs)"
    "distinct (map fst ((p, es, cs) # xs))" "fl = pool_free E es cs @ chain_free E xs"
    "pool_at E s p es cs" "free_ok E (pool_free E es cs)" "free_ok E (chain_free E xs)"
    "set (pool_free E es cs) \<inter> set (chain_free E xs) = {}"
    by (rule pool_rep_cases)
  let ?s1 = "with_lock p s"
  have pq: "p \<notin> set qs" and un: "unlocked s p" and flok: "free_ok E fl"
    using r(2,4) q rep by (auto simp: pool_at_def pool_rep_def)
  have "pool_rep E s fb qs (chain_free E xs)" using r q fb by (auto simp: pool_rep_def)
  then have rep1: "pool_rep E ?s1 fb qs (chain_free E xs)"
  proof (rule pool_rep_frame [where X = "{}"])
    show "\<forall>k\<in>set qs. pools ?s1 k = pools s k" using pq by (intro ballI with_lock_simps) auto
  qed (auto simp: framed_def)
  have ok1: "free_ok E (es @ chain_free E xs)" using flok r(3) by (auto simp: free_ok_def pool_free_split [of E es])
  obtain s2 where s2: "mpool_fini_entries fb (entry_list (pools s p)) ?s1 = Some (Inr s2)"
    "pool_rep E s2 fb qs (rev es @ chain_free E xs)" "touches E (set es) qs ?s1 s2"
    using fini_entries [OF _ rep1 ok1, of "entry_list (pools s p)"] r(4) by (auto simp: pool_at_def)
  have p2: "pools s2 p = pools ?s1 p" using s2(3) pq by (simp add: touches_def)
  have d: "set es \<inter> set (pool_free E [] cs) = {}" "free_ok E (pool_free E [] cs)" "\<forall>x\<in>set es. page_ok E x"
    using r(5) by (auto simp: pool_free_split [of E es] free_ok_def)
  have "chunks_at E (mem s2) (chunk_list (pools s p)) cs"
    using r(4) s2(3) by (rule_tac chunks_at_touch [OF _ _ d(2,1,3)]) (auto simp: pool_at_def touches_def framed_def)
  moreover have "free_ok E (pool_free E [] cs @ rev es @ chain_free E xs)" "low_pages E (pool_free E [] cs)"
    using flok low r(3) by (auto simp: pool_free_split [of E es] free_ok_def low_pages_def)
  ultimately obtain s3 fl' where s3: "mpool_fini_chunks fb (chunk_list (pools s p)) s2 = Some (Inr s3)"
    "pool_rep E s3 fb qs fl'" "mset fl' = mset (pool_free E [] cs) + mset (rev es @ chain_free E xs)"
    "touches E (set (pool_free E [] cs)) qs s2 s3"
    using fini_chunks [OF _ s2(2)] by blast
  have p3: "pools s3 p = pools ?s1 p" using s3(4) p2 pq by (simp add: touches_def)
  define s' where "s' = mpool_unlock p (upd_pool p (\<lambda>P. P\<lparr>chunk_list := 0, entry_list := 0, fallback := None\<rparr>) s3)"
  have run: "mpool_fini p s = Inr s'"
    using s2(1) s3(1) p2 by (simp add: mpool_fini_def fb mpool_lock_eq [OF un] s'_def)
  have frame: "touches E {} [p] s3 s'" by (auto simp: touches_def framed_def s'_def upd_pool_def)
  have "pool_rep E s' fb qs fl'"
    using pq frame by (intro pool_rep_frame [OF s3(2)]) (auto simp: touches_def)
  moreover have "mset fl' = mset fl" using s3(3) r(3) by (simp add: pool_free_split [of E es])
  moreover have "chain_rep E s' (Some p) [(p, [], [])]"
    using r(4) p3 by (simp add: s'_def pool_at_def upd_pool_def)
  then have "pool_rep E s' p [p] []"
    using flok unfolding pool_rep_def by (intro conjI exI [of _ "[(p, [], [])]"]) (auto simp: free_ok_def)
  moreover have "touches E (set fl) (p # qs) s ?s1" by (simp add: touches_def framed_def)
  then have "touches E (set fl) (p # qs) s s'"
    by (rule touches_trans [OF touches_trans [OF touches_trans [OF _ touches_mono [OF s2(3)]]
          touches_mono [OF s3(4)]] touches_mono [OF frame]]) (auto simp: r(3) set_pool_free)
  ultimately show ?thesis using run by blast
qed

section \<open>The interface of the page allocator\<close>

text \<open>What the page-table code relies on. \<open>holds s fl\<close>: the free pages of state \<open>s\<close> are \<open>fl\<close>;
  \<open>kept X s s'\<close>: between \<open>s\<close> and \<open>s'\<close> nothing outside the pages \<open>X\<close> was written.\<close>

locale page_allocator =
  fixes alloc :: "'s \<Rightarrow> (u64 \<times> 's) res" and free :: "u64 \<Rightarrow> 's \<Rightarrow> 's res"
    and holds :: "'s \<Rightarrow> u64 list \<Rightarrow> bool" and page :: "u64 \<Rightarrow> bool"
    and kept :: "u64 set \<Rightarrow> 's \<Rightarrow> 's \<Rightarrow> bool"
  assumes alloc_none: "holds s [] \<Longrightarrow> alloc s = Inr (0, s)"
    and alloc_some: "holds s (x # fl) \<Longrightarrow> \<exists>s'. alloc s = Inr (x, s') \<and> holds s' fl \<and> kept (set (x # fl)) s s'"
    and free_page: "holds s fl \<Longrightarrow> page x \<Longrightarrow> x \<notin> set fl \<Longrightarrow>
      \<exists>s'. free x s = Inr s' \<and> holds s' (x # fl) \<and> kept {x} s s'"
    and holds_pages: "holds s fl \<Longrightarrow> distinct fl \<and> (\<forall>x\<in>set fl. page x)"
    and page_nonnull: "page x \<Longrightarrow> x \<noteq> 0"
    and kept_refl: "kept X s s"
    and kept_trans: "kept X s s1 \<Longrightarrow> kept X s1 s2 \<Longrightarrow> kept X s s2"
    and kept_mono: "kept X s s' \<Longrightarrow> X \<subseteq> Y \<Longrightarrow> kept Y s s'"
begin

lemma alloc_null_iff:
  assumes "holds s fl"
  shows "(\<exists>s'. alloc s = Inr (0, s')) \<longleftrightarrow> fl = []"
proof (cases fl)
  case (Cons x fl')
  then obtain s' where "alloc s = Inr (x, s')" using alloc_some assms by blast
  moreover have "x \<noteq> 0" using holds_pages [OF assms] page_nonnull Cons by auto
  ultimately show ?thesis using Cons by simp
qed (use alloc_none assms in auto)

text \<open>Giving a page back undoes its allocation.\<close>

lemma alloc_free:
  assumes "holds s (x # fl)"
  shows "\<exists>s' s''. alloc s = Inr (x, s') \<and> free x s' = Inr s'' \<and> holds s'' (x # fl) \<and> kept (set (x # fl)) s s''"
proof -
  obtain s' where s': "alloc s = Inr (x, s')" "holds s' fl" "kept (set (x # fl)) s s'"
    using alloc_some [OF assms] by blast
  have "page x" "x \<notin> set fl" using holds_pages [OF assms] by auto
  then obtain s'' where s'': "free x s' = Inr s''" "holds s'' (x # fl)" "kept {x} s' s''"
    using free_page [OF s'(2)] by blast
  have "kept (set (x # fl)) s s''" by (rule kept_trans [OF s'(3) kept_mono [OF s''(3)]]) auto
  with s' s'' show ?thesis by blast
qed

end

interpretation mp: page_allocator "mpool_alloc p" "mpool_free p" "\<lambda>s. pool_rep E s p qs" "page_ok E"
    "\<lambda>X. touches E X qs" for p E qs
proof
  show "mpool_alloc p s = Inr (0, s)" if "pool_rep E s p qs []" for s :: "'a machine_scheme"
    using mpool_alloc_rep [OF that] by simp
  show "\<exists>s'. mpool_alloc p s = Inr (x, s') \<and> pool_rep E s' p qs fl \<and> touches E (set (x # fl)) qs s s'"
    if "pool_rep E s p qs (x # fl)" for s :: "'a machine_scheme" and x fl
    using mpool_alloc_rep [OF that] by simp
  show "\<exists>s'. mpool_free p x s = Inr s' \<and> pool_rep E s' p qs (x # fl) \<and> touches E {x} qs s s'"
    if "pool_rep E s p qs fl" "page_ok E x" "x \<notin> set fl" for s :: "'a machine_scheme" and x fl
    by (rule mpool_free_rep [OF that])
  show "touches E Y qs s s'" if "touches E X qs s s'" "X \<subseteq> Y" for X Y and s s' :: "'a machine_scheme"
    using that by (rule touches_mono) simp
  show "touches E X qs s s2" if "touches E X qs s s1" "touches E X qs s1 s2"
    for X and s s1 s2 :: "'a machine_scheme"
    using that by (rule touches_trans)
qed (simp_all add: pool_rep_def free_ok_def page_ok_def)

end
