(* ===== verification/Mpool_Contract.thy ===== *)
theory Mpool_Contract
  imports Mpool_Life
begin

text \<open>
  The contract of \<^verbatim>\<open>src/mpool.c\<close>, property by property, each with an instance on a small
  concrete pool: pool 0 holds one freed entry and a chunk of two entries, its fallback pool 1
  a chunk of one entry.
\<close>

definition demo_mem :: "u64 \<Rightarrow> u64" where
  "demo_mem a = (if a = 0x1008 then 0x3000 else if a = 0x8008 then 0x9000 else 0)"

definition demo_pools :: "nat \<Rightarrow> mpool" where
  "demo_pools p =
     (if p = 0 then \<lparr>mp_lock = False, entry_size = 0x1000, chunk_list = 0x1000, entry_list = 0x5000,
                     fallback = Some 1\<rparr>
      else if p = 1 then \<lparr>mp_lock = False, entry_size = 0x1000, chunk_list = 0x8000, entry_list = 0,
                     fallback = None\<rparr>
      else \<lparr>mp_lock = False, entry_size = 0x1000, chunk_list = 0, entry_list = 0, fallback = None\<rparr>)"

definition demo_machine :: machine where
  "demo_machine = \<lparr>mem = demo_mem, pools = demo_pools, mpool_locks_enabled = True\<rparr>"

definition demo_chain :: "(nat \<times> u64 list \<times> (u64 \<times> u64) list) list" where
  "demo_chain = [(0, [0x5000], [(0x1000, 0x3000)]), (1, [], [(0x8000, 0x9000)])]"

lemma demo_chain_free: "chain_free 0x1000 demo_chain = [0x5000, 0x1000, 0x2000, 0x8000]"
  by (simp add: demo_chain_def pool_free_def chunk_pages_def upt_rec)

lemma demo_chain_rep: "chain_rep 0x1000 demo_machine (Some 0) demo_chain"
  by (simp add: demo_chain_def demo_machine_def demo_pools_def demo_mem_def pool_at_def unlocked_def chunk_ok_def)

lemma demo_free_ok: "free_ok 0x1000 [0x5000, 0x1000, 0x2000, 0x8000]"
  by (simp add: free_ok_def esz_ok_def page_ok_def)

lemma demo_pool_rep: "pool_rep 0x1000 demo_machine 0 [0, 1] [0x5000, 0x1000, 0x2000, 0x8000]"
  unfolding pool_rep_def using demo_chain_rep demo_chain_free demo_free_ok
  by (auto simp: demo_chain_def intro!: exI [of _ demo_chain])

section \<open>Single entries\<close>

text \<open>C17. \<open>mpool_alloc\<close> returns the first free entry of the pool and its fallbacks, removes exactly
  that entry, writes nothing outside free memory, and returns null, with no effect, exactly when
  no entry is left. It takes every lock it needs and gives it back.\<close>

theorem mpool_alloc_refines:
  assumes "pool_rep E s p qs fl"
  shows "(fl = [] \<longrightarrow> mpool_alloc p s = Inr (0, s)) \<and>
    (\<forall>x fl'. fl = x # fl' \<longrightarrow> x \<noteq> 0 \<and>
       (\<exists>s'. mpool_alloc p s = Inr (x, s') \<and> pool_rep E s' p qs fl' \<and> touches E (set fl) qs s s'))"
  using assms mp.alloc_none [of E s p qs] mp.alloc_some [of E s p qs] mp.holds_pages [OF assms] mp.page_nonnull
  by fastforce

theorem mpool_alloc_refines_witness:
  "\<exists>s'. mpool_alloc 0 demo_machine = Inr (0x5000, s') \<and> pool_rep 0x1000 s' 0 [0, 1] [0x1000, 0x2000, 0x8000]"
  using mpool_alloc_refines [OF demo_pool_rep] by blast

text \<open>C19. An entry that was given back with \<open>mpool_free\<close> is the next one \<open>mpool_alloc\<close> returns, and
  the pair leaves the free entries as they were.\<close>

theorem mpool_free_alloc:
  assumes "pool_rep E s p qs fl" "page_ok E x" "x \<notin> set fl"
  shows "\<exists>s' s''. mpool_free p x s = Inr s' \<and> pool_rep E s' p qs (x # fl) \<and>
    mpool_alloc p s' = Inr (x, s'') \<and> pool_rep E s'' p qs fl \<and> touches E (insert x (set fl)) qs s s''"
proof -
  obtain s' where s': "mpool_free p x s = Inr s'" "pool_rep E s' p qs (x # fl)" "touches E {x} qs s s'"
    using mp.free_page [OF assms] by blast
  obtain s'' where s'': "mpool_alloc p s' = Inr (x, s'')" "pool_rep E s'' p qs fl" "touches E (set (x # fl)) qs s' s''"
    using mp.alloc_some [OF s'(2)] by blast
  have "touches E (insert x (set fl)) qs s s''"
    by (rule mp.kept_trans [OF mp.kept_mono [OF s'(3)] mp.kept_mono [OF s''(3)]]) auto
  with s' s'' show ?thesis by blast
qed

theorem mpool_free_alloc_witness:
  "\<exists>s' s''. mpool_free 0 0x7000 demo_machine = Inr s' \<and> mpool_alloc 0 s' = Inr (0x7000, s'') \<and>
    pool_rep 0x1000 s'' 0 [0, 1] [0x5000, 0x1000, 0x2000, 0x8000]"
  using mpool_free_alloc [OF demo_pool_rep, where x = "0x7000"] by (simp add: page_ok_def) blast

section \<open>Ranges\<close>

text \<open>C21. \<open>mpool_add_chunk\<close> adds exactly the aligned entries that lie completely in the range it is
  given, and reports whether there was one.\<close>

theorem mpool_add_chunk_entries:
  assumes rep: "pool_rep E s p qs fl" and b: "begin \<noteq> 0"
    and lt: "unat begin + unat E + unat sz < 2 ^ 64"
    and dis: "\<forall>x\<in>set fl. \<not> (unat begin \<le> unat x \<and> unat x + unat E \<le> unat begin + unat sz)"
  shows "\<exists>ok s' fl'. mpool_add_chunk p begin sz s = Inr (ok, s') \<and> pool_rep E s' p qs fl' \<and>
    (\<forall>x. x \<in> set fl' \<longleftrightarrow> x \<in> set fl \<or>
       unat E dvd unat x \<and> unat begin \<le> unat x \<and> unat x + unat E \<le> unat begin + unat sz) \<and>
    (ok \<longleftrightarrow> set fl \<subset> set fl')"
proof -
  have E0: "0 < unat E" using rep by (simp add: pool_rep_def free_ok_def esz_ok_def)
  have lt': "unat begin + unat E + unat sz < 18446744073709551616" using lt by simp
  note mem = set_range_pages [OF E0 lt']
  have dis': "set (range_pages E begin sz) \<inter> set fl = {}" using dis mem by blast
  obtain s' fl1 fl2 where r: "mpool_add_chunk p begin sz s = Inr (range_pages E begin sz \<noteq> [], s')"
    "fl = fl1 @ fl2" "pool_rep E s' p qs (fl1 @ range_pages E begin sz @ fl2)"
    using mpool_add_chunk_rep [OF rep b lt' dis'] by blast
  have "range_pages E begin sz \<noteq> [] \<longleftrightarrow> set fl \<subset> set (fl1 @ range_pages E begin sz @ fl2)"
    using dis' r(2) by (cases "range_pages E begin sz") auto
  with r mem show ?thesis
    by (intro exI [of _ "range_pages E begin sz \<noteq> []"] exI [of _ s'] exI [of _ "fl1 @ range_pages E begin sz @ fl2"]) auto
qed

theorem mpool_add_chunk_entries_witness:
  "\<exists>ok s' fl'. mpool_add_chunk 0 0xa800 0x2000 demo_machine = Inr (ok, s') \<and>
    pool_rep 0x1000 s' 0 [0, 1] fl' \<and> 0xb000 \<in> set fl' \<and> 0xa000 \<notin> set fl' \<and> 0xc000 \<notin> set fl'"
proof -
  obtain ok s' fl' where "mpool_add_chunk 0 0xa800 0x2000 demo_machine = Inr (ok, s')"
    "pool_rep 0x1000 s' 0 [0, 1] fl'"
    "\<forall>x. x \<in> set fl' \<longleftrightarrow> x \<in> set [0x5000, 0x1000, 0x2000, 0x8000] \<or>
       unat (0x1000 :: u64) dvd unat x \<and> unat (0xa800 :: u64) \<le> unat x \<and>
       unat x + unat (0x1000 :: u64) \<le> unat (0xa800 :: u64) + unat (0x2000 :: u64)"
    using mpool_add_chunk_entries [OF demo_pool_rep, of "0xa800" "0x2000"] by auto
  then show ?thesis by (intro exI [of _ ok] exI [of _ s'] exI [of _ fl']) simp
qed

text \<open>C23. \<open>mpool_alloc_contiguous\<close> succeeds exactly when some chunk along the chain has room for the
  aligned range; it then returns an aligned non-null address and takes exactly the entries of
  the range out of the pool. Otherwise it returns null and changes nothing.\<close>

theorem mpool_alloc_contiguous_correct:
  assumes rep: "chain_rep E s (Some p) xs" "distinct (map fst xs)" "free_ok E (chain_free E xs)"
    and room: "room_for E cnt al (chain_free E xs)"
  shows "\<exists>ret s' fl'. mpool_alloc_contiguous p cnt al s = Inr (ret, s') \<and>
     pool_rep E s' p (map fst xs) fl' \<and> touches E (set (chain_free E xs)) (map fst xs) s s' \<and>
     (if chain_fits E cnt al xs then contiguous_result E cnt al ret (chain_free E xs) fl'
      else ret = 0 \<and> s' = s \<and> fl' = chain_free E xs)"
proof -
  obtain ret s' xs' where r: "mpool_alloc_contiguous_loop p cnt al s = Some (Inr (ret, s'))"
    "chain_rep E s' (Some p) xs'" "map fst xs' = map fst xs"
    "touches E (set (chain_free E xs)) (map fst xs) s s'"
    "if chain_fits E cnt al xs then contiguous_result E cnt al ret (chain_free E xs) (chain_free E xs')
     else ret = 0 \<and> s' = s \<and> xs' = xs"
    using contiguous_chain [OF rep room] by blast
  have sub: "set (chain_free E xs') \<subseteq> set (chain_free E xs) \<and> distinct (chain_free E xs')"
  proof (cases "chain_fits E cnt al xs")
    case True
    then have m: "mset (chain_free E xs) = mset (chain_free E xs') + mset (chunk_pages E (ret, ret + cnt * E))"
      using r(5) by (simp add: contiguous_result_def)
    then have "mset (chain_free E xs) = mset (chain_free E xs' @ chunk_pages E (ret, ret + cnt * E))" by simp
    with rep(3) show ?thesis
      by (metis Un_iff distinct_append free_ok_def mset_eq_imp_distinct_iff mset_eq_setD set_append subsetI)
  qed (use r(5) rep(3) in \<open>auto simp: free_ok_def\<close>)
  then have "pool_rep E s' p (map fst xs) (chain_free E xs')"
    using r(2,3) rep(2,3) by (auto simp: pool_rep_def free_ok_def)
  then show ?thesis
    using r by (intro exI [of _ ret] exI [of _ s'] exI [of _ "chain_free E xs'"])
      (auto simp: mpool_alloc_contiguous_def)
qed

theorem mpool_alloc_contiguous_correct_witness:
  "\<exists>ret s'. mpool_alloc_contiguous 0 2 1 demo_machine = Inr (ret, s') \<and> ret \<noteq> 0 \<and>
     (0x1000 :: nat) dvd unat ret"
proof -
  have "room_for 0x1000 2 1 (chain_free 0x1000 demo_chain)" unfolding demo_chain_free by (simp add: room_for_def)
  moreover have "chain_fits 0x1000 2 1 demo_chain" by (simp add: demo_chain_def chain_fits_def chunk_fits_def)
  moreover have "distinct (map fst demo_chain)" by (simp add: demo_chain_def)
  ultimately obtain ret s' fl' where "mpool_alloc_contiguous 0 2 1 demo_machine = Inr (ret, s')"
    "contiguous_result 0x1000 2 1 ret (chain_free 0x1000 demo_chain) fl'"
    using mpool_alloc_contiguous_correct [OF demo_chain_rep, of 2 1] demo_free_ok
    unfolding demo_chain_free by auto
  then show ?thesis by (auto simp: contiguous_result_def)
qed

section \<open>Moving memory between pools\<close>

text \<open>C25. \<open>mpool_fini\<close> hands all free memory of a pool to its fallback and leaves the pool empty: no
  entry is lost or duplicated.\<close>

theorem mpool_fini_conserves:
  assumes "pool_rep E s p (p # qs) fl" "fallback (pools s p) = Some fb" "low_pages E fl"
  shows "\<exists>s' fl'. mpool_fini p s = Inr s' \<and> pool_rep E s' fb qs fl' \<and> mset fl' = mset fl \<and>
    pool_rep E s' p [p] [] \<and> touches E (set fl) (p # qs) s s'"
  by (rule mpool_fini_rep [OF assms])

theorem mpool_fini_conserves_witness:
  "\<exists>s' fl'. mpool_fini 0 demo_machine = Inr s' \<and> pool_rep 0x1000 s' 1 [1] fl' \<and>
    mset fl' = {#0x5000, 0x1000, 0x2000, 0x8000#} \<and> pool_rep 0x1000 s' 0 [0] []"
proof -
  have "fallback (pools demo_machine 0) = Some 1" by (simp add: demo_machine_def demo_pools_def)
  moreover have "low_pages 0x1000 [0x5000, 0x1000, 0x2000, 0x8000]" by (simp add: low_pages_def)
  ultimately obtain s' fl' where "mpool_fini 0 demo_machine = Inr s'" "pool_rep 0x1000 s' 1 [1] fl'"
    "mset fl' = mset [0x5000, 0x1000, 0x2000, 0x8000]" "pool_rep 0x1000 s' 0 [0] []"
    using mpool_fini_conserves [OF demo_pool_rep] by blast
  then show ?thesis by (intro exI [of _ s'] exI [of _ fl']) simp
qed

text \<open>C27. \<open>mpool_init_from\<close> moves all memory and the fallbacks of a pool to a new pool in one locked
  step, without writing to memory.\<close>

theorem mpool_init_from_moves:
  assumes "pool_rep E s from (from # qs) fl" "p \<notin> set (from # qs)"
  shows "\<exists>s'. mpool_init_from p from s = Inr s' \<and> pool_rep E s' p (p # qs) fl \<and>
    pool_rep E s' from [from] [] \<and> mem s' = mem s"
proof -
  obtain s' where s': "mpool_init_from p from s = Inr s'" "pool_rep E s' p (p # qs) fl"
    "pool_rep E s' from [from] []" "touches E {} [p, from] s s'"
    using mpool_init_from_rep [OF assms] by blast
  have "mem s' = mem s" using s'(4) by (auto simp: touches_def framed_def same_off_def)
  with s' show ?thesis by blast
qed

theorem mpool_init_from_moves_witness:
  "\<exists>s'. mpool_init_from 7 0 demo_machine = Inr s' \<and>
    pool_rep 0x1000 s' 7 [7, 1] [0x5000, 0x1000, 0x2000, 0x8000]"
proof -
  have "\<exists>s'. mpool_init_from 7 0 demo_machine = Inr s' \<and>
    pool_rep 0x1000 s' 7 [7, 1] [0x5000, 0x1000, 0x2000, 0x8000] \<and>
    pool_rep 0x1000 s' 0 [0] [] \<and> mem s' = mem demo_machine"
    by (rule mpool_init_from_moves [OF demo_pool_rep]) simp
  then show ?thesis by blast
qed

end
