(* ===== verification/Arch_Mm.thy ===== *)
theory Arch_Mm
  imports Prelude
begin

text \<open>
  The architecture layer of memory management, \<^verbatim>\<open>src/arch/aarch64/mm.c\<close>: the encoding of
  page-table entries, the translation between mapping modes and attribute bits, TLB and
  cache maintenance, and the configuration computed by \<open>arch_mm_init\<close>. Addresses of the
  three address spaces (\<^verbatim>\<open>paddr_t\<close>, \<^verbatim>\<open>ipaddr_t\<close>, \<^verbatim>\<open>vaddr_t\<close>) are 64-bit words, as the
  structures of \<^verbatim>\<open>inc/pg/addr.h\<close> are. System registers that the code reads are arguments.
\<close>

unbundle bit_operations_syntax

section \<open>Constants\<close>

definition PAGE_BITS :: nat where "PAGE_BITS = 12"

definition PAGE_LEVEL_BITS :: nat where "PAGE_LEVEL_BITS = 9"

definition PAGE_SIZE :: u64 where "PAGE_SIZE = push_bit PAGE_BITS 1"

definition MM_PTE_PER_PAGE :: nat where "MM_PTE_PER_PAGE = 512"

definition PTE_VALID :: u64 where "PTE_VALID = push_bit 0 1"

definition PTE_LEVEL0_BLOCK :: u64 where "PTE_LEVEL0_BLOCK = push_bit 1 1"

definition PTE_TABLE :: u64 where "PTE_TABLE = push_bit 1 1"

definition STAGE2_SW_OWNED :: u64 where "STAGE2_SW_OWNED = push_bit 55 1"

definition STAGE2_SW_EXCLUSIVE :: u64 where "STAGE2_SW_EXCLUSIVE = push_bit 56 1"

definition PTE_ADDR_MASK :: u64 where
  "PTE_ADDR_MASK = (push_bit 48 1 - 1) AND NOT (push_bit PAGE_BITS 1 - 1)"

definition PTE_ATTR_MASK :: u64 where
  "PTE_ATTR_MASK = NOT (PTE_ADDR_MASK OR push_bit 1 1)"

definition MM_MODE_R :: u32 where "MM_MODE_R = 0x0001"

definition MM_MODE_W :: u32 where "MM_MODE_W = 0x0002"

definition MM_MODE_X :: u32 where "MM_MODE_X = 0x0004"

definition MM_MODE_D :: u32 where "MM_MODE_D = 0x0008"

definition MM_MODE_INVALID :: u32 where "MM_MODE_INVALID = 0x0010"

definition MM_MODE_UNOWNED :: u32 where "MM_MODE_UNOWNED = 0x0020"

definition MM_MODE_SHARED :: u32 where "MM_MODE_SHARED = 0x0040"

definition MM_MODE_UNMAPPED_MASK :: u32 where
  "MM_MODE_UNMAPPED_MASK = MM_MODE_INVALID OR MM_MODE_UNOWNED"

lemmas mode_defs = MM_MODE_R_def MM_MODE_W_def MM_MODE_X_def MM_MODE_D_def MM_MODE_INVALID_def
  MM_MODE_UNOWNED_def MM_MODE_SHARED_def MM_MODE_UNMAPPED_MASK_def

section \<open>Page-table entries\<close>

definition arch_mm_absent_pte :: "nat \<Rightarrow> u64" where
  "arch_mm_absent_pte level = 0"

definition arch_mm_table_pte :: "nat \<Rightarrow> u64 \<Rightarrow> u64" where
  "arch_mm_table_pte level pa = pa OR PTE_TABLE OR PTE_VALID"

definition arch_mm_block_pte :: "nat \<Rightarrow> u64 \<Rightarrow> u64 \<Rightarrow> u64" where
  "arch_mm_block_pte level pa attrs =
     (let pte = pa OR attrs in if level = 0 then pte OR PTE_LEVEL0_BLOCK else pte)"

definition arch_mm_is_block_allowed :: "nat \<Rightarrow> bool" where
  "arch_mm_is_block_allowed level \<longleftrightarrow> level \<le> 2"

definition arch_mm_pte_is_valid :: "u64 \<Rightarrow> nat \<Rightarrow> bool" where
  "arch_mm_pte_is_valid pte level \<longleftrightarrow> pte AND PTE_VALID \<noteq> 0"

definition arch_mm_pte_is_present :: "u64 \<Rightarrow> nat \<Rightarrow> bool" where
  "arch_mm_pte_is_present pte level \<longleftrightarrow>
     arch_mm_pte_is_valid pte level \<or> pte AND STAGE2_SW_OWNED \<noteq> 0"

definition arch_mm_pte_is_table :: "u64 \<Rightarrow> nat \<Rightarrow> bool" where
  "arch_mm_pte_is_table pte level \<longleftrightarrow>
     level \<noteq> 0 \<and> arch_mm_pte_is_valid pte level \<and> pte AND PTE_TABLE \<noteq> 0"

definition arch_mm_pte_is_block :: "u64 \<Rightarrow> nat \<Rightarrow> bool" where
  "arch_mm_pte_is_block pte level \<longleftrightarrow>
     arch_mm_is_block_allowed level \<and>
     (if level = 0 then pte AND PTE_LEVEL0_BLOCK \<noteq> 0
      else arch_mm_pte_is_present pte level \<and> \<not> arch_mm_pte_is_table pte level)"

definition pte_addr :: "u64 \<Rightarrow> u64" where
  "pte_addr pte = pte AND PTE_ADDR_MASK"

definition arch_mm_clear_pa :: "u64 \<Rightarrow> u64" where
  "arch_mm_clear_pa pa = pte_addr pa"

definition arch_mm_block_from_pte :: "u64 \<Rightarrow> nat \<Rightarrow> u64" where
  "arch_mm_block_from_pte pte level = pte_addr pte"

definition arch_mm_table_from_pte :: "u64 \<Rightarrow> nat \<Rightarrow> u64" where
  "arch_mm_table_from_pte pte level = pte_addr pte"

definition arch_mm_pte_attrs :: "u64 \<Rightarrow> nat \<Rightarrow> u64" where
  "arch_mm_pte_attrs pte level = pte AND PTE_ATTR_MASK"

section \<open>TLB and cache maintenance\<close>

text \<open>The instructions the maintenance routines issue, in order.\<close>

datatype maint_op =
    DsbIsh | DsbSy | Isb
  | TlbiVmalle1is | TlbiAlle2is | TlbiVae1is u64 | TlbiVae2is u64
  | TlbiVmalls12e1is | TlbiIpas2e1is u64
  | DcCivac u64

definition MAX_TLBI_OPS :: u64 where "MAX_TLBI_OPS = 512"

definition arch_mm_sync_table_writes :: "maint_op list" where
  "arch_mm_sync_table_writes = [DsbIsh]"

text \<open>The loop over the pages of a range: \<^verbatim>\<open>for (it = begin; it < end; it += 1)\<close>.\<close>

function tlbi_loop :: "(u64 \<Rightarrow> maint_op) \<Rightarrow> u64 \<Rightarrow> u64 \<Rightarrow> maint_op list" where
  "tlbi_loop op it end = (if it < end then op it # tlbi_loop op (it + push_bit (PAGE_BITS - 12) 1) end else [])"
  by auto

termination tlbi_loop
proof (relation "measure (\<lambda>(op, it, end). unat end - unat it)")
  fix op :: "u64 \<Rightarrow> maint_op" and it "end" :: u64
  assume "it < end"
  then have "unat it < unat end" by (simp add: word_less_nat_alt)
  moreover from this have "unat (it + 1) = Suc (unat it)" by (rule unat_Suc64)
  ultimately show "((op, it + push_bit (PAGE_BITS - 12) 1, end), op, it, end)
      \<in> measure (\<lambda>(op, it, end). unat end - unat it)"
    by (simp add: PAGE_BITS_def)
qed simp

declare tlbi_loop.simps [simp del]

definition arch_mm_invalidate_stage1_range :: "bool \<Rightarrow> u64 \<Rightarrow> u64 \<Rightarrow> maint_op list" where
  "arch_mm_invalidate_stage1_range vm_toolchain begin end =
     arch_mm_sync_table_writes @
     (if end - begin > MAX_TLBI_OPS * PAGE_SIZE
      then [if vm_toolchain then TlbiVmalle1is else TlbiAlle2is]
      else tlbi_loop (if vm_toolchain then TlbiVae1is else TlbiVae2is) (drop_bit 12 begin) (drop_bit 12 end)) @
     [DsbIsh, Isb]"

definition arch_mm_invalidate_stage2_range :: "u64 \<Rightarrow> u64 \<Rightarrow> maint_op list" where
  "arch_mm_invalidate_stage2_range begin end =
     arch_mm_sync_table_writes @
     (if end - begin > MAX_TLBI_OPS * PAGE_SIZE
      then [TlbiVmalls12e1is]
      else tlbi_loop TlbiIpas2e1is (drop_bit 12 begin) (drop_bit 12 end) @ [DsbIsh, TlbiVmalle1is]) @
     [DsbIsh, Isb]"

text \<open>\<open>ctr\<close> is the value of \<^verbatim>\<open>CTR_EL0\<close>. The size is a 16-bit quantity: for line sizes of 64 KiB and
  more it wraps to 0, and then the flush does not end.\<close>

definition arch_mm_dcache_line_size :: "u64 \<Rightarrow> u16" where
  "arch_mm_dcache_line_size ctr = 4 * push_bit (unat (drop_bit 16 ctr AND 0xf)) 1"

partial_function (option) dcache_loop :: "u64 \<Rightarrow> u64 \<Rightarrow> u64 \<Rightarrow> maint_op list \<Rightarrow> maint_op list option" where
  "dcache_loop line_size line_begin end ops =
     (if line_begin < end
      then dcache_loop line_size (line_begin + line_size) end (ops @ [DcCivac line_begin])
      else Some (ops @ [DsbSy]))"

definition arch_mm_flush_dcache :: "u64 \<Rightarrow> u64 \<Rightarrow> u64 \<Rightarrow> maint_op list res" where
  "arch_mm_flush_dcache ctr base sz =
     (let line_size = ucast (arch_mm_dcache_line_size ctr) :: u64;
          line_begin = base AND NOT (line_size - 1)
      in case dcache_loop line_size line_begin (base + sz) [] of None \<Rightarrow> Inl Diverge | Some ops \<Rightarrow> Inr ops)"

section \<open>Modes and attributes\<close>

definition STAGE1_SH :: "u64 \<Rightarrow> u64" where "STAGE1_SH x = push_bit 8 x"

definition STAGE1_AP :: "u64 \<Rightarrow> u64" where "STAGE1_AP x = push_bit 6 x"

definition STAGE1_ATTRINDX :: "u64 \<Rightarrow> u64" where "STAGE1_ATTRINDX x = push_bit 2 x"

definition STAGE1_XN :: u64 where "STAGE1_XN = push_bit 54 1"

definition STAGE1_PXN :: u64 where "STAGE1_PXN = push_bit 53 1"

definition STAGE1_GP :: u64 where "STAGE1_GP = push_bit 50 1"

definition STAGE1_AF :: u64 where "STAGE1_AF = push_bit 10 1"

definition STAGE1_AP2 :: u64 where "STAGE1_AP2 = push_bit 7 1"

definition STAGE1_AP1 :: u64 where "STAGE1_AP1 = push_bit 6 1"

definition STAGE1_NS :: u64 where "STAGE1_NS = push_bit 5 1"

definition STAGE2_XN :: "u64 \<Rightarrow> u64" where "STAGE2_XN x = push_bit 53 x"

definition STAGE2_AF :: u64 where "STAGE2_AF = push_bit 10 1"

definition STAGE2_SH :: "u64 \<Rightarrow> u64" where "STAGE2_SH x = push_bit 8 x"

definition STAGE2_S2AP :: "u64 \<Rightarrow> u64" where "STAGE2_S2AP x = push_bit 6 x"

definition STAGE2_MEMATTR :: "u64 \<Rightarrow> u64 \<Rightarrow> u64" where
  "STAGE2_MEMATTR outer inner = push_bit 2 (push_bit 2 outer OR inner)"

definition STAGE2_MEMATTR_TYPE_MASK :: u64 where "STAGE2_MEMATTR_TYPE_MASK = push_bit 4 3"

text \<open>\<open>bti\<close>: the build has branch protection and the CPU supports branch target identification.\<close>

definition arch_mm_mode_to_stage1_attrs :: "bool \<Rightarrow> u32 \<Rightarrow> u64" where
  "arch_mm_mode_to_stage1_attrs bti mode =
     (let a0 = STAGE1_AF OR STAGE1_SH 3;
          a1 = (if mode AND MM_MODE_X = 0 then a0 OR STAGE1_XN
                else if bti then a0 OR STAGE1_GP else a0);
          a2 = (if mode AND MM_MODE_W \<noteq> 0 then a1 OR STAGE1_AP 0 else a1 OR STAGE1_AP 2);
          a3 = (if mode AND MM_MODE_D \<noteq> 0 then a2 OR STAGE1_ATTRINDX 0 else a2 OR STAGE1_ATTRINDX 1)
      in if mode AND MM_MODE_INVALID = 0 then a3 OR PTE_VALID else a3)"

definition arch_mm_mode_to_stage2_attrs :: "u32 \<Rightarrow> u64" where
  "arch_mm_mode_to_stage2_attrs mode =
     (let a0 = STAGE2_AF OR STAGE2_SH 0;
          r = (if mode AND MM_MODE_R \<noteq> 0 then 1 else 0);
          access = (if mode AND MM_MODE_W \<noteq> 0 then r OR 2 else r);
          a1 = a0 OR STAGE2_S2AP access;
          a2 = (if mode AND MM_MODE_X \<noteq> 0 then a1 OR STAGE2_XN 0 else a1 OR STAGE2_XN 2);
          a3 = (if mode AND MM_MODE_D \<noteq> 0 then a2 OR STAGE2_MEMATTR 0 3 else a2 OR STAGE2_MEMATTR 3 3);
          a4 = (if mode AND MM_MODE_UNOWNED = 0 then a3 OR STAGE2_SW_OWNED else a3);
          a5 = (if mode AND MM_MODE_SHARED = 0 then a4 OR STAGE2_SW_EXCLUSIVE else a4)
      in if mode AND MM_MODE_INVALID = 0 then a5 OR PTE_VALID else a5)"

definition arch_mm_stage2_attrs_to_mode :: "u64 \<Rightarrow> u32" where
  "arch_mm_stage2_attrs_to_mode attrs =
     (let m1 = (if attrs AND STAGE2_S2AP 1 \<noteq> 0 then MM_MODE_R else 0);
          m2 = (if attrs AND STAGE2_S2AP 2 \<noteq> 0 then m1 OR MM_MODE_W else m1);
          m3 = (if attrs AND STAGE2_XN 3 = STAGE2_XN 0 then m2 OR MM_MODE_X else m2);
          m4 = (if attrs AND STAGE2_MEMATTR_TYPE_MASK = 0 then m3 OR MM_MODE_D else m3);
          m5 = (if attrs AND STAGE2_SW_OWNED = 0 then m4 OR MM_MODE_UNOWNED else m4);
          m6 = (if attrs AND STAGE2_SW_EXCLUSIVE = 0 then m5 OR MM_MODE_SHARED else m5)
      in if attrs AND PTE_VALID = 0 then m6 OR MM_MODE_INVALID else m6)"

definition arch_mm_combine_table_entry_attrs :: "u64 \<Rightarrow> u64 \<Rightarrow> u64" where
  "arch_mm_combine_table_entry_attrs table_attrs block_attrs =
     (let b1 = (if table_attrs AND push_bit 63 1 \<noteq> 0 then block_attrs OR STAGE1_NS else block_attrs);
          b2 = (if table_attrs AND push_bit 62 1 \<noteq> 0 then b1 OR STAGE1_AP2 else b1);
          b3 = (if table_attrs AND push_bit 61 1 \<noteq> 0 then b2 AND NOT STAGE1_AP1 else b2);
          b4 = (if table_attrs AND push_bit 60 1 \<noteq> 0 then b3 OR STAGE1_XN else b3)
      in if table_attrs AND push_bit 59 1 \<noteq> 0 then b4 OR STAGE1_PXN else b4)"

definition arch_mm_stage1_max_level :: nat where "arch_mm_stage1_max_level = 2"

definition arch_mm_stage1_root_table_count :: nat where "arch_mm_stage1_root_table_count = 1"

section \<open>Configuration\<close>

record arch_mm_config =
  ttbr0_el2 :: u64
  vtcr_el2 :: u64
  mair_el2 :: u64
  tcr_el2 :: u64
  sctlr_el2 :: u64
  vstcr_el2 :: u64
  hcr_el2 :: u64

definition pa_bits_table :: "nat list" where
  "pa_bits_table = [32, 36, 40, 42, 44, 48, 0, 0, 0, 0, 0, 0, 0, 0, 0, 0]"

definition HCR_EL2_E2H :: u64 where "HCR_EL2_E2H = push_bit 34 1"

definition HCR_EL2_TGE :: u64 where "HCR_EL2_TGE = push_bit 27 1"

text \<open>The arguments after \<open>table\<close> are the values of \<^verbatim>\<open>id_aa64mmfr0_el1\<close> and \<^verbatim>\<open>id_aa64pfr0_el1\<close>, and the
  results of \<^verbatim>\<open>get_sctlr_el2_value\<close> and \<^verbatim>\<open>has_vhe_support\<close>. The result, if the function returns true,
  is the configuration with \<open>mm_s2_max_level\<close> and \<open>mm_s2_root_table_count\<close>.\<close>

definition arch_mm_init :: "u64 \<Rightarrow> u64 \<Rightarrow> u64 \<Rightarrow> u64 \<Rightarrow> bool \<Rightarrow> (arch_mm_config \<times> nat \<times> nat) option" where
  "arch_mm_init table features pe_features sctlr vhe =
     (let pa_bits = pa_bits_table ! unat (features AND 0xf) in
      if drop_bit 28 features AND 0xf \<noteq> 0 then None
      else if pa_bits = 0 then None
      else
        let (sl0, max_level) = (if pa_bits \<ge> 44 then (2 :: u64, 3) else if pa_bits \<ge> 35 then (1, 2) else (0, 1));
            ext = (pa_bits - PAGE_BITS) mod PAGE_LEVEL_BITS;
            extend_bits = (if ext > 4 then 0 else ext);
            root_table_count = 2 ^ extend_bits;
            nsa_nsw = (if drop_bit 36 pe_features AND 0xf = 1 then 2 else 0 :: u64);
            t0sz = word_of_nat (64 - pa_bits) :: u64;
            config = \<lparr>
              ttbr0_el2 = table,
              vtcr_el2 = push_bit 31 1 OR push_bit 29 nsa_nsw OR push_bit 16 (features AND 0xf) OR
                push_bit 12 3 OR push_bit 10 1 OR push_bit 8 1 OR push_bit 6 sl0 OR t0sz,
              mair_el2 = 0xff00,
              tcr_el2 = (if vhe
                then push_bit 38 1 OR push_bit 37 1 OR push_bit 32 2 OR push_bit 30 2 OR push_bit 28 3 OR
                  push_bit 26 1 OR push_bit 24 1 OR push_bit 23 1 OR push_bit 16 25 OR push_bit 12 3 OR
                  push_bit 10 1 OR push_bit 8 1 OR 25
                else push_bit 20 1 OR push_bit 16 (features AND 0xf) OR push_bit 12 3 OR push_bit 10 1 OR
                  push_bit 8 1 OR 25),
              sctlr_el2 = sctlr,
              vstcr_el2 = push_bit 31 1 OR push_bit 6 sl0 OR t0sz,
              hcr_el2 = (if vhe then HCR_EL2_E2H OR HCR_EL2_TGE else 0)\<rparr>
        in Some (config, max_level, root_table_count))"

definition MM_MODE_NS :: u32 where "MM_MODE_NS = 0x0080"

definition arch_mm_extra_attributes_from_vm :: "u16 \<Rightarrow> u32" where
  "arch_mm_extra_attributes_from_vm vm_id = (if vm_id = 0 then MM_MODE_NS else 0)"

end
