(* ===== verification/Mm.thy ===== *)
theory Mm
  imports Mpool Arch_Mm
begin

text \<open>
  The page-table code of \<^verbatim>\<open>src/mm.c\<close>. Tables live in the memory of \<open>machine\<close>: entry \<open>i\<close> of the
  table at address \<open>t\<close> is the cell at \<open>t + 8 * i\<close>, and tables are pages taken from a memory pool.
  Levels are numbers, counted as the code counts them, with level 0 for pages. Every store
  to an entry in use and every TLB invalidation is recorded in \<open>mm_log\<close>, in order. Loops over
  the entries of a table carry their iteration bound; running out of it is the fault
  \<open>Diverge\<close>, which the theorems exclude. A recursion below level 0, which in C would shift by
  more than the width of the type, is the fault \<open>OutOfBounds\<close>.
\<close>

unbundle bit_operations_syntax

section \<open>State\<close>

datatype mm_event =
    PteStore u64 nat u64 u64 u64  \<comment> \<open>input address and level the entry is stored for, address of the entry, old and new value\<close>
  | TlbInvalidate u64 u64 "maint_op list"
  | SyncTableWrites "maint_op list"

record mm_machine = machine +
  mm_stage2_invalidate :: bool
  mm_s2_max_level :: nat
  mm_s2_root_table_count :: nat
  mm_log :: "mm_event list"
  hyp_ptable :: u64
  ptable_lock :: bool

definition MM_FLAG_COMMIT :: u32 where "MM_FLAG_COMMIT = 0x01"

definition MM_FLAG_UNMAP :: u32 where "MM_FLAG_UNMAP = 0x02"

definition MM_FLAG_STAGE1 :: u32 where "MM_FLAG_STAGE1 = 0x04"

definition mm_record :: "mm_event \<Rightarrow> 'a mm_machine_scheme \<Rightarrow> 'a mm_machine_scheme" where
  "mm_record ev s = s\<lparr>mm_log := mm_log s @ [ev]\<rparr>"

definition pte_store :: "u64 \<Rightarrow> nat \<Rightarrow> u64 \<Rightarrow> u64 \<Rightarrow> 'a mm_machine_scheme \<Rightarrow> 'a mm_machine_scheme" where
  "pte_store begin level pte v s = mm_record (PteStore begin level pte (mem s pte) v) (write64 pte v s)"

definition mm_vm_enable_invalidation :: "'a mm_machine_scheme \<Rightarrow> 'a mm_machine_scheme" where
  "mm_vm_enable_invalidation s = s\<lparr>mm_stage2_invalidate := True\<rparr>"

section \<open>Addresses\<close>

definition mm_round_down_to_page :: "u64 \<Rightarrow> u64" where
  "mm_round_down_to_page addr = addr AND NOT (PAGE_SIZE - 1)"

definition mm_round_up_to_page :: "u64 \<Rightarrow> u64" where
  "mm_round_up_to_page addr = mm_round_down_to_page (addr + PAGE_SIZE - 1)"

definition mm_entry_size :: "nat \<Rightarrow> u64" where
  "mm_entry_size level = push_bit (PAGE_BITS + level * PAGE_LEVEL_BITS) 1"

definition mm_start_of_next_block :: "u64 \<Rightarrow> u64 \<Rightarrow> u64" where
  "mm_start_of_next_block addr block_size = (addr + block_size) AND NOT (block_size - 1)"

definition mm_level_end :: "u64 \<Rightarrow> nat \<Rightarrow> u64" where
  "mm_level_end addr level =
     (let offset = PAGE_BITS + (level + 1) * PAGE_LEVEL_BITS in push_bit offset (drop_bit offset addr + 1))"

definition mm_index :: "u64 \<Rightarrow> nat \<Rightarrow> u64" where
  "mm_index addr level =
     (let v = drop_bit (PAGE_BITS + level * PAGE_LEVEL_BITS) addr in v AND (push_bit PAGE_LEVEL_BITS 1 - 1))"

definition mm_max_level :: "u32 \<Rightarrow> 'a mm_machine_scheme \<Rightarrow> nat" where
  "mm_max_level flags s =
     (if flags AND MM_FLAG_STAGE1 \<noteq> 0 then arch_mm_stage1_max_level else mm_s2_max_level s)"

definition mm_root_table_count :: "u32 \<Rightarrow> 'a mm_machine_scheme \<Rightarrow> nat" where
  "mm_root_table_count flags s =
     (if flags AND MM_FLAG_STAGE1 \<noteq> 0 then arch_mm_stage1_root_table_count else mm_s2_root_table_count s)"

definition mm_ptable_addr_space_end :: "u32 \<Rightarrow> 'a mm_machine_scheme \<Rightarrow> u64" where
  "mm_ptable_addr_space_end flags s =
     word_of_nat (mm_root_table_count flags s) * mm_entry_size (mm_max_level flags s + 1)"

definition mm_invalidate_tlb :: "u64 \<Rightarrow> u64 \<Rightarrow> u32 \<Rightarrow> 'a mm_machine_scheme \<Rightarrow> 'a mm_machine_scheme" where
  "mm_invalidate_tlb begin end flags s =
     mm_record (TlbInvalidate begin end
       (if flags AND MM_FLAG_STAGE1 \<noteq> 0 then arch_mm_invalidate_stage1_range False begin end
        else arch_mm_invalidate_stage2_range begin end)) s"

section \<open>Allocating and freeing tables\<close>

definition entry_at :: "u64 \<Rightarrow> nat \<Rightarrow> u64" where
  "entry_at table i = table + 8 * word_of_nat i"

definition mm_alloc_page_tables :: "nat \<Rightarrow> nat \<Rightarrow> 'a machine_scheme \<Rightarrow> (u64 \<times> 'a machine_scheme) res" where
  "mm_alloc_page_tables cnt ppool s =
     (if cnt = 1 then mpool_alloc ppool s
      else mpool_alloc_contiguous ppool (word_of_nat cnt) (word_of_nat cnt) s)"

primrec mm_free_page_pte :: "nat \<Rightarrow> u64 \<Rightarrow> nat \<Rightarrow> 'a machine_scheme \<Rightarrow> 'a machine_scheme res" where
  "mm_free_page_pte 0 pte ppool s =
     (if \<not> arch_mm_pte_is_table pte 0 then Inr s else Inl OutOfBounds)"
| "mm_free_page_pte (Suc l) pte ppool s =
     (if \<not> arch_mm_pte_is_table pte (Suc l) then Inr s
      else
        let table = arch_mm_table_from_pte pte (Suc l) in
        res_bind (fold_res (\<lambda>i s. mm_free_page_pte l (mem s (entry_at table i)) ppool s) [0..<MM_PTE_PER_PAGE] s)
          (mpool_free ppool table))"

primrec write_entries :: "nat \<Rightarrow> u64 \<Rightarrow> u64 \<Rightarrow> u64 \<Rightarrow> 'a machine_scheme \<Rightarrow> 'a machine_scheme" where
  "write_entries 0 a v inc s = s"
| "write_entries (Suc n) a v inc s = write_entries n (a + 8) (v + inc) inc (write64 a v s)"

definition mm_ptable_init :: "u32 \<Rightarrow> nat \<Rightarrow> 'a mm_machine_scheme \<Rightarrow> (u64 option \<times> 'a mm_machine_scheme) res" where
  "mm_ptable_init flags ppool s =
     res_bind (mm_alloc_page_tables (mm_root_table_count flags s) ppool s) (\<lambda>(tables, s1).
       if tables = 0 then Inr (None, s1)
       else Inr (Some tables,
              write_entries (mm_root_table_count flags s * MM_PTE_PER_PAGE) tables
                (arch_mm_absent_pte (mm_max_level flags s)) 0 s1))"

definition mm_ptable_fini :: "u64 \<Rightarrow> u32 \<Rightarrow> nat \<Rightarrow> 'a mm_machine_scheme \<Rightarrow> 'a mm_machine_scheme res" where
  "mm_ptable_fini tables flags ppool s =
     (let level = mm_max_level flags s; cnt = mm_root_table_count flags s in
      res_bind (fold_res (\<lambda>k s. mm_free_page_pte level (mem s (entry_at tables k)) ppool s)
                  [0..<cnt * MM_PTE_PER_PAGE] s) (\<lambda>s1.
      res_bind (mpool_add_chunk ppool tables (PAGE_SIZE * word_of_nat cnt) s1) (\<lambda>(_, s2). Inr s2)))"

section \<open>Replacing entries\<close>

definition mm_replace_entry ::
  "u64 \<Rightarrow> u64 \<Rightarrow> u64 \<Rightarrow> nat \<Rightarrow> u32 \<Rightarrow> nat \<Rightarrow> 'a mm_machine_scheme \<Rightarrow> 'a mm_machine_scheme res" where
  "mm_replace_entry begin pte new_pte level flags ppool s =
     (let v = mem s pte;
          s1 = (if (flags AND MM_FLAG_STAGE1 \<noteq> 0 \<or> mm_stage2_invalidate s) \<and> arch_mm_pte_is_valid v level
                then mm_invalidate_tlb begin (begin + mm_entry_size level) flags
                       (pte_store begin level pte (arch_mm_absent_pte level) s)
                else s);
          s2 = pte_store begin level pte new_pte s1
      in mm_free_page_pte level v ppool s2)"

text \<open>Returns the address of the table the entry points to, 0 if none could be allocated.\<close>

definition mm_populate_table_pte ::
  "u64 \<Rightarrow> u64 \<Rightarrow> nat \<Rightarrow> u32 \<Rightarrow> nat \<Rightarrow> 'a mm_machine_scheme \<Rightarrow> (u64 \<times> 'a mm_machine_scheme) res" where
  "mm_populate_table_pte begin pte level flags ppool s =
     (let v = mem s pte; level_below = level - 1 in
      if arch_mm_pte_is_table v level then Inr (arch_mm_table_from_pte v level, s)
      else
        res_bind (mm_alloc_page_tables 1 ppool s) (\<lambda>(ntable, s1).
          if ntable = 0 then Inr (0, s1)
          else
            let (inc, new_pte) =
                  (if arch_mm_pte_is_block v level
                   then (mm_entry_size level_below,
                         arch_mm_block_pte level_below (arch_mm_block_from_pte v level) (arch_mm_pte_attrs v level))
                   else (0, arch_mm_absent_pte level_below));
                s2 = write_entries MM_PTE_PER_PAGE ntable new_pte inc s1
            in res_bind (mm_replace_entry begin pte (arch_mm_table_pte level ntable) level flags ppool s2) (\<lambda>s3.
               Inr (ntable, s3))))"

section \<open>Mapping\<close>

text \<open>The body of the loop of \<open>mm_map_level\<close>, for one entry. The first argument is the recursive call
  for the level below: it takes \<open>begin\<close>, \<open>end\<close>, \<open>pa\<close>, the table and the state.\<close>

definition mm_map_entry ::
  "(u64 \<Rightarrow> u64 \<Rightarrow> u64 \<Rightarrow> u64 \<Rightarrow> 'a mm_machine_scheme \<Rightarrow> (bool \<times> 'a mm_machine_scheme) res) \<Rightarrow>
   nat \<Rightarrow> u64 \<Rightarrow> u32 \<Rightarrow> nat \<Rightarrow> u64 \<Rightarrow> u64 \<Rightarrow> u64 \<Rightarrow> u64 \<Rightarrow> 'a mm_machine_scheme \<Rightarrow>
   (bool \<times> 'a mm_machine_scheme) res" where
  "mm_map_entry below level attrs flags ppool begin end pa pte s =
     (let entry_size = mm_entry_size level;
          commit = (flags AND MM_FLAG_COMMIT \<noteq> 0);
          unmap = (flags AND MM_FLAG_UNMAP \<noteq> 0);
          v = mem s pte
      in if (if unmap then \<not> arch_mm_pte_is_present v level
             else arch_mm_pte_is_block v level \<and> arch_mm_pte_attrs v level = attrs)
         then Inr (True, s)
         else if end - begin \<ge> entry_size \<and> (unmap \<or> arch_mm_is_block_allowed level) \<and>
                 begin AND (entry_size - 1) = 0 \<and> pa AND (entry_size - 1) = 0
         then if commit
              then let new_pte = (if unmap then arch_mm_absent_pte level else arch_mm_block_pte level pa attrs)
                   in res_bind (mm_replace_entry begin pte new_pte level flags ppool s) (\<lambda>s1. Inr (True, s1))
              else Inr (True, s)
         else res_bind (mm_populate_table_pte begin pte level flags ppool s) (\<lambda>(nt, s1).
                if nt = 0 then Inr (False, s1) else below begin end pa nt s1))"

primrec mm_map_loop ::
  "nat \<Rightarrow> (u64 \<Rightarrow> u64 \<Rightarrow> u64 \<Rightarrow> u64 \<Rightarrow> 'a mm_machine_scheme \<Rightarrow> (bool \<times> 'a mm_machine_scheme) res) \<Rightarrow>
   nat \<Rightarrow> u64 \<Rightarrow> u32 \<Rightarrow> nat \<Rightarrow> u64 \<Rightarrow> u64 \<Rightarrow> u64 \<Rightarrow> u64 \<Rightarrow> 'a mm_machine_scheme \<Rightarrow>
   (bool \<times> 'a mm_machine_scheme) res" where
  "mm_map_loop 0 below level attrs flags ppool begin end pa pte s =
     (if begin < end then Inl Diverge else Inr (True, s))"
| "mm_map_loop (Suc n) below level attrs flags ppool begin end pa pte s =
     (if begin < end
      then res_bind (mm_map_entry below level attrs flags ppool begin end pa pte s) (\<lambda>(ok, s1).
             if ok
             then let next_begin = mm_start_of_next_block begin (mm_entry_size level)
                  in mm_map_loop n below level attrs flags ppool next_begin end (pa + (next_begin - begin)) (pte + 8) s1
             else Inr (False, s1))
      else Inr (True, s))"

primrec mm_map_level ::
  "nat \<Rightarrow> u64 \<Rightarrow> u32 \<Rightarrow> nat \<Rightarrow> u64 \<Rightarrow> u64 \<Rightarrow> u64 \<Rightarrow> u64 \<Rightarrow> 'a mm_machine_scheme \<Rightarrow>
   (bool \<times> 'a mm_machine_scheme) res" where
  "mm_map_level 0 attrs flags ppool begin end pa table s =
     (let level_end = mm_level_end begin 0
      in mm_map_loop MM_PTE_PER_PAGE (\<lambda>_ _ _ _ _. Inl OutOfBounds) 0 attrs flags ppool begin
           (if end > level_end then level_end else end) pa (table + 8 * mm_index begin 0) s)"
| "mm_map_level (Suc l) attrs flags ppool begin end pa table s =
     (let level_end = mm_level_end begin (Suc l)
      in mm_map_loop MM_PTE_PER_PAGE (mm_map_level l attrs flags ppool) (Suc l) attrs flags ppool begin
           (if end > level_end then level_end else end) pa (table + 8 * mm_index begin (Suc l)) s)"

text \<open>The root tables are consecutive pages; the bound is their number.\<close>

primrec mm_map_root_loop ::
  "nat \<Rightarrow> nat \<Rightarrow> u64 \<Rightarrow> u32 \<Rightarrow> nat \<Rightarrow> u64 \<Rightarrow> u64 \<Rightarrow> u64 \<Rightarrow> u64 \<Rightarrow> 'a mm_machine_scheme \<Rightarrow>
   (bool \<times> 'a mm_machine_scheme) res" where
  "mm_map_root_loop 0 root_level attrs flags ppool begin end pa table s =
     (if begin < end then Inl Diverge else Inr (True, s))"
| "mm_map_root_loop (Suc n) root_level attrs flags ppool begin end pa table s =
     (if begin < end
      then res_bind (mm_map_level (root_level - 1) attrs flags ppool begin end pa table s) (\<lambda>(ok, s1).
             if ok
             then let next_begin = mm_start_of_next_block begin (mm_entry_size root_level)
                  in mm_map_root_loop n root_level attrs flags ppool next_begin end (pa + (next_begin - begin))
                       (table + PAGE_SIZE) s1
             else Inr (False, s1))
      else Inr (True, s))"

definition mm_map_root ::
  "u64 \<Rightarrow> u64 \<Rightarrow> u64 \<Rightarrow> u64 \<Rightarrow> u64 \<Rightarrow> nat \<Rightarrow> u32 \<Rightarrow> nat \<Rightarrow> 'a mm_machine_scheme \<Rightarrow>
   (bool \<times> 'a mm_machine_scheme) res" where
  "mm_map_root root begin end pa attrs root_level flags ppool s =
     mm_map_root_loop (mm_root_table_count flags s) root_level attrs flags ppool begin end pa
       (root + PAGE_SIZE * mm_index begin root_level) s"

definition mm_ptable_map ::
  "u64 \<Rightarrow> u64 \<Rightarrow> u64 \<Rightarrow> u64 \<Rightarrow> u64 \<Rightarrow> u32 \<Rightarrow> nat \<Rightarrow> 'a mm_machine_scheme \<Rightarrow>
   (bool \<times> 'a mm_machine_scheme) res" where
  "mm_ptable_map root pa_begin pa_end ipa_begin attrs flags ppool s =
     (let root_level = mm_max_level flags s + 1;
          ptable_end = mm_ptable_addr_space_end flags s;
          pa_begin' = arch_mm_clear_pa pa_begin;
          begin = arch_mm_clear_pa ipa_begin;
          end = mm_round_up_to_page (ipa_begin + (pa_end - pa_begin'))
      in if \<not> root_level \<ge> 2 then Inl Panic
         else res_bind (mm_map_root root begin (if end > ptable_end then ptable_end else end) pa_begin' attrs
                          root_level flags ppool s) (\<lambda>(ok, s1).
              if ok then Inr (True, mm_record (SyncTableWrites arch_mm_sync_table_writes) s1)
              else Inr (False, s1)))"

definition mm_ptable_prepare ::
  "u64 \<Rightarrow> u64 \<Rightarrow> u64 \<Rightarrow> u64 \<Rightarrow> u64 \<Rightarrow> u32 \<Rightarrow> nat \<Rightarrow> 'a mm_machine_scheme \<Rightarrow>
   (bool \<times> 'a mm_machine_scheme) res" where
  "mm_ptable_prepare root pa_begin pa_end ipa_begin attrs flags ppool s =
     mm_ptable_map root pa_begin pa_end ipa_begin attrs (flags AND NOT MM_FLAG_COMMIT) ppool s"

definition mm_ptable_commit ::
  "u64 \<Rightarrow> u64 \<Rightarrow> u64 \<Rightarrow> u64 \<Rightarrow> u64 \<Rightarrow> u32 \<Rightarrow> nat \<Rightarrow> 'a mm_machine_scheme \<Rightarrow> 'a mm_machine_scheme res" where
  "mm_ptable_commit root pa_begin pa_end ipa_begin attrs flags ppool s =
     res_bind (mm_ptable_map root pa_begin pa_end ipa_begin attrs (flags OR MM_FLAG_COMMIT) ppool s) (\<lambda>(ok, s1).
       if ok then Inr s1 else Inl Panic)"

definition mm_ptable_update ::
  "u64 \<Rightarrow> u64 \<Rightarrow> u64 \<Rightarrow> u64 \<Rightarrow> u64 \<Rightarrow> u32 \<Rightarrow> nat \<Rightarrow> 'a mm_machine_scheme \<Rightarrow>
   (bool \<times> 'a mm_machine_scheme) res" where
  "mm_ptable_update root pa_begin pa_end ipa_begin attrs flags ppool s =
     res_bind (mm_ptable_prepare root pa_begin pa_end ipa_begin attrs flags ppool s) (\<lambda>(ok, s1).
       if \<not> ok then Inr (False, s1)
       else res_bind (mm_ptable_commit root pa_begin pa_end ipa_begin attrs flags ppool s1) (\<lambda>s2.
         Inr (True, s2)))"

section \<open>Defragmentation\<close>

definition mm_merge_table_pte :: "u64 \<Rightarrow> nat \<Rightarrow> 'a machine_scheme \<Rightarrow> u64" where
  "mm_merge_table_pte table_pte level s =
     (let table = arch_mm_table_from_pte table_pte level;
          e0 = mem s (entry_at table 0)
      in if \<not> arch_mm_pte_is_present e0 (level - 1) then arch_mm_absent_pte level
         else if \<not> arch_mm_is_block_allowed level then table_pte
         else
           let block_attrs = arch_mm_pte_attrs e0 (level - 1);
               table_attrs = arch_mm_pte_attrs table_pte level;
               combined_attrs = arch_mm_combine_table_entry_attrs table_attrs block_attrs;
               block_address = arch_mm_block_from_pte e0 (level - 1)
           in arch_mm_block_pte level block_address combined_attrs)"

text \<open>Whether an entry after the first one still allows the table to be merged.\<close>

definition mergeable_with :: "bool \<Rightarrow> u64 \<Rightarrow> nat \<Rightarrow> u64 \<Rightarrow> bool \<Rightarrow> bool" where
  "mergeable_with base_present base_attrs level v mergeable =
     (let present = arch_mm_pte_is_present v level in
      if present \<noteq> base_present then False
      else if \<not> present then mergeable
      else if \<not> arch_mm_pte_is_block v level then False
      else if arch_mm_pte_attrs v level \<noteq> base_attrs then False
      else mergeable)"

primrec mm_ptable_defrag_entry ::
  "nat \<Rightarrow> u32 \<Rightarrow> nat \<Rightarrow> u64 \<Rightarrow> u64 \<Rightarrow> 'a mm_machine_scheme \<Rightarrow> 'a mm_machine_scheme res" where
  "mm_ptable_defrag_entry 0 flags ppool base_addr entry s =
     (if \<not> arch_mm_pte_is_table (mem s entry) 0 then Inr s else Inl Panic)"
| "mm_ptable_defrag_entry (Suc l) flags ppool base_addr entry s =
     (if \<not> arch_mm_pte_is_table (mem s entry) (Suc l) then Inr s
      else
        let table = arch_mm_table_from_pte (mem s entry) (Suc l) in
        res_bind (mm_ptable_defrag_entry l flags ppool base_addr (entry_at table 0) s) (\<lambda>s1.
        let base_present = arch_mm_pte_is_present (mem s1 (entry_at table 0)) l;
            base_attrs = arch_mm_pte_attrs (mem s1 (entry_at table 0)) l
        in res_bind
             (fold_res (\<lambda>i (mergeable, s).
                let block_addr = base_addr + word_of_nat i * mm_entry_size l in
                res_bind (mm_ptable_defrag_entry l flags ppool block_addr (entry_at table i) s) (\<lambda>s'.
                Inr (mergeable_with base_present base_attrs l (mem s' (entry_at table i)) mergeable, s')))
              [1..<MM_PTE_PER_PAGE] (True, s1)) (\<lambda>(mergeable, s2).
           if \<not> mergeable then Inr s2
           else
             let new_entry = mm_merge_table_pte (mem s2 entry) (Suc l) s2 in
             if mem s2 entry \<noteq> new_entry
             then mm_replace_entry base_addr entry new_entry (Suc l) flags ppool s2
             else Inr s2)))"

definition mm_ptable_defrag :: "u64 \<Rightarrow> u32 \<Rightarrow> nat \<Rightarrow> 'a mm_machine_scheme \<Rightarrow> 'a mm_machine_scheme res" where
  "mm_ptable_defrag tables flags ppool s =
     (let level = mm_max_level flags s in
      res_bind
        (fold_res (\<lambda>k (block_addr, s).
           res_bind (mm_ptable_defrag_entry level flags ppool block_addr (entry_at tables k) s) (\<lambda>s'.
           Inr (mm_start_of_next_block block_addr (mm_entry_size level), s')))
         [0..<mm_root_table_count flags s * MM_PTE_PER_PAGE] (0, s)) (\<lambda>(_, s1).
      Inr (mm_record (SyncTableWrites arch_mm_sync_table_writes) s1)))"

section \<open>Reading the tables\<close>

text \<open>\<open>got\<close> is the pair \<open>got_attrs\<close> and \<open>attrs\<close> of the source: \<open>None\<close> while no attributes were read.
  The result \<open>None\<close> is the return value false.\<close>

primrec mm_get_attrs_loop ::
  "nat \<Rightarrow> (u64 \<Rightarrow> u64 \<Rightarrow> u64 \<Rightarrow> u64 option \<Rightarrow> u64 option res) \<Rightarrow> nat \<Rightarrow> (u64 \<Rightarrow> u64) \<Rightarrow>
   u64 \<Rightarrow> u64 \<Rightarrow> u64 \<Rightarrow> u64 option \<Rightarrow> u64 option res" where
  "mm_get_attrs_loop 0 below level m pte begin end got =
     (if begin < end then Inl Diverge else Inr got)"
| "mm_get_attrs_loop (Suc n) below level m pte begin end got =
     (if begin < end
      then
        let v = m pte;
            next_begin = mm_start_of_next_block begin (mm_entry_size level);
            continue = (\<lambda>a. mm_get_attrs_loop n below level m (pte + 8) next_begin end (Some a))
        in if arch_mm_pte_is_table v level
           then res_bind (below (arch_mm_table_from_pte v level) begin end got) (\<lambda>r.
                  case r of None \<Rightarrow> Inr None | Some a \<Rightarrow> continue a)
           else (case got of
                   None \<Rightarrow> continue (arch_mm_pte_attrs v level)
                 | Some a \<Rightarrow> if arch_mm_pte_attrs v level \<noteq> a then Inr None else continue a)
      else Inr got)"

primrec mm_ptable_get_attrs_level ::
  "nat \<Rightarrow> (u64 \<Rightarrow> u64) \<Rightarrow> u64 \<Rightarrow> u64 \<Rightarrow> u64 \<Rightarrow> u64 option \<Rightarrow> u64 option res" where
  "mm_ptable_get_attrs_level 0 m table begin end got =
     (let level_end = mm_level_end begin 0
      in mm_get_attrs_loop MM_PTE_PER_PAGE (\<lambda>_ _ _ _. Inl OutOfBounds) 0 m (table + 8 * mm_index begin 0)
           begin (if end > level_end then level_end else end) got)"
| "mm_ptable_get_attrs_level (Suc l) m table begin end got =
     (let level_end = mm_level_end begin (Suc l)
      in mm_get_attrs_loop MM_PTE_PER_PAGE (mm_ptable_get_attrs_level l m) (Suc l) m
           (table + 8 * mm_index begin (Suc l)) begin (if end > level_end then level_end else end) got)"

primrec mm_vm_get_attrs_loop ::
  "nat \<Rightarrow> nat \<Rightarrow> (u64 \<Rightarrow> u64) \<Rightarrow> u64 \<Rightarrow> u64 \<Rightarrow> u64 \<Rightarrow> u64 option \<Rightarrow> u64 option res" where
  "mm_vm_get_attrs_loop 0 max_level m table begin end got = (if begin < end then Inl Diverge else Inr got)"
| "mm_vm_get_attrs_loop (Suc n) max_level m table begin end got =
     (if begin < end
      then res_bind (mm_ptable_get_attrs_level max_level m table begin end got) (\<lambda>r.
             case r of
               None \<Rightarrow> Inr None
             | Some a \<Rightarrow> mm_vm_get_attrs_loop n max_level m (table + PAGE_SIZE)
                 (mm_start_of_next_block begin (mm_entry_size (max_level + 1))) end (Some a))
      else Inr got)"

definition mm_vm_get_attrs :: "u64 \<Rightarrow> u64 \<Rightarrow> u64 \<Rightarrow> 'a mm_machine_scheme \<Rightarrow> u64 option res" where
  "mm_vm_get_attrs root begin end s =
     (let max_level = mm_max_level 0 s;
          root_level = max_level + 1;
          ptable_end = word_of_nat (mm_root_table_count 0 s) * mm_entry_size root_level;
          begin' = mm_round_down_to_page begin;
          end' = mm_round_up_to_page end
      in if end' > ptable_end then Inr None
         else mm_vm_get_attrs_loop (mm_root_table_count 0 s) max_level (mem s)
                (root + PAGE_SIZE * mm_index begin' root_level) begin' end' None)"

primrec mm_get_pte_level :: "nat \<Rightarrow> (u64 \<Rightarrow> u64) \<Rightarrow> u64 \<Rightarrow> u64 \<Rightarrow> (u64 \<times> nat) option" where
  "mm_get_pte_level 0 m table address =
     (let pte = table + 8 * mm_index address 0
      in if arch_mm_pte_is_block (m pte) 0 then Some (pte, 0) else None)"
| "mm_get_pte_level (Suc l) m table address =
     (let pte = table + 8 * mm_index address (Suc l)
      in if arch_mm_pte_is_block (m pte) (Suc l) then Some (pte, Suc l)
         else if \<not> arch_mm_pte_is_table (m pte) (Suc l) then None
         else mm_get_pte_level l m (arch_mm_table_from_pte (m pte) (Suc l)) address)"

definition mm_get_pte_root :: "u64 \<Rightarrow> u64 \<Rightarrow> nat \<Rightarrow> (u64 \<Rightarrow> u64) \<Rightarrow> (u64 \<times> nat) option" where
  "mm_get_pte_root root pt_begin root_level m =
     mm_get_pte_level (root_level - 1) m (root + PAGE_SIZE * mm_index pt_begin root_level) pt_begin"

definition PA_BITS_MASK :: u64 where "PA_BITS_MASK = 0xFFFFFFFFF000"

definition mm_vm_page_table_walk :: "u64 \<Rightarrow> u64 \<Rightarrow> 'a mm_machine_scheme \<Rightarrow> u64 option" where
  "mm_vm_page_table_walk root ipa s =
     (let pt_begin = mm_round_down_to_page ipa;
          root_level = mm_s2_max_level s + 1
      in case mm_get_pte_root root pt_begin root_level (mem s) of
           None \<Rightarrow> None
         | Some (pte, pte_level) \<Rightarrow>
             let ipa_offset = fold (\<lambda>lvl off. off - mm_index pt_begin lvl * mm_entry_size lvl)
                                [pte_level..<Suc root_level] ipa
             in Some ((mem s pte AND PA_BITS_MASK) + ipa_offset))"

section \<open>Operations on the tables of a virtual machine\<close>

definition mm_vm_init :: "nat \<Rightarrow> 'a mm_machine_scheme \<Rightarrow> (u64 option \<times> 'a mm_machine_scheme) res" where
  "mm_vm_init ppool s = mm_ptable_init 0 ppool s"

definition mm_vm_fini :: "u64 \<Rightarrow> nat \<Rightarrow> 'a mm_machine_scheme \<Rightarrow> 'a mm_machine_scheme res" where
  "mm_vm_fini root ppool s = mm_ptable_fini root 0 ppool s"

definition mm_mode_to_flags :: "u32 \<Rightarrow> u32" where
  "mm_mode_to_flags mode =
     (if mode AND MM_MODE_UNMAPPED_MASK = MM_MODE_UNMAPPED_MASK then MM_FLAG_UNMAP else 0)"

definition mm_vm_prepare ::
  "u64 \<Rightarrow> u64 \<Rightarrow> u64 \<Rightarrow> u64 \<Rightarrow> u32 \<Rightarrow> nat \<Rightarrow> 'a mm_machine_scheme \<Rightarrow> (bool \<times> 'a mm_machine_scheme) res" where
  "mm_vm_prepare root ipa_begin begin end mode ppool s =
     mm_ptable_prepare root begin end ipa_begin (arch_mm_mode_to_stage2_attrs mode) (mm_mode_to_flags mode) ppool s"

text \<open>The second component of the results of \<open>mm_vm_commit\<close> and \<open>mm_vm_map\<close> is what is stored
  through the pointer \<open>ipa\<close>.\<close>

definition mm_vm_commit ::
  "u64 \<Rightarrow> u64 \<Rightarrow> u64 \<Rightarrow> u64 \<Rightarrow> u32 \<Rightarrow> nat \<Rightarrow> 'a mm_machine_scheme \<Rightarrow> (u64 \<times> 'a mm_machine_scheme) res" where
  "mm_vm_commit root ipa_begin begin end mode ppool s =
     res_bind (mm_ptable_commit root begin end ipa_begin (arch_mm_mode_to_stage2_attrs mode)
                 (mm_mode_to_flags mode) ppool s) (\<lambda>s1.
     Inr (if ipa_begin > 0 then ipa_begin else begin, s1))"

definition mm_vm_map ::
  "u64 \<Rightarrow> u64 \<Rightarrow> u64 \<Rightarrow> u64 \<Rightarrow> u32 \<Rightarrow> nat \<Rightarrow> 'a mm_machine_scheme \<Rightarrow>
   (bool \<times> u64 option \<times> 'a mm_machine_scheme) res" where
  "mm_vm_map root begin end ipa_begin mode ppool s =
     res_bind (mm_ptable_update root begin end ipa_begin (arch_mm_mode_to_stage2_attrs mode)
                 (mm_mode_to_flags mode) ppool s) (\<lambda>(success, s1).
     Inr (success, if success then Some begin else None, s1))"

definition mm_vm_unmap ::
  "u64 \<Rightarrow> u64 \<Rightarrow> u64 \<Rightarrow> nat \<Rightarrow> 'a mm_machine_scheme \<Rightarrow> (bool \<times> 'a mm_machine_scheme) res" where
  "mm_vm_unmap root begin end ppool s =
     res_bind (mm_vm_map root begin end begin MM_MODE_UNMAPPED_MASK ppool s) (\<lambda>(success, _, s1).
     Inr (success, s1))"

definition mm_vm_defrag :: "u64 \<Rightarrow> nat \<Rightarrow> 'a mm_machine_scheme \<Rightarrow> 'a mm_machine_scheme res" where
  "mm_vm_defrag root ppool s = mm_ptable_defrag root 0 ppool s"

definition mm_vm_get_mode :: "u64 \<Rightarrow> u64 \<Rightarrow> u64 \<Rightarrow> 'a mm_machine_scheme \<Rightarrow> u32 option res" where
  "mm_vm_get_mode root begin end s =
     res_bind (mm_vm_get_attrs root begin end s) (\<lambda>r.
     Inr (map_option arch_mm_stage2_attrs_to_mode r))"

section \<open>The table of the hypervisor\<close>

definition mm_lock_stage1 :: "'a mm_machine_scheme \<Rightarrow> (u64 \<times> 'a mm_machine_scheme) res" where
  "mm_lock_stage1 s =
     (if ptable_lock s then Inl Deadlock else Inr (hyp_ptable s, s\<lparr>ptable_lock := True\<rparr>))"

text \<open>The argument says whether the lock structure refers to the table of the hypervisor.\<close>

definition mm_unlock_stage1 :: "bool \<Rightarrow> 'a mm_machine_scheme \<Rightarrow> 'a mm_machine_scheme res" where
  "mm_unlock_stage1 refers s = (if refers then Inr (s\<lparr>ptable_lock := False\<rparr>) else Inl Panic)"

definition mm_identity_map ::
  "bool \<Rightarrow> u64 \<Rightarrow> u64 \<Rightarrow> u64 \<Rightarrow> u32 \<Rightarrow> nat \<Rightarrow> 'a mm_machine_scheme \<Rightarrow> (u64 \<times> 'a mm_machine_scheme) res" where
  "mm_identity_map bti root begin end mode ppool s =
     res_bind (mm_ptable_update root begin end begin (arch_mm_mode_to_stage1_attrs bti mode)
                 (MM_FLAG_STAGE1 OR mm_mode_to_flags mode) ppool s) (\<lambda>(ok, s1).
     Inr (if ok then begin else 0, s1))"

text \<open>The table is passed by value, and the caller holds no lock.\<close>

definition mm_identity_map_ptable ::
  "bool \<Rightarrow> u64 \<Rightarrow> u64 \<Rightarrow> u64 \<Rightarrow> u32 \<Rightarrow> nat \<Rightarrow> 'a mm_machine_scheme \<Rightarrow> (u64 \<times> 'a mm_machine_scheme) res" where
  "mm_identity_map_ptable bti root begin end mode ppool s =
     res_bind (mm_ptable_update root begin end begin (arch_mm_mode_to_stage1_attrs bti mode)
                 (MM_FLAG_STAGE1 OR mm_mode_to_flags mode) ppool s) (\<lambda>(ok, s1).
     Inr (if ok then begin else 0, s1))"

end
