(* ===== verification/Arch_Mm_Laws.thy ===== *)
theory Arch_Mm_Laws
  imports Arch_Mm
begin

text \<open>
  Laws of the page-table entry encoding. An address that fits the address field of an entry is
  \<open>addr_ok\<close>. Attributes are \<open>attrs_ok\<close> if they stay out of that field, mark the entry as
  present, and differ from those of a table entry, which has the valid bit only.
\<close>

section \<open>Entries\<close>

definition addr_ok :: "u64 \<Rightarrow> bool" where
  "addr_ok a \<longleftrightarrow> a AND PTE_ADDR_MASK = a"

definition attrs_ok :: "u64 \<Rightarrow> bool" where
  "attrs_ok x \<longleftrightarrow> x AND PTE_ATTR_MASK = x \<and> (x AND PTE_VALID \<noteq> 0 \<or> x AND STAGE2_SW_OWNED \<noteq> 0) \<and>
     x \<noteq> PTE_VALID"

lemma pte_masks: "PTE_ADDR_MASK = 0x0000FFFFFFFFF000" "PTE_ATTR_MASK = 0xFFFF000000000FFD"
  "PTE_VALID = 1" "PTE_TABLE = 2" "PTE_LEVEL0_BLOCK = 2" "STAGE2_SW_OWNED = 0x80000000000000"
  by (simp_all add: PTE_ADDR_MASK_def PTE_ATTR_MASK_def PAGE_BITS_def PTE_VALID_def PTE_TABLE_def
      PTE_LEVEL0_BLOCK_def STAGE2_SW_OWNED_def push_bit_eq_mult)

lemma PTE_ADDR_MASK_mask: "PTE_ADDR_MASK = mask 48 AND NOT (mask 12)"
  by (simp add: PTE_ADDR_MASK_def PAGE_BITS_def mask_eq_exp_minus_1 push_bit_eq_mult)

lemma unat_clear_pa: "unat (a AND PTE_ADDR_MASK) = unat a mod 2 ^ 48 div 4096 * 4096"
proof -
  have "a AND PTE_ADDR_MASK = (a AND mask 48) AND NOT (mask 12)"
    by (simp add: PTE_ADDR_MASK_mask and.assoc)
  then show ?thesis by (simp add: unat_and_not_mask64 unat_and_mask64)
qed

lemma addr_ok_iff: "addr_ok a \<longleftrightarrow> 4096 dvd unat a \<and> unat a < 2 ^ 48"
proof -
  have "addr_ok a \<longleftrightarrow> unat a mod 2 ^ 48 div 4096 * 4096 = unat a"
    by (simp add: addr_ok_def unat_eq_iff64 unat_clear_pa)
  also have "\<dots> \<longleftrightarrow> 4096 dvd unat a \<and> unat a < 2 ^ 48"
  proof
    assume eq: "unat a mod 2 ^ 48 div 4096 * 4096 = unat a"
    have "unat a mod 2 ^ 48 div 4096 * 4096 \<le> unat a mod 2 ^ 48" by (rule div_times_less_eq_dividend)
    also have "\<dots> < 2 ^ 48" by simp
    finally show "4096 dvd unat a \<and> unat a < 2 ^ 48" using eq by (metis dvd_triv_right)
  qed simp
  finally show ?thesis .
qed

lemma addr_ok_clear [simp]: "addr_ok (arch_mm_clear_pa a)"
  by (simp add: addr_ok_def arch_mm_clear_pa_def pte_addr_def and.assoc)

lemma attr_bits_and:
  fixes x :: u64
  assumes "x AND m = x" "m AND c = 0"
  shows "x AND c = 0"
proof -
  have "x AND c = (x AND m) AND c" using assms(1) by simp
  also have "\<dots> = x AND (m AND c)" by (rule and.assoc)
  finally show ?thesis using assms(2) by simp
qed

lemma addr_ok_and: "addr_ok a \<Longrightarrow> PTE_ADDR_MASK AND c = 0 \<Longrightarrow> a AND c = 0"
  unfolding addr_ok_def by (rule attr_bits_and)

lemmas pte_distrib = bit.conj_disj_distrib bit.conj_disj_distrib2

lemma addr_field:
  assumes "addr_ok a" "x AND PTE_ATTR_MASK = x"
  shows "(a OR x) AND PTE_ADDR_MASK = a" "(a OR x) AND PTE_ATTR_MASK = x"
    "(a OR x OR 2) AND PTE_ADDR_MASK = a" "(a OR x OR 2) AND PTE_ATTR_MASK = x"
    "(a OR x) AND 1 = x AND 1" "(a OR x OR 2) AND 1 = x AND 1"
    "(a OR x) AND 2 = 0" "(a OR x OR 2) AND 2 = 2"
    "(a OR x) AND STAGE2_SW_OWNED = x AND STAGE2_SW_OWNED"
    "(a OR x OR 2) AND STAGE2_SW_OWNED = x AND STAGE2_SW_OWNED"
proof -
  have a: "a AND PTE_ADDR_MASK = a" using assms(1) by (simp add: addr_ok_def)
  have a0: "a AND PTE_ATTR_MASK = 0" "a AND 1 = 0" "a AND 2 = 0" "a AND STAGE2_SW_OWNED = 0"
    by (rule addr_ok_and [OF assms(1)]; simp add: pte_masks)+
  have x0: "x AND PTE_ADDR_MASK = 0" "x AND 2 = 0"
    by (rule attr_bits_and [OF assms(2)]; simp add: pte_masks)+
  have c: "2 AND PTE_ADDR_MASK = 0" "2 AND PTE_ATTR_MASK = 0" "2 AND STAGE2_SW_OWNED = 0"
    by (simp_all add: pte_masks)
  show "(a OR x) AND PTE_ADDR_MASK = a" "(a OR x) AND PTE_ATTR_MASK = x"
    "(a OR x OR 2) AND PTE_ADDR_MASK = a" "(a OR x OR 2) AND PTE_ATTR_MASK = x"
    "(a OR x) AND 1 = x AND 1" "(a OR x OR 2) AND 1 = x AND 1"
    "(a OR x) AND 2 = 0" "(a OR x OR 2) AND 2 = 2"
    "(a OR x) AND STAGE2_SW_OWNED = x AND STAGE2_SW_OWNED"
    "(a OR x OR 2) AND STAGE2_SW_OWNED = x AND STAGE2_SW_OWNED"
    by (simp_all only: pte_distrib a a0 x0 c assms(2)) simp_all
qed

lemma block_pte_eq:
  "arch_mm_block_pte l a x = (if l = 0 then a OR x OR 2 else a OR x)"
  by (simp add: arch_mm_block_pte_def pte_masks or.assoc)

lemma block_pte_laws:
  assumes "addr_ok a" "x AND PTE_ATTR_MASK = x"
  shows "arch_mm_block_from_pte (arch_mm_block_pte l a x) l = a"
    "arch_mm_pte_attrs (arch_mm_block_pte l a x) l = x"
    "arch_mm_pte_is_valid (arch_mm_block_pte l a x) l \<longleftrightarrow> x AND PTE_VALID \<noteq> 0"
    "arch_mm_pte_is_present (arch_mm_block_pte l a x) l \<longleftrightarrow> x AND PTE_VALID \<noteq> 0 \<or> x AND STAGE2_SW_OWNED \<noteq> 0"
    "\<not> arch_mm_pte_is_table (arch_mm_block_pte l a x) l"
  using addr_field [OF assms]
  by (simp_all add: block_pte_eq arch_mm_block_from_pte_def pte_addr_def arch_mm_pte_attrs_def
      arch_mm_pte_is_valid_def arch_mm_pte_is_present_def arch_mm_pte_is_table_def pte_masks(3-5))

lemma block_pte_is_block:
  assumes "addr_ok a" "attrs_ok x" "l \<le> 2"
  shows "arch_mm_pte_is_block (arch_mm_block_pte l a x) l" "arch_mm_pte_is_present (arch_mm_block_pte l a x) l"
    "arch_mm_block_pte l a x \<noteq> 0"
proof -
  have x: "x AND PTE_ATTR_MASK = x" "x AND PTE_VALID \<noteq> 0 \<or> x AND STAGE2_SW_OWNED \<noteq> 0"
    using assms(2) by (auto simp: attrs_ok_def)
  note laws = block_pte_laws [OF assms(1) x(1)]
  show p: "arch_mm_pte_is_present (arch_mm_block_pte l a x) l" using laws(4) x(2) by simp
  have "(a OR x OR 2) AND 2 = 2" by (rule addr_field(8) [OF assms(1) x(1)])
  then show "arch_mm_pte_is_block (arch_mm_block_pte l a x) l"
    using p laws(5) [of l] assms(3)
    by (cases "l = 0") (simp_all add: arch_mm_pte_is_block_def arch_mm_is_block_allowed_def block_pte_eq pte_masks(5))
  show "arch_mm_block_pte l a x \<noteq> 0"
    using p by (auto simp: arch_mm_pte_is_present_def arch_mm_pte_is_valid_def)
qed

lemma absent_pte_laws [simp]:
  "\<not> arch_mm_pte_is_present 0 l" "\<not> arch_mm_pte_is_table 0 l" "\<not> arch_mm_pte_is_block 0 l"
  "\<not> arch_mm_pte_is_valid 0 l" "arch_mm_pte_attrs 0 l = 0"
  by (simp_all add: arch_mm_pte_is_present_def arch_mm_pte_is_table_def arch_mm_pte_is_block_def
      arch_mm_pte_is_valid_def arch_mm_pte_attrs_def)

lemma table_pte_laws:
  assumes "addr_ok t"
  shows "arch_mm_table_from_pte (arch_mm_table_pte k t) l = t"
    "arch_mm_pte_is_table (arch_mm_table_pte k t) (Suc l)" "arch_mm_pte_is_valid (arch_mm_table_pte k t) l"
    "arch_mm_pte_is_present (arch_mm_table_pte k t) l" "\<not> arch_mm_pte_is_block (arch_mm_table_pte k t) (Suc l)"
    "arch_mm_pte_attrs (arch_mm_table_pte k t) l = 1" "arch_mm_table_pte k t \<noteq> 0"
proof -
  have 1: "(1 :: u64) AND PTE_ATTR_MASK = 1" by (simp add: pte_masks)
  note f = addr_field(3,4,6,8) [OF assms 1]
  have eq: "arch_mm_table_pte k t = t OR 1 OR 2" by (simp add: arch_mm_table_pte_def pte_masks or.commute)
  show v: "arch_mm_pte_is_valid (arch_mm_table_pte k t) l" for l
    using f(3) by (simp add: eq arch_mm_pte_is_valid_def pte_masks)
  show tb: "arch_mm_pte_is_table (arch_mm_table_pte k t) (Suc l)"
    using f(4) v by (simp add: eq arch_mm_pte_is_table_def pte_masks)
  show "arch_mm_table_from_pte (arch_mm_table_pte k t) l = t"
    using f(1) by (simp add: eq arch_mm_table_from_pte_def pte_addr_def)
  show "arch_mm_pte_is_present (arch_mm_table_pte k t) l" using v by (simp add: arch_mm_pte_is_present_def)
  show "\<not> arch_mm_pte_is_block (arch_mm_table_pte k t) (Suc l)" using tb by (simp add: arch_mm_pte_is_block_def)
  show "arch_mm_pte_attrs (arch_mm_table_pte k t) l = 1" using f(2) by (simp add: eq arch_mm_pte_attrs_def)
  show "arch_mm_table_pte k t \<noteq> 0" using v [of 0] by (auto simp: arch_mm_pte_is_valid_def)
qed

text \<open>The entries of a table that replaces a block are made by adding to the first one; the
  addition stays in the address field.\<close>

lemma or_add_disjoint:
  assumes "addr_ok a" "x AND PTE_ATTR_MASK = x"
  shows "a OR x = a + x" "a OR x OR 2 = a + (x OR 2)"
proof -
  have "a AND x = 0" "a AND (x OR 2) = 0"
  proof -
    have "PTE_ATTR_MASK AND PTE_ADDR_MASK = 0" by (simp add: pte_masks)
    then have "PTE_ADDR_MASK AND x = 0" using attr_bits_and [OF assms(2)] by (simp only: and.commute)
    moreover have "PTE_ADDR_MASK AND 2 = 0" by (simp add: pte_masks)
    ultimately show "a AND x = 0" "a AND (x OR 2) = 0"
      using addr_ok_and [OF assms(1), of x] addr_ok_and [OF assms(1), of 2] by (simp_all only: pte_distrib) simp_all
  qed
  then show "a OR x = a + x" "a OR x OR 2 = a + (x OR 2)"
    using word_plus_and_or [of a x] word_plus_and_or [of a "x OR 2"] by simp_all
qed

lemma block_pte_add:
  assumes "addr_ok a" "addr_ok (a + d)" "x AND PTE_ATTR_MASK = x"
  shows "arch_mm_block_pte l a x + d = arch_mm_block_pte l (a + d) x"
  unfolding block_pte_eq or_add_disjoint [OF assms(1,3)] or_add_disjoint [OF assms(2,3)]
  by (cases "l = 0") (simp_all only: if_True if_False refl ac_simps)

section \<open>TLB invalidation\<close>

lemma tlbi_loop_covers:
  "unat it \<le> unat x \<Longrightarrow> unat x < unat e \<Longrightarrow> op x \<in> set (tlbi_loop op it e)"
proof (induction op it e rule: tlbi_loop.induct)
  case (1 op it e)
  then have lt: "it < e" by (simp add: word_less_nat_alt)
  show ?case
  proof (cases "x = it")
    case False
    then have less: "unat it < unat x" using 1(2) by (metis le_neq_implies_less unat_eq_iff64)
    then have "unat (it + 1) = Suc (unat it)" by (rule unat_Suc64)
    then show ?thesis
      using 1(1) [OF lt] 1(3) less by (subst tlbi_loop.simps) (simp add: lt PAGE_BITS_def)
  qed (subst tlbi_loop.simps, simp add: lt)
qed

text \<open>The operations invalidate what the TLB holds for an input address: for its page, or for everything,
  between a barrier that makes the stores to the tables visible and the two that end the maintenance.
  Stage 2 also drops the combined entries of both stages.\<close>

definition tlbi_reaches :: "bool \<Rightarrow> maint_op list \<Rightarrow> u64 \<Rightarrow> bool" where
  "tlbi_reaches stage1 ops a \<longleftrightarrow> (\<exists>pre. ops = DsbIsh # pre @ [DsbIsh, Isb]) \<and>
     (if stage1 then TlbiAlle2is \<in> set ops \<or> TlbiVae2is (drop_bit 12 a) \<in> set ops
      else TlbiVmalls12e1is \<in> set ops \<or> TlbiIpas2e1is (drop_bit 12 a) \<in> set ops \<and> TlbiVmalle1is \<in> set ops)"

lemma range_invalidated:
  assumes "unat begin \<le> unat a" "unat a < unat end" "4096 dvd unat end"
  shows "tlbi_reaches stage1 (if stage1 then arch_mm_invalidate_stage1_range False begin end
    else arch_mm_invalidate_stage2_range begin end) a"
proof -
  obtain k where k: "unat end = 4096 * k" using assms(3) by auto
  have "unat (drop_bit 12 begin) \<le> unat (drop_bit 12 a)" using assms(1) by (simp add: unat_drop_bit64 div_le_mono)
  moreover have "unat (drop_bit 12 a) < unat (drop_bit 12 end)" using assms(2) k by (simp add: unat_drop_bit64)
  ultimately have "op (drop_bit 12 a) \<in> set (tlbi_loop op (drop_bit 12 begin) (drop_bit 12 end))" for op
    by (rule tlbi_loop_covers)
  then show ?thesis
    by (simp add: tlbi_reaches_def arch_mm_invalidate_stage2_range_def arch_mm_invalidate_stage1_range_def
        arch_mm_sync_table_writes_def)
qed

end
