(* ===== verification/Mm_Tree.thy ===== *)
theory Mm_Tree
  imports Mm Arch_Mm_Laws Mpool_Life
begin

text \<open>
  Page tables as trees. A table entry is abstracted to a \<open>ptree\<close>: a leaf holds an absent or a
  block entry, an inner node the address of its table and the 512 entries in it. \<open>rep m l v t\<close>
  says that in memory \<open>m\<close> the value \<open>v\<close> of an entry at level \<open>l\<close> stands for the tree \<open>t\<close>;
  \<open>look l t\<close> is the translation the tree gives for the addresses below the entry, a physical
  address with attributes. The pages of a tree are listed in the order in which the code
  frees them.
\<close>

section \<open>Sizes and indices\<close>

definition esz :: "nat \<Rightarrow> nat" where
  "esz l = 2 ^ (12 + 9 * l)"

lemma esz_pos [simp]: "0 < esz l" "esz l \<noteq> 0"
  by (simp_all add: esz_def)

lemma esz_Suc: "esz (Suc l) = 512 * esz l"
  by (simp add: esz_def power_add)

lemma esz_0: "esz 0 = 4096"
  by (simp add: esz_def)

lemma esz_dvd: "l \<le> k \<Longrightarrow> esz l dvd esz k"
  by (simp add: esz_def le_imp_power_dvd)

lemma esz_le: "l \<le> k \<Longrightarrow> esz l \<le> esz k"
  by (simp add: esz_def)

lemma esz_page: "4096 dvd esz l"
  using esz_dvd [of 0 l] by (simp add: esz_0)

lemma esz_bound: "l \<le> 4 \<Longrightarrow> esz l \<le> 2 ^ 48"
  using esz_le [of l 4] by (simp add: esz_def)

lemma mm_entry_size_eq: "mm_entry_size l = 2 ^ (12 + 9 * l)"
  by (simp add: mm_entry_size_def PAGE_BITS_def PAGE_LEVEL_BITS_def push_bit_eq_mult mult.commute)

lemma unat_entry_size: "l \<le> 5 \<Longrightarrow> unat (mm_entry_size l) = esz l"
  unfolding mm_entry_size_eq esz_def by (rule unat_power64) simp

lemma and_esz_mask: "l \<le> 5 \<Longrightarrow> x AND (mm_entry_size l - 1) = 0 \<longleftrightarrow> esz l dvd unat x"
  unfolding mm_entry_size_eq power_minus_1_mask
  by (simp add: unat_eq_iff64 [of "x AND _"] unat_and_mask64 esz_def dvd_eq_mod_eq_0)

lemma unat_next_block:
  assumes "l \<le> 5" "unat a + esz l < 2 ^ 64"
  shows "unat (mm_start_of_next_block a (mm_entry_size l)) = (unat a div esz l + 1) * esz l"
proof -
  have e: "unat (mm_entry_size l) = esz l" using assms(1) by (rule unat_entry_size)
  have "unat (a + mm_entry_size l) = unat a + esz l" using assms(2) e by (subst unat_add64) simp_all
  then show ?thesis
    unfolding mm_start_of_next_block_def mm_entry_size_eq power_minus_1_mask
    by (simp add: unat_and_not_mask64 esz_def div_add_self2)
qed

lemma unat_level_end:
  assumes "l \<le> 4" "unat a + esz (Suc l) < 2 ^ 64"
  shows "unat (mm_level_end a l) = (unat a div esz (Suc l) + 1) * esz (Suc l)"
proof -
  let ?n = "12 + 9 * Suc l"
  have n: "?n < 64" using assms(1) by simp
  have q: "unat a div 2 ^ ?n < 2 ^ 64 - 1"
  proof -
    have "unat a div 2 ^ ?n \<le> unat a" by (rule div_le_dividend)
    also have "\<dots> < 2 ^ 64 - 1" using assms(2) esz_pos(1) [of "Suc l"] by linarith
    finally show ?thesis .
  qed
  have d: "unat (drop_bit ?n a + 1) = unat a div 2 ^ ?n + 1"
    using q by (subst unat_add64) (simp_all add: unat_drop_bit64)
  have le: "(unat a div 2 ^ ?n + 1) * 2 ^ ?n < 2 ^ 64"
  proof -
    have "(unat a div 2 ^ ?n + 1) * 2 ^ ?n = unat a div 2 ^ ?n * 2 ^ ?n + 2 ^ ?n" by (simp only: distrib_right mult_1)
    also have "\<dots> \<le> unat a + 2 ^ ?n" by (intro add_right_mono div_times_less_eq_dividend)
    also have "\<dots> < 2 ^ 64" using assms(2) by (simp only: esz_def)
    finally show ?thesis .
  qed
  have "mm_level_end a l = push_bit ?n (drop_bit ?n a + 1)"
    by (simp add: mm_level_end_def Let_def PAGE_BITS_def PAGE_LEVEL_BITS_def mult.commute)
  moreover have "unat (push_bit ?n (drop_bit ?n a + 1)) = (unat a div 2 ^ ?n + 1) * 2 ^ ?n"
    using le d by (subst unat_push_bit64) simp_all
  ultimately show ?thesis by (simp only: esz_def)
qed

lemma unat_mm_index: "l \<le> 5 \<Longrightarrow> unat (mm_index a l) = unat a div esz l mod 512"
proof -
  have "push_bit PAGE_LEVEL_BITS 1 - 1 = (mask 9 :: u64)"
    by (simp add: PAGE_LEVEL_BITS_def push_bit_eq_mult mask_eq_exp_minus_1)
  then have "mm_index a l = drop_bit (12 + 9 * l) a AND mask 9"
    by (simp only: mm_index_def Let_def PAGE_BITS_def PAGE_LEVEL_BITS_def mult.commute)
  then show ?thesis by (simp only: unat_and_mask64 unat_drop_bit64 esz_def) simp
qed

lemma index_entry: "l \<le> 5 \<Longrightarrow> t + 8 * mm_index a l = entry_at t (unat a div esz l mod 512)"
  using unat_mm_index [of l a] by (simp add: entry_at_def flip: unat_mm_index)

section \<open>Trees\<close>

datatype ptree = Leaf u64 | Table u64 "ptree list"

definition leaf_ok :: "nat \<Rightarrow> u64 \<Rightarrow> bool" where
  "leaf_ok l v \<longleftrightarrow> v = 0 \<or>
     l \<le> 2 \<and> (\<exists>a x. v = arch_mm_block_pte l a x \<and> addr_ok a \<and> attrs_ok x \<and> esz l dvd unat a)"

definition table_ok :: "u64 \<Rightarrow> bool" where
  "table_ok t \<longleftrightarrow> t \<noteq> 0 \<and> addr_ok t"

fun rep :: "(u64 \<Rightarrow> u64) \<Rightarrow> nat \<Rightarrow> u64 \<Rightarrow> ptree \<Rightarrow> bool" where
  "rep m l v (Leaf w) \<longleftrightarrow> v = w \<and> leaf_ok l w"
| "rep m 0 v (Table t ts) \<longleftrightarrow> False"
| "rep m (Suc l) v (Table t ts) \<longleftrightarrow>
     v = arch_mm_table_pte (Suc l) t \<and> table_ok t \<and> length ts = 512 \<and>
     (\<forall>i<512. rep m l (m (entry_at t i)) (ts ! i))"

fun pages :: "ptree \<Rightarrow> u64 list" where
  "pages (Leaf v) = []"
| "pages (Table t ts) = concat (map pages ts) @ [t]"

definition tpages :: "ptree list \<Rightarrow> u64 list" where
  "tpages ts = concat (map pages ts)"

fun look :: "nat \<Rightarrow> ptree \<Rightarrow> nat \<Rightarrow> (nat \<times> u64) option" where
  "look l (Leaf v) off =
     (if arch_mm_pte_is_present v l
      then Some (unat (arch_mm_block_from_pte v l) + off, arch_mm_pte_attrs v l) else None)"
| "look 0 (Table t ts) off = None"
| "look (Suc l) (Table t ts) off = look l (ts ! (off div esz l)) (off mod esz l)"

lemma pages_Table: "pages (Table t ts) = tpages ts @ [t]"
  by (simp add: tpages_def)

lemma leaf_ok_0 [simp]: "leaf_ok l 0"
  by (simp add: leaf_ok_def)

lemma leaf_ok_block:
  "l \<le> 2 \<Longrightarrow> addr_ok a \<Longrightarrow> attrs_ok x \<Longrightarrow> esz l dvd unat a \<Longrightarrow> leaf_ok l (arch_mm_block_pte l a x)"
  by (auto simp: leaf_ok_def)

lemma attrs_ok_masked: "attrs_ok x \<Longrightarrow> x AND PTE_ATTR_MASK = x"
  by (simp add: attrs_ok_def)

lemma leaf_ok_not_table: "leaf_ok l v \<Longrightarrow> \<not> arch_mm_pte_is_table v l"
  by (auto simp: leaf_ok_def attrs_ok_masked block_pte_laws)

lemma leaf_ok_cases:
  assumes "leaf_ok l v"
  obtains "v = 0" | a x where "v = arch_mm_block_pte l a x" "l \<le> 2" "addr_ok a" "attrs_ok x" "esz l dvd unat a"
    "arch_mm_pte_is_block v l" "arch_mm_pte_is_present v l" "arch_mm_block_from_pte v l = a"
    "arch_mm_pte_attrs v l = x" "v \<noteq> 0"
proof (cases "v = 0")
  case False
  then obtain a x where v: "v = arch_mm_block_pte l a x" "l \<le> 2" "addr_ok a" "attrs_ok x" "esz l dvd unat a"
    using assms by (auto simp: leaf_ok_def)
  then show thesis
    using False that(2) [of a x] block_pte_is_block [OF v(3,4,2)] block_pte_laws(1,2) [OF v(3) attrs_ok_masked [OF v(4)]]
    by simp
qed (rule that(1))

lemma leaf_ok_present: "leaf_ok l v \<Longrightarrow> arch_mm_pte_is_present v l \<longleftrightarrow> v \<noteq> 0"
  by (erule leaf_ok_cases) auto

lemma leaf_ok_is_block: "leaf_ok l v \<Longrightarrow> arch_mm_pte_is_block v l \<longleftrightarrow> v \<noteq> 0"
  by (erule leaf_ok_cases) auto

lemma table_ok_page: "table_ok t \<Longrightarrow> page_ok 0x1000 t"
  unfolding table_ok_def page_ok_def addr_ok_iff by auto

lemma esz_ok_page [simp]: "esz_ok 0x1000"
  by (simp add: esz_ok_def)

lemma entry_at_in_page:
  assumes "table_ok t" "i < 512"
  shows "in_page 0x1000 t (entry_at t i)" "unat (entry_at t i) = unat t + 8 * i"
proof -
  have w: "(8 :: u64) * word_of_nat i = word_of_nat (8 * i)" by simp
  show "in_page 0x1000 t (entry_at t i)"
    unfolding entry_at_def w using assms by (intro in_page_offset table_ok_page) simp_all
  show "unat (entry_at t i) = unat t + 8 * i"
    unfolding entry_at_def w using assms by (intro unat_page_offset [OF table_ok_page]) simp_all
qed

lemma entry_at_inj:
  assumes "table_ok t" "i < 512" "j < 512"
  shows "entry_at t i = entry_at t j \<longleftrightarrow> i = j"
proof
  assume "entry_at t i = entry_at t j"
  then have "unat (entry_at t i) = unat (entry_at t j)" by simp
  then show "i = j" using entry_at_in_page(2) [OF assms(1,2)] entry_at_in_page(2) [OF assms(1,3)] by linarith
qed simp

lemma rep_pages_ok: "rep m l v t \<Longrightarrow> x \<in> set (pages t) \<Longrightarrow> table_ok x"
proof (induction m l v t rule: rep.induct)
  case (3 m l v t ts)
  show ?case
  proof (cases "x = t")
    case False
    then obtain c where "c \<in> set ts" "x \<in> set (pages c)" using 3(3) by auto
    then obtain i where "i < 512" "x \<in> set (pages (ts ! i))" using 3(2) by (auto simp: in_set_conv_nth)
    then show ?thesis using 3(1) [of i] 3(2) by simp
  qed (use 3 in simp)
qed auto

lemma rep_frame:
  assumes "rep m l v t" "same_off 0x1000 X m m'" "\<forall>x\<in>X. page_ok 0x1000 x" "X \<inter> set (pages t) = {}"
  shows "rep m' l v t"
  using assms
proof (induction m l v t rule: rep.induct)
  case (3 m l v t ts)
  have "rep m' l (m' (entry_at t i)) (ts ! i)" if i: "i < 512" for i
  proof -
    have "m' (entry_at t i) = m (entry_at t i)"
      using 3 i by (intro same_offD [OF 3(3) table_ok_page]) (auto intro: entry_at_in_page)
    moreover have "set (pages (ts ! i)) \<subseteq> set (pages (Table t ts))" using 3(2) i by (auto intro: nth_mem)
    ultimately show ?thesis using 3(1) [OF i] 3(2-5) i by auto
  qed
  then show ?case using 3(2) by auto
qed auto

lemma rep_table_iff:
  "rep m (Suc l) v (Table t ts) \<Longrightarrow> arch_mm_pte_is_table v (Suc l) \<and> arch_mm_table_from_pte v (Suc l) = t"
  by (auto simp: table_ok_def table_pte_laws)

lemma rep_Leaf_not_table: "rep m l v (Leaf w) \<Longrightarrow> \<not> arch_mm_pte_is_table v l"
  by (auto dest: leaf_ok_not_table)

lemma rep_not_table_Leaf: "rep m l v t \<Longrightarrow> \<not> arch_mm_pte_is_table v l \<Longrightarrow> t = Leaf v"
  by (cases t; cases l) (auto simp: table_ok_def table_pte_laws)

declare pages.simps(2) [simp del] pages_Table [simp]

end
