(* ===== verification/Mm_Pages.thy ===== *)
theory Mm_Pages
  imports Mm_Tree
begin

text \<open>
  The page-table code and its memory: what the operations on single entries (initialising a
  table, replacing an entry, freeing a subtree) do to the memory, to the pool the pages come
  from, and to the log of stores and TLB invalidations.
\<close>

section \<open>Frames\<close>

definition mm_config :: "'a mm_machine_scheme \<Rightarrow> bool \<times> nat \<times> nat \<times> u64 \<times> bool \<times> 'a" where
  "mm_config s = (mm_stage2_invalidate s, mm_s2_max_level s, mm_s2_root_table_count s, hyp_ptable s,
     ptable_lock s, mm_machine.more s)"

definition mm_touches ::
  "u64 set \<Rightarrow> nat list \<Rightarrow> 'a mm_machine_scheme \<Rightarrow> 'a mm_machine_scheme \<Rightarrow> bool" where
  "mm_touches X qs s s' \<longleftrightarrow>
     mpool_locks_enabled s' = mpool_locks_enabled s \<and> mm_config s' = mm_config s \<and>
     same_off 0x1000 X (mem s) (mem s') \<and> (\<forall>q. q \<notin> set qs \<longrightarrow> pools s' q = pools s q)"

text \<open>Break before make: a valid entry is only ever overwritten by the absent entry, and then the
  TLB is invalidated before anything else happens. The operations reach the input addresses of the entry
  from the one on that the store was made for. If the entry led to a table this is the first address of the
  entry, so that they reach all of them; otherwise the entry is a block or a page, and
  invalidating one of its addresses removes it from the TLB.\<close>

definition stage1 :: "u32 \<Rightarrow> bool" where
  "stage1 flags \<longleftrightarrow> flags AND MM_FLAG_STAGE1 \<noteq> 0"

definition tlb_clears :: "bool \<Rightarrow> maint_op list \<Rightarrow> u64 \<Rightarrow> nat \<Rightarrow> u64 \<Rightarrow> bool" where
  "tlb_clears st ops va l old \<longleftrightarrow> (arch_mm_pte_is_table old l \<longrightarrow> esz l dvd unat va) \<and>
     (\<forall>x. unat va \<le> unat x \<and> unat x div esz l = unat va div esz l \<longrightarrow> tlbi_reaches st ops x)"

text \<open>The store goes to the entry that the input address selects in its table.\<close>

definition selects :: "u64 \<Rightarrow> nat \<Rightarrow> u64 \<Rightarrow> bool" where
  "selects va l a \<longleftrightarrow> unat a mod 4096 = 8 * (unat va div esz l mod 512)"

fun bbm_ok :: "bool \<Rightarrow> mm_event list \<Rightarrow> bool" where
  "bbm_ok st [] \<longleftrightarrow> True"
| "bbm_ok st (PteStore va l a old new # es) \<longleftrightarrow>
     (arch_mm_pte_is_valid old l \<longrightarrow> new = 0 \<and> selects va l a \<and>
        (\<exists>b e ops es'. es = TlbInvalidate b e ops # es' \<and> tlb_clears st ops va l old)) \<and> bbm_ok st es"
| "bbm_ok st (_ # es) \<longleftrightarrow> bbm_ok st es"

definition logs :: "bool \<Rightarrow> bool \<Rightarrow> 'a mm_machine_scheme \<Rightarrow> 'a mm_machine_scheme \<Rightarrow> bool" where
  "logs st bbm s s' \<longleftrightarrow> (\<exists>ev. mm_log s' = mm_log s @ ev \<and> (bbm \<longrightarrow> bbm_ok st ev))"

lemma bbm_ok_append: "bbm_ok st xs \<Longrightarrow> bbm_ok st ys \<Longrightarrow> bbm_ok st (xs @ ys)"
  by (induction st xs rule: bbm_ok.induct) auto

lemma mm_touches_refl [simp]: "mm_touches X qs s s"
  by (simp add: mm_touches_def)

lemma mm_touches_trans: "mm_touches X qs s s1 \<Longrightarrow> mm_touches X qs s1 s2 \<Longrightarrow> mm_touches X qs s s2"
  unfolding mm_touches_def by (auto intro: same_off_trans)

lemma mm_touches_mono: "mm_touches X qs s s' \<Longrightarrow> X \<subseteq> Y \<Longrightarrow> mm_touches Y qs s s'"
  unfolding mm_touches_def by (auto intro: same_off_mono)

lemma logs_refl [simp]: "logs st bbm s s"
  by (auto simp: logs_def intro: exI [of _ "[]"])

lemma logs_trans:
  assumes "logs st bbm s s1" "logs st bbm s1 s2"
  shows "logs st bbm s s2"
proof -
  obtain e1 e2 where "mm_log s1 = mm_log s @ e1" "bbm \<longrightarrow> bbm_ok st e1" "mm_log s2 = mm_log s1 @ e2" "bbm \<longrightarrow> bbm_ok st e2"
    using assms by (auto simp: logs_def)
  then show ?thesis by (auto simp: logs_def intro!: exI [of _ "e1 @ e2"] bbm_ok_append)
qed

lemma touches_mm:
  assumes "touches 0x1000 X qs s s'"
  shows "mm_touches X qs s s'" "mm_log s' = mm_log s" "logs st bbm s s'"
proof -
  have more: "machine.more s' = machine.more s" using assms by (simp add: touches_def framed_def)
  then have c: "mm_config s' = mm_config s" and l: "mm_log s' = mm_log s"
    by (cases s; cases s'; simp add: mm_config_def)+
  then show "mm_touches X qs s s'" "mm_log s' = mm_log s" "logs st bbm s s'"
    using assms by (auto simp: mm_touches_def touches_def framed_def logs_def intro: exI [of _ "[]"])
qed

lemma chain_rep_cong:
  assumes "mem s' = mem s" "mpool_locks_enabled s' = mpool_locks_enabled s" "\<forall>q\<in>set (map fst xs). pools s' q = pools s q"
  shows "chain_rep E s' r xs = chain_rep E s r xs"
  using assms(3)
proof (induction xs arbitrary: r)
  case (Cons c xs)
  then show ?case using assms(1,2) by (cases c) (simp add: pool_at_def unlocked_def)
qed simp

lemma pool_rep_cong:
  assumes "mem s' = mem s" "mpool_locks_enabled s' = mpool_locks_enabled s" "\<forall>q\<in>set qs. pools s' q = pools s q"
  shows "pool_rep E s' p qs fl = pool_rep E s p qs fl"
proof -
  have "chain_rep E s' (Some p) xs = chain_rep E s (Some p) xs" if "map fst xs = qs" for xs
    using assms that by (intro chain_rep_cong) auto
  then show ?thesis unfolding pool_rep_def by blast
qed

lemma pool_rep_touch:
  assumes "pool_rep 0x1000 s p qs fl" "same_off 0x1000 X (mem s) (mem s')" "mpool_locks_enabled s' = mpool_locks_enabled s"
    "\<forall>q\<in>set qs. pools s' q = pools s q" "\<forall>x\<in>X. page_ok 0x1000 x" "X \<inter> set fl = {}"
  shows "pool_rep 0x1000 s' p qs fl"
proof -
  let ?t = "s\<lparr>mem := mem s', pools := pools s'\<rparr>"
  have "pool_rep 0x1000 ?t p qs fl"
    using assms by (intro pool_rep_frame [OF assms(1), of X]) (auto simp: framed_def)
  then show ?thesis using assms(3) by (subst pool_rep_cong [of s' ?t]) simp_all
qed

section \<open>Stores\<close>

lemma mm_record_simps [simp]:
  "mem (mm_record ev s) = mem s" "pools (mm_record ev s) = pools s"
  "mpool_locks_enabled (mm_record ev s) = mpool_locks_enabled s" "mm_log (mm_record ev s) = mm_log s @ [ev]"
  "mm_config (mm_record ev s) = mm_config s" "mm_stage2_invalidate (mm_record ev s) = mm_stage2_invalidate s"
  by (simp_all add: mm_record_def mm_config_def)

lemma write64_mm [simp]: "mm_config (write64 a v s) = mm_config s" "mm_log (write64 a v s) = mm_log s"
  "mm_stage2_invalidate (write64 a v s) = mm_stage2_invalidate s"
  by (simp_all add: write64_def mm_config_def)

lemma pte_store_simps [simp]:
  "mem (pte_store b l a v s) = (mem s)(a := v)" "pools (pte_store b l a v s) = pools s"
  "mpool_locks_enabled (pte_store b l a v s) = mpool_locks_enabled s"
  "mm_log (pte_store b l a v s) = mm_log s @ [PteStore b l a (mem s a) v]"
  "mm_config (pte_store b l a v s) = mm_config s"
  by (simp_all add: pte_store_def)

lemma write_entries_simps [simp]:
  "pools (write_entries n a v inc s) = pools s"
  "mpool_locks_enabled (write_entries n a v inc s) = mpool_locks_enabled s"
  by (induction n arbitrary: a v s) simp_all

lemma write_entries_mm [simp]:
  "mm_config (write_entries n a v inc s) = mm_config s" "mm_log (write_entries n a v inc s) = mm_log s"
  "mm_stage2_invalidate (write_entries n a v inc s) = mm_stage2_invalidate s"
  by (induction n arbitrary: a v s) simp_all

lemma entry_at_Suc: "entry_at t i + 8 = entry_at t (Suc i)"
  by (simp add: entry_at_def algebra_simps)

lemma write_entries_other:
  "(\<forall>k<n. c \<noteq> entry_at t (i + k)) \<Longrightarrow> mem (write_entries n (entry_at t i) v inc s) c = mem s c"
proof (induction n arbitrary: i v s)
  case (Suc n)
  have "mem (write_entries n (entry_at t (Suc i)) (v + inc) inc (write64 (entry_at t i) v s)) c =
      mem (write64 (entry_at t i) v s) c"
    using Suc.prems by (intro Suc.IH allI impI) (metis Suc_less_eq add_Suc_shift)
  moreover have "c \<noteq> entry_at t i" using Suc.prems [rule_format, of 0] by simp
  ultimately show ?case by (simp add: entry_at_Suc)
qed simp

lemma write_entries_at:
  assumes "table_ok t"
  shows "i + n \<le> 512 \<Longrightarrow> k < n \<Longrightarrow>
    mem (write_entries n (entry_at t i) v inc s) (entry_at t (i + k)) = v + word_of_nat k * inc"
proof (induction n arbitrary: i k v s)
  case (Suc n)
  show ?case
  proof (cases k)
    case 0
    have "mem (write_entries n (entry_at t (Suc i)) (v + inc) inc (write64 (entry_at t i) v s)) (entry_at t i) =
        mem (write64 (entry_at t i) v s) (entry_at t i)"
      using Suc.prems by (intro write_entries_other allI impI) (simp add: entry_at_inj [OF assms])
    then show ?thesis by (simp add: 0 entry_at_Suc)
  next
    case (Suc k')
    then show ?thesis
      using Suc.IH [of "Suc i" k' "v + inc" "write64 (entry_at t i) v s"] Suc.prems
      by (simp add: entry_at_Suc algebra_simps)
  qed
qed simp

lemma write_entries_table:
  assumes "table_ok t"
  shows "\<forall>k<512. mem (write_entries MM_PTE_PER_PAGE t v inc s) (entry_at t k) = v + word_of_nat k * inc"
    "same_off 0x1000 {t} (mem s) (mem (write_entries MM_PTE_PER_PAGE t v inc s))"
proof -
  have t: "entry_at t 0 = t" by (simp add: entry_at_def)
  show "\<forall>k<512. mem (write_entries MM_PTE_PER_PAGE t v inc s) (entry_at t k) = v + word_of_nat k * inc"
    using write_entries_at [OF assms, of 0 512 _ v inc s] by (simp add: t MM_PTE_PER_PAGE_def)
  have "mem (write_entries 512 (entry_at t 0) v inc s) c = mem s c" if "\<not> in_page 0x1000 t c" for c
    using that entry_at_in_page(1) [OF assms] by (intro write_entries_other) auto
  then show "same_off 0x1000 {t} (mem s) (mem (write_entries MM_PTE_PER_PAGE t v inc s))"
    by (simp add: same_off_def MM_PTE_PER_PAGE_def t)
qed

section \<open>Freeing a subtree\<close>

lemma touches_same_off: "touches E X qs s s' \<Longrightarrow> same_off E X (mem s) (mem s')"
  by (simp add: touches_def framed_def)

lemma table_page_same:
  assumes "touches 0x1000 X qs s s'" "table_ok t" "t \<notin> X" "\<forall>x\<in>X. page_ok 0x1000 x" "i < 512"
  shows "mem s' (entry_at t i) = mem s (entry_at t i)"
  using assms by (intro same_offD [OF touches_same_off table_ok_page]) (auto intro: entry_at_in_page)

text \<open>One table entry after the other; each is freed as the level below prescribes.\<close>

lemma free_entries:
  fixes s :: "'a machine_scheme"
  assumes below: "\<And>v t s fl. rep (mem s) l v t \<Longrightarrow> pool_rep 0x1000 s p qs fl \<Longrightarrow> distinct (pages t @ fl) \<Longrightarrow>
      \<exists>s'. mm_free_page_pte l v p s = Inr s' \<and> pool_rep 0x1000 s' p qs (rev (pages t) @ fl) \<and>
        touches 0x1000 (set (pages t)) qs s (s' :: 'a machine_scheme)"
    and tb: "table_ok tb"
  shows "\<forall>i\<in>set is. i < 512 \<and> rep (mem s) l (mem s (entry_at tb i)) (f i) \<Longrightarrow> pool_rep 0x1000 s p qs fl \<Longrightarrow>
    distinct (concat (map (\<lambda>i. pages (f i)) is) @ tb # fl) \<Longrightarrow>
    \<exists>s'. fold_res (\<lambda>i s. mm_free_page_pte l (mem s (entry_at tb i)) p s) is s = Inr s' \<and>
      pool_rep 0x1000 s' p qs (rev (concat (map (\<lambda>i. pages (f i)) is)) @ fl) \<and>
      touches 0x1000 (set (concat (map (\<lambda>i. pages (f i)) is))) qs s s'"
proof (induction "is" arbitrary: s fl)
  case (Cons i "is")
  let ?P = "set (pages (f i))" and ?r = "concat (map (\<lambda>i. pages (f i)) is)"
  have i: "i < 512" "rep (mem s) l (mem s (entry_at tb i)) (f i)" using Cons.prems(1) by auto
  have ok: "\<forall>x\<in>?P. page_ok 0x1000 x" using rep_pages_ok [OF i(2)] table_ok_page by blast
  have "distinct (pages (f i) @ fl)" using Cons.prems(3) by auto
  then obtain s1 where s1: "mm_free_page_pte l (mem s (entry_at tb i)) p s = Inr s1"
    "pool_rep 0x1000 s1 p qs (rev (pages (f i)) @ fl)" "touches 0x1000 ?P qs s s1"
    using below [OF i(2) Cons.prems(2)] by blast
  have "j < 512 \<and> rep (mem s1) l (mem s1 (entry_at tb j)) (f j)" if j: "j \<in> set is" for j
  proof -
    have j': "j < 512" "rep (mem s) l (mem s (entry_at tb j)) (f j)" "set (pages (f j)) \<subseteq> set ?r"
      using Cons.prems(1) j by auto
    have "mem s1 (entry_at tb j) = mem s (entry_at tb j)"
      using Cons.prems(3) ok j' by (intro table_page_same [OF s1(3) tb]) auto
    moreover have "?P \<inter> set (pages (f j)) = {}" using Cons.prems(3) j' by auto
    ultimately show ?thesis using rep_frame [OF j'(2) touches_same_off [OF s1(3)] ok] j'(1) by simp
  qed
  moreover have "distinct (?r @ tb # (rev (pages (f i)) @ fl))" using Cons.prems(3) by auto
  ultimately obtain s2 where s2: "fold_res (\<lambda>i s. mm_free_page_pte l (mem s (entry_at tb i)) p s) is s1 = Inr s2"
    "pool_rep 0x1000 s2 p qs (rev ?r @ rev (pages (f i)) @ fl)" "touches 0x1000 (set ?r) qs s1 s2"
    using Cons.IH [OF _ s1(2)] by blast
  have "touches 0x1000 (set (concat (map (\<lambda>i. pages (f i)) (i # is)))) qs s s2"
    by (rule touches_trans [OF touches_mono [OF s1(3)] touches_mono [OF s2(3)]]) auto
  then show ?case using s1(1) s2(1,2) by auto
qed simp

lemma map_nth_512: "length ts = 512 \<Longrightarrow> map (\<lambda>i. f (ts ! i)) [0..<512] = map f ts"
  by (simp add: list_eq_iff_nth_eq)

lemma free_pte:
  "rep (mem s) l v t \<Longrightarrow> pool_rep 0x1000 s p qs fl \<Longrightarrow> distinct (pages t @ fl) \<Longrightarrow>
    \<exists>s'. mm_free_page_pte l v p s = Inr s' \<and> pool_rep 0x1000 s' p qs (rev (pages t) @ fl) \<and>
      touches 0x1000 (set (pages t)) qs s s'"
proof (induction l arbitrary: v t s fl)
  case 0
  then show ?case by (cases t) (auto dest: leaf_ok_not_table)
next
  case (Suc l)
  show ?case
  proof (cases t)
    case (Leaf w)
    then show ?thesis using Suc.prems by (auto dest: leaf_ok_not_table)
  next
    case (Table tb ts)
    note r = Suc.prems(1) [unfolded Table]
    have tb: "table_ok tb" "length ts = 512" "\<forall>i<512. rep (mem s) l (mem s (entry_at tb i)) (ts ! i)"
      using r by auto
    have pg: "concat (map (\<lambda>i. pages (ts ! i)) [0..<512]) = tpages ts"
      using map_nth_512 [OF tb(2), of pages] by (simp add: tpages_def)
    have dis: "distinct (tpages ts @ tb # fl)" using Suc.prems(3) by (auto simp: Table pages_Table)
    have "\<forall>i\<in>set [0..<512]. i < 512 \<and> rep (mem s) l (mem s (entry_at tb i)) (ts ! i)" using tb(3) by simp
    note fe = free_entries [OF Suc.IH tb(1) this Suc.prems(2), unfolded pg, OF _ _ _ dis]
    obtain s1 where s1: "fold_res (\<lambda>i s. mm_free_page_pte l (mem s (entry_at tb i)) p s) [0..<512] s = Inr s1"
      "pool_rep 0x1000 s1 p qs (rev (tpages ts) @ fl)" "touches 0x1000 (set (tpages ts)) qs s s1"
      using fe by blast
    obtain s2 where s2: "mpool_free p tb s1 = Inr s2" "pool_rep 0x1000 s2 p qs (tb # rev (tpages ts) @ fl)"
      "touches 0x1000 {tb} qs s1 s2"
      using mp.free_page [OF s1(2) table_ok_page [OF tb(1)]] dis by auto
    have "mm_free_page_pte (Suc l) v p s = Inr s2"
      using s1(1) s2(1) rep_table_iff [OF r] by (simp add: MM_PTE_PER_PAGE_def)
    moreover have "touches 0x1000 (set (pages t)) qs s s2"
      by (rule touches_trans [OF touches_mono [OF s1(3)] touches_mono [OF s2(3)]]) (auto simp: Table pages_Table)
    ultimately show ?thesis using s2(2) by (auto simp: Table pages_Table)
  qed
qed

section \<open>Replacing an entry\<close>

definition table_rep :: "(u64 \<Rightarrow> u64) \<Rightarrow> nat \<Rightarrow> u64 \<Rightarrow> ptree list \<Rightarrow> bool" where
  "table_rep m l tb ts \<longleftrightarrow>
     table_ok tb \<and> length ts = 512 \<and> (\<forall>i<512. rep m l (m (entry_at tb i)) (ts ! i))"

definition must_break :: "u32 \<Rightarrow> 'a mm_machine_scheme \<Rightarrow> bool" where
  "must_break flags s \<longleftrightarrow> flags AND MM_FLAG_STAGE1 \<noteq> 0 \<or> mm_stage2_invalidate s"

lemma table_repD:
  assumes "table_rep m l tb ts"
  shows "table_ok tb" "page_ok 0x1000 tb" "length ts = 512" "i < 512 \<Longrightarrow> rep m l (m (entry_at tb i)) (ts ! i)"
    "x \<in> set (tpages ts) \<Longrightarrow> table_ok x"
proof -
  show "table_ok tb" "page_ok 0x1000 tb" "length ts = 512" "i < 512 \<Longrightarrow> rep m l (m (entry_at tb i)) (ts ! i)"
    using assms table_ok_page by (auto simp: table_rep_def)
  assume "x \<in> set (tpages ts)"
  then obtain c where c: "c \<in> set ts" "x \<in> set (pages c)" by (auto simp: tpages_def)
  then obtain j where "j < 512" "ts ! j = c" using assms by (auto simp: table_rep_def in_set_conv_nth)
  then have "rep m l (m (entry_at tb j)) c" using assms by (auto simp: table_rep_def)
  then show "table_ok x" using c(2) by (rule rep_pages_ok)
qed

lemma pages_nth_subset: "i < length ts \<Longrightarrow> set (pages (ts ! i)) \<subseteq> set (tpages ts)"
  by (auto simp: tpages_def intro: nth_mem)

lemma tpages_split:
  assumes "i < length ts"
  shows "tpages ts = tpages (take i ts) @ pages (ts ! i) @ tpages (drop (Suc i) ts)"
proof -
  have "ts = take i ts @ ts ! i # drop (Suc i) ts" using assms by (rule id_take_nth_drop)
  then show ?thesis by (metis concat.simps(2) concat_append list.map(2) map_append tpages_def)
qed

lemma distinct_pages_nth: "distinct (tpages ts) \<Longrightarrow> i < length ts \<Longrightarrow> distinct (pages (ts ! i))"
  using tpages_split [of i ts] by simp

lemma pages_nth_disjoint_less:
  assumes "distinct (tpages ts)" "i < j" "j < length ts"
  shows "set (pages (ts ! i)) \<inter> set (pages (ts ! j)) = {}"
proof -
  have "drop (Suc i) ts ! (j - Suc i) = ts ! j" using assms by simp
  then have "ts ! j \<in> set (drop (Suc i) ts)" using assms by (metis diff_less_mono length_drop nth_mem Suc_leI)
  then have "set (pages (ts ! j)) \<subseteq> set (tpages (drop (Suc i) ts))" by (auto simp: tpages_def)
  then show ?thesis using assms tpages_split [of i ts] by auto
qed

lemma pages_nth_disjoint:
  assumes "distinct (tpages ts)" "i < length ts" "j < length ts" "i \<noteq> j"
  shows "set (pages (ts ! i)) \<inter> set (pages (ts ! j)) = {}"
  using pages_nth_disjoint_less [OF assms(1), of i j] pages_nth_disjoint_less [OF assms(1), of j i] assms
  by (cases "i < j") auto

text \<open>The input address an entry is replaced for: a page in the part of the address space the entry
  translates, the first one if the entry leads to a table.\<close>

definition va_ok :: "u64 \<Rightarrow> nat \<Rightarrow> nat \<Rightarrow> ptree \<Rightarrow> bool" where
  "va_ok va l i t \<longleftrightarrow> l \<le> 3 \<and> 4096 dvd unat va \<and> unat va < 2 ^ 52 \<and> unat va div esz l mod 512 = i \<and>
     (\<forall>tb ts. t = Table tb ts \<longrightarrow> esz l dvd unat va)"

lemma invalidate_clears:
  assumes "va_ok va l i t" "rep m l v t"
  shows "tlb_clears st (if st then arch_mm_invalidate_stage1_range False va (va + mm_entry_size l)
    else arch_mm_invalidate_stage2_range va (va + mm_entry_size l)) va l v"
  unfolding tlb_clears_def
proof (intro conjI allI impI)
  assume "arch_mm_pte_is_table v l"
  then show "esz l dvd unat va" using assms rep_Leaf_not_table by (cases t) (auto simp: va_ok_def)
next
  fix x :: u64 assume x: "unat va \<le> unat x \<and> unat x div esz l = unat va div esz l"
  have l: "l \<le> 3" "4096 dvd unat va" "unat va < 2 ^ 52" using assms(1) by (simp_all add: va_ok_def)
  have "esz l \<le> 2 ^ 48" using l(1) by (intro esz_bound) simp
  moreover have "unat (mm_entry_size l) = esz l" using l(1) by (intro unat_entry_size) simp
  ultimately have e: "unat (va + mm_entry_size l) = unat va + esz l" using l(3) by (subst unat_add64) simp_all
  have "unat x < unat va + esz l"
    using dividend_less_div_times [OF esz_pos(1) [of l], of "unat x"] div_times_less_eq_dividend [of "unat va" "esz l"]
    unfolding conjunct2 [OF x] by linarith
  moreover have "4096 dvd unat va + esz l" using l(2) esz_page [of l] by (rule dvd_add)
  ultimately show "tlbi_reaches st (if st then arch_mm_invalidate_stage1_range False va (va + mm_entry_size l)
      else arch_mm_invalidate_stage2_range va (va + mm_entry_size l)) x"
    using x e by (intro range_invalidated) simp_all
qed

lemma replace_entry_log:
  assumes "mm_log s' = mm_log s2"
    and s1: "s1 = (if (flags AND MM_FLAG_STAGE1 \<noteq> 0 \<or> mm_stage2_invalidate s) \<and> arch_mm_pte_is_valid (mem s pte) l
              then mm_invalidate_tlb begin (begin + mm_entry_size l) flags (pte_store begin l pte (arch_mm_absent_pte l) s) else s)"
    and s2: "s2 = pte_store begin l pte nv s1" and va: "va_ok begin l i t" "rep m l (mem s pte) t" "selects begin l pte"
  shows "logs (stage1 flags) (must_break flags s) s s'"
  using va(3) invalidate_clears [OF va(1,2), of "stage1 flags"]
  by (auto simp: logs_def assms(1) s2 s1 mm_invalidate_tlb_def arch_mm_absent_pte_def arch_mm_pte_is_valid_def must_break_def
      stage1_def split: if_splits)

lemma entry_selected:
  assumes "table_ok tb" "unat va div esz l mod 512 = i"
  shows "selects va l (entry_at tb i)"
proof -
  have i: "i < 512" using assms(2) by auto
  have "4096 dvd unat tb" using assms(1) by (simp add: table_ok_def addr_ok_iff)
  moreover have "unat (entry_at tb i) = unat tb + 8 * i" using entry_at_in_page(2) [OF assms(1) i] by simp
  ultimately show ?thesis using assms(2) i by (auto simp: selects_def mod_add_left_eq)
qed

lemma replace_entry:
  fixes s :: "'a mm_machine_scheme"
  assumes tab: "table_rep (mem s) l tb ts" and pool: "pool_rep 0x1000 s p qs fl" and i: "i < 512"
    and dis: "distinct (tb # tpages ts @ fl)" "set (pages t') \<inter> set (tb # tpages ts) = {}"
    and new: "rep (mem s) l nv t'" and va: "va_ok begin l i (ts ! i)"
  shows "\<exists>s'. mm_replace_entry begin (entry_at tb i) nv l flags p s = Inr s' \<and>
    table_rep (mem s') l tb (ts[i := t']) \<and> pool_rep 0x1000 s' p qs (rev (pages (ts ! i)) @ fl) \<and>
    mm_touches (insert tb (set (pages (ts ! i)))) qs s s' \<and> logs (stage1 flags) (must_break flags s) s s'"
proof -
  let ?a = "entry_at tb i" and ?t = "ts ! i"
  define s1 where s1: "s1 = (if (flags AND MM_FLAG_STAGE1 \<noteq> 0 \<or> mm_stage2_invalidate s) \<and>
      arch_mm_pte_is_valid (mem s ?a) l
    then mm_invalidate_tlb begin (begin + mm_entry_size l) flags (pte_store begin l ?a (arch_mm_absent_pte l) s) else s)"
  define s2 where s2: "s2 = pte_store begin l ?a nv s1"
  have m2: "mem s2 = (mem s)(?a := nv)" "pools s2 = pools s" "mpool_locks_enabled s2 = mpool_locks_enabled s"
    "mm_config s2 = mm_config s"
    by (auto simp: s2 s1 mm_invalidate_tlb_def)
  note tr = table_repD [OF tab]
  have off: "same_off 0x1000 {tb} (mem s) (mem s2)"
    unfolding m2 using entry_at_in_page [OF tr(1) i] by (intro same_off_upd [where x = tb]) auto
  have sub: "set (pages ?t) \<subseteq> set (tpages ts)" using tr(3) i by (intro pages_nth_subset) simp
  have pok: "\<forall>x\<in>set (pages ?t). page_ok 0x1000 x" using sub tr(5) table_ok_page by blast
  have tb: "\<forall>x\<in>{tb}. page_ok 0x1000 x" using tr(2) by simp
  have "pool_rep 0x1000 s2 p qs fl"
    using dis m2 by (intro pool_rep_touch [OF pool off _ _ tb]) auto
  moreover have "rep (mem s2) l (mem s ?a) ?t"
    using dis(1) sub by (intro rep_frame [OF tr(4) [OF i] off tb]) auto
  moreover have "distinct (pages ?t @ fl)"
  proof -
    have "distinct (pages ?t)" using dis(1) tr(3) i by (intro distinct_pages_nth) auto
    then show ?thesis using dis(1) sub by auto
  qed
  ultimately obtain s' where s': "mm_free_page_pte l (mem s ?a) p s2 = Inr s'"
    "pool_rep 0x1000 s' p qs (rev (pages ?t) @ fl)" "touches 0x1000 (set (pages ?t)) qs s2 s'"
    using free_pte by blast
  have run: "mm_replace_entry begin ?a nv l flags p s = Inr s'"
    using s'(1) by (simp add: mm_replace_entry_def Let_def s1 s2)
  have ent: "mem s' (entry_at tb j) = mem s2 (entry_at tb j)" if "j < 512" for j
    using that dis(1) sub pok by (intro table_page_same [OF s'(3) tr(1)]) auto
  let ?X = "insert tb (set (pages ?t))"
  have offX: "same_off 0x1000 ?X (mem s) (mem s')"
    by (rule same_off_trans [OF same_off_mono [OF off] same_off_mono [OF touches_same_off [OF s'(3)]]]) auto
  have Xok: "\<forall>x\<in>?X. page_ok 0x1000 x" using pok tr(2) by simp
  have "rep (mem s') l (mem s' (entry_at tb j)) (ts[i := t'] ! j)" if j: "j < 512" for j
  proof (cases "j = i")
    case True
    have "?X \<inter> set (pages t') = {}" using dis(2) sub by auto
    then show ?thesis using rep_frame [OF new offX Xok] ent [OF i] True i tr(3) by (simp add: m2)
  next
    case False
    have "?X \<inter> set (pages (ts ! j)) = {}"
      using pages_nth_disjoint [of ts i j] pages_nth_subset [of j ts] dis(1) i j tr(3) False by auto
    moreover have "mem s' (entry_at tb j) = mem s (entry_at tb j)"
      using ent [OF j] entry_at_inj [OF tr(1) j i] False by (simp add: m2)
    ultimately show ?thesis using rep_frame [OF tr(4) [OF j] offX Xok] False by simp
  qed
  then have "table_rep (mem s') l tb (ts[i := t'])" using tr(1,3) by (simp add: table_rep_def)
  moreover have "mm_touches ?X qs s s'"
    using offX touches_mm(1) [OF s'(3)] m2 by (auto simp: mm_touches_def)
  moreover have "logs (stage1 flags) (must_break flags s) s s'"
    using va by (intro replace_entry_log [OF touches_mm(2) [OF s'(3)] s1 s2 va tr(4) [OF i]] entry_selected tr(1)) (simp add: va_ok_def)
  ultimately show ?thesis using run s'(2) by blast
qed

end
