(* ===== verification/Mm_Populate.thy ===== *)
theory Mm_Populate
  imports Mm_Pages
begin

text \<open>
  Replacing a leaf by a table with the same translation: the entries
  \<open>mm_populate_table_pte\<close> writes, and the state it leaves. \<open>tinv\<close> is the invariant of a
  table together with the pool its subtables come from, \<open>tstep\<close> what every operation below a
  table entry guarantees.
\<close>

section \<open>Splitting a leaf\<close>

definition split_leaf :: "nat \<Rightarrow> u64 \<Rightarrow> ptree list" where
  "split_leaf l v =
     (let (inc, pte) = (if arch_mm_pte_is_block v (Suc l)
            then (mm_entry_size l,
                  arch_mm_block_pte l (arch_mm_block_from_pte v (Suc l)) (arch_mm_pte_attrs v (Suc l)))
            else (0, 0))
      in map (\<lambda>k. Leaf (pte + word_of_nat k * inc)) [0..<512])"

lemma length_split_leaf [simp]: "length (split_leaf l v) = 512"
  by (simp add: split_leaf_def split_def)

lemma tpages_split_leaf [simp]: "tpages (split_leaf l v) = []"
  by (simp add: split_leaf_def split_def tpages_def)

lemma aligned_room:
  fixes a n m :: nat
  assumes "n dvd a" "n dvd m" "a < m"
  shows "a + n \<le> m"
proof -
  obtain i j where "a = n * i" "m = n * j" using assms by (auto elim!: dvdE)
  with assms(3) have "n * i < n * j" by simp
  then have "i < j" by (cases "n = 0") simp_all
  then have "n * Suc i \<le> n * j" by (intro mult_le_mono2) simp
  with \<open>a = n * i\<close> \<open>m = n * j\<close> show ?thesis by simp
qed

lemma esz_dvd_space: "l \<le> 4 \<Longrightarrow> esz l dvd 2 ^ 48"
  unfolding esz_def by (rule le_imp_power_dvd) simp

lemma block_part:
  assumes a: "addr_ok a" "esz (Suc l) dvd unat a" and l: "Suc l \<le> 2" and k: "k < 512"
  shows "unat (a + word_of_nat k * mm_entry_size l) = unat a + k * esz l"
    "addr_ok (a + word_of_nat k * mm_entry_size l)" "esz l dvd unat (a + word_of_nat k * mm_entry_size l)"
proof -
  have lt: "unat a < 2 ^ 48" and pg: "4096 dvd unat a" using a(1) by (auto simp: addr_ok_iff)
  have top: "unat a + esz (Suc l) \<le> 2 ^ 48"
    using l by (intro aligned_room [OF a(2) _ lt] esz_dvd_space) simp
  have e: "unat (mm_entry_size l) = esz l" using l by (intro unat_entry_size) simp
  have kk: "k * esz l + esz l \<le> esz (Suc l)"
  proof -
    have "Suc k * esz l \<le> 512 * esz l" using k by (intro mult_le_mono1) simp
    then show ?thesis by (simp add: esz_Suc)
  qed
  have uk: "unat (word_of_nat k :: u64) = k" using k by (intro unat_of_nat64) simp
  have b: "k * esz l < 18446744073709551616" "unat a + k * esz l < 18446744073709551616" using kk top by simp_all
  have m: "unat (word_of_nat k * mm_entry_size l) = k * esz l"
    using b(1) by (subst unat_mult64) (simp_all add: uk e)
  show u: "unat (a + word_of_nat k * mm_entry_size l) = unat a + k * esz l"
    using b(2) by (subst unat_add64) (simp_all add: m)
  have "esz l dvd unat a" using esz_dvd [of l "Suc l"] a(2) by (rule dvd_trans) simp
  then show "esz l dvd unat (a + word_of_nat k * mm_entry_size l)" by (simp add: u)
  have "4096 dvd unat a + k * esz l" using pg esz_page [of l] by (intro dvd_add dvd_mult) simp_all
  moreover have "unat a + k * esz l < 2 ^ 48" using kk top esz_pos(1) [of l] by linarith
  ultimately show "addr_ok (a + word_of_nat k * mm_entry_size l)" by (simp add: addr_ok_iff u)
qed

lemma split_leaf_absent: "k < 512 \<Longrightarrow> split_leaf l 0 ! k = Leaf 0"
  by (simp add: split_leaf_def)

lemma split_leaf_block:
  assumes "addr_ok a" "attrs_ok x" "esz (Suc l) dvd unat a" "Suc l \<le> 2" "k < 512"
  shows "split_leaf l (arch_mm_block_pte (Suc l) a x) ! k =
    Leaf (arch_mm_block_pte l (a + word_of_nat k * mm_entry_size l) x)"
proof -
  note x = attrs_ok_masked [OF assms(2)]
  note p = block_part [OF assms(1,3,4,5)]
  have "split_leaf l (arch_mm_block_pte (Suc l) a x) ! k =
      Leaf (arch_mm_block_pte l a x + word_of_nat k * mm_entry_size l)"
    using block_pte_is_block(1) [OF assms(1,2,4)] block_pte_laws(1,2) [OF assms(1) x] assms(5)
    by (simp add: split_leaf_def)
  then show ?thesis using block_pte_add [OF assms(1) p(2) x] by simp
qed

lemma split_leaf_ok:
  assumes "leaf_ok (Suc l) v" "k < 512"
  shows "\<exists>w. split_leaf l v ! k = Leaf w \<and> leaf_ok l w"
  using assms(1)
proof (cases rule: leaf_ok_cases)
  case 1
  then show ?thesis using split_leaf_absent [OF assms(2)] by simp
next
  case (2 a x)
  have "leaf_ok l (arch_mm_block_pte l (a + word_of_nat k * mm_entry_size l) x)"
    using 2 block_part [OF 2(3,5,2) assms(2)] by (intro leaf_ok_block) simp_all
  then show ?thesis using split_leaf_block [OF 2(3,4,5,2) assms(2)] 2(1) by simp
qed

lemma look_block:
  assumes "addr_ok a" "attrs_ok x" "l \<le> 2"
  shows "look l (Leaf (arch_mm_block_pte l a x)) off = Some (unat a + off, x)"
  using block_pte_is_block(2) [OF assms] block_pte_laws(1,2) [OF assms(1) attrs_ok_masked [OF assms(2)]] by simp

lemma look_split:
  assumes v: "leaf_ok (Suc l) v" and off: "off < esz (Suc l)"
  shows "look (Suc l) (Table t (split_leaf l v)) off = look (Suc l) (Leaf v) off"
proof -
  have k: "off div esz l < 512" using off by (simp add: esz_Suc div_less_iff_less_mult)
  show ?thesis using v
  proof (cases rule: leaf_ok_cases)
    case 1
    then show ?thesis using split_leaf_absent [OF k] by simp
  next
    case (2 a x)
    note p = block_part [OF 2(3,5,2) k]
    have "look l (Leaf (arch_mm_block_pte l (a + word_of_nat (off div esz l) * mm_entry_size l) x)) (off mod esz l)
        = Some (unat a + off div esz l * esz l + off mod esz l, x)"
      using 2 p by (subst look_block) simp_all
    then show ?thesis
      using split_leaf_block [OF 2(3,4,5,2) k] look_block [OF 2(3,4,2), of off] unfolding 2(1)
      by (simp add: div_mult_mod_eq add.assoc del: look.simps(1))
  qed
qed

section \<open>Tables with their pool\<close>

definition tinv ::
  "'a mm_machine_scheme \<Rightarrow> nat \<Rightarrow> u64 \<Rightarrow> ptree list \<Rightarrow> nat \<Rightarrow> nat list \<Rightarrow> u64 list \<Rightarrow> bool" where
  "tinv s l tb ts p qs fl \<longleftrightarrow>
     table_rep (mem s) l tb ts \<and> pool_rep 0x1000 s p qs fl \<and> distinct (tb # tpages ts @ fl) \<and>
     (\<forall>x\<in>set fl. addr_ok x)"

definition tstep ::
  "u32 \<Rightarrow> nat \<Rightarrow> u64 \<Rightarrow> nat \<Rightarrow> nat list \<Rightarrow> 'a mm_machine_scheme \<Rightarrow> ptree list \<Rightarrow> u64 list \<Rightarrow>
   'a mm_machine_scheme \<Rightarrow> ptree list \<Rightarrow> u64 list \<Rightarrow> bool" where
  "tstep flags l tb p qs s ts fl s' ts' fl' \<longleftrightarrow>
     tinv s' l tb ts' p qs fl' \<and> mset (tpages ts' @ fl') = mset (tpages ts @ fl) \<and>
     mm_touches (insert tb (set (tpages ts @ fl))) qs s s' \<and> logs (stage1 flags) (must_break flags s) s s'"

lemma tstep_refl: "tinv s l tb ts p qs fl \<Longrightarrow> tstep flags l tb p qs s ts fl s ts fl"
  by (simp add: tstep_def)

lemma must_break_touch: "mm_touches X qs s s' \<Longrightarrow> must_break flags s' = must_break flags s"
  by (simp add: must_break_def mm_touches_def mm_config_def)

lemma tstep_trans:
  assumes "tstep flags l tb p qs s ts fl s1 ts1 fl1" "tstep flags l tb p qs s1 ts1 fl1 s2 ts2 fl2"
  shows "tstep flags l tb p qs s ts fl s2 ts2 fl2"
proof -
  let ?X = "insert tb (set (tpages ts @ fl))"
  have a: "mset (tpages ts1 @ fl1) = mset (tpages ts @ fl)" "mm_touches ?X qs s s1" "logs (stage1 flags) (must_break flags s) s s1"
    using assms(1) by (simp_all add: tstep_def)
  have "set (tpages ts1 @ fl1) = set (tpages ts @ fl)" using a(1) by (rule mset_eq_setD)
  then have b: "tinv s2 l tb ts2 p qs fl2" "mset (tpages ts2 @ fl2) = mset (tpages ts1 @ fl1)" "mm_touches ?X qs s1 s2"
    "logs (stage1 flags) (must_break flags s1) s1 s2" using assms(2) by (simp_all add: tstep_def)
  have "logs (stage1 flags) (must_break flags s) s s2"
    using logs_trans [OF a(3)] b(4) must_break_touch [OF a(2), of flags] by simp
  then show ?thesis using a b mm_touches_trans [OF a(2) b(3)] by (simp add: tstep_def)
qed

lemma mset_tpages_upd:
  "n < length ts \<Longrightarrow> mset (tpages (ts[n := t])) + mset (pages (ts ! n)) = mset (tpages ts) + mset (pages t)"
  unfolding tpages_def by (rule mset_concat_upd)

lemma tinv_page_sets:
  assumes "tinv s l tb ts p qs fl"
  shows "table_ok tb" "length ts = 512" "\<forall>x\<in>insert tb (set (tpages ts @ fl)). page_ok 0x1000 x"
    "tb \<notin> set (tpages ts @ fl)"
proof -
  have t: "table_rep (mem s) l tb ts" "pool_rep 0x1000 s p qs fl" "distinct (tb # tpages ts @ fl)"
    using assms by (simp_all add: tinv_def)
  show "table_ok tb" "length ts = 512" using table_repD [OF t(1)] by simp_all
  show "\<forall>x\<in>insert tb (set (tpages ts @ fl)). page_ok 0x1000 x"
    using table_repD [OF t(1)] table_ok_page mp.holds_pages [OF t(2)] by auto
  show "tb \<notin> set (tpages ts @ fl)" using t(3) by simp
qed

text \<open>An entry that is replaced gives its pages back; the new subtree may use pages that were
  taken out of the pool before.\<close>

lemma tstep_replace:
  fixes s0 s :: "'a mm_machine_scheme"
  assumes inv: "tinv s0 l tb ts p qs fl0" and i: "i < 512" and va: "va_ok begin l i (ts ! i)"
    and taken: "fl0 = xs @ fl" "pages t' = xs"
    and s: "table_rep (mem s) l tb ts" "pool_rep 0x1000 s p qs fl" "rep (mem s) l nv t'"
      "mm_touches (set fl0) qs s0 s" "mm_log s = mm_log s0"
  shows "\<exists>s'. mm_replace_entry begin (entry_at tb i) nv l flags p s = Inr s' \<and>
    tstep flags l tb p qs s0 ts fl0 s' (ts[i := t']) (rev (pages (ts ! i)) @ fl)"
proof -
  have dis: "distinct (tb # tpages ts @ xs @ fl)" "\<forall>x\<in>set fl0. addr_ok x" using inv taken by (simp_all add: tinv_def)
  obtain s' where s': "mm_replace_entry begin (entry_at tb i) nv l flags p s = Inr s'"
    "table_rep (mem s') l tb (ts[i := t'])" "pool_rep 0x1000 s' p qs (rev (pages (ts ! i)) @ fl)"
    "mm_touches (insert tb (set (pages (ts ! i)))) qs s s'" "logs (stage1 flags) (must_break flags s) s s'"
    using replace_entry [OF s(1,2) i _ _ s(3) va, of flags] dis taken by auto
  have len: "i < length ts" using i tinv_page_sets(2) [OF inv] by simp
  have ms: "mset (tpages (ts[i := t']) @ rev (pages (ts ! i)) @ fl) = mset (tpages ts @ fl0)"
    using mset_tpages_upd [OF len, of t'] taken by (simp add: ac_simps)
  then have "distinct (tpages (ts[i := t']) @ rev (pages (ts ! i)) @ fl)"
    using dis(1) taken by (intro distinct_mset_eq [OF ms [symmetric]]) simp
  moreover have sets: "set (tpages (ts[i := t']) @ rev (pages (ts ! i)) @ fl) = set (tpages ts @ fl0)"
    using ms by (rule mset_eq_setD)
  moreover have sub: "set (pages (ts ! i)) \<subseteq> set (tpages ts)" by (rule pages_nth_subset [OF len])
  ultimately have "tinv s' l tb (ts[i := t']) p qs (rev (pages (ts ! i)) @ fl)"
    using s'(2,3) dis table_repD(5) [OF s(1)] taken by (auto simp: tinv_def table_ok_def)
  moreover have "mm_touches (insert tb (set (tpages ts @ fl0))) qs s0 s'"
    by (rule mm_touches_trans [OF mm_touches_mono [OF s(4)] mm_touches_mono [OF s'(4)]]) (use sub in auto)
  moreover have "logs (stage1 flags) (must_break flags s0) s0 s'"
    using s'(5) must_break_touch [OF s(4)] s(5) by (simp add: logs_def)
  ultimately show ?thesis using s'(1) ms unfolding tstep_def by blast
qed

lemma replace_with_leaf:
  assumes "tinv s l tb ts p qs fl" "i < 512" "leaf_ok l nv" "va_ok begin l i (ts ! i)"
  shows "\<exists>s'. mm_replace_entry begin (entry_at tb i) nv l flags p s = Inr s' \<and>
    tstep flags l tb p qs s ts fl s' (ts[i := Leaf nv]) (rev (pages (ts ! i)) @ fl)"
  using assms by (intro tstep_replace [OF assms(1,2,4), of "[]"]) (auto simp: tinv_def)

section \<open>Populating an entry\<close>

lemma populate_fresh:
  assumes inv: "tinv s (Suc l) tb ts p qs (x # fl)" and i: "i < 512" and leaf: "ts ! i = Leaf v"
    and va: "va_ok begin (Suc l) i (ts ! i)"
  shows "\<exists>s'. mm_populate_table_pte begin (entry_at tb i) (Suc l) flags p s = Inr (x, s') \<and>
    tstep flags (Suc l) tb p qs s ts (x # fl) s' (ts[i := Table x (split_leaf l v)]) fl"
proof -
  let ?a = "entry_at tb i"
  have t: "table_rep (mem s) (Suc l) tb ts" "pool_rep 0x1000 s p qs (x # fl)"
    "distinct (tb # tpages ts @ x # fl)" "addr_ok x" using inv by (simp_all add: tinv_def)
  have "rep (mem s) (Suc l) (mem s ?a) (Leaf v)" using table_repD(4) [OF t(1) i] leaf by simp
  then have v: "mem s ?a = v" "leaf_ok (Suc l) v" by simp_all
  have "page_ok 0x1000 x" using mp.holds_pages [OF t(2)] by simp
  then have xok: "table_ok x" using t(4) page_okD(1) by (auto simp: table_ok_def)
  obtain s1 where s1: "mpool_alloc p s = Inr (x, s1)" "pool_rep 0x1000 s1 p qs fl" "touches 0x1000 (set (x # fl)) qs s s1"
    using mp.alloc_some [OF t(2)] by blast
  define inc pte where "inc = (if arch_mm_pte_is_block v (Suc l) then mm_entry_size l else 0)"
    and "pte = (if arch_mm_pte_is_block v (Suc l)
      then arch_mm_block_pte l (arch_mm_block_from_pte v (Suc l)) (arch_mm_pte_attrs v (Suc l)) else 0)"
  define s2 where "s2 = write_entries MM_PTE_PER_PAGE x pte inc s1"
  note w = write_entries_table [OF xok, where v = pte and inc = inc and s = s1, folded s2_def]
  have xs: "\<forall>y\<in>set (x # fl). page_ok 0x1000 y" using mp.holds_pages [OF t(2)] by simp
  have off: "same_off 0x1000 (set (x # fl)) (mem s) (mem s2)"
    by (rule same_off_trans [OF touches_same_off [OF s1(3)] same_off_mono [OF w(2)]]) simp
  have ent: "mem s2 (entry_at tb j) = mem s (entry_at tb j)" if "j < 512" for j
    using that t(3) xs table_repD(1,2) [OF t(1)]
    by (intro same_offD [OF off]) (auto intro: entry_at_in_page)
  have "rep (mem s2) (Suc l) (mem s2 (entry_at tb j)) (ts ! j)" if j: "j < 512" for j
    using pages_nth_subset [of j ts] t(3) table_repD(3) [OF t(1)] j
    by (intro rep_frame [OF _ off xs]) (auto simp: ent table_repD(4) [OF t(1)])
  then have tab2: "table_rep (mem s2) (Suc l) tb ts" using table_repD(1,3) [OF t(1)] by (simp add: table_rep_def)
  have "x \<notin> set fl" using t(3) by simp
  then have pool2: "pool_rep 0x1000 s2 p qs fl"
    using xs by (intro pool_rep_touch [OF s1(2) w(2)]) (simp_all add: s2_def)
  have ch: "split_leaf l v ! k = Leaf (mem s2 (entry_at x k))" if "k < 512" for k
    using that w(1) by (simp add: split_leaf_def inc_def pte_def)
  have "rep (mem s2) l (mem s2 (entry_at x k)) (split_leaf l v ! k)" if "k < 512" for k
    using split_leaf_ok [OF v(2) that] ch [OF that] by auto
  then have new: "rep (mem s2) (Suc l) (arch_mm_table_pte (Suc l) x) (Table x (split_leaf l v))"
    using xok by simp
  have tch: "mm_touches (set (x # fl)) qs s s2" "mm_log s2 = mm_log s"
    using touches_mm [OF s1(3)] off by (simp_all add: s2_def mm_touches_def)
  obtain s' where s': "mm_replace_entry begin ?a (arch_mm_table_pte (Suc l) x) (Suc l) flags p s2 = Inr s'"
    "tstep flags (Suc l) tb p qs s ts (x # fl) s' (ts[i := Table x (split_leaf l v)]) (rev (pages (ts ! i)) @ fl)"
    using tstep_replace [OF inv i va, of "[x]" fl "Table x (split_leaf l v)", OF _ _ tab2 pool2 new tch] by auto
  have "mm_populate_table_pte begin ?a (Suc l) flags p s = Inr (x, s')"
    using s'(1) s1(1) xok v leaf_ok_not_table [OF v(2)]
    by (cases "arch_mm_pte_is_block v (Suc l)")
       (simp_all add: mm_populate_table_pte_def mm_alloc_page_tables_def Let_def s2_def inc_def pte_def table_ok_def
          arch_mm_absent_pte_def)
  then show ?thesis using s'(2) leaf by auto
qed

lemma populate_table:
  assumes "tinv s (Suc l) tb ts p qs fl" "i < 512" "ts ! i = Table t cs"
  shows "mm_populate_table_pte begin (entry_at tb i) (Suc l) flags p s = Inr (t, s)"
proof -
  have "rep (mem s) (Suc l) (mem s (entry_at tb i)) (Table t cs)"
    using table_repD(4) [of "mem s" "Suc l" tb ts i] assms by (simp add: tinv_def)
  from rep_table_iff [OF this] show ?thesis by (simp add: mm_populate_table_pte_def Let_def)
qed

lemma populate_no_memory:
  assumes "tinv s (Suc l) tb ts p qs []" "i < 512" "ts ! i = Leaf v"
  shows "mm_populate_table_pte begin (entry_at tb i) (Suc l) flags p s = Inr (0, s)"
proof -
  have "rep (mem s) (Suc l) (mem s (entry_at tb i)) (Leaf v)"
    using table_repD(4) [of "mem s" "Suc l" tb ts i] assms by (simp add: tinv_def)
  then have "\<not> arch_mm_pte_is_table (mem s (entry_at tb i)) (Suc l)" by (rule rep_Leaf_not_table)
  moreover have "mpool_alloc p s = Inr (0, s)" using assms(1) mp.alloc_none by (auto simp: tinv_def)
  ultimately show ?thesis by (simp add: mm_populate_table_pte_def mm_alloc_page_tables_def Let_def)
qed

end
