(* ===== verification/Mm_Request.thy ===== *)
theory Mm_Request
  imports Mm_Populate
begin

text \<open>
  What a mapping request means for the translation of single addresses, stated on trees. A
  request maps or unmaps the addresses from \<open>rq_begin\<close> to \<open>rq_end\<close>; the address \<open>a\<close> goes to
  \<open>rq_pa + (a - rq_begin)\<close>. \<open>eff\<close> is the effect of a request on one entry, \<open>ready\<close> says
  that an entry is fine-grained enough for the request to need no new table.
\<close>

record request =
  rq_unmap :: bool
  rq_attrs :: u64
  rq_begin :: nat
  rq_end :: nat
  rq_pa :: nat

definition req_ok :: "request \<Rightarrow> bool" where
  "req_ok r \<longleftrightarrow> 4096 dvd rq_begin r \<and> 4096 dvd rq_end r \<and> 4096 dvd rq_pa r \<and> rq_end r \<le> 2 ^ 52 \<and>
     rq_pa r + (rq_end r - rq_begin r) \<le> 2 ^ 48 \<and> (\<not> rq_unmap r \<longrightarrow> attrs_ok (rq_attrs r))"

definition in_req :: "request \<Rightarrow> nat \<Rightarrow> bool" where
  "in_req r a \<longleftrightarrow> rq_begin r \<le> a \<and> a < rq_end r"

definition target :: "request \<Rightarrow> nat \<Rightarrow> nat" where
  "target r a = rq_pa r + (a - rq_begin r)"

definition hits :: "request \<Rightarrow> nat \<Rightarrow> nat \<Rightarrow> bool" where
  "hits r A n \<longleftrightarrow> A < rq_end r \<and> rq_begin r < A + n \<and> rq_begin r < rq_end r"

definition whole :: "request \<Rightarrow> nat \<Rightarrow> nat \<Rightarrow> bool" where
  "whole r l A \<longleftrightarrow> rq_begin r \<le> A \<and> A + esz l \<le> rq_end r \<and> (rq_unmap r \<or> l \<le> 2) \<and> esz l dvd target r A"

fun skips :: "request \<Rightarrow> nat \<Rightarrow> ptree \<Rightarrow> bool" where
  "skips r l (Leaf v) \<longleftrightarrow>
     (if rq_unmap r then \<not> arch_mm_pte_is_present v l
      else arch_mm_pte_is_block v l \<and> arch_mm_pte_attrs v l = rq_attrs r)"
| "skips r l (Table t ts) \<longleftrightarrow> False"

fun ready :: "request \<Rightarrow> nat \<Rightarrow> nat \<Rightarrow> ptree \<Rightarrow> bool" where
  "ready r l A (Leaf v) \<longleftrightarrow> skips r l (Leaf v) \<or> whole r l A"
| "ready r 0 A (Table t ts) \<longleftrightarrow> whole r 0 A"
| "ready r (Suc l) A (Table t ts) \<longleftrightarrow>
     whole r (Suc l) A \<or> (\<forall>i<512. hits r (A + i * esz l) (esz l) \<longrightarrow> ready r l (A + i * esz l) (ts ! i))"

text \<open>The new translation of an address of the request. An address that was mapped with the requested
  attributes before may keep its translation: the code does not look at the old physical
  address in that case.\<close>

definition installed :: "request \<Rightarrow> nat \<Rightarrow> (nat \<times> u64) option \<Rightarrow> (nat \<times> u64) option \<Rightarrow> bool" where
  "installed r a old new \<longleftrightarrow>
     (if rq_unmap r then new = None
      else new = Some (target r a, rq_attrs r) \<or> new = old \<and> (\<exists>pa. old = Some (pa, rq_attrs r)))"

definition eff :: "request \<Rightarrow> bool \<Rightarrow> bool \<Rightarrow> nat \<Rightarrow> nat \<Rightarrow> ptree \<Rightarrow> ptree \<Rightarrow> bool" where
  "eff r c ok l A t t' \<longleftrightarrow>
     (\<forall>off<esz l. if c \<and> in_req r (A + off)
        then ok \<longrightarrow> installed r (A + off) (look l t off) (look l t' off)
        else look l t' off = look l t off)"

lemma eff_keep: "(\<And>off. off < esz l \<Longrightarrow> c \<Longrightarrow> ok \<Longrightarrow> \<not> in_req r (A + off)) \<Longrightarrow> eff r c ok l A t t"
  by (auto simp: eff_def)

lemma eff_weaken: "eff r c True l A t t' \<Longrightarrow> eff r c ok l A t t'"
  by (auto simp: eff_def)

lemma eff_look: "(\<And>off. off < esz l \<Longrightarrow> look l t1 off = look l t off) \<Longrightarrow> eff r c ok l A t1 t' \<Longrightarrow> eff r c ok l A t t'"
  by (auto simp: eff_def)

lemma eff_table:
  assumes "\<forall>j<512. eff r c ok l (A + j * esz l) (ts ! j) (ts' ! j)"
  shows "eff r c ok (Suc l) A (Table t ts) (Table t' ts')"
  unfolding eff_def
proof (intro allI impI)
  fix off assume "off < esz (Suc l)"
  then have j: "off div esz l < 512" by (simp add: esz_Suc div_less_iff_less_mult)
  have a: "A + off div esz l * esz l + off mod esz l = A + off" by (simp add: add.assoc)
  have "off mod esz l < esz l" by simp
  then show "if c \<and> in_req r (A + off)
      then ok \<longrightarrow> installed r (A + off) (look (Suc l) (Table t ts) off) (look (Suc l) (Table t' ts') off)
      else look (Suc l) (Table t' ts') off = look (Suc l) (Table t ts) off"
    using assms [rule_format, OF j] unfolding eff_def by (metis a look.simps(3))
qed

text \<open>Entries that are skipped, and entries that are replaced as a whole.\<close>

lemma eff_skip:
  assumes "rep m l v t" "skips r l t"
  shows "eff r c ok l A t t"
proof -
  obtain w where t: "t = Leaf w" "leaf_ok l w" using assms by (cases t) auto
  have "installed r a (look l t off) (look l t off)" for a off
    using assms(2) t leaf_ok_present [OF t(2)] leaf_ok_is_block [OF t(2)]
    by (auto simp: installed_def split: if_splits)
  then show ?thesis by (auto simp: eff_def)
qed

lemma target_add: "rq_begin r \<le> a \<Longrightarrow> target r (a + n) = target r a + n"
  by (simp add: target_def)

lemma target_bound: "req_ok r \<Longrightarrow> whole r l A \<Longrightarrow> target r A + esz l \<le> 2 ^ 48"
  unfolding req_ok_def whole_def target_def by linarith

definition whole_pte :: "request \<Rightarrow> nat \<Rightarrow> u64 \<Rightarrow> u64" where
  "whole_pte r l pa = (if rq_unmap r then arch_mm_absent_pte l else arch_mm_block_pte l pa (rq_attrs r))"

lemma whole_addr_ok:
  assumes "req_ok r" "whole r l A" "unat pa = target r A"
  shows "addr_ok pa"
proof -
  have "esz l dvd unat pa" using assms(2,3) by (simp add: whole_def)
  then have "4096 dvd unat pa" using esz_page [of l] by (rule dvd_trans [rotated])
  moreover have "unat pa < 2 ^ 48" using target_bound [OF assms(1,2)] assms(3) esz_pos(1) [of l] by linarith
  ultimately show ?thesis by (simp add: addr_ok_iff)
qed

lemma whole_pte_ok:
  assumes "req_ok r" "whole r l A" "unat pa = target r A"
  shows "leaf_ok l (whole_pte r l pa)"
proof (cases "rq_unmap r")
  case False
  then show ?thesis
    using assms whole_addr_ok [OF assms] by (auto simp: whole_pte_def req_ok_def whole_def intro!: leaf_ok_block)
qed (simp add: whole_pte_def arch_mm_absent_pte_def)

lemma eff_whole:
  assumes "req_ok r" "whole r l A" "unat pa = target r A"
  shows "eff r True ok l A t (Leaf (whole_pte r l pa))"
proof -
  have "in_req r (A + off) \<and> installed r (A + off) old (look l (Leaf (whole_pte r l pa)) off)"
    if off: "off < esz l" for off old
  proof (cases "rq_unmap r")
    case True
    then show ?thesis
      using assms(2) off by (auto simp: whole_pte_def arch_mm_absent_pte_def installed_def in_req_def whole_def)
  next
    case False
    then have l: "l \<le> 2" "attrs_ok (rq_attrs r)" "rq_begin r \<le> A" using assms by (auto simp: whole_def req_ok_def)
    have "look l (Leaf (arch_mm_block_pte l pa (rq_attrs r))) off = Some (unat pa + off, rq_attrs r)"
      using whole_addr_ok [OF assms] l by (intro look_block)
    then show ?thesis
      using False assms(2,3) off target_add [OF l(3), of off]
      by (auto simp: whole_pte_def installed_def in_req_def whole_def simp del: look.simps(1))
  qed
  then show ?thesis by (auto simp: eff_def simp del: look.simps(1))
qed

lemma skip_iff:
  assumes "rep m l v t"
  shows "(if rq_unmap r then \<not> arch_mm_pte_is_present v l
      else arch_mm_pte_is_block v l \<and> arch_mm_pte_attrs v l = rq_attrs r) \<longleftrightarrow> skips r l t"
proof (cases t)
  case (Table tb ts)
  then obtain k where l: "l = Suc k" using assms by (cases l) auto
  have "addr_ok tb" "v = arch_mm_table_pte l tb" using assms by (auto simp: Table l table_ok_def)
  then show ?thesis using table_pte_laws(4,5) by (simp add: Table l)
qed (use assms in auto)

text \<open>At level 0 every entry of a request is covered completely.\<close>

lemma whole_level_0:
  assumes "req_ok r" "hits r A (esz 0)" "4096 dvd A"
  shows "whole r 0 A"
proof -
  have d: "4096 dvd rq_begin r" "4096 dvd rq_end r" "4096 dvd rq_pa r" using assms(1) by (simp_all add: req_ok_def)
  have "rq_begin r \<le> A"
  proof (rule ccontr)
    assume "\<not> ?thesis"
    then have "A + 4096 \<le> rq_begin r" using aligned_room [OF assms(3) d(1)] by simp
    then show False using assms(2) by (simp add: hits_def esz_0)
  qed
  moreover have "A + 4096 \<le> rq_end r" using aligned_room [OF assms(3) d(2)] assms(2) by (simp add: hits_def)
  moreover have "4096 dvd target r A" using d assms(3) by (auto simp: target_def intro: dvd_diff_nat)
  ultimately show ?thesis by (simp add: whole_def esz_0)
qed

end
