(* ===== verification/Mm_Map.thy ===== *)
theory Mm_Map
  imports Mm_Request
begin

text \<open>
  The mapping loop. \<open>level_spec\<close> is the contract of \<open>mm_map_level\<close> at a level; the loop over the
  entries of a table meets it if the recursive call meets it one level below. The contract
  covers both phases of an update: with the commit flag the translation of the addresses of
  the request changes as requested, and the call cannot fail if the entries were \<open>ready\<close>;
  without it no translation changes, and success leaves the entries \<open>ready\<close>.
\<close>

definition tdone ::
  "request \<Rightarrow> bool \<Rightarrow> bool \<Rightarrow> nat \<Rightarrow> nat \<Rightarrow> nat \<Rightarrow> ptree list \<Rightarrow> ptree list \<Rightarrow> bool" where
  "tdone r c ok l B i ts ts' \<longleftrightarrow>
     (\<forall>j<i. ts' ! j = ts ! j) \<and>
     (\<forall>j. i \<le> j \<and> j < 512 \<longrightarrow> eff r c ok l (B + j * esz l) (ts ! j) (ts' ! j)) \<and>
     ((\<forall>j. i \<le> j \<and> j < 512 \<and> hits r (B + j * esz l) (esz l) \<longrightarrow> ready r l (B + j * esz l) (ts ! j)) \<longrightarrow> ok) \<and>
     (\<not> c \<longrightarrow> ok \<longrightarrow>
       (\<forall>j. i \<le> j \<and> j < 512 \<and> hits r (B + j * esz l) (esz l) \<longrightarrow> ready r l (B + j * esz l) (ts' ! j)))"

definition commits :: "u32 \<Rightarrow> bool" where
  "commits flags \<longleftrightarrow> flags AND MM_FLAG_COMMIT \<noteq> 0"

definition level_spec ::
  "request \<Rightarrow> u32 \<Rightarrow> nat \<Rightarrow> nat list \<Rightarrow> nat \<Rightarrow>
   (u64 \<Rightarrow> u64 \<Rightarrow> u64 \<Rightarrow> u64 \<Rightarrow> 'a mm_machine_scheme \<Rightarrow> (bool \<times> 'a mm_machine_scheme) res) \<Rightarrow> bool" where
  "level_spec r flags p qs l F \<longleftrightarrow>
     (\<forall>s tb ts fl B begin end pa.
        tinv s l tb ts p qs fl \<longrightarrow> esz (Suc l) dvd B \<longrightarrow> B + esz (Suc l) \<le> 2 ^ 52 \<longrightarrow>
        hits r B (esz (Suc l)) \<longrightarrow> unat begin = max (rq_begin r) B \<longrightarrow>
        min (unat end) (B + esz (Suc l)) = min (rq_end r) (B + esz (Suc l)) \<longrightarrow>
        unat pa = target r (unat begin) \<longrightarrow>
        (\<exists>ok s' ts' fl'. F begin end pa tb s = Inr (ok, s') \<and>
           tstep flags l tb p qs s ts fl s' ts' fl' \<and> tdone r (commits flags) ok l B 0 ts ts' \<and> (ok \<or> fl' = [])))"

section \<open>Going down one level\<close>

lemma tinv_child:
  assumes inv: "tinv s (Suc l) tb ts p qs fl" and i: "i < 512" and t: "ts ! i = Table t cs"
  shows "tinv s l t cs p qs fl"
proof -
  have tab: "table_rep (mem s) (Suc l) tb ts" and dis: "distinct (tb # tpages ts @ fl)" using inv by (simp_all add: tinv_def)
  have "rep (mem s) (Suc l) (mem s (entry_at tb i)) (Table t cs)" using table_repD(4) [OF tab i] t by simp
  then have "table_rep (mem s) l t cs" by (simp add: table_rep_def)
  moreover have len: "i < length ts" using table_repD(3) [OF tab] i by simp
  have "distinct (tpages cs @ [t])"
    using distinct_pages_nth [OF _ len] dis t by simp
  then have "distinct (t # tpages cs @ fl)"
    using dis pages_nth_subset [OF len] t by auto
  ultimately show ?thesis using inv by (simp add: tinv_def)
qed

lemma multiset_exchange:
  fixes a b c d f g :: "'x multiset"
  assumes "a + c = b + d" "d + g = c + f"
  shows "a + g = b + f"
proof -
  have "(a + g) + c = (a + c) + g" by (simp only: ac_simps)
  also have "\<dots> = b + (d + g)" by (simp only: assms(1) ac_simps)
  also have "\<dots> = (b + f) + c" by (simp only: assms(2) ac_simps)
  finally show ?thesis by simp
qed

lemma tstep_child:
  assumes inv: "tinv s (Suc l) tb ts p qs fl" and i: "i < 512" and t: "ts ! i = Table t cs"
    and step: "tstep flags l t p qs s cs fl s' cs' fl'"
  shows "tstep flags (Suc l) tb p qs s ts fl s' (ts[i := Table t cs']) fl'"
proof -
  have tab: "table_rep (mem s) (Suc l) tb ts" and dis: "distinct (tb # tpages ts @ fl)" using inv by (simp_all add: tinv_def)
  note tr = table_repD [OF tab]
  let ?X = "insert t (set (tpages cs @ fl))" and ?Y = "insert tb (set (tpages ts @ fl))"
  have len: "i < length ts" using tr(3) i by simp
  have c: "tinv s' l t cs' p qs fl'" "mset (tpages cs' @ fl') = mset (tpages cs @ fl)" "mm_touches ?X qs s s'"
    "logs (stage1 flags) (must_break flags s) s s'" using step by (simp_all add: tstep_def)
  have sub: "set (tpages cs @ [t]) \<subseteq> set (tpages ts)" using pages_nth_subset [OF len] t by simp
  have Xok: "\<forall>x\<in>?X. page_ok 0x1000 x" by (rule tinv_page_sets(3) [OF tinv_child [OF inv i t]])
  have off: "same_off 0x1000 ?X (mem s) (mem s')" using c(3) by (simp add: mm_touches_def)
  have ent: "mem s' (entry_at tb j) = mem s (entry_at tb j)" if "j < 512" for j
    using that dis sub tr(1,2) Xok by (intro same_offD [OF off]) (auto intro: entry_at_in_page)
  have "rep (mem s') (Suc l) (mem s' (entry_at tb j)) (ts[i := Table t cs'] ! j)" if j: "j < 512" for j
  proof (cases "j = i")
    case True
    have "rep (mem s) (Suc l) (mem s (entry_at tb i)) (Table t cs)" using tr(4) [OF i] t by simp
    moreover have "table_rep (mem s') l t cs'" using c(1) by (simp add: tinv_def)
    ultimately show ?thesis using True len ent [OF i] by (simp add: table_rep_def)
  next
    case False
    have "?X \<inter> set (pages (ts ! j)) = {}"
      using pages_nth_disjoint [of ts i j] pages_nth_subset [of j ts] dis t i j tr(3) False by auto
    then show ?thesis using rep_frame [OF tr(4) [OF j] off Xok] ent [OF j] False by simp
  qed
  then have tab': "table_rep (mem s') (Suc l) tb (ts[i := Table t cs'])" using tr(1,3) by (simp add: table_rep_def)
  have ms: "mset (tpages (ts[i := Table t cs']) @ fl') = mset (tpages ts @ fl)"
  proof -
    have "mset (tpages (ts[i := Table t cs'])) + mset (tpages cs) = mset (tpages ts) + mset (tpages cs')"
      using mset_tpages_upd [OF len, of "Table t cs'"] t by simp
    moreover have "mset (tpages cs') + mset fl' = mset (tpages cs) + mset fl" using c(2) by simp
    ultimately show ?thesis unfolding mset_append by (rule multiset_exchange)
  qed
  have "distinct (tpages (ts[i := Table t cs']) @ fl')" using dis by (intro distinct_mset_eq [OF ms [symmetric]]) simp
  moreover have "set (tpages (ts[i := Table t cs']) @ fl') = set (tpages ts @ fl)" using ms by (rule mset_eq_setD)
  ultimately have "tinv s' (Suc l) tb (ts[i := Table t cs']) p qs fl'"
    using tab' c(1) dis by (auto simp: tinv_def)
  moreover have "mm_touches ?Y qs s s'" using c(3) sub by (rule_tac mm_touches_mono) auto
  ultimately show ?thesis using ms c(4) by (simp add: tstep_def)
qed

section \<open>The addresses of one iteration\<close>

lemma between_multiples:
  fixes a b n :: nat
  assumes "n dvd a" "a \<le> b" "b < a + n"
  shows "b div n * n = a" "n dvd b \<longleftrightarrow> b = a"
proof -
  obtain k where k: "a = n * k" using assms(1) by (auto elim: dvdE)
  have n: "0 < n" using assms by (cases n) auto
  have q: "b div n = k"
    using assms(2,3) k n by (intro div_nat_eqI) (auto simp: mult.commute)
  then show "b div n * n = a" by (simp add: k mult.commute)
  show "n dvd b \<longleftrightarrow> b = a"
  proof
    assume "n dvd b"
    then have "b div n * n = b" by (rule dvd_div_mult_self)
    then show "b = a" using \<open>b div n * n = a\<close> by simp
  qed (use assms(1) in simp)
qed

lemma loop_arith:
  assumes l: "l \<le> 3" and B: "esz (Suc l) dvd B" "B + esz (Suc l) \<le> 2 ^ 52" and i: "i < 512" and r: "req_ok r"
    and A: "A = B + i * esz l"
    and b: "unat begin = max (rq_begin r) A" and first: "rq_begin r < A + esz l"
    and e: "unat end = min (rq_end r) (B + esz (Suc l))" and lt: "begin < end"
    and pa: "unat pa = target r (unat begin)"
  shows "esz l dvd A" "A + esz l \<le> B + esz (Suc l)" "hits r A (esz l)"
    "min (unat end) (A + esz l) = min (rq_end r) (A + esz l)"
    "unat (mm_start_of_next_block begin (mm_entry_size l)) = A + esz l"
    "unat (pa + (mm_start_of_next_block begin (mm_entry_size l) - begin)) = target r (A + esz l)"
    "mm_entry_size l \<le> end - begin \<and> (rq_unmap r \<or> arch_mm_is_block_allowed l) \<and>
      begin AND (mm_entry_size l - 1) = 0 \<and> pa AND (mm_entry_size l - 1) = 0 \<longleftrightarrow> whole r l A"
    "whole r l A \<Longrightarrow> unat begin = A"
proof -
  have e48: "esz l \<le> 2 ^ 48" using l by (intro esz_bound) simp
  have "esz l dvd B" by (rule dvd_trans [OF esz_dvd B(1)]) simp
  then show dA: "esz l dvd A" by (simp add: A)
  have "Suc i * esz l \<le> 512 * esz l" using i by (intro mult_le_mono1) simp
  then show top: "A + esz l \<le> B + esz (Suc l)" by (simp add: A esz_Suc)
  have ltn: "unat begin < unat end" using lt by (simp add: word_less_nat_alt)
  then show "hits r A (esz l)" using b e first by (simp add: hits_def)
  show "min (unat end) (A + esz l) = min (rq_end r) (A + esz l)" using e top by simp
  have rng: "A \<le> unat begin" "unat begin < A + esz l" using b first by simp_all
  note mult = between_multiples [OF dA rng]
  have u: "unat begin + esz l < 2 ^ 64" using rng top B(2) e48 by simp
  show nx: "unat (mm_start_of_next_block begin (mm_entry_size l)) = A + esz l"
    using unat_next_block [OF _ u] l mult(1) by (simp add: distrib_right)
  have d: "unat (mm_start_of_next_block begin (mm_entry_size l) - begin) = A + esz l - unat begin"
    using nx rng by (subst unat_sub64) simp_all
  have t: "target r (A + esz l) = unat pa + (A + esz l - unat begin)" using pa rng b by (simp add: target_def)
  have "unat begin \<le> rq_end r" using ltn e by simp
  then have "unat pa \<le> rq_pa r + (rq_end r - rq_begin r)"
    unfolding pa target_def by (intro add_left_mono diff_le_mono)
  then have "unat pa \<le> 2 ^ 48" using r by (simp add: req_ok_def)
  then show "unat (pa + (mm_start_of_next_block begin (mm_entry_size l) - begin)) = target r (A + esz l)"
    using rng e48 by (subst unat_add64) (simp_all add: d t)
  have es: "unat (mm_entry_size l) = esz l" using l by (intro unat_entry_size) simp
  have sz: "mm_entry_size l \<le> end - begin \<longleftrightarrow> unat begin + esz l \<le> unat end"
    using ltn by (auto simp: word_le_nat_alt es unat_sub64)
  have al: "begin AND (mm_entry_size l - 1) = 0 \<longleftrightarrow> unat begin = A"
    using l mult(2) by (subst and_esz_mask) simp_all
  have pl: "pa AND (mm_entry_size l - 1) = 0 \<longleftrightarrow> esz l dvd target r (unat begin)"
    using l by (subst and_esz_mask) (simp_all add: pa)
  show w: "whole r l A \<Longrightarrow> unat begin = A" using b by (simp add: whole_def)
  show "mm_entry_size l \<le> end - begin \<and> (rq_unmap r \<or> arch_mm_is_block_allowed l) \<and>
      begin AND (mm_entry_size l - 1) = 0 \<and> pa AND (mm_entry_size l - 1) = 0 \<longleftrightarrow> whole r l A"
    unfolding sz al pl arch_mm_is_block_allowed_def using w b e top by (auto simp: whole_def)
qed

lemma loop_va:
  assumes l: "l \<le> 3" and B: "esz (Suc l) dvd B" "B + esz (Suc l) \<le> 2 ^ 52" and i: "i < 512" and r: "req_ok r"
    and A: "A = B + i * esz l"
    and b: "unat begin = max (rq_begin r) A" and first: "rq_begin r < A + esz l"
    and w: "\<And>tb ts. t = Table tb ts \<Longrightarrow> unat begin = A"
  shows "va_ok begin l i t"
proof -
  have "esz l dvd B" by (rule dvd_trans [OF esz_dvd B(1)]) simp
  then have dA: "esz l dvd A" by (simp add: A)
  then have "4096 dvd A" using esz_page [of l] by (rule dvd_trans [rotated])
  then have p: "4096 dvd unat begin" using b r by (auto simp: req_ok_def max_def)
  have rng: "A \<le> unat begin" "unat begin < A + esz l" using b first by simp_all
  have "Suc i * esz l \<le> 512 * esz l" using i by (intro mult_le_mono1) simp
  then have "A + esz l \<le> B + esz (Suc l)" by (simp add: A esz_Suc)
  then have top: "unat begin < 2 ^ 52" using rng(2) B(2) by linarith
  obtain k where k: "B = esz (Suc l) * k" using B(1) by (auto elim: dvdE)
  have "unat begin div esz l = A div esz l"
    using between_multiples(1) [OF dA rng] by (metis esz_pos(2) nonzero_mult_div_cancel_right)
  also have "\<dots> = 512 * k + i"
  proof -
    have "A = (512 * k + i) * esz l" by (simp add: A k esz_Suc distrib_right)
    then show ?thesis by (simp only: nonzero_mult_div_cancel_right [OF esz_pos(2)])
  qed
  finally have "unat begin div esz l mod 512 = i" using i by simp
  then show ?thesis using l p top w dA by (auto simp: va_ok_def)
qed

section \<open>One entry\<close>

text \<open>What the body of the loop does to the entry \<open>t\<close> that starts at address \<open>A\<close>.\<close>

definition entry_done :: "request \<Rightarrow> bool \<Rightarrow> bool \<Rightarrow> nat \<Rightarrow> nat \<Rightarrow> ptree \<Rightarrow> ptree \<Rightarrow> bool" where
  "entry_done r c ok l A t t' \<longleftrightarrow> eff r c ok l A t t' \<and> (ready r l A t \<longrightarrow> ok) \<and> (\<not> c \<longrightarrow> ok \<longrightarrow> ready r l A t')"

lemma entry_done_skip: "rep m l v t \<Longrightarrow> skips r l t \<Longrightarrow> entry_done r c True l A t t"
  by (cases t) (auto simp: entry_done_def eff_skip)

lemma entry_done_prepare: "whole r l A \<Longrightarrow> entry_done r False True l A t t"
  by (cases "(r, l, A, t)" rule: ready.cases) (auto simp: entry_done_def intro: eff_keep)

lemma entry_done_whole:
  "req_ok r \<Longrightarrow> whole r l A \<Longrightarrow> unat pa = target r A \<Longrightarrow> entry_done r True True l A t (Leaf (whole_pte r l pa))"
  by (simp add: entry_done_def eff_whole)

lemma entry_done_no_memory:
  "\<not> skips r l (Leaf v) \<Longrightarrow> \<not> whole r l A \<Longrightarrow> entry_done r c False l A (Leaf v) (Leaf v)"
  by (simp add: entry_done_def eff_def del: look.simps skips.simps)

lemma entry_done_child:
  assumes "tdone r c ok l A 0 cs cs'" "\<not> whole r (Suc l) A"
  shows "entry_done r c ok (Suc l) A (Table t cs) (Table t' cs')"
  using assms by (auto simp: entry_done_def tdone_def intro!: eff_table)

lemma entry_done_split:
  assumes "entry_done r c ok (Suc l) A (Table t (split_leaf l v)) t'" "leaf_ok (Suc l) v"
    "\<not> skips r (Suc l) (Leaf v)" "\<not> whole r (Suc l) A"
  shows "entry_done r c ok (Suc l) A (Leaf v) t'"
  using assms eff_look [of "Suc l" "Table t (split_leaf l v)" "Leaf v" r c ok A t'] look_split [OF assms(2), of _ t]
  by (simp add: entry_done_def del: look.simps skips.simps)

definition below_ok ::
  "request \<Rightarrow> u32 \<Rightarrow> nat \<Rightarrow> nat list \<Rightarrow> nat \<Rightarrow>
   (u64 \<Rightarrow> u64 \<Rightarrow> u64 \<Rightarrow> u64 \<Rightarrow> 'a mm_machine_scheme \<Rightarrow> (bool \<times> 'a mm_machine_scheme) res) \<Rightarrow> bool" where
  "below_ok r flags p qs l F \<longleftrightarrow> (\<forall>k. l = Suc k \<longrightarrow> level_spec r flags p qs k F)"

lemma map_entry_recurse:
  assumes inv: "tinv s (Suc k) tb ts p qs fl" and i: "i < 512" and r: "req_ok r"
    and spec: "level_spec r flags p qs k F"
    and A: "esz (Suc k) dvd A" "A + esz (Suc k) \<le> 2 ^ 52" "hits r A (esz (Suc k))"
    and b: "unat begin = max (rq_begin r) A" "min (unat end) (A + esz (Suc k)) = min (rq_end r) (A + esz (Suc k))"
      "unat pa = target r (unat begin)"
    and t: "ts ! i = Table t cs" and no: "\<not> whole r (Suc k) A"
  shows "\<exists>ok s' t' fl'. F begin end pa t s = Inr (ok, s') \<and>
    tstep flags (Suc k) tb p qs s ts fl s' (ts[i := t']) fl' \<and> entry_done r (commits flags) ok (Suc k) A (Table t cs) t' \<and> (ok \<or> fl' = [])"
proof -
  note inv' = tinv_child [OF inv i t]
  obtain ok s' cs' fl' where c: "F begin end pa t s = Inr (ok, s')" "tstep flags k t p qs s cs fl s' cs' fl'"
    "tdone r (commits flags) ok k A 0 cs cs'" "ok \<or> fl' = []"
    using spec [unfolded level_spec_def, rule_format, OF inv' A b] by blast
  then show ?thesis using tstep_child [OF inv i t c(2)] entry_done_child [OF c(3) no] by blast
qed

lemma map_entry_spec:
  assumes inv: "tinv s l tb ts p qs fl" and i: "i < 512" and r: "req_ok r" and l: "l \<le> 3"
    and spec: "below_ok r flags p qs l F"
    and B: "esz (Suc l) dvd B" "B + esz (Suc l) \<le> 2 ^ 52" and A: "A = B + i * esz l"
    and b: "unat begin = max (rq_begin r) A" and first: "rq_begin r < A + esz l"
    and e: "unat end = min (rq_end r) (B + esz (Suc l))" and lt: "begin < end"
    and pa: "unat pa = target r (unat begin)" and un: "rq_unmap r \<longleftrightarrow> flags AND MM_FLAG_UNMAP \<noteq> 0"
  shows "\<exists>ok s' t' fl'. mm_map_entry F l (rq_attrs r) flags p begin end pa (entry_at tb i) s = Inr (ok, s') \<and>
    tstep flags l tb p qs s ts fl s' (ts[i := t']) fl' \<and> entry_done r (commits flags) ok l A (ts ! i) t' \<and> (ok \<or> fl' = [])"
proof -
  note ar = loop_arith [OF l B i r A b first e lt pa]
  let ?a = "entry_at tb i" and ?t = "ts ! i"
  have tab: "table_rep (mem s) l tb ts" using inv by (simp add: tinv_def)
  have rp: "rep (mem s) l (mem s ?a) ?t" by (rule table_repD(4) [OF tab i])
  have run: "mm_map_entry F l (rq_attrs r) flags p begin end pa ?a s =
      (if skips r l ?t then Inr (True, s)
       else if whole r l A
       then if commits flags
            then res_bind (mm_replace_entry begin ?a (whole_pte r l pa) l flags p s) (\<lambda>s1. Inr (True, s1))
            else Inr (True, s)
       else res_bind (mm_populate_table_pte begin ?a l flags p s) (\<lambda>(nt, s1).
              if nt = 0 then Inr (False, s1) else F begin end pa nt s1))"
    unfolding mm_map_entry_def Let_def un [symmetric] skip_iff [OF rp] ar(7)
    by (simp add: whole_pte_def commits_def)
  consider "skips r l ?t" | "\<not> skips r l ?t" "whole r l A" "\<not> commits flags"
    | "\<not> skips r l ?t" "whole r l A" "commits flags" | "\<not> skips r l ?t" "\<not> whole r l A" by blast
  then show ?thesis
  proof cases
    case 1
    then show ?thesis using run tstep_refl [OF inv, of flags] entry_done_skip [OF rp 1, of "commits flags" A]
      by (intro exI [of _ True] exI [of _ s] exI [of _ ?t] exI [of _ fl]) simp
  next
    case 2
    then show ?thesis using run tstep_refl [OF inv, of flags] entry_done_prepare [OF 2(2), of ?t]
      by (intro exI [of _ True] exI [of _ s] exI [of _ ?t] exI [of _ fl]) simp
  next
    case 3
    have "unat pa = target r A" using pa ar(8) [OF 3(2)] by simp
    note w = whole_pte_ok [OF r 3(2) this] entry_done_whole [OF r 3(2) this]
    obtain s' where s': "mm_replace_entry begin ?a (whole_pte r l pa) l flags p s = Inr s'"
      "tstep flags l tb p qs s ts fl s' (ts[i := Leaf (whole_pte r l pa)]) (rev (pages ?t) @ fl)"
      using replace_with_leaf [OF inv i w(1) loop_va [OF l B i r A b first]] ar(8) [OF 3(2)] by blast
    show ?thesis using run 3 w(2) s'
      by (intro exI [of _ True] exI [of _ s'] exI [of _ "Leaf (whole_pte r l pa)"] exI [of _ "rev (pages ?t) @ fl"]) simp
  next
    case 4
    have "l \<noteq> 0"
    proof
      assume "l = 0"
      then show False using 4(2) whole_level_0 [OF r _ ] ar(1,3) by (auto simp: esz_0)
    qed
    then obtain k where k: "l = Suc k" by (cases l) auto
    note inv' = inv [unfolded k]
    have sp: "level_spec r flags p qs k F" using spec k by (simp add: below_ok_def)
    have top: "A + esz (Suc k) \<le> 2 ^ 52" using ar(2) B(2) k by simp
    note recurse = map_entry_recurse [OF _ i r sp ar(1) [unfolded k] top ar(3) [unfolded k] b ar(4) [unfolded k] pa _
        4(2) [unfolded k]]
    show ?thesis
    proof (cases ?t)
      case (Table t cs)
      then have "mm_populate_table_pte begin ?a l flags p s = Inr (t, s)" "t \<noteq> 0"
        using populate_table [OF inv' i] tinv_page_sets(1) [OF tinv_child [OF inv' i]] k by (auto simp: table_ok_def)
      then show ?thesis using recurse [OF inv' Table] 4 run Table k by simp
    next
      case (Leaf v)
      then have v: "leaf_ok (Suc k) v" using rp k by simp
      show ?thesis
      proof (cases fl)
        case Nil
        then have "mm_populate_table_pte begin ?a l flags p s = Inr (0, s)"
          using populate_no_memory inv' i Leaf k by blast
        moreover have "ts[i := Leaf v] = ts" using list_update_id [of ts i] Leaf by simp
        ultimately show ?thesis
          using run 4 tstep_refl [OF inv, of flags] entry_done_no_memory [of r l v A "commits flags"] Leaf Nil
          by (intro exI [of _ False] exI [of _ s] exI [of _ ?t] exI [of _ fl]) (simp del: skips.simps)
      next
        case (Cons x fl1)
        have va: "va_ok begin (Suc k) i ?t"
          using loop_va [OF l B i r A b first, of ?t] Leaf k by simp
        obtain s1 where s1: "mm_populate_table_pte begin ?a (Suc k) flags p s = Inr (x, s1)"
          "tstep flags (Suc k) tb p qs s ts (x # fl1) s1 (ts[i := Table x (split_leaf k v)]) fl1"
          using populate_fresh [OF _ i Leaf va] inv' Cons by blast
        let ?ts1 = "ts[i := Table x (split_leaf k v)]"
        have inv1: "tinv s1 (Suc k) tb ?ts1 p qs fl1" using s1(2) by (simp add: tstep_def)
        have ith: "?ts1 ! i = Table x (split_leaf k v)" using i tinv_page_sets(2) [OF inv] by simp
        have "x \<noteq> 0" using tinv_page_sets(1) [OF tinv_child [OF inv1 i ith]] by (simp add: table_ok_def)
        moreover obtain ok s' t' fl' where c: "F begin end pa x s1 = Inr (ok, s')"
          "tstep flags (Suc k) tb p qs s1 ?ts1 fl1 s' (?ts1[i := t']) fl'"
          "entry_done r (commits flags) ok (Suc k) A (Table x (split_leaf k v)) t'" "ok \<or> fl' = []"
          using recurse [OF inv1 ith] by blast
        ultimately have "mm_map_entry F l (rq_attrs r) flags p begin end pa ?a s = Inr (ok, s')"
          using run 4 s1(1) k by simp
        moreover have "tstep flags l tb p qs s ts fl s' (ts[i := t']) fl'"
          using tstep_trans [OF s1(2) c(2)] Cons k by simp
        moreover have "entry_done r (commits flags) ok l A ?t t'"
          using entry_done_split [OF c(3) v] 4 Leaf k by simp
        ultimately show ?thesis using c(4) by blast
      qed
    qed
  qed
qed

section \<open>The loop over a table\<close>

lemma tdone_stop:
  assumes "unat begin = max (rq_begin r) (B + i * esz l)" "unat end = min (rq_end r) (B + esz (Suc l))" "\<not> begin < end"
  shows "tdone r c True l B i ts ts"
proof -
  have out: "\<not> (B + j * esz l \<le> a \<and> a < B + j * esz l + esz l \<and> rq_begin r \<le> a \<and> a < rq_end r)"
    if j: "i \<le> j" "j < 512" for j a
  proof
    assume a: "B + j * esz l \<le> a \<and> a < B + j * esz l + esz l \<and> rq_begin r \<le> a \<and> a < rq_end r"
    have "i * esz l \<le> j * esz l" using j by (intro mult_le_mono1)
    moreover have "j * esz l + esz l \<le> esz (Suc l)"
      using mult_le_mono1 [of "Suc j" 512 "esz l"] j by (simp add: esz_Suc)
    ultimately have "B + i * esz l \<le> a" "a < B + esz (Suc l)" using a by linarith+
    then have "max (rq_begin r) (B + i * esz l) \<le> a" "a < min (rq_end r) (B + esz (Suc l))" using a by simp_all
    then show False using assms by (simp add: word_less_nat_alt)
  qed
  have "\<not> hits r (B + j * esz l) (esz l)" if j: "i \<le> j" "j < 512" for j
    using out [OF j, of "max (rq_begin r) (B + j * esz l)"] by (auto simp: hits_def)
  moreover have "eff r c True l (B + j * esz l) (ts ! j) (ts ! j)" if j: "i \<le> j" "j < 512" for j
    using out [OF j] by (intro eff_keep) (auto simp: in_req_def)
  ultimately show ?thesis by (auto simp: tdone_def)
qed

lemma tdone_fail:
  assumes "entry_done r c False l (B + i * esz l) (ts ! i) t1" "hits r (B + i * esz l) (esz l)" "i < 512" "length ts = 512"
  shows "tdone r c False l B i ts (ts[i := t1])"
proof -
  have "eff r c False l A t t" for A t by (simp add: eff_def)
  then have "eff r c False l (B + j * esz l) (ts ! j) (ts[i := t1] ! j)" if "i \<le> j" "j < 512" for j
    using assms that by (cases "j = i") (simp_all add: entry_done_def)
  then show ?thesis using assms by (auto simp: tdone_def entry_done_def)
qed

lemma tdone_step:
  assumes e: "entry_done r c True l (B + i * esz l) (ts ! i) t1" and d: "tdone r c ok l B (Suc i) (ts[i := t1]) ts'"
    and i: "i < 512" "length ts = 512"
  shows "tdone r c ok l B i ts ts'"
proof -
  have at: "ts' ! i = t1" using d i by (simp add: tdone_def)
  have "eff r c ok l (B + j * esz l) (ts ! j) (ts' ! j)" if j: "i \<le> j" "j < 512" for j
  proof (cases "j = i")
    case True
    then show ?thesis using e at by (simp add: entry_done_def eff_weaken)
  next
    case False
    then show ?thesis using d j by (auto simp: tdone_def)
  qed
  moreover have "ok" if "\<forall>j. i \<le> j \<and> j < 512 \<and> hits r (B + j * esz l) (esz l) \<longrightarrow> ready r l (B + j * esz l) (ts ! j)"
    using d that by (simp add: tdone_def)
  moreover have "ready r l (B + j * esz l) (ts' ! j)"
    if "\<not> c" "ok" "i \<le> j" "j < 512" "hits r (B + j * esz l) (esz l)" for j
    using d e at that by (cases "j = i") (auto simp: tdone_def entry_done_def)
  ultimately show ?thesis using d i by (auto simp: tdone_def)
qed

lemma table_end:
  assumes "unat begin = max (rq_begin r) (B + 512 * esz l)" "unat end = min (rq_end r) (B + esz (Suc l))"
  shows "\<not> begin < end"
proof -
  have "unat end \<le> unat begin" unfolding assms esz_Suc by simp
  then show ?thesis by (simp add: word_less_nat_alt)
qed

lemma map_loop_spec:
  assumes r: "req_ok r" and l: "l \<le> 3" and spec: "below_ok r flags p qs l F"
    and B: "esz (Suc l) dvd B" "B + esz (Suc l) \<le> 2 ^ 52"
    and e: "unat end = min (rq_end r) (B + esz (Suc l))" and un: "rq_unmap r \<longleftrightarrow> flags AND MM_FLAG_UNMAP \<noteq> 0"
  shows "tinv s l tb ts p qs fl \<Longrightarrow> i \<le> 512 \<Longrightarrow> 512 \<le> i + n \<Longrightarrow> unat begin = max (rq_begin r) (B + i * esz l) \<Longrightarrow>
    (i < 512 \<longrightarrow> rq_begin r < B + i * esz l + esz l) \<Longrightarrow> unat pa = target r (unat begin) \<Longrightarrow>
    \<exists>ok s' ts' fl'. mm_map_loop n F l (rq_attrs r) flags p begin end pa (entry_at tb i) s = Inr (ok, s') \<and>
      tstep flags l tb p qs s ts fl s' ts' fl' \<and> tdone r (commits flags) ok l B i ts ts' \<and> (ok \<or> fl' = [])"
proof (induction n arbitrary: i "begin" pa s ts fl)
  case 0
  have "i = 512" using 0(2,3) by simp
  then have stop: "\<not> begin < end" using 0(4) e by (intro table_end) simp_all
  show ?case
    using stop tstep_refl [OF 0(1), of flags] tdone_stop [OF 0(4) e stop, of "commits flags" ts]
    by (intro exI [of _ True] exI [of _ s] exI [of _ ts] exI [of _ fl]) simp
next
  case (Suc n)
  show ?case
  proof (cases "begin < end")
    case False
    then show ?thesis
      using tstep_refl [OF Suc.prems(1), of flags] tdone_stop [OF Suc.prems(4) e False, of "commits flags" ts]
      by (intro exI [of _ True] exI [of _ s] exI [of _ ts] exI [of _ fl]) simp
  next
    case True
    have i: "i < 512"
    proof (rule ccontr)
      assume "\<not> ?thesis"
      then have "i = 512" using Suc.prems(2) by simp
      then show False using True Suc.prems(4) table_end [OF _ e] by simp
    qed
    have first: "rq_begin r < B + i * esz l + esz l" using Suc.prems(5) i by simp
    note ar = loop_arith [OF l B i r refl Suc.prems(4) first e True Suc.prems(6)]
    have len: "length ts = 512" by (rule tinv_page_sets(2) [OF Suc.prems(1)])
    obtain ok s1 t1 fl1 where c: "mm_map_entry F l (rq_attrs r) flags p begin end pa (entry_at tb i) s = Inr (ok, s1)"
      "tstep flags l tb p qs s ts fl s1 (ts[i := t1]) fl1"
      "entry_done r (commits flags) ok l (B + i * esz l) (ts ! i) t1" "ok \<or> fl1 = []"
      using map_entry_spec [OF Suc.prems(1) i r l spec B refl Suc.prems(4) first e True Suc.prems(6) un] by blast
    show ?thesis
    proof (cases ok)
      case False
      then show ?thesis using c True tdone_fail [OF _ ar(3) i len, of "commits flags" t1]
        by (intro exI [of _ False] exI [of _ s1] exI [of _ "ts[i := t1]"] exI [of _ fl1]) simp
    next
      case ok: True
      let ?b = "mm_start_of_next_block begin (mm_entry_size l)"
      have nb: "unat ?b = max (rq_begin r) (B + Suc i * esz l)" using ar(5) first by simp
      have inv1: "tinv s1 l tb (ts[i := t1]) p qs fl1" using c(2) by (simp add: tstep_def)
      have pa': "unat (pa + (?b - begin)) = target r (unat ?b)" using ar(5,6) by simp
      have "Suc i < 512 \<longrightarrow> rq_begin r < B + Suc i * esz l + esz l" using first by simp
      then obtain ok' s' ts' fl' where d:
        "mm_map_loop n F l (rq_attrs r) flags p ?b end (pa + (?b - begin)) (entry_at tb (Suc i)) s1 = Inr (ok', s')"
        "tstep flags l tb p qs s1 (ts[i := t1]) fl1 s' ts' fl'" "tdone r (commits flags) ok' l B (Suc i) (ts[i := t1]) ts'" "ok' \<or> fl' = []"
        using Suc.IH [OF inv1 _ _ nb _ pa'] i Suc.prems(3) by (metis Suc_leI add_Suc_shift)
      then show ?thesis
        using c(1) True ok tstep_trans [OF c(2) d(2)] tdone_step [OF _ d(3) i len] c(3)
        by (intro exI [of _ ok'] exI [of _ s'] exI [of _ ts'] exI [of _ fl']) (simp add: entry_at_Suc)
    qed
  qed
qed

section \<open>The levels\<close>

lemma mm_map_level_eq:
  "mm_map_level l attrs flags p begin end pa table s =
     mm_map_loop 512 (case l of 0 \<Rightarrow> \<lambda>_ _ _ _ _. Inl OutOfBounds | Suc k \<Rightarrow> mm_map_level k attrs flags p) l attrs
       flags p begin (if end > mm_level_end begin l then mm_level_end begin l else end) pa (table + 8 * mm_index begin l) s"
  by (cases l) (simp_all add: Let_def MM_PTE_PER_PAGE_def)

lemma level_start:
  assumes l: "l \<le> 3" and B: "esz (Suc l) dvd B" "B + esz (Suc l) \<le> 2 ^ 52" and h: "hits r B (esz (Suc l))"
    and b: "unat begin = max (rq_begin r) B" and i: "i = unat begin div esz l mod 512"
  shows "unat (mm_level_end begin l) = B + esz (Suc l)" "i < 512"
    "unat begin = max (rq_begin r) (B + i * esz l)" "rq_begin r < B + i * esz l + esz l"
    "\<forall>j<i. B + j * esz l + esz l \<le> rq_begin r"
proof -
  have rng: "B \<le> unat begin" "unat begin < B + esz (Suc l)" using b h by (auto simp: hits_def)
  have e48: "esz (Suc l) \<le> 2 ^ 48" using l by (intro esz_bound) simp
  have "unat begin + esz (Suc l) < 2 ^ 64" using rng B(2) e48 by simp
  then show "unat (mm_level_end begin l) = B + esz (Suc l)"
    using unat_level_end [of l "begin"] l between_multiples(1) [OF B(1) rng] by (simp add: distrib_right)
  show "i < 512" by (simp add: i)
  have e0: "esz l dvd B" by (rule dvd_trans [OF esz_dvd B(1)]) simp
  obtain k where k: "B = esz (Suc l) * k" using B(1) by (auto elim: dvdE)
  define d where "d = unat begin - B"
  have d: "unat begin = B + d" "d < 512 * esz l" using rng by (simp_all add: d_def esz_Suc)
  have q: "d div esz l < 512" using d(2) by (simp add: div_less_iff_less_mult)
  have "unat begin div esz l = 512 * k + d div esz l"
  proof -
    have "B = (512 * k) * esz l" by (simp add: k esz_Suc)
    then show ?thesis unfolding d(1) by (simp only: div_mult_self3 [OF esz_pos(2)])
  qed
  then have iq: "i = d div esz l" using q by (simp add: i)
  have lo: "i * esz l \<le> d" "d < i * esz l + esz l"
    unfolding iq using dividend_less_div_times [OF esz_pos(1) [of l], of d] by (simp_all add: add.commute)
  show "unat begin = max (rq_begin r) (B + i * esz l)" using b d lo by (cases "rq_begin r \<le> B") auto
  then show "rq_begin r < B + i * esz l + esz l" using d lo by auto
  show "\<forall>j<i. B + j * esz l + esz l \<le> rq_begin r"
  proof (intro allI impI)
    fix j assume j: "j < i"
    then have "Suc j * esz l \<le> i * esz l" by (intro mult_le_mono1) simp
    moreover have "rq_begin r = unat begin" using b d lo j esz_pos(1) [of l] by (cases "rq_begin r \<le> B") (auto simp: max_def)
    ultimately show "B + j * esz l + esz l \<le> rq_begin r" using d lo by simp
  qed
qed

lemma tdone_from_start:
  assumes "tdone r c ok l B i ts ts'" "\<forall>j<i. B + j * esz l + esz l \<le> rq_begin r"
  shows "tdone r c ok l B 0 ts ts'"
proof -
  have no: "\<not> hits r (B + j * esz l) (esz l)" if "j < i" for j using assms(2) that by (auto simp: hits_def)
  have "eff r c ok l (B + j * esz l) (ts ! j) (ts' ! j)" if "j < 512" for j
  proof (cases "j < i")
    case True
    then show ?thesis using assms by (auto simp: tdone_def in_req_def intro!: eff_keep)
  next
    case False
    then show ?thesis using assms(1) that by (auto simp: tdone_def)
  qed
  moreover have "i \<le> j" if "hits r (B + j * esz l) (esz l)" for j using no that by (meson not_le)
  ultimately show ?thesis using assms(1) by (auto simp: tdone_def)
qed

type_synonym 'a mapper = "u64 \<Rightarrow> u64 \<Rightarrow> u64 \<Rightarrow> u64 \<Rightarrow> 'a mm_machine_scheme \<Rightarrow> (bool \<times> 'a mm_machine_scheme) res"

lemma level_spec_mm_map_level:
  assumes r: "req_ok r" and un: "rq_unmap r \<longleftrightarrow> flags AND MM_FLAG_UNMAP \<noteq> 0"
  shows "l \<le> 3 \<Longrightarrow> level_spec r flags p qs l (mm_map_level l (rq_attrs r) flags p :: 'a mapper)"
proof (induction l rule: less_induct)
  case (less l)
  let ?F = "case l of 0 \<Rightarrow> (\<lambda>_ _ _ _ _. Inl OutOfBounds) :: 'a mapper | Suc k \<Rightarrow> mm_map_level k (rq_attrs r) flags p"
  have spec: "below_ok r flags p qs l ?F" using less by (auto simp: below_ok_def)
  show ?case unfolding level_spec_def
  proof (intro allI impI)
    fix s :: "'a mm_machine_scheme" and tb ts fl B and "begin" "end" pa :: u64
    assume inv: "tinv s l tb ts p qs fl" and B: "esz (Suc l) dvd B" "B + esz (Suc l) \<le> 2 ^ 52"
      and h: "hits r B (esz (Suc l))" and b: "unat begin = max (rq_begin r) B"
      and e: "min (unat end) (B + esz (Suc l)) = min (rq_end r) (B + esz (Suc l))"
      and pa: "unat pa = target r (unat begin)"
    define i where "i = unat begin div esz l mod 512"
    note st = level_start [OF less.prems B h b i_def]
    let ?e = "if end > mm_level_end begin l then mm_level_end begin l else end"
    have "unat ?e = min (unat end) (unat (mm_level_end begin l))" by (simp add: word_less_nat_alt min_def)
    then have e': "unat ?e = min (rq_end r) (B + esz (Suc l))" unfolding st(1) e .
    have pte: "tb + 8 * mm_index begin l = entry_at tb i" using less.prems by (simp add: index_entry i_def)
    have "\<exists>ok s' ts' fl'. mm_map_loop 512 ?F l (rq_attrs r) flags p begin ?e pa (entry_at tb i) s = Inr (ok, s') \<and>
      tstep flags l tb p qs s ts fl s' ts' fl' \<and> tdone r (commits flags) ok l B i ts ts' \<and> (ok \<or> fl' = [])"
      using st pa by (intro map_loop_spec [OF r less.prems spec B e' un inv]) simp_all
    moreover have "mm_map_level l (rq_attrs r) flags p begin end pa tb s =
        mm_map_loop 512 ?F l (rq_attrs r) flags p begin ?e pa (entry_at tb i) s"
      unfolding mm_map_level_eq [of l] pte by (rule refl)
    ultimately show "\<exists>ok s' ts' fl'. mm_map_level l (rq_attrs r) flags p begin end pa tb s = Inr (ok, s') \<and>
      tstep flags l tb p qs s ts fl s' ts' fl' \<and> tdone r (commits flags) ok l B 0 ts ts' \<and> (ok \<or> fl' = [])"
      using tdone_from_start [OF _ st(5)] by (elim exE conjE) (simp only:, blast)
  qed
qed

end
