(* ===== verification/Mm_Root.thy ===== *)
theory Mm_Root
  imports Mm_Map
begin

text \<open>
  Whole page tables: the consecutive root tables, the address space they define, and the
  loop of \<open>mm_map_root\<close> over them. \<open>rinv\<close> is the invariant of a page table with the pool its
  tables come from, \<open>space\<close> the translation it defines.
\<close>

definition root_at :: "u64 \<Rightarrow> nat \<Rightarrow> u64" where
  "root_at root k = root + PAGE_SIZE * word_of_nat k"

definition rpages :: "ptree list list \<Rightarrow> u64 list" where
  "rpages roots = concat (map tpages roots)"

definition root_pages :: "u64 \<Rightarrow> nat \<Rightarrow> u64 list" where
  "root_pages root n = map (root_at root) [0..<n]"

definition rinv ::
  "'a mm_machine_scheme \<Rightarrow> nat \<Rightarrow> u64 \<Rightarrow> ptree list list \<Rightarrow> nat \<Rightarrow> nat list \<Rightarrow> u64 list \<Rightarrow> bool" where
  "rinv s L root roots p qs fl \<longleftrightarrow>
     (\<forall>k<length roots. table_rep (mem s) L (root_at root k) (roots ! k)) \<and>
     pool_rep 0x1000 s p qs fl \<and> distinct (root_pages root (length roots) @ rpages roots @ fl) \<and>
     (\<forall>x\<in>set fl. addr_ok x)"

definition rstep ::
  "u32 \<Rightarrow> nat \<Rightarrow> u64 \<Rightarrow> nat \<Rightarrow> nat list \<Rightarrow> 'a mm_machine_scheme \<Rightarrow> ptree list list \<Rightarrow> u64 list \<Rightarrow>
   'a mm_machine_scheme \<Rightarrow> ptree list list \<Rightarrow> u64 list \<Rightarrow> bool" where
  "rstep flags L root p qs s roots fl s' roots' fl' \<longleftrightarrow>
     rinv s' L root roots' p qs fl' \<and> length roots' = length roots \<and>
     mset (rpages roots' @ fl') = mset (rpages roots @ fl) \<and>
     mm_touches (set (root_pages root (length roots) @ rpages roots @ fl)) qs s s' \<and>
     logs (stage1 flags) (must_break flags s) s s'"

definition space :: "nat \<Rightarrow> ptree list list \<Rightarrow> nat \<Rightarrow> (nat \<times> u64) option" where
  "space L roots a = look (Suc L) (Table 0 (roots ! (a div esz (Suc L)))) (a mod esz (Suc L))"

section \<open>From root tables to tables\<close>

lemma rstep_refl: "rinv s L root roots p qs fl \<Longrightarrow> rstep flags L root p qs s roots fl s roots fl"
  by (simp add: rstep_def)

lemma rstep_trans:
  assumes "rstep flags L root p qs s r0 fl s1 r1 fl1" "rstep flags L root p qs s1 r1 fl1 s2 r2 fl2"
  shows "rstep flags L root p qs s r0 fl s2 r2 fl2"
proof -
  let ?X = "set (root_pages root (length r0) @ rpages r0 @ fl)"
  have a: "mset (rpages r1 @ fl1) = mset (rpages r0 @ fl)" "mm_touches ?X qs s s1" "logs (stage1 flags) (must_break flags s) s s1"
    "length r1 = length r0"
    using assms(1) by (simp_all add: rstep_def)
  have "set (rpages r1 @ fl1) = set (rpages r0 @ fl)" using a(1) by (rule mset_eq_setD)
  then have "set (root_pages root (length r1) @ rpages r1 @ fl1) = ?X" using a(4) by simp
  then have b: "rinv s2 L root r2 p qs fl2" "mset (rpages r2 @ fl2) = mset (rpages r1 @ fl1)" "mm_touches ?X qs s1 s2"
    "logs (stage1 flags) (must_break flags s1) s1 s2" "length r2 = length r1" using assms(2) by (simp_all add: rstep_def)
  have "logs (stage1 flags) (must_break flags s) s s2"
    using logs_trans [OF a(3)] b(4) must_break_touch [OF a(2), of flags] by simp
  then show ?thesis using a b mm_touches_trans [OF a(2) b(3)] by (simp add: rstep_def)
qed

lemma rpages_split:
  assumes "k < length roots"
  shows "rpages roots = rpages (take k roots) @ tpages (roots ! k) @ rpages (drop (Suc k) roots)"
proof -
  have "roots = take k roots @ roots ! k # drop (Suc k) roots" using assms by (rule id_take_nth_drop)
  then show ?thesis by (metis concat.simps(2) concat_append list.map(2) map_append rpages_def)
qed

lemma tpages_root_disjoint:
  assumes "distinct (rpages roots)" "j < length roots" "k < length roots" "j \<noteq> k"
  shows "set (tpages (roots ! j)) \<inter> set (tpages (roots ! k)) = {}"
proof -
  have *: "set (tpages (roots ! j)) \<inter> set (tpages (roots ! k)) = {}" if "j < k" "k < length roots" for j k
  proof -
    have "drop (Suc j) roots ! (k - Suc j) = roots ! k" using that by simp
    then have "roots ! k \<in> set (drop (Suc j) roots)" using that by (metis diff_less_mono length_drop nth_mem Suc_leI)
    then have "set (tpages (roots ! k)) \<subseteq> set (rpages (drop (Suc j) roots))" by (auto simp: rpages_def)
    then show ?thesis using assms(1) rpages_split [of j roots] that by auto
  qed
  show ?thesis
  proof (cases "j < k")
    case False
    then have "k < j" using assms(4) by simp
    then show ?thesis using * [OF _ assms(2)] by blast
  qed (rule * [OF _ assms(3)])
qed

lemma rinv_table:
  assumes inv: "rinv s L root roots p qs fl" and k: "k < length roots"
  shows "tinv s L (root_at root k) (roots ! k) p qs fl"
proof -
  have "root_at root k \<in> set (root_pages root (length roots))" using k by (auto simp: root_pages_def)
  then show ?thesis using inv k rpages_split [OF k] by (auto simp: rinv_def tinv_def)
qed

lemma rstep_table:
  assumes inv: "rinv s L root roots p qs fl" and k: "k < length roots"
    and step: "tstep flags L (root_at root k) p qs s (roots ! k) fl s' ts' fl'"
  shows "rstep flags L root p qs s roots fl s' (roots[k := ts']) fl'"
proof -
  let ?t = "root_at root k" and ?n = "length roots"
  let ?X = "insert ?t (set (tpages (roots ! k) @ fl))" and ?Y = "set (root_pages root ?n @ rpages roots @ fl)"
  have c: "tinv s' L ?t ts' p qs fl'" "mset (tpages ts' @ fl') = mset (tpages (roots ! k) @ fl)" "mm_touches ?X qs s s'"
    "logs (stage1 flags) (must_break flags s) s s'" using step by (simp_all add: tstep_def)
  have dis: "distinct (root_pages root ?n @ rpages roots @ fl)" using inv by (simp add: rinv_def)
  have tin: "?t \<in> set (root_pages root ?n)" using k by (auto simp: root_pages_def)
  have sub: "set (tpages (roots ! k)) \<subseteq> set (rpages roots)" using rpages_split [OF k] by auto
  have Xok: "\<forall>x\<in>?X. page_ok 0x1000 x" by (rule tinv_page_sets(3) [OF rinv_table [OF inv k]])
  have off: "same_off 0x1000 ?X (mem s) (mem s')" using c(3) by (simp add: mm_touches_def)
  have "table_rep (mem s') L (root_at root j) (roots[k := ts'] ! j)" if j: "j < ?n" for j
  proof (cases "j = k")
    case True
    then show ?thesis using c(1) k by (simp add: tinv_def)
  next
    case False
    have tab: "table_rep (mem s) L (root_at root j) (roots ! j)" using inv j by (simp add: rinv_def)
    note tr = table_repD [OF tab]
    have jin: "root_at root j \<in> set (root_pages root ?n)" using j by (auto simp: root_pages_def)
    have "root_at root j \<noteq> ?t"
      using dis j k False nth_eq_iff_index_eq [of "root_pages root ?n" j k] by (auto simp: root_pages_def)
    then have jX: "root_at root j \<notin> ?X" using jin dis sub by auto
    have "rep (mem s') L (mem s' (entry_at (root_at root j) i)) (roots ! j ! i)" if i: "i < 512" for i
    proof -
      have "set (pages (roots ! j ! i)) \<subseteq> set (tpages (roots ! j))" using tr(3) i by (intro pages_nth_subset) simp
      moreover have "set (tpages (roots ! j)) \<subseteq> set (rpages roots)" using rpages_split [OF j] by auto
      ultimately have "?X \<inter> set (pages (roots ! j ! i)) = {}"
        using tpages_root_disjoint [of roots j k] dis j k False tin by auto
      moreover have "mem s' (entry_at (root_at root j) i) = mem s (entry_at (root_at root j) i)"
        using i tr(1,2) jX Xok by (intro same_offD [OF off]) (auto intro: entry_at_in_page)
      ultimately show ?thesis using rep_frame [OF tr(4) [OF i] off Xok] by simp
    qed
    then show ?thesis using tr(1,3) False by (simp add: table_rep_def)
  qed
  moreover have ms: "mset (rpages (roots[k := ts']) @ fl') = mset (rpages roots @ fl)"
  proof -
    have "mset (rpages (roots[k := ts'])) + mset (tpages (roots ! k)) = mset (rpages roots) + mset (tpages ts')"
      unfolding rpages_def using k by (rule mset_concat_upd)
    moreover have "mset (tpages ts') + mset fl' = mset (tpages (roots ! k)) + mset fl" using c(2) by simp
    ultimately show ?thesis unfolding mset_append by (rule multiset_exchange)
  qed
  moreover have "distinct (rpages (roots[k := ts']) @ fl')" using dis by (intro distinct_mset_eq [OF ms [symmetric]]) simp
  moreover have "set (rpages (roots[k := ts']) @ fl') = set (rpages roots @ fl)" using ms by (rule mset_eq_setD)
  ultimately have "rinv s' L root (roots[k := ts']) p qs fl'" using c(1) dis by (auto simp: rinv_def tinv_def)
  moreover have "mm_touches ?Y qs s s'" using c(3) sub tin by (rule_tac mm_touches_mono) auto
  ultimately show ?thesis using ms c(4) by (simp add: rstep_def)
qed

section \<open>The loop over the root tables\<close>

definition tready :: "request \<Rightarrow> nat \<Rightarrow> nat \<Rightarrow> ptree list \<Rightarrow> bool" where
  "tready r L B ts \<longleftrightarrow> (\<forall>i<512. hits r (B + i * esz L) (esz L) \<longrightarrow> ready r L (B + i * esz L) (ts ! i))"

definition rdone ::
  "request \<Rightarrow> bool \<Rightarrow> bool \<Rightarrow> nat \<Rightarrow> nat \<Rightarrow> ptree list list \<Rightarrow> ptree list list \<Rightarrow> bool" where
  "rdone r c ok L k roots roots' \<longleftrightarrow>
     (\<forall>j<k. roots' ! j = roots ! j) \<and>
     (\<forall>j. k \<le> j \<and> j < length roots \<longrightarrow>
        eff r c ok (Suc L) (j * esz (Suc L)) (Table 0 (roots ! j)) (Table 0 (roots' ! j))) \<and>
     ((\<forall>j. k \<le> j \<and> j < length roots \<longrightarrow> tready r L (j * esz (Suc L)) (roots ! j)) \<longrightarrow> ok) \<and>
     (\<not> c \<longrightarrow> ok \<longrightarrow> (\<forall>j. k \<le> j \<and> j < length roots \<longrightarrow> tready r L (j * esz (Suc L)) (roots' ! j)))"

lemma tdone_table:
  assumes "tdone r c ok L B 0 ts ts'"
  shows "eff r c ok (Suc L) B (Table 0 ts) (Table 0 ts')" "tready r L B ts \<Longrightarrow> ok"
    "\<not> c \<Longrightarrow> ok \<Longrightarrow> tready r L B ts'"
  using assms by (auto simp: tdone_def tready_def intro!: eff_table)

lemma rdone_stop:
  assumes "unat begin = max (rq_begin r) (k * esz (Suc L))" "unat end = rq_end r" "\<not> begin < end"
  shows "rdone r c True L k roots roots"
proof -
  let ?S = "esz (Suc L)"
  have out: "\<not> (j * ?S \<le> a \<and> rq_begin r \<le> a \<and> a < rq_end r)" if "k \<le> j" for j a
  proof
    assume a: "j * ?S \<le> a \<and> rq_begin r \<le> a \<and> a < rq_end r"
    have "k * ?S \<le> j * ?S" using that by (intro mult_le_mono1)
    then have "max (rq_begin r) (k * ?S) \<le> a" using a by linarith
    then show False using assms a by (simp add: word_less_nat_alt)
  qed
  have "eff r c True (Suc L) (j * ?S) (Table 0 (roots ! j)) (Table 0 (roots ! j))" if "k \<le> j" for j
    using out [OF that] by (intro eff_keep) (auto simp: in_req_def)
  moreover have "tready r L (j * ?S) ts" if "k \<le> j" for j ts
    unfolding tready_def
  proof (intro allI impI)
    fix i assume "hits r (j * ?S + i * esz L) (esz L)"
    then have "j * ?S \<le> max (rq_begin r) (j * ?S + i * esz L) \<and>
        rq_begin r \<le> max (rq_begin r) (j * ?S + i * esz L) \<and> max (rq_begin r) (j * ?S + i * esz L) < rq_end r"
      by (auto simp: hits_def)
    then show "ready r L (j * ?S + i * esz L) (ts ! i)" using out [OF that] by blast
  qed
  ultimately show ?thesis by (auto simp: rdone_def)
qed

lemma rdone_fail:
  assumes d: "tdone r c False L (k * esz (Suc L)) 0 (roots ! k) ts'" and k: "k < length roots"
  shows "rdone r c False L k roots (roots[k := ts'])"
proof -
  have "eff r c False (Suc L) A t t" for A t by (simp add: eff_def)
  then have "eff r c False (Suc L) (j * esz (Suc L)) (Table 0 (roots ! j)) (Table 0 (roots[k := ts'] ! j))"
    if "k \<le> j" "j < length roots" for j
    using tdone_table(1) [OF d] that by (cases "j = k") simp_all
  then show ?thesis using tdone_table(2) [OF d] k by (auto simp: rdone_def)
qed

lemma rdone_step:
  assumes d: "tdone r c True L (k * esz (Suc L)) 0 (roots ! k) ts'" and k: "k < length roots"
    and rest: "rdone r c ok L (Suc k) (roots[k := ts']) roots'"
  shows "rdone r c ok L k roots roots'"
proof -
  have at: "roots' ! k = ts'" using rest k by (simp add: rdone_def)
  have "eff r c ok (Suc L) (j * esz (Suc L)) (Table 0 (roots ! j)) (Table 0 (roots' ! j))"
    if j: "k \<le> j" "j < length roots" for j
  proof (cases "j = k")
    case True
    then show ?thesis using eff_weaken [OF tdone_table(1) [OF d]] at by simp
  next
    case False
    then show ?thesis using rest j by (auto simp: rdone_def)
  qed
  moreover have "ok" if "\<forall>j. k \<le> j \<and> j < length roots \<longrightarrow> tready r L (j * esz (Suc L)) (roots ! j)"
    using rest that by (simp add: rdone_def)
  moreover have "tready r L (j * esz (Suc L)) (roots' ! j)" if "\<not> c" "ok" "k \<le> j" "j < length roots" for j
    using rest tdone_table(3) [OF d] at that by (cases "j = k") (auto simp: rdone_def)
  ultimately show ?thesis using rest by (auto simp: rdone_def)
qed

lemma root_arith:
  assumes L: "L \<le> 3" and k: "k < n" "n * esz (Suc L) \<le> 2 ^ 52" and r: "req_ok r"
    and b: "unat begin = max (rq_begin r) (k * esz (Suc L))" and first: "rq_begin r < k * esz (Suc L) + esz (Suc L)"
    and e: "unat end = rq_end r" and lt: "begin < end" and pa: "unat pa = target r (unat begin)"
  shows "k * esz (Suc L) + esz (Suc L) \<le> 2 ^ 52" "hits r (k * esz (Suc L)) (esz (Suc L))"
    "unat (mm_start_of_next_block begin (mm_entry_size (Suc L))) = k * esz (Suc L) + esz (Suc L)"
    "unat (pa + (mm_start_of_next_block begin (mm_entry_size (Suc L)) - begin)) = target r (k * esz (Suc L) + esz (Suc L))"
proof -
  let ?S = "esz (Suc L)"
  have S: "?S \<le> 2 ^ 48" using L by (intro esz_bound) simp
  have "Suc k * ?S \<le> n * ?S" using k(1) by (intro mult_le_mono1) simp
  then show top: "k * ?S + ?S \<le> 2 ^ 52" using k(2) by simp
  have ltn: "unat begin < rq_end r" using lt e by (simp add: word_less_nat_alt)
  then show "hits r (k * ?S) ?S" using b first by (simp add: hits_def)
  have rng: "k * ?S \<le> unat begin" "unat begin < k * ?S + ?S" using b first by simp_all
  have u: "unat begin + ?S < 2 ^ 64" using rng top S by simp
  show nx: "unat (mm_start_of_next_block begin (mm_entry_size (Suc L))) = k * ?S + ?S"
    using unat_next_block [OF _ u] L between_multiples(1) [OF _ rng] by (simp add: distrib_right)
  have d: "unat (mm_start_of_next_block begin (mm_entry_size (Suc L)) - begin) = k * ?S + ?S - unat begin"
    using nx rng by (subst unat_sub64) simp_all
  have t: "target r (k * ?S + ?S) = unat pa + (k * ?S + ?S - unat begin)" using pa rng b by (simp add: target_def)
  have "unat pa \<le> rq_pa r + (rq_end r - rq_begin r)"
    unfolding pa target_def using ltn by (intro add_left_mono diff_le_mono) simp
  then have "unat pa \<le> 2 ^ 48" using r by (simp add: req_ok_def)
  then show "unat (pa + (mm_start_of_next_block begin (mm_entry_size (Suc L)) - begin)) = target r (k * ?S + ?S)"
    using rng S by (subst unat_add64) (simp_all add: d t)
qed

lemma root_at_Suc: "root_at root k + PAGE_SIZE = root_at root (Suc k)"
  by (simp add: root_at_def algebra_simps)

lemma map_root_loop_spec:
  assumes r: "req_ok r" and L: "L \<le> 3" and un: "rq_unmap r \<longleftrightarrow> flags AND MM_FLAG_UNMAP \<noteq> 0"
    and sz: "N * esz (Suc L) \<le> 2 ^ 52" "rq_end r \<le> N * esz (Suc L)" and e: "unat end = rq_end r"
  shows "rinv s L root roots p qs fl \<Longrightarrow> length roots = N \<Longrightarrow> N \<le> k + n \<Longrightarrow>
    unat begin = max (rq_begin r) (k * esz (Suc L)) \<Longrightarrow> rq_begin r < k * esz (Suc L) + esz (Suc L) \<Longrightarrow>
    unat pa = target r (unat begin) \<Longrightarrow>
    \<exists>ok s' roots' fl'. mm_map_root_loop n (Suc L) (rq_attrs r) flags p begin end pa (root_at root k) s = Inr (ok, s') \<and>
      rstep flags L root p qs s roots fl s' roots' fl' \<and> rdone r (commits flags) ok L k roots roots' \<and> (ok \<or> fl' = [])"
proof (induction n arbitrary: k "begin" pa s roots fl)
  case 0
  have "N * esz (Suc L) \<le> k * esz (Suc L)" using 0(3) by (intro mult_le_mono1) simp
  then have "rq_end r \<le> k * esz (Suc L)" using sz(2) by (rule order_trans [rotated])
  then have stop: "\<not> begin < end" using 0(4) e by (auto simp: word_less_nat_alt)
  show ?case
    using stop rstep_refl [OF 0(1), of flags] rdone_stop [OF 0(4) e stop, of "commits flags" roots]
    by (intro exI [of _ True] exI [of _ s] exI [of _ roots] exI [of _ fl]) simp
next
  case (Suc n)
  show ?case
  proof (cases "begin < end")
    case False
    then show ?thesis
      using rstep_refl [OF Suc.prems(1), of flags] rdone_stop [OF Suc.prems(4) e False, of "commits flags" roots]
      by (intro exI [of _ True] exI [of _ s] exI [of _ roots] exI [of _ fl]) simp
  next
    case True
    have kN: "k < N"
    proof (rule ccontr)
      assume "\<not> ?thesis"
      then have "N * esz (Suc L) \<le> k * esz (Suc L)" by (intro mult_le_mono1) simp
      then have "rq_end r \<le> k * esz (Suc L)" using sz(2) by (rule order_trans [rotated])
      then show False using True Suc.prems(4) e by (auto simp: word_less_nat_alt)
    qed
    then have k: "k < length roots" using Suc.prems(2) by simp
    note ar = root_arith [OF L kN sz(1) r Suc.prems(4,5) e True Suc.prems(6)]
    have em: "min (unat end) (k * esz (Suc L) + esz (Suc L)) = min (rq_end r) (k * esz (Suc L) + esz (Suc L))"
      using e by simp
    obtain ok s1 ts1 fl1 where c: "mm_map_level L (rq_attrs r) flags p begin end pa (root_at root k) s = Inr (ok, s1)"
      "tstep flags L (root_at root k) p qs s (roots ! k) fl s1 ts1 fl1"
      "tdone r (commits flags) ok L (k * esz (Suc L)) 0 (roots ! k) ts1" "ok \<or> fl1 = []"
      using level_spec_mm_map_level [OF r un L, unfolded level_spec_def, rule_format,
          OF rinv_table [OF Suc.prems(1) k] dvd_triv_right ar(1,2) Suc.prems(4) em Suc.prems(6)] by blast
    note st = rstep_table [OF Suc.prems(1) k c(2)]
    show ?thesis
    proof (cases ok)
      case False
      then show ?thesis using c True st rdone_fail [of r "commits flags" L k roots ts1] k
        by (intro exI [of _ False] exI [of _ s1] exI [of _ "roots[k := ts1]"] exI [of _ fl1]) simp
    next
      case ok: True
      let ?b = "mm_start_of_next_block begin (mm_entry_size (Suc L))"
      have nb: "unat ?b = max (rq_begin r) (Suc k * esz (Suc L))" using ar(3) Suc.prems(5) by simp
      have inv1: "rinv s1 L root (roots[k := ts1]) p qs fl1" using st by (simp add: rstep_def)
      have pa': "unat (pa + (?b - begin)) = target r (unat ?b)" using ar(3,4) by simp
      have "rq_begin r < Suc k * esz (Suc L) + esz (Suc L)" using Suc.prems(5) by simp
      then obtain ok' s' roots' fl' where d:
        "mm_map_root_loop n (Suc L) (rq_attrs r) flags p ?b end (pa + (?b - begin)) (root_at root (Suc k)) s1 = Inr (ok', s')"
        "rstep flags L root p qs s1 (roots[k := ts1]) fl1 s' roots' fl'"
        "rdone r (commits flags) ok' L (Suc k) (roots[k := ts1]) roots'" "ok' \<or> fl' = []"
        using Suc.IH [OF inv1 _ _ nb _ pa'] Suc.prems(2,3) by auto
      have "rdone r (commits flags) ok' L k roots roots'" using c(3) ok by (intro rdone_step [OF _ k d(3)]) simp
      then show ?thesis
        using c(1) True ok rstep_trans [OF st d(2)] d(1,4)
        by (intro exI [of _ ok'] exI [of _ s'] exI [of _ roots'] exI [of _ fl']) (simp add: root_at_Suc Let_def)
    qed
  qed
qed

end
