(* ===== verification/Mm_Update.thy ===== *)
theory Mm_Update
  imports Mm_Root
begin

text \<open>
  Updating a whole page table: \<open>mm_map_root\<close>, \<open>mm_ptable_map\<close>, \<open>mm_ptable_prepare\<close>,
  \<open>mm_ptable_commit\<close> and \<open>mm_ptable_update\<close>. \<open>ptable_ok\<close> is the invariant of a page table,
  \<open>ptable_request\<close> the request the arguments of an update amount to, \<open>ptable_step\<close> what every
  operation keeps.
\<close>

definition ptable_ok ::
  "u32 \<Rightarrow> 'a mm_machine_scheme \<Rightarrow> u64 \<Rightarrow> ptree list list \<Rightarrow> nat \<Rightarrow> nat list \<Rightarrow> u64 list \<Rightarrow> bool" where
  "ptable_ok flags s root roots p qs fl \<longleftrightarrow>
     rinv s (mm_max_level flags s) root roots p qs fl \<and> length roots = mm_root_table_count flags s \<and>
     1 \<le> mm_max_level flags s \<and> mm_max_level flags s \<le> 3 \<and> length roots \<le> 16"

definition space_size :: "u32 \<Rightarrow> 'a mm_machine_scheme \<Rightarrow> nat" where
  "space_size flags s = mm_root_table_count flags s * esz (Suc (mm_max_level flags s))"

definition ptable_request :: "u32 \<Rightarrow> u64 \<Rightarrow> u64 \<Rightarrow> u64 \<Rightarrow> u64 \<Rightarrow> 'a mm_machine_scheme \<Rightarrow> request" where
  "ptable_request flags pa_begin pa_end ipa_begin attrs s =
     \<lparr>rq_unmap = (flags AND MM_FLAG_UNMAP \<noteq> 0), rq_attrs = attrs,
      rq_begin = unat (arch_mm_clear_pa ipa_begin),
      rq_end = min (unat (mm_round_up_to_page (ipa_begin + (pa_end - arch_mm_clear_pa pa_begin)))) (space_size flags s),
      rq_pa = unat (arch_mm_clear_pa pa_begin)\<rparr>"

definition ptable_step ::
  "u32 \<Rightarrow> u64 \<Rightarrow> nat \<Rightarrow> nat list \<Rightarrow> 'a mm_machine_scheme \<Rightarrow> ptree list list \<Rightarrow> u64 list \<Rightarrow>
   'a mm_machine_scheme \<Rightarrow> ptree list list \<Rightarrow> u64 list \<Rightarrow> bool" where
  "ptable_step flags root p qs s roots fl s' roots' fl' \<longleftrightarrow>
     ptable_ok flags s' root roots' p qs fl' \<and>
     mset (rpages roots' @ fl') = mset (rpages roots @ fl) \<and>
     mm_touches (set (root_pages root (length roots) @ rpages roots @ fl)) qs s s' \<and>
     logs (stage1 flags) (must_break flags s) s s'"

definition updates :: "request \<Rightarrow> bool \<Rightarrow> nat \<Rightarrow> (nat \<Rightarrow> (nat \<times> u64) option) \<Rightarrow> (nat \<Rightarrow> (nat \<times> u64) option) \<Rightarrow> bool" where
  "updates r c n old new \<longleftrightarrow>
     (\<forall>a<n. if c \<and> in_req r a then installed r a (old a) (new a) else new a = old a)"

section \<open>Configuration\<close>

lemma config_touch:
  assumes "mm_touches X qs s s'"
  shows "mm_max_level flags s' = mm_max_level flags s" "mm_root_table_count flags s' = mm_root_table_count flags s"
    "space_size flags s' = space_size flags s"
proof -
  have "mm_s2_max_level s' = mm_s2_max_level s" "mm_s2_root_table_count s' = mm_s2_root_table_count s"
    using assms by (simp_all add: mm_touches_def mm_config_def)
  then show a: "mm_max_level flags s' = mm_max_level flags s" "mm_root_table_count flags s' = mm_root_table_count flags s"
    by (simp_all add: mm_max_level_def mm_root_table_count_def)
  then show "space_size flags s' = space_size flags s" by (simp add: space_size_def)
qed

lemma ptable_ok_size:
  assumes "ptable_ok flags s root roots p qs fl"
  shows "space_size flags s \<le> 2 ^ 52" "unat (mm_ptable_addr_space_end flags s) = space_size flags s"
    "4096 dvd space_size flags s"
proof -
  let ?L = "mm_max_level flags s" and ?N = "mm_root_table_count flags s"
  have b: "?N \<le> 16" "Suc ?L \<le> 4" using assms by (auto simp: ptable_ok_def)
  note b = b(1) esz_bound [OF b(2)]
  have "?N * esz (Suc ?L) \<le> 16 * 2 ^ 48" using b by (intro mult_le_mono)
  then show le: "space_size flags s \<le> 2 ^ 52" by (simp add: space_size_def)
  have u: "unat (word_of_nat ?N :: u64) = ?N" "unat (mm_entry_size (Suc ?L)) = esz (Suc ?L)"
    using assms by (auto simp: ptable_ok_def unat_of_nat64 intro!: unat_entry_size)
  have "unat (mm_ptable_addr_space_end flags s) = unat (word_of_nat ?N :: u64) * unat (mm_entry_size (Suc ?L))"
    unfolding mm_ptable_addr_space_end_def Suc_eq_plus1 [symmetric]
    using le by (intro unat_mult64) (simp add: u space_size_def)
  then show "unat (mm_ptable_addr_space_end flags s) = space_size flags s" by (simp add: u space_size_def)
  show "4096 dvd space_size flags s" using esz_page by (simp add: space_size_def)
qed

lemma unat_round_up: "4096 dvd unat (mm_round_up_to_page a)"
proof -
  have "PAGE_SIZE - 1 = mask 12" by (simp add: PAGE_SIZE_def PAGE_BITS_def mask_eq_exp_minus_1 push_bit_eq_mult)
  then show ?thesis by (simp add: mm_round_up_to_page_def mm_round_down_to_page_def unat_and_not_mask64)
qed

lemma ptable_request_ok:
  assumes "ptable_ok flags s root roots p qs fl" and r: "r = ptable_request flags pa_begin pa_end ipa_begin attrs s"
    and "rq_unmap r \<or> attrs_ok attrs" "rq_pa r + (rq_end r - rq_begin r) \<le> 2 ^ 48"
  shows "req_ok r" "rq_end r \<le> space_size flags s"
proof -
  have "addr_ok (arch_mm_clear_pa ipa_begin)" "addr_ok (arch_mm_clear_pa pa_begin)" by simp_all
  then have "4096 dvd rq_begin r" "4096 dvd rq_pa r" unfolding addr_ok_iff by (simp_all add: r ptable_request_def)
  moreover have "4096 dvd rq_end r"
    using unat_round_up ptable_ok_size(3) [OF assms(1)] by (simp add: r ptable_request_def min_def)
  moreover show le: "rq_end r \<le> space_size flags s" by (simp add: r ptable_request_def)
  ultimately show "req_ok r" using ptable_ok_size(1) [OF assms(1)] assms(3,4)
    by (auto simp: req_ok_def) (simp add: r ptable_request_def)
qed

lemma ptable_request_touch:
  "mm_touches X qs s s' \<Longrightarrow> ptable_request flags pb pe ib attrs s' = ptable_request flags pb pe ib attrs s"
  by (simp add: ptable_request_def config_touch)

lemma rinv_record [simp]: "rinv (mm_record ev s) L root roots p qs fl = rinv s L root roots p qs fl"
  using pool_rep_cong [of "mm_record ev s" s qs "0x1000" p fl] by (simp add: rinv_def)

lemma rstep_record:
  assumes "rstep flags L root p qs s roots fl s' roots' fl'"
  shows "rstep flags L root p qs s roots fl (mm_record (SyncTableWrites ops) s') roots' fl'"
proof -
  have "logs (stage1 flags) (must_break flags s) s' (mm_record (SyncTableWrites ops) s')"
    by (auto simp: logs_def intro!: exI [of _ "[SyncTableWrites ops]"])
  then show ?thesis using assms by (auto simp: rstep_def mm_touches_def intro: logs_trans)
qed

lemma rstep_ptable:
  assumes "rstep flags (mm_max_level flags s) root p qs s roots fl s' roots' fl'" "ptable_ok flags s root roots p qs fl"
  shows "ptable_step flags root p qs s roots fl s' roots' fl'"
proof -
  have t: "mm_touches (set (root_pages root (length roots) @ rpages roots @ fl)) qs s s'"
    using assms(1) by (simp add: rstep_def)
  then show ?thesis using assms by (simp add: ptable_step_def ptable_ok_def rstep_def config_touch [OF t])
qed

section \<open>The operations\<close>

lemma rdone_space:
  assumes "rdone r c ok L 0 roots roots'" "length roots' = length roots" "a < length roots * esz (Suc L)"
  shows "if c \<and> in_req r a then ok \<longrightarrow> installed r a (space L roots a) (space L roots' a)
    else space L roots' a = space L roots a"
proof -
  let ?S = "esz (Suc L)"
  have j: "a div ?S < length roots" using assms(3) by (simp add: less_mult_imp_div_less)
  have "eff r c ok (Suc L) (a div ?S * ?S) (Table 0 (roots ! (a div ?S))) (Table 0 (roots' ! (a div ?S)))"
    using assms(1) j by (simp add: rdone_def)
  moreover have "a mod ?S < ?S" "a div ?S * ?S + a mod ?S = a" by simp_all
  ultimately show ?thesis unfolding eff_def space_def by metis
qed

definition all_ready :: "request \<Rightarrow> nat \<Rightarrow> ptree list list \<Rightarrow> bool" where
  "all_ready r L roots \<longleftrightarrow> (\<forall>j<length roots. tready r L (j * esz (Suc L)) (roots ! j))"

text \<open>Root tables below the first one the request touches have nothing to do for it.\<close>

lemma rdone_from_start:
  assumes d: "rdone r c ok L k roots roots'" and len: "length roots' = length roots"
    and k: "rq_begin r div esz (Suc L) = k"
  shows "rdone r c ok L 0 roots roots'"
proof -
  let ?S = "esz (Suc L)"
  have out: "\<not> rq_begin r < j * ?S + ?S" if "j < k" for j
  proof -
    have "Suc j * ?S \<le> k * ?S" using that by (intro mult_le_mono1) simp
    also have "\<dots> \<le> rq_begin r" unfolding k [symmetric] by (rule div_times_less_eq_dividend)
    finally show ?thesis by simp
  qed
  have same: "roots' ! j = roots ! j" if "j < k" for j using d that by (simp add: rdone_def)
  have "eff r c ok (Suc L) (j * ?S) (Table 0 (roots ! j)) (Table 0 (roots' ! j))" if "j < length roots" for j
  proof (cases "j < k")
    case True
    then show ?thesis unfolding same [OF True] using out [OF True] by (intro eff_keep) (auto simp: in_req_def)
  next
    case False
    then show ?thesis using d that by (simp add: rdone_def)
  qed
  moreover have tr: "tready r L (j * ?S) ts" if "j < k" for j ts
    unfolding tready_def
  proof (intro allI impI)
    fix i :: nat assume i: "i < 512" "hits r (j * ?S + i * esz L) (esz L)"
    have "Suc i * esz L \<le> 512 * esz L" using i(1) by (intro mult_le_mono1) simp
    then have "j * ?S + i * esz L + esz L \<le> j * ?S + ?S" by (simp add: esz_Suc)
    then have "rq_begin r < j * ?S + ?S" using i(2) by (simp add: hits_def)
    then show "ready r L (j * ?S + i * esz L) (ts ! i)" using out [OF that] by blast
  qed
  moreover have "ok" if "\<forall>j<length roots. tready r L (j * ?S) (roots ! j)"
    using d that by (simp add: rdone_def)
  moreover have "tready r L (j * ?S) (roots' ! j)" if "\<not> c" "ok" "j < length roots" for j
    using d tr that by (cases "j < k") (simp_all add: rdone_def)
  ultimately show ?thesis by (simp add: rdone_def)
qed

lemma mm_map_root_spec:
  assumes ok: "ptable_ok flags s root roots p qs fl" and r: "req_ok r" "rq_unmap r \<longleftrightarrow> flags AND MM_FLAG_UNMAP \<noteq> 0"
    and e: "rq_end r \<le> space_size flags s" "unat end = rq_end r" and b: "unat begin = rq_begin r" "unat pa = rq_pa r"
  shows "\<exists>ok s' roots' fl'.
    mm_map_root root begin end pa (rq_attrs r) (Suc (mm_max_level flags s)) flags p s = Inr (ok, s') \<and>
    rstep flags (mm_max_level flags s) root p qs s roots fl s' roots' fl' \<and>
    rdone r (commits flags) ok (mm_max_level flags s) 0 roots roots' \<and> (ok \<or> fl' = [])"
proof -
  let ?L = "mm_max_level flags s" and ?N = "mm_root_table_count flags s"
  let ?S = "esz (Suc ?L)" and ?k = "rq_begin r div esz (Suc (mm_max_level flags s))"
  have o: "rinv s ?L root roots p qs fl" "length roots = ?N" "?L \<le> 3" "?N \<le> 16" using ok by (auto simp: ptable_ok_def)
  show ?thesis
  proof (cases "begin < end")
    case False
    have "rdone r (commits flags) True ?L 0 roots roots" using False b e by (intro rdone_stop) simp_all
    moreover have "mm_map_root root begin end pa (rq_attrs r) (Suc ?L) flags p s = Inr (True, s)"
      using False by (cases ?N) (simp_all add: mm_map_root_def)
    ultimately show ?thesis using rstep_refl [OF o(1)] by blast
  next
    case True
    then have "rq_begin r < ?N * ?S" using b e by (simp add: word_less_nat_alt space_size_def)
    then have k: "?k < ?N" by (simp add: less_mult_imp_div_less)
    have ix: "unat (mm_index begin (Suc ?L)) = ?k" using k o(3,4) b by (subst unat_mm_index) simp_all
    have "mm_index begin (Suc ?L) = word_of_nat (unat (mm_index begin (Suc ?L)))" by simp
    then have "mm_index begin (Suc ?L) = word_of_nat ?k" unfolding ix .
    then have t: "root + PAGE_SIZE * mm_index begin (Suc ?L) = root_at root ?k" by (simp add: root_at_def)
    have m: "unat begin = max (rq_begin r) (?k * ?S)" using b div_times_less_eq_dividend [of "rq_begin r" ?S] by simp
    have f: "rq_begin r < ?k * ?S + ?S" using dividend_less_div_times [of ?S "rq_begin r"] by simp
    have p: "unat pa = target r (unat begin)" using b by (simp add: target_def)
    have sz: "?N * ?S \<le> 2 ^ 52" "rq_end r \<le> ?N * ?S" using ptable_ok_size(1) [OF ok] e(1) by (simp_all add: space_size_def)
    obtain ok' s' roots' fl' where c:
      "mm_map_root_loop ?N (Suc ?L) (rq_attrs r) flags p begin end pa (root_at root ?k) s = Inr (ok', s')"
      "rstep flags ?L root p qs s roots fl s' roots' fl'" "rdone r (commits flags) ok' ?L ?k roots roots'" "ok' \<or> fl' = []"
      using map_root_loop_spec [OF r(1) o(3) r(2) sz e(2) o(1,2) _ m f p, of ?N] by auto
    have "length roots' = length roots" using c(2) by (simp add: rstep_def)
    then show ?thesis using c rdone_from_start [OF c(3)] by (auto simp: mm_map_root_def t)
  qed
qed

lemma mm_ptable_map_spec:
  assumes ok: "ptable_ok flags s root roots p qs fl" and r: "r = ptable_request flags pa_begin pa_end ipa_begin attrs s"
    and a: "rq_unmap r \<or> attrs_ok attrs" "rq_pa r + (rq_end r - rq_begin r) \<le> 2 ^ 48"
  shows "\<exists>ok s' roots' fl'. mm_ptable_map root pa_begin pa_end ipa_begin attrs flags p s = Inr (ok, s') \<and>
    ptable_step flags root p qs s roots fl s' roots' fl' \<and> length roots' = length roots \<and>
    rdone r (commits flags) ok (mm_max_level flags s) 0 roots roots' \<and> (ok \<or> fl' = [])"
proof -
  let ?e = "mm_round_up_to_page (ipa_begin + (pa_end - arch_mm_clear_pa pa_begin))"
  let ?fin = "if ?e > mm_ptable_addr_space_end flags s then mm_ptable_addr_space_end flags s else ?e"
  note ro = ptable_request_ok [OF ok r a]
  have e: "unat ?fin = rq_end r"
    using ptable_ok_size(2) [OF ok] by (simp add: r ptable_request_def min_def word_less_nat_alt)
  have un: "rq_unmap r \<longleftrightarrow> flags AND MM_FLAG_UNMAP \<noteq> 0" and at: "rq_attrs r = attrs"
    by (simp_all add: r ptable_request_def)
  have b: "unat (arch_mm_clear_pa ipa_begin) = rq_begin r" "unat (arch_mm_clear_pa pa_begin) = rq_pa r"
    by (simp_all add: r ptable_request_def)
  obtain ok' s' roots' fl' where c:
    "mm_map_root root (arch_mm_clear_pa ipa_begin) ?fin (arch_mm_clear_pa pa_begin) attrs (Suc (mm_max_level flags s))
       flags p s = Inr (ok', s')"
    "rstep flags (mm_max_level flags s) root p qs s roots fl s' roots' fl'"
    "rdone r (commits flags) ok' (mm_max_level flags s) 0 roots roots'" "ok' \<or> fl' = []"
    using mm_map_root_spec [OF ok ro(1) un ro(2) e b] unfolding at by blast
  define s2 where "s2 = (if ok' then mm_record (SyncTableWrites arch_mm_sync_table_writes) s' else s')"
  have st: "rstep flags (mm_max_level flags s) root p qs s roots fl s2 roots' fl'"
    using c(2) by (simp add: s2_def rstep_record)
  have "\<not> \<not> 2 \<le> mm_max_level flags s + 1" using ok by (simp add: ptable_ok_def)
  then have "mm_ptable_map root pa_begin pa_end ipa_begin attrs flags p s = Inr (ok', s2)"
    using c(1) by (simp add: mm_ptable_map_def Let_def s2_def)
  then show ?thesis using rstep_ptable [OF st ok] c(3,4) st by (auto simp: rstep_def)
qed

section \<open>Preparing and committing\<close>

text \<open>Preparing clears and committing sets one flag; nothing else depends on it.\<close>

definition same_kind :: "u32 \<Rightarrow> u32 \<Rightarrow> bool" where
  "same_kind f g \<longleftrightarrow> f AND MM_FLAG_UNMAP = g AND MM_FLAG_UNMAP \<and> f AND MM_FLAG_STAGE1 = g AND MM_FLAG_STAGE1"

lemma same_kind_flags:
  "same_kind (f AND NOT MM_FLAG_COMMIT) f" "\<not> commits (f AND NOT MM_FLAG_COMMIT)"
  "same_kind (f OR MM_FLAG_COMMIT) f" "commits (f OR MM_FLAG_COMMIT)"
  by (simp_all add: same_kind_def commits_def MM_FLAG_COMMIT_def MM_FLAG_UNMAP_def MM_FLAG_STAGE1_def and.assoc
      bit.conj_disj_distrib2)

lemma same_kind_eqs:
  assumes "same_kind f g"
  shows "mm_max_level f s = mm_max_level g s" "mm_root_table_count f s = mm_root_table_count g s"
    "space_size f s = space_size g s" "must_break f s = must_break g s" "stage1 f = stage1 g"
    "ptable_request f pb pe ib attrs s = ptable_request g pb pe ib attrs s"
  using assms
  by (simp_all add: same_kind_def mm_max_level_def mm_root_table_count_def space_size_def must_break_def stage1_def ptable_request_def)

lemma same_kind_ptable:
  assumes "same_kind f g"
  shows "ptable_ok f s root roots p qs fl = ptable_ok g s root roots p qs fl"
    "ptable_step f root p qs s roots fl s' roots' fl' = ptable_step g root p qs s roots fl s' roots' fl'"
  by (simp_all add: ptable_ok_def ptable_step_def same_kind_eqs [OF assms])

lemma rdone_updates:
  assumes "rdone r c ok L 0 roots roots'" "length roots' = length roots" "c \<Longrightarrow> ok"
  shows "updates r c (length roots * esz (Suc L)) (space L roots) (space L roots')"
  using rdone_space [OF assms(1,2)] assms(3) by (auto simp: updates_def split: if_splits)

text \<open>The arguments of an update are acceptable: the attributes are those of a block, and the physical
  range fits 48 bits.\<close>

definition args_ok :: "u32 \<Rightarrow> u64 \<Rightarrow> u64 \<Rightarrow> u64 \<Rightarrow> u64 \<Rightarrow> 'a mm_machine_scheme \<Rightarrow> bool" where
  "args_ok flags pa_begin pa_end ipa_begin attrs s \<longleftrightarrow>
     (let r = ptable_request flags pa_begin pa_end ipa_begin attrs s
      in (rq_unmap r \<or> attrs_ok attrs) \<and> rq_pa r + (rq_end r - rq_begin r) \<le> 2 ^ 48)"

lemma args_okD:
  "args_ok flags pb pe ib attrs s \<Longrightarrow> r = ptable_request flags pb pe ib attrs s \<Longrightarrow>
   (rq_unmap r \<or> attrs_ok attrs) \<and> rq_pa r + (rq_end r - rq_begin r) \<le> 2 ^ 48"
  by (simp add: args_ok_def Let_def)

lemma mm_ptable_prepare_spec:
  assumes ok: "ptable_ok flags s root roots p qs fl" and a: "args_ok flags pb pe ib attrs s"
    and r: "r = ptable_request flags pb pe ib attrs s"
  shows "\<exists>ok s' roots' fl'. mm_ptable_prepare root pb pe ib attrs flags p s = Inr (ok, s') \<and>
    ptable_step flags root p qs s roots fl s' roots' fl' \<and>
    updates r False (space_size flags s) (space (mm_max_level flags s) roots) (space (mm_max_level flags s) roots') \<and>
    (ok \<longrightarrow> all_ready r (mm_max_level flags s) roots') \<and>
    (ok \<or> fl' = []) \<and> (all_ready r (mm_max_level flags s) roots \<longrightarrow> ok)"
proof -
  let ?f = "flags AND NOT MM_FLAG_COMMIT"
  note k = same_kind_flags(1,2) [of flags]
  have len: "space_size flags s = length roots * esz (Suc (mm_max_level flags s))"
    using ok by (simp add: ptable_ok_def space_size_def)
  obtain ok' s' roots' fl' where c: "mm_ptable_map root pb pe ib attrs ?f p s = Inr (ok', s')"
    "ptable_step ?f root p qs s roots fl s' roots' fl'" "length roots' = length roots"
    "rdone r False ok' (mm_max_level flags s) 0 roots roots'" "ok' \<or> fl' = []"
    using mm_ptable_map_spec [of ?f s root roots p qs fl r pb pe ib attrs] ok args_okD [OF a r] r k
    by (auto simp: same_kind_eqs [OF k(1)] same_kind_ptable [OF k(1)])
  have "all_ready r (mm_max_level flags s) roots'" if ok' using c(3,4) that by (simp add: rdone_def all_ready_def)
  moreover have ok' if "all_ready r (mm_max_level flags s) roots" using c(4) that by (simp add: rdone_def all_ready_def)
  ultimately show ?thesis
    using c rdone_updates [OF c(4,3)] by (auto simp: mm_ptable_prepare_def same_kind_ptable [OF k(1)] len)
qed

lemma mm_ptable_commit_spec:
  assumes ok: "ptable_ok flags s root roots p qs fl" and a: "args_ok flags pb pe ib attrs s"
    and r: "r = ptable_request flags pb pe ib attrs s" and rd: "all_ready r (mm_max_level flags s) roots"
  shows "\<exists>s' roots' fl'. mm_ptable_commit root pb pe ib attrs flags p s = Inr s' \<and>
    ptable_step flags root p qs s roots fl s' roots' fl' \<and>
    updates r True (space_size flags s) (space (mm_max_level flags s) roots) (space (mm_max_level flags s) roots')"
proof -
  let ?f = "flags OR MM_FLAG_COMMIT"
  note k = same_kind_flags(3,4) [of flags]
  have len: "space_size flags s = length roots * esz (Suc (mm_max_level flags s))"
    using ok by (simp add: ptable_ok_def space_size_def)
  obtain ok' s' roots' fl' where c: "mm_ptable_map root pb pe ib attrs ?f p s = Inr (ok', s')"
    "ptable_step ?f root p qs s roots fl s' roots' fl'" "length roots' = length roots"
    "rdone r True ok' (mm_max_level flags s) 0 roots roots'"
    using mm_ptable_map_spec [of ?f s root roots p qs fl r pb pe ib attrs] ok args_okD [OF a r] r k
    by (auto simp: same_kind_eqs [OF k(1)] same_kind_ptable [OF k(1)])
  have "ok'" using c(4) rd by (simp add: rdone_def all_ready_def)
  then show ?thesis
    using c rdone_updates [OF c(4,3)] by (auto simp: mm_ptable_commit_def same_kind_ptable [OF k(1)] len)
qed

lemma ptable_step_trans:
  assumes "ptable_step flags root p qs s r0 fl s1 r1 fl1" "ptable_step flags root p qs s1 r1 fl1 s2 r2 fl2"
    "length r1 = length r0"
  shows "ptable_step flags root p qs s r0 fl s2 r2 fl2"
proof -
  let ?X = "set (root_pages root (length r0) @ rpages r0 @ fl)"
  have a: "mset (rpages r1 @ fl1) = mset (rpages r0 @ fl)" "mm_touches ?X qs s s1" "logs (stage1 flags) (must_break flags s) s s1"
    using assms(1) by (simp_all add: ptable_step_def)
  have "set (rpages r1 @ fl1) = set (rpages r0 @ fl)" using a(1) by (rule mset_eq_setD)
  then have "set (root_pages root (length r1) @ rpages r1 @ fl1) = ?X" using assms(3) by simp
  then have b: "ptable_ok flags s2 root r2 p qs fl2" "mset (rpages r2 @ fl2) = mset (rpages r1 @ fl1)"
    "mm_touches ?X qs s1 s2" "logs (stage1 flags) (must_break flags s1) s1 s2"
    using assms(2) by (simp_all add: ptable_step_def)
  have "logs (stage1 flags) (must_break flags s) s s2"
    using logs_trans [OF a(3)] b(4) must_break_touch [OF a(2), of flags] by simp
  then show ?thesis using a b mm_touches_trans [OF a(2) b(3)] by (simp add: ptable_step_def)
qed

lemma ptable_step_config:
  assumes "ptable_step flags root p qs s roots fl s' roots' fl'" "ptable_ok flags s root roots p qs fl"
  shows "length roots' = length roots" "mm_max_level flags s' = mm_max_level flags s"
    "space_size flags s' = space_size flags s" "args_ok flags pb pe ib attrs s' = args_ok flags pb pe ib attrs s"
    "ptable_request flags pb pe ib attrs s' = ptable_request flags pb pe ib attrs s"
proof -
  have t: "mm_touches (set (root_pages root (length roots) @ rpages roots @ fl)) qs s s'"
    using assms(1) by (simp add: ptable_step_def)
  show "length roots' = length roots" "mm_max_level flags s' = mm_max_level flags s"
    "space_size flags s' = space_size flags s" "args_ok flags pb pe ib attrs s' = args_ok flags pb pe ib attrs s"
    "ptable_request flags pb pe ib attrs s' = ptable_request flags pb pe ib attrs s"
    using assms by (simp_all add: ptable_step_def ptable_ok_def args_ok_def config_touch [OF t] ptable_request_touch [OF t])
qed

lemma updates_prepared:
  assumes "updates r False n f g" "updates r True n g h"
  shows "updates r True n f h"
  using assms by (auto simp: updates_def)

lemma mm_ptable_update_spec:
  assumes ok: "ptable_ok flags s root roots p qs fl" and a: "args_ok flags pb pe ib attrs s"
    and r: "r = ptable_request flags pb pe ib attrs s"
  shows "\<exists>ok s' roots' fl'. mm_ptable_update root pb pe ib attrs flags p s = Inr (ok, s') \<and>
    ptable_step flags root p qs s roots fl s' roots' fl' \<and>
    updates r ok (space_size flags s) (space (mm_max_level flags s) roots) (space (mm_max_level flags s) roots') \<and>
    (ok \<or> fl' = []) \<and> (all_ready r (mm_max_level flags s) roots \<longrightarrow> ok)"
proof -
  let ?sp = "space (mm_max_level flags s)"
  obtain ok1 s1 r1 fl1 where c: "mm_ptable_prepare root pb pe ib attrs flags p s = Inr (ok1, s1)"
    "ptable_step flags root p qs s roots fl s1 r1 fl1" "updates r False (space_size flags s) (?sp roots) (?sp r1)"
    "ok1 \<Longrightarrow> all_ready r (mm_max_level flags s) r1" "ok1 \<or> fl1 = []" "all_ready r (mm_max_level flags s) roots \<longrightarrow> ok1"
    using mm_ptable_prepare_spec [OF ok a r] by blast
  note cfg = ptable_step_config [OF c(2) ok]
  show ?thesis
  proof (cases ok1)
    case False
    then show ?thesis using c
      by (intro exI [of _ False] exI [of _ s1] exI [of _ r1] exI [of _ fl1]) (simp add: mm_ptable_update_def)
  next
    case True
    have ok1: "ptable_ok flags s1 root r1 p qs fl1" using c(2) by (simp add: ptable_step_def)
    obtain s2 r2 fl2 where d: "mm_ptable_commit root pb pe ib attrs flags p s1 = Inr s2"
      "ptable_step flags root p qs s1 r1 fl1 s2 r2 fl2" "updates r True (space_size flags s) (?sp r1) (?sp r2)"
      using mm_ptable_commit_spec [OF ok1, of pb pe ib attrs r] a r c(4) [OF True] by (auto simp: cfg)
    then show ?thesis
      using c(1) True ptable_step_trans [OF c(2) d(2) cfg(1)] updates_prepared [OF c(3) d(3)]
      by (intro exI [of _ True] exI [of _ s2] exI [of _ r2] exI [of _ fl2]) (simp add: mm_ptable_update_def)
  qed
qed

end
