(* ===== verification/Mm_Read.thy ===== *)
theory Mm_Read
  imports Mm_Update
begin

text \<open>
  Reading page tables: \<open>mm_vm_get_attrs\<close> finds the attributes of a range exactly if they are
  the same for all of it, and \<open>mm_vm_page_table_walk\<close> computes the translation the tables
  define.
\<close>

section \<open>Attributes\<close>

definition attr_of :: "(nat \<times> u64) option \<Rightarrow> u64" where
  "attr_of x = (case x of None \<Rightarrow> 0 | Some (_, attrs) \<Rightarrow> attrs)"

text \<open>The result of reading the attributes \<open>f\<close> of the addresses \<open>D\<close> after \<open>got\<close> was read.\<close>

definition reads :: "u64 option \<Rightarrow> nat set \<Rightarrow> (nat \<Rightarrow> u64) \<Rightarrow> u64 option \<Rightarrow> bool" where
  "reads got D f res \<longleftrightarrow>
     (\<forall>x. res = Some x \<longleftrightarrow> (got = None \<or> got = Some x) \<and> (\<forall>a\<in>D. f a = x) \<and> (got \<noteq> None \<or> D \<noteq> {}))"

lemma reads_empty: "reads got {} f got"
  by (auto simp: reads_def)

lemma reads_fail: "reads got D f None \<Longrightarrow> D \<subseteq> D' \<Longrightarrow> D \<noteq> {} \<Longrightarrow> reads got D' f None"
  unfolding reads_def by (metis (no_types, lifting) option.distinct(1) subset_iff)

lemma reads_join:
  assumes "reads got D f (Some a)" "reads (Some a) D' f res"
  shows "reads got (D \<union> D') f res"
  using assms unfolding reads_def by (metis (no_types, lifting) Un_iff option.inject option.distinct(1) sup_eq_bot_iff)

lemma reads_cong: "reads got D f res \<Longrightarrow> (\<And>a. a \<in> D \<Longrightarrow> f a = g a) \<Longrightarrow> reads got D g res"
  by (simp add: reads_def)

lemma reads_const:
  assumes "D \<noteq> {}" "\<And>a. a \<in> D \<Longrightarrow> f a = x"
  shows "reads got D f (case got of None \<Rightarrow> Some x | Some a \<Rightarrow> if x \<noteq> a then None else Some a)"
  using assms by (auto simp: reads_def split: option.splits)

lemma attr_of_leaf: "leaf_ok l v \<Longrightarrow> attr_of (look l (Leaf v) off) = arch_mm_pte_attrs v l"
  by (erule leaf_ok_cases) (simp_all add: attr_of_def)

section \<open>Positions in a table\<close>

lemma table_position:
  assumes l: "l \<le> 3" and B: "esz (Suc l) dvd B" "B + esz (Suc l) \<le> 2 ^ 52"
    and b: "B \<le> unat begin" "unat begin < B + esz (Suc l)" and i: "i = unat begin div esz l mod 512"
  shows "unat (mm_level_end begin l) = B + esz (Suc l)" "i < 512"
    "B + i * esz l \<le> unat begin" "unat begin < B + i * esz l + esz l"
proof -
  let ?r = "\<lparr>rq_unmap = True, rq_attrs = 0, rq_begin = unat begin, rq_end = Suc (unat begin), rq_pa = 0\<rparr>"
  have h: "hits ?r B (esz (Suc l))" using b by (simp add: hits_def)
  have m: "unat begin = max (rq_begin ?r) B" using b by simp
  note st = level_start [OF l B h m i]
  show "unat (mm_level_end begin l) = B + esz (Suc l)" "i < 512" by (fact st(1), fact st(2))
  show "unat begin < B + i * esz l + esz l" using st(4) by simp
  show "B + i * esz l \<le> unat begin" using st(3) by (metis max.cobounded2)
qed

lemma entry_position:
  assumes l: "l \<le> 3" and B: "esz (Suc l) dvd B" "B + esz (Suc l) \<le> 2 ^ 52" and i: "i < 512"
    and b: "B + i * esz l \<le> unat begin" "unat begin < B + i * esz l + esz l"
  shows "esz l dvd B + i * esz l" "B + i * esz l + esz l \<le> B + esz (Suc l)"
    "unat (mm_start_of_next_block begin (mm_entry_size l)) = B + i * esz l + esz l"
proof -
  let ?A = "B + i * esz l"
  have e48: "esz l \<le> 2 ^ 48" using l by (intro esz_bound) simp
  have "esz l dvd B" by (rule dvd_trans [OF esz_dvd B(1)]) simp
  then show dA: "esz l dvd ?A" by simp
  have "Suc i * esz l \<le> 512 * esz l" using i by (intro mult_le_mono1) simp
  then show top: "?A + esz l \<le> B + esz (Suc l)" by (simp add: esz_Suc)
  have u: "unat begin + esz l < 2 ^ 64" using b top B(2) e48 by simp
  show "unat (mm_start_of_next_block begin (mm_entry_size l)) = ?A + esz l"
    using unat_next_block [OF _ u] l between_multiples(1) [OF dA b] by (simp add: distrib_right)
qed

lemma look_entry:
  assumes "B + i * esz l \<le> a" "a < B + i * esz l + esz l"
  shows "look (Suc l) (Table tb ts) (a - B) = look l (ts ! i) (a - (B + i * esz l))"
proof -
  define d where "d = a - (B + i * esz l)"
  have "a - B = d + i * esz l" "d < esz l" using assms by (simp_all add: d_def)
  then show ?thesis unfolding d_def [symmetric] by simp
qed

section \<open>Reading attributes\<close>

definition reads_level :: "(u64 \<Rightarrow> u64) \<Rightarrow> nat \<Rightarrow> (u64 \<Rightarrow> u64 \<Rightarrow> u64 \<Rightarrow> u64 option \<Rightarrow> u64 option res) \<Rightarrow> bool" where
  "reads_level m l F \<longleftrightarrow>
     (\<forall>tb ts B begin end got. table_rep m l tb ts \<longrightarrow> esz (Suc l) dvd B \<longrightarrow> B + esz (Suc l) \<le> 2 ^ 52 \<longrightarrow>
        B \<le> unat begin \<longrightarrow> unat begin < B + esz (Suc l) \<longrightarrow> begin < end \<longrightarrow>
        (\<exists>res. F tb begin end got = Inr res \<and>
           reads got {unat begin..<min (unat end) (B + esz (Suc l))}
             (\<lambda>a. attr_of (look (Suc l) (Table tb ts) (a - B))) res))"

lemma get_attrs_loop_spec:
  assumes l: "l \<le> 3" and below: "\<And>k. l = Suc k \<Longrightarrow> reads_level m k F"
    and t: "table_rep m l tb ts" and B: "esz (Suc l) dvd B" "B + esz (Suc l) \<le> 2 ^ 52"
    and e: "unat end \<le> B + esz (Suc l)"
  shows "512 \<le> i + n \<Longrightarrow> i \<le> 512 \<Longrightarrow> B + i * esz l \<le> unat begin \<Longrightarrow> i < 512 \<longrightarrow> unat begin < B + i * esz l + esz l \<Longrightarrow>
    \<exists>res. mm_get_attrs_loop n F l m (entry_at tb i) begin end got = Inr res \<and>
      reads got {unat begin..<unat end} (\<lambda>a. attr_of (look (Suc l) (Table tb ts) (a - B))) res"
proof (induction n arbitrary: i "begin" got)
  case 0
  then have "unat end \<le> unat begin" using e by (simp add: esz_Suc)
  then show ?case by (simp add: word_less_nat_alt reads_empty)
next
  case (Suc n)
  let ?f = "\<lambda>a. attr_of (look (Suc l) (Table tb ts) (a - B))"
  show ?case
  proof (cases "begin < end")
    case False
    then show ?thesis by (simp add: word_less_nat_alt reads_empty)
  next
    case True
    then have lt: "unat begin < unat end" by (simp add: word_less_nat_alt)
    have i: "i < 512"
    proof (rule ccontr)
      assume "\<not> ?thesis"
      then have "i = 512" using Suc.prems(2) by simp
      then show False using Suc.prems(3) lt e by (simp add: esz_Suc)
    qed
    let ?A = "B + i * esz l" and ?v = "m (entry_at tb i)"
    let ?next = "mm_start_of_next_block begin (mm_entry_size l)"
    have rng: "?A \<le> unat begin" "unat begin < ?A + esz l" using Suc.prems i by simp_all
    note pos = entry_position [OF l B i rng]
    let ?D = "{unat begin..<min (unat end) (?A + esz l)}" and ?R = "{unat ?next..<unat end}"
    have D: "?D \<noteq> {}" "?D \<subseteq> {unat begin..<unat end}" "{unat begin..<unat end} = ?D \<union> ?R"
      using lt rng pos(3) by auto
    have rep: "rep m l ?v (ts ! i)" using t i by (simp add: table_rep_def)
    have rest: "\<exists>res. mm_get_attrs_loop n F l m (entry_at tb i + 8) ?next end (Some x) = Inr res \<and>
        reads (Some x) ?R ?f res" for x
      unfolding entry_at_Suc using Suc.IH [of "Suc i" ?next "Some x"] i Suc.prems(1) pos(3) by auto
    have combine: ?thesis
      if c: "mm_get_attrs_loop (Suc n) F l m (entry_at tb i) begin end got =
          (case r1 of None \<Rightarrow> Inr None | Some a \<Rightarrow> mm_get_attrs_loop n F l m (entry_at tb i + 8) ?next end (Some a))"
        and r1: "reads got ?D ?f r1" for r1
    proof (cases r1)
      case None
      then show ?thesis using c reads_fail [OF _ D(2,1)] r1 by simp
    next
      case (Some x)
      obtain res where "mm_get_attrs_loop n F l m (entry_at tb i + 8) ?next end (Some x) = Inr res"
        "reads (Some x) ?R ?f res" using rest by blast
      then show ?thesis using c r1 Some reads_join unfolding D(3) by auto
    qed
    show ?thesis
    proof (cases "ts ! i")
      case (Leaf w)
      have w: "leaf_ok l w" "?v = w" using rep by (simp_all add: Leaf)
      have "?f a = arch_mm_pte_attrs w l" if "a \<in> ?D" for a
        using that rng by (subst look_entry [of B i]) (simp_all add: Leaf attr_of_leaf [OF w(1)] del: look.simps)
      then have "reads got ?D ?f (case got of None \<Rightarrow> Some (arch_mm_pte_attrs w l)
          | Some a \<Rightarrow> if arch_mm_pte_attrs w l \<noteq> a then None else Some a)" by (rule reads_const [OF D(1)])
      then show ?thesis using True leaf_ok_not_table [OF w(1)]
        by (intro combine) (auto simp: Let_def w(2) split: option.splits)
    next
      case (Table t' cs)
      then obtain k where k: "l = Suc k" using rep by (cases l) auto
      have tb: "arch_mm_pte_is_table ?v l" "arch_mm_table_from_pte ?v l = t'"
        using rep_table_iff [of m k ?v t' cs] rep by (simp_all add: Table k)
      have tr: "table_rep m k t' cs" using rep by (simp add: Table k table_rep_def)
      obtain r1 where r1: "F t' begin end got = Inr r1"
        "reads got ?D (\<lambda>a. attr_of (look l (Table t' cs) (a - ?A))) r1"
        using below [OF k] tr pos(1,2) B(2) rng True unfolding reads_level_def k by (meson le_trans)
      have "reads got ?D ?f r1"
        using r1(2) rng by (rule_tac reads_cong) (auto simp: look_entry [of B i] Table simp del: look.simps)
      then show ?thesis using True r1(1) by (intro combine) (simp_all add: tb Let_def)
    qed
  qed
qed

lemma get_attrs_level_eq:
  "mm_ptable_get_attrs_level l m table begin end got =
     mm_get_attrs_loop 512 (case l of 0 \<Rightarrow> \<lambda>_ _ _ _. Inl OutOfBounds | Suc k \<Rightarrow> mm_ptable_get_attrs_level k m) l m
       (table + 8 * mm_index begin l) begin (if end > mm_level_end begin l then mm_level_end begin l else end) got"
  by (cases l) (simp_all add: Let_def MM_PTE_PER_PAGE_def)

lemma reads_level_get_attrs: "l \<le> 3 \<Longrightarrow> reads_level m l (mm_ptable_get_attrs_level l m)"
proof (induction l rule: less_induct)
  case (less l)
  let ?F = "case l of 0 \<Rightarrow> \<lambda>_ _ _ _. Inl OutOfBounds | Suc k \<Rightarrow> mm_ptable_get_attrs_level k m"
  have below: "reads_level m k ?F" if "l = Suc k" for k using less that by simp
  show ?case unfolding reads_level_def
  proof (intro allI impI)
    fix tb ts B got and "begin" "end" :: u64
    assume t: "table_rep m l tb ts" and B: "esz (Suc l) dvd B" "B + esz (Suc l) \<le> 2 ^ 52"
      and b: "B \<le> unat begin" "unat begin < B + esz (Suc l)" "begin < end"
    define i where "i = unat begin div esz l mod 512"
    note st = table_position [OF less.prems B b(1,2) i_def]
    let ?e = "if end > mm_level_end begin l then mm_level_end begin l else end"
    have e: "unat ?e = min (unat end) (B + esz (Suc l))" by (simp add: word_less_nat_alt min_def st(1))
    have pte: "tb + 8 * mm_index begin l = entry_at tb i" using less.prems by (simp add: index_entry i_def)
    have "\<exists>res. mm_get_attrs_loop 512 ?F l m (entry_at tb i) begin ?e got = Inr res \<and>
        reads got {unat begin..<unat ?e} (\<lambda>a. attr_of (look (Suc l) (Table tb ts) (a - B))) res"
      using st by (intro get_attrs_loop_spec [OF less.prems below t B]) (simp_all add: e)
    then show "\<exists>res. mm_ptable_get_attrs_level l m tb begin end got = Inr res \<and>
        reads got {unat begin..<min (unat end) (B + esz (Suc l))}
          (\<lambda>a. attr_of (look (Suc l) (Table tb ts) (a - B))) res"
      unfolding get_attrs_level_eq [of l] pte e .
  qed
qed

section \<open>Reading a whole page table\<close>

lemma space_in_table:
  assumes "k * esz (Suc L) \<le> a" "a < k * esz (Suc L) + esz (Suc L)"
  shows "space L roots a = look (Suc L) (Table tb (roots ! k)) (a - k * esz (Suc L))"
proof -
  have "a div esz (Suc L) = k" using assms by (intro div_nat_eqI) (simp_all add: mult.commute)
  then show ?thesis unfolding space_def by (simp add: modulo_nat_def mult.commute)
qed

lemma get_attrs_root_loop:
  assumes L: "L \<le> 3" and t: "\<forall>k<length roots. table_rep m L (root_at root k) (roots ! k)"
    and N: "length roots * esz (Suc L) \<le> 2 ^ 52" and e: "unat end \<le> length roots * esz (Suc L)"
  shows "length roots \<le> k + n \<Longrightarrow> k * esz (Suc L) \<le> unat begin \<Longrightarrow> unat begin < k * esz (Suc L) + esz (Suc L) \<Longrightarrow>
    \<exists>res. mm_vm_get_attrs_loop n L m (root_at root k) begin end got = Inr res \<and>
      reads got {unat begin..<unat end} (\<lambda>a. attr_of (space L roots a)) res"
proof (induction n arbitrary: k "begin" got)
  case 0
  have "length roots * esz (Suc L) \<le> k * esz (Suc L)" using 0(1) by (intro mult_le_mono1) simp
  then have "unat end \<le> unat begin" using e 0(2) by linarith
  then show ?case by (simp add: word_less_nat_alt reads_empty)
next
  case (Suc n)
  let ?S = "esz (Suc L)" and ?f = "\<lambda>a. attr_of (space L roots a)"
  let ?next = "mm_start_of_next_block begin (mm_entry_size (L + 1))"
  show ?case
  proof (cases "begin < end")
    case False
    then show ?thesis by (simp add: word_less_nat_alt reads_empty)
  next
    case True
    then have lt: "unat begin < unat end" by (simp add: word_less_nat_alt)
    then have "k * ?S < length roots * ?S" using e Suc.prems(2) by linarith
    then have k: "k < length roots" by simp
    then have "Suc k * ?S \<le> length roots * ?S" by (intro mult_le_mono1) simp
    then have top: "k * ?S + ?S \<le> 2 ^ 52" using N by simp
    have S: "?S \<le> 2 ^ 48" using L by (intro esz_bound) simp
    have u: "unat begin + ?S < 2 ^ 64" using Suc.prems(3) top S by simp
    have nx: "unat ?next = k * ?S + ?S"
      using unat_next_block [OF _ u] L between_multiples(1) [OF _ Suc.prems(2,3)] by (simp add: distrib_right)
    let ?D = "{unat begin..<min (unat end) (k * ?S + ?S)}" and ?R = "{unat ?next..<unat end}"
    have D: "?D \<noteq> {}" "?D \<subseteq> {unat begin..<unat end}" "{unat begin..<unat end} = ?D \<union> ?R"
      using lt Suc.prems nx by auto
    have "\<exists>r1. mm_ptable_get_attrs_level L m (root_at root k) begin end got = Inr r1 \<and>
        reads got ?D (\<lambda>a. attr_of (look (Suc L) (Table (root_at root k) (roots ! k)) (a - k * ?S))) r1"
      using reads_level_get_attrs [OF L, of m] t k top Suc.prems(2,3) True unfolding reads_level_def
      by (meson dvd_triv_right)
    then obtain r1 where r1: "mm_ptable_get_attrs_level L m (root_at root k) begin end got = Inr r1"
      "reads got ?D (\<lambda>a. attr_of (look (Suc L) (Table (root_at root k) (roots ! k)) (a - k * ?S))) r1" by blast
    have r2: "reads got ?D ?f r1"
      using r1(2) Suc.prems(2)
      by (rule_tac reads_cong) (auto simp: space_in_table [of k L _ roots "root_at root k"] simp del: look.simps)
    show ?thesis
    proof (cases r1)
      case None
      then show ?thesis using True r1(1) r2 reads_fail [OF _ D(2,1)] by simp
    next
      case (Some x)
      have "Suc k * ?S \<le> unat ?next" "unat ?next < Suc k * ?S + ?S" using nx by simp_all
      then obtain res where "mm_vm_get_attrs_loop n L m (root_at root (Suc k)) ?next end (Some x) = Inr res"
        "reads (Some x) ?R ?f res" using Suc.IH [of "Suc k" ?next "Some x"] Suc.prems(1) by auto
      then show ?thesis using True r1(1) r2 Some reads_join unfolding D(3) by (auto simp: root_at_Suc)
    qed
  qed
qed

lemma root_index:
  assumes "L \<le> 3" "n \<le> 16" "unat begin < n * esz (Suc L)"
  shows "root + PAGE_SIZE * mm_index begin (L + 1) = root_at root (unat begin div esz (Suc L))"
    "unat begin div esz (Suc L) < n"
proof -
  show k: "unat begin div esz (Suc L) < n" using assms(3) by (simp add: less_mult_imp_div_less)
  have "unat (mm_index begin (Suc L)) = unat begin div esz (Suc L)" using k assms by (subst unat_mm_index) simp_all
  then have "mm_index begin (Suc L) = word_of_nat (unat begin div esz (Suc L))"
    by (simp flip: \<open>unat (mm_index begin (Suc L)) = unat begin div esz (Suc L)\<close>)
  then show "root + PAGE_SIZE * mm_index begin (L + 1) = root_at root (unat begin div esz (Suc L))"
    by (simp add: root_at_def)
qed

lemma mm_vm_get_attrs_spec:
  assumes ok: "ptable_ok 0 s root roots p qs fl"
  shows "\<exists>res. mm_vm_get_attrs root begin end s = Inr res \<and>
    (\<forall>x. res = Some x \<longleftrightarrow>
       unat (mm_round_down_to_page begin) < unat (mm_round_up_to_page end) \<and>
       unat (mm_round_up_to_page end) \<le> space_size 0 s \<and>
       (\<forall>a\<in>{unat (mm_round_down_to_page begin)..<unat (mm_round_up_to_page end)}.
          attr_of (space (mm_max_level 0 s) roots a) = x))"
proof -
  let ?L = "mm_max_level 0 s" and ?N = "mm_root_table_count 0 s"
  let ?b = "mm_round_down_to_page begin" and ?e = "mm_round_up_to_page end"
  have o: "\<forall>k<length roots. table_rep (mem s) ?L (root_at root k) (roots ! k)" "length roots = ?N" "?L \<le> 3" "?N \<le> 16"
    using ok by (auto simp: ptable_ok_def rinv_def)
  have pe: "unat (word_of_nat ?N * mm_entry_size (?L + 1)) = space_size 0 s"
    using ptable_ok_size(2) [OF ok] by (simp add: mm_ptable_addr_space_end_def)
  have sz: "length roots * esz (Suc ?L) \<le> 2 ^ 52" using ptable_ok_size(1) [OF ok] o(2) by (simp add: space_size_def)
  let ?t = "root + PAGE_SIZE * mm_index ?b (?L + 1)"
  have eq: "mm_vm_get_attrs root begin end s =
      (if unat ?e > space_size 0 s then Inr None else mm_vm_get_attrs_loop ?N ?L (mem s) ?t ?b ?e None)"
    by (simp only: mm_vm_get_attrs_def Let_def word_less_nat_alt pe)
  show ?thesis
  proof (cases "unat ?e > space_size 0 s \<or> \<not> unat ?b < unat ?e")
    case True
    have "mm_vm_get_attrs_loop n L m t b e None = Inr None" if "\<not> b < e" for n L m t b e
      using that by (cases n) simp_all
    then have "mm_vm_get_attrs root begin end s = Inr None" using True by (auto simp: eq word_less_nat_alt)
    then show ?thesis using True by auto
  next
    case False
    then have "unat ?b < ?N * esz (Suc ?L)" by (simp add: space_size_def)
    note ix = root_index [OF o(3,4) this]
    let ?k = "unat ?b div esz (Suc ?L)"
    have "?k * esz (Suc ?L) \<le> unat ?b" "unat ?b < ?k * esz (Suc ?L) + esz (Suc ?L)"
      using dividend_less_div_times [OF esz_pos(1) [of "Suc ?L"], of "unat ?b"] by (simp_all add: add.commute)
    moreover have "unat ?e \<le> length roots * esz (Suc ?L)" using False o(2) by (simp add: space_size_def)
    ultimately obtain res where "mm_vm_get_attrs_loop ?N ?L (mem s) (root_at root ?k) ?b ?e None = Inr res"
      "reads None {unat ?b..<unat ?e} (\<lambda>a. attr_of (space ?L roots a)) res"
      using get_attrs_root_loop [OF o(3,1) sz, of ?e ?k ?N ?b None] o(2) by auto
    then show ?thesis using False unfolding eq ix(1) by (auto simp: reads_def)
  qed
qed

section \<open>Walking the tables\<close>

lemma div_mod_index: "(u :: nat) mod esz (Suc l) div esz l = u div esz l mod 512" "u mod esz (Suc l) mod esz l = u mod esz l"
proof -
  have "u mod (esz l * 512) = esz l * (u div esz l mod 512) + u mod esz l" by (rule mod_mult2_eq)
  moreover have "esz (Suc l) = esz l * 512" by (simp add: esz_Suc)
  ultimately show "u mod esz (Suc l) div esz l = u div esz l mod 512" by simp
  show "u mod esz (Suc l) mod esz l = u mod esz l" by (intro mod_mod_cancel esz_dvd) simp
qed

definition walk_ok :: "(u64 \<Rightarrow> u64) \<Rightarrow> nat \<Rightarrow> u64 \<Rightarrow> (nat \<times> u64) option \<Rightarrow> (u64 \<times> nat) option \<Rightarrow> bool" where
  "walk_ok m l a look_res res \<longleftrightarrow> (case res of None \<Rightarrow> look_res = None
     | Some (pte, k) \<Rightarrow> k \<le> l \<and> leaf_ok k (m pte) \<and> m pte \<noteq> 0 \<and>
         look_res = Some (unat (arch_mm_block_from_pte (m pte) k) + unat a mod esz k, arch_mm_pte_attrs (m pte) k))"

lemma walk_ok_mono: "walk_ok m l a x res \<Longrightarrow> l \<le> l' \<Longrightarrow> walk_ok m l' a x res"
  by (auto simp: walk_ok_def split: option.splits)

lemma mm_get_pte_level_spec:
  "l \<le> 3 \<Longrightarrow> table_rep m l tb ts \<Longrightarrow>
   walk_ok m l a (look (Suc l) (Table tb ts) (unat a mod esz (Suc l))) (mm_get_pte_level l m tb a)"
proof (induction l arbitrary: tb ts)
  case 0
  let ?i = "unat a div esz 0 mod 512"
  have r: "rep m 0 (m (entry_at tb ?i)) (ts ! ?i)" using 0(2) by (simp add: table_rep_def)
  then obtain v where v: "ts ! ?i = Leaf v" "m (entry_at tb ?i) = v" "leaf_ok 0 v" by (cases "ts ! ?i") auto
  then show ?case
    using leaf_ok_present [OF v(3)] leaf_ok_is_block [OF v(3)]
    by (simp add: walk_ok_def Let_def index_entry div_mod_index)
next
  case (Suc l)
  let ?i = "unat a div esz (Suc l) mod 512"
  have r: "rep m (Suc l) (m (entry_at tb ?i)) (ts ! ?i)" using Suc.prems(2) by (simp add: table_rep_def)
  have pte: "tb + 8 * mm_index a (Suc l) = entry_at tb ?i" using Suc.prems(1) by (intro index_entry) simp
  have lk: "look (Suc (Suc l)) (Table tb ts) (unat a mod esz (Suc (Suc l))) = look (Suc l) (ts ! ?i) (unat a mod esz (Suc l))"
    by (simp only: look.simps div_mod_index)
  show ?case
  proof (cases "ts ! ?i")
    case (Leaf v)
    then have v: "m (entry_at tb ?i) = v" "leaf_ok (Suc l) v" using r by simp_all
    then show ?thesis
      using leaf_ok_present [OF v(2)] leaf_ok_is_block [OF v(2)] leaf_ok_not_table [OF v(2)]
      unfolding lk Leaf mm_get_pte_level.simps pte Let_def by (simp add: walk_ok_def)
  next
    case (Table t cs)
    have t: "table_rep m l t cs" "arch_mm_pte_is_table (m (entry_at tb ?i)) (Suc l)"
      "arch_mm_table_from_pte (m (entry_at tb ?i)) (Suc l) = t" "\<not> arch_mm_pte_is_block (m (entry_at tb ?i)) (Suc l)"
      using r rep_table_iff [of m l _ t cs] by (auto simp: Table table_rep_def arch_mm_pte_is_block_def)
    then have "walk_ok m l a (look (Suc l) (Table t cs) (unat a mod esz (Suc l))) (mm_get_pte_level l m t a)"
      using Suc.IH [of t cs] Suc.prems(1) by simp
    then show ?thesis using t(2-4) unfolding lk Table mm_get_pte_level.simps pte Let_def
      by (simp add: walk_ok_mono [of m l])
  qed
qed

text \<open>Subtracting the parts of the address that select the entries leaves the offset in the block.\<close>

lemma unat_round_down: "unat (mm_round_down_to_page a) = unat a div 4096 * 4096"
proof -
  have "PAGE_SIZE - 1 = mask 12" by (simp add: PAGE_SIZE_def PAGE_BITS_def mask_eq_exp_minus_1 push_bit_eq_mult)
  then show ?thesis by (simp add: mm_round_down_to_page_def unat_and_not_mask64)
qed

lemma round_down_index: "l \<le> 5 \<Longrightarrow> mm_index (mm_round_down_to_page a) l = mm_index a l"
proof -
  assume l: "l \<le> 5"
  obtain k where k: "esz l = 4096 * k" using esz_page [of l] by (auto elim: dvdE)
  have "unat a div 4096 * 4096 div esz l = unat a div esz l" unfolding k by (simp add: div_mult2_eq)
  then show ?thesis using l by (simp add: unat_eq_iff64 unat_mm_index unat_round_down)
qed

lemma index_offset:
  assumes "k \<le> j" "j \<le> 6"
  shows "unat (fold (\<lambda>lvl off. off - mm_index a lvl * mm_entry_size lvl) [k..<j] a) =
    unat a - (unat a mod esz j - unat a mod esz k)"
  using assms
proof (induction j rule: dec_induct)
  case (step j)
  let ?u = "unat a"
  have j: "j \<le> 5" using step.prems by simp
  have part: "?u mod esz (Suc j) = ?u div esz j mod 512 * esz j + ?u mod esz j"
    using mod_mult2_eq [of ?u "esz j" 512] by (simp add: esz_Suc mult.commute)
  have "?u div esz j mod 512 * esz j \<le> ?u mod esz (Suc j)" using part by simp
  also have "\<dots> \<le> ?u" by simp
  finally have "?u div esz j mod 512 * esz j < 18446744073709551616" by (rule le_less_trans) simp
  then have m: "unat (mm_index a j * mm_entry_size j) = ?u div esz j mod 512 * esz j"
    using j by (subst unat_mult64) (simp_all add: unat_mm_index unat_entry_size)
  have le: "?u mod esz k \<le> ?u mod esz j"
    using mod_mod_cancel [OF esz_dvd [OF step.hyps(1)], of ?u] by (metis mod_less_eq_dividend)
  have "?u mod esz (Suc j) \<le> ?u" by simp
  then have "?u div esz j mod 512 * esz j \<le> ?u - (?u mod esz j - ?u mod esz k)" using part by linarith
  then show ?case
    using step m part le by (simp add: unat_sub64)
qed simp

lemma mm_vm_page_table_walk_spec:
  assumes ok: "ptable_ok 0 s root roots p qs fl" and a: "unat ipa < space_size 0 s"
  shows "map_option unat (mm_vm_page_table_walk root ipa s) =
    map_option fst (space (mm_max_level 0 s) roots (unat ipa))"
proof -
  let ?L = "mm_max_level 0 s" and ?N = "mm_root_table_count 0 s" and ?b = "mm_round_down_to_page ipa"
  have L: "mm_s2_max_level s = ?L" by (simp add: mm_max_level_def)
  have o: "\<forall>k<length roots. table_rep (mem s) ?L (root_at root k) (roots ! k)" "length roots = ?N" "?L \<le> 3" "?N \<le> 16"
    using ok by (auto simp: ptable_ok_def rinv_def)
  have a': "unat ipa < ?N * esz (Suc ?L)" using a by (simp add: space_size_def)
  note ix = root_index [OF o(3,4) a']
  let ?k = "unat ipa div esz (Suc ?L)"
  have rd: "mm_index ?b (?L + 1) = mm_index ipa (?L + 1)" using o(3) by (intro round_down_index) simp
  have lvl: "mm_get_pte_level l m t ?b = mm_get_pte_level l m t ipa" if "l \<le> 5" for l m t
    using that by (induction l arbitrary: t) (simp_all add: round_down_index Let_def)
  have g: "mm_get_pte_root root ?b (?L + 1) (mem s) = mm_get_pte_level ?L (mem s) (root_at root ?k) ipa"
    unfolding mm_get_pte_root_def rd ix(1) using o(3) by (simp add: lvl)
  have w: "walk_ok (mem s) ?L ipa (space ?L roots (unat ipa)) (mm_get_pte_level ?L (mem s) (root_at root ?k) ipa)"
    using mm_get_pte_level_spec [OF o(3), of "mem s" "root_at root ?k" "roots ! ?k" ipa] o(1,2) ix(2)
    by (simp add: space_def)
  show ?thesis
  proof (cases "mm_get_pte_level ?L (mem s) (root_at root ?k) ipa")
    case None
    then show ?thesis using w g by (simp add: walk_ok_def mm_vm_page_table_walk_def Let_def L)
  next
    case (Some q)
    obtain pte k where q: "q = (pte, k)" by (cases q)
    have k: "k \<le> ?L" "leaf_ok k (mem s pte)" "mem s pte \<noteq> 0"
      "space ?L roots (unat ipa) = Some (unat (arch_mm_block_from_pte (mem s pte) k) + unat ipa mod esz k,
         arch_mm_pte_attrs (mem s pte) k)" using w Some q by (simp_all add: walk_ok_def)
    have "?N * esz (Suc ?L) \<le> 512 * esz (Suc ?L)" using o(4) by (intro mult_le_mono1) simp
    then have "unat ipa < esz (Suc (Suc ?L))" unfolding esz_Suc [of "Suc ?L"] using a' by linarith
    then have small: "unat ipa mod esz (Suc (Suc ?L)) = unat ipa" by simp
    have same: "fold (\<lambda>lvl off. off - mm_index ?b lvl * mm_entry_size lvl) [k..<Suc (?L + 1)] ipa =
        fold (\<lambda>lvl off. off - mm_index ipa lvl * mm_entry_size lvl) [k..<Suc (?L + 1)] ipa"
      using o(3) by (intro fold_cong) (auto simp: round_down_index)
    have off: "unat (fold (\<lambda>lvl off. off - mm_index ?b lvl * mm_entry_size lvl) [k..<Suc (?L + 1)] ipa) = unat ipa mod esz k"
      unfolding same using index_offset [of k "Suc (Suc ?L)" ipa] k(1) o(3) small by simp
    have pa: "mem s pte AND PA_BITS_MASK = arch_mm_block_from_pte (mem s pte) k"
      by (simp add: PA_BITS_MASK_def arch_mm_block_from_pte_def pte_addr_def pte_masks)
    have "addr_ok (arch_mm_block_from_pte (mem s pte) k)" using k(2,3) by (auto elim: leaf_ok_cases)
    then have "unat (arch_mm_block_from_pte (mem s pte) k) < 2 ^ 48" by (simp add: addr_ok_iff)
    moreover have "k \<le> 4" using k(1) o(3) by simp
    then have "esz k \<le> 2 ^ 48" by (rule esz_bound)
    moreover have "unat ipa mod esz k < 2 ^ 48" using \<open>esz k \<le> 2 ^ 48\<close> by (intro less_le_trans [OF mod_less_divisor]) simp_all
    ultimately have "unat (arch_mm_block_from_pte (mem s pte) k) + unat ipa mod esz k < 18446744073709551616" by simp
    then have "unat (arch_mm_block_from_pte (mem s pte) k + fold (\<lambda>lvl off. off - mm_index ?b lvl * mm_entry_size lvl)
        [k..<Suc (?L + 1)] ipa) = unat (arch_mm_block_from_pte (mem s pte) k) + unat ipa mod esz k"
      unfolding off [symmetric] by (rule unat_add64)
    then show ?thesis using k(4) Some q g
      by (simp add: mm_vm_page_table_walk_def Let_def L pa del: upt_Suc)
  qed
qed

end
