(* ===== verification/Arch_Mm_Props.thy ===== *)
theory Arch_Mm_Props
  imports Arch_Mm_Laws
begin

text \<open>
  Properties of the architecture layer as a whole: modes survive the round trip through
  stage-2 attributes, the maintenance routines reach every page or cache line of their range,
  and the configuration of \<open>arch_mm_init\<close> covers the physical address space.
\<close>

section \<open>Modes\<close>

lemma and_single_bit: "(m :: 'a::len word) AND 2 ^ k = (if bit m k then 2 ^ k else 0)"
  by (auto intro!: bit_word_eqI simp: bit_simps)

lemma mode_bits:
  fixes m :: u32
  shows "m AND 0x7F = (if m AND 1 \<noteq> 0 then 1 else 0) OR (if m AND 2 \<noteq> 0 then 2 else 0) OR
    (if m AND 4 \<noteq> 0 then 4 else 0) OR (if m AND 8 \<noteq> 0 then 8 else 0) OR
    (if m AND 0x10 \<noteq> 0 then 0x10 else 0) OR (if m AND 0x20 \<noteq> 0 then 0x20 else 0) OR
    (if m AND 0x40 \<noteq> 0 then 0x40 else 0)"
proof -
  have s: "m AND n = (if m AND n \<noteq> 0 then n else 0)" if "n = 2 ^ k" for n k
    by (simp add: that and_single_bit)
  have "(0x7F :: u32) = 1 OR 2 OR 4 OR 8 OR 0x10 OR 0x20 OR 0x40" by simp
  then have "m AND 0x7F = m AND (1 OR 2 OR 4 OR 8 OR 0x10 OR 0x20 OR 0x40)" by simp
  also have "\<dots> = m AND 1 OR m AND 2 OR m AND 4 OR m AND 8 OR m AND 0x10 OR m AND 0x20 OR m AND 0x40"
    by (simp only: bit.conj_disj_distrib)
  also have "\<dots> = (if m AND 1 \<noteq> 0 then 1 else 0) OR (if m AND 2 \<noteq> 0 then 2 else 0) OR
    (if m AND 4 \<noteq> 0 then 4 else 0) OR (if m AND 8 \<noteq> 0 then 8 else 0) OR
    (if m AND 0x10 \<noteq> 0 then 0x10 else 0) OR (if m AND 0x20 \<noteq> 0 then 0x20 else 0) OR
    (if m AND 0x40 \<noteq> 0 then 0x40 else 0)"
    by (intro arg_cong2 [where f = "(OR)"] s [of 1 0] s [of 2 1] s [of 4 2] s [of 8 3] s [of 16 4]
        s [of 32 5] s [of 64 6]) simp_all
  finally show ?thesis .
qed

lemmas attr_const_defs = STAGE2_AF_def STAGE2_SH_def STAGE2_S2AP_def STAGE2_XN_def STAGE2_MEMATTR_def
  STAGE2_MEMATTR_TYPE_MASK_def STAGE2_SW_OWNED_def STAGE2_SW_EXCLUSIVE_def PTE_VALID_def

lemma stage2_attrs_round_trip: "arch_mm_stage2_attrs_to_mode (arch_mm_mode_to_stage2_attrs mode) = mode AND 0x7F"
  unfolding mode_bits
  by (cases "mode AND 1 = 0"; cases "mode AND 2 = 0"; cases "mode AND 4 = 0"; cases "mode AND 8 = 0";
      cases "mode AND 0x10 = 0"; cases "mode AND 0x20 = 0"; cases "mode AND 0x40 = 0")
     (simp_all add: arch_mm_mode_to_stage2_attrs_def arch_mm_stage2_attrs_to_mode_def Let_def mode_defs
        attr_const_defs push_bit_eq_mult)

text \<open>Attributes made from modes stay out of the address field, and those of a mode that is not an
  unmapping mark the entry as present.\<close>

lemma masked_or: "x AND m = x \<Longrightarrow> y AND m = y \<Longrightarrow> (x OR y) AND m = x OR (y :: u64)"
  by (simp only: bit.conj_disj_distrib2)

lemma masked_if: "x AND m = x \<Longrightarrow> y AND m = y \<Longrightarrow> (if P then x else y) AND m = (if P then x else (y :: u64))"
  by simp

lemma or_bit_nonzero: "y AND b \<noteq> 0 \<Longrightarrow> (x OR y) AND b \<noteq> (0 :: u64)" "x AND b \<noteq> 0 \<Longrightarrow> (x OR y) AND b \<noteq> (0 :: u64)"
  unfolding bit.conj_disj_distrib2 by (auto simp: or_eq_0_iff)

lemma stage2_attrs_masked: "arch_mm_mode_to_stage2_attrs mode AND PTE_ATTR_MASK = arch_mm_mode_to_stage2_attrs mode"
  unfolding arch_mm_mode_to_stage2_attrs_def Let_def
  by (intro masked_or masked_if) (simp_all add: attr_const_defs push_bit_eq_mult pte_masks)

lemma stage2_attrs_present:
  "arch_mm_mode_to_stage2_attrs mode AND PTE_VALID \<noteq> 0 \<longleftrightarrow> mode AND MM_MODE_INVALID = 0"
  "arch_mm_mode_to_stage2_attrs mode AND STAGE2_SW_OWNED \<noteq> 0 \<longleftrightarrow> mode AND MM_MODE_UNOWNED = 0"
  unfolding arch_mm_mode_to_stage2_attrs_def Let_def
  by (simp_all add: bit.conj_disj_distrib2 attr_const_defs push_bit_eq_mult if_distrib [where f = "\<lambda>x. x AND _"])

lemma access_flag_not_table:
  "x AND 0x400 \<noteq> 0 \<Longrightarrow> x \<noteq> PTE_VALID" for x :: u64
  by (auto simp: pte_masks)

lemma stage2_attrs_not_table: "arch_mm_mode_to_stage2_attrs mode \<noteq> PTE_VALID"
proof (rule access_flag_not_table)
  show "arch_mm_mode_to_stage2_attrs mode AND 0x400 \<noteq> 0"
    unfolding arch_mm_mode_to_stage2_attrs_def Let_def
    by (simp add: bit.conj_disj_distrib2 attr_const_defs push_bit_eq_mult if_distrib [where f = "\<lambda>x. x AND _"])
qed

lemma stage2_attrs_ok:
  "mode AND MM_MODE_UNMAPPED_MASK \<noteq> MM_MODE_UNMAPPED_MASK \<Longrightarrow> attrs_ok (arch_mm_mode_to_stage2_attrs mode)"
proof -
  assume *: "mode AND MM_MODE_UNMAPPED_MASK \<noteq> MM_MODE_UNMAPPED_MASK"
  have "mode AND MM_MODE_INVALID = 0 \<or> mode AND MM_MODE_UNOWNED = 0"
  proof (rule ccontr)
    assume "\<not> ?thesis"
    then have "mode AND MM_MODE_INVALID = MM_MODE_INVALID" "mode AND MM_MODE_UNOWNED = MM_MODE_UNOWNED"
      using and_single_bit [of mode 4] and_single_bit [of mode 5] by (auto simp: mode_defs split: if_splits)
    then have "mode AND MM_MODE_UNMAPPED_MASK = MM_MODE_UNMAPPED_MASK"
      by (simp only: MM_MODE_UNMAPPED_MASK_def bit.conj_disj_distrib)
    with * show False by simp
  qed
  then show ?thesis
    using stage2_attrs_masked stage2_attrs_present stage2_attrs_not_table by (auto simp: attrs_ok_def)
qed

lemma stage1_attrs_ok:
  assumes "mode AND MM_MODE_INVALID = 0"
  shows "attrs_ok (arch_mm_mode_to_stage1_attrs bti mode)"
proof -
  have "arch_mm_mode_to_stage1_attrs bti mode AND PTE_ATTR_MASK = arch_mm_mode_to_stage1_attrs bti mode"
    unfolding arch_mm_mode_to_stage1_attrs_def Let_def
    by (intro masked_or masked_if)
       (simp_all add: STAGE1_AF_def STAGE1_SH_def STAGE1_XN_def STAGE1_GP_def STAGE1_AP_def STAGE1_ATTRINDX_def
          push_bit_eq_mult pte_masks)
  moreover have "arch_mm_mode_to_stage1_attrs bti mode AND PTE_VALID \<noteq> 0"
    unfolding arch_mm_mode_to_stage1_attrs_def Let_def using assms
    by (simp only: refl if_True) (rule or_bit_nonzero(1), simp add: pte_masks)
  moreover have "arch_mm_mode_to_stage1_attrs bti mode \<noteq> PTE_VALID"
  proof (rule access_flag_not_table)
    show "arch_mm_mode_to_stage1_attrs bti mode AND 0x400 \<noteq> 0"
      unfolding arch_mm_mode_to_stage1_attrs_def Let_def
      by (simp add: bit.conj_disj_distrib2 STAGE1_AF_def STAGE1_SH_def STAGE1_XN_def STAGE1_GP_def STAGE1_AP_def
          STAGE1_ATTRINDX_def push_bit_eq_mult pte_masks if_distrib [where f = "\<lambda>x. x AND _"])
  qed
  ultimately show ?thesis by (simp add: attrs_ok_def)
qed

section \<open>Maintenance reaches the whole range\<close>

text \<open>C29. Between the two synchronisation points, a stage-2 invalidation of a page-aligned range issues
  an invalidation for every page of the range, or one for everything; the same for stage 1. Both
  end with a data and an instruction barrier.\<close>

theorem invalidate_range_covers:
  assumes "unat begin \<le> unat a" "unat a < unat end" "4096 dvd unat end"
  defines "ops2 \<equiv> arch_mm_invalidate_stage2_range begin end"
    and "ops1 \<equiv> arch_mm_invalidate_stage1_range False begin end"
  shows "(TlbiVmalls12e1is \<in> set ops2 \<or> TlbiIpas2e1is (drop_bit 12 a) \<in> set ops2 \<and> TlbiVmalle1is \<in> set ops2) \<and>
    (TlbiAlle2is \<in> set ops1 \<or> TlbiVae2is (drop_bit 12 a) \<in> set ops1) \<and>
    (\<exists>pre. ops2 = DsbIsh # pre @ [DsbIsh, Isb]) \<and> (\<exists>pre. ops1 = DsbIsh # pre @ [DsbIsh, Isb])"
  using range_invalidated [OF assms(1-3), of False] range_invalidated [OF assms(1-3), of True]
  by (simp add: tlbi_reaches_def ops1_def ops2_def)

theorem invalidate_range_covers_witness:
  "TlbiVmalls12e1is \<in> set (arch_mm_invalidate_stage2_range 0x1000 0x3000) \<or>
   TlbiIpas2e1is (drop_bit 12 0x2abc) \<in> set (arch_mm_invalidate_stage2_range 0x1000 0x3000)"
  using invalidate_range_covers [of "0x1000" "0x2abc" "0x3000"] by simp blast

section \<open>Data cache\<close>

text \<open>A clean of an address reaches the line that contains it: two addresses are in the same line if
  they agree but for the offset in the line. The loop starts at the beginning of a line and ends with
  every line of the range cleaned.\<close>

definition same_line :: "nat \<Rightarrow> nat \<Rightarrow> nat \<Rightarrow> bool" where
  "same_line ls x a \<longleftrightarrow> x div ls = a div ls"

lemma same_lineI: "ls dvd x \<Longrightarrow> x \<le> a \<Longrightarrow> a < x + ls \<Longrightarrow> same_line ls x a"
  by (cases "ls = 0") (auto simp: same_line_def div_nat_eqI)

lemma dcache_loop_lines:
  assumes ls: "0 < unat ls" and lim: "unat e + unat ls < 18446744073709551616"
  shows "unat ls dvd unat b \<Longrightarrow> \<exists>ops. dcache_loop ls b e acc = Some (acc @ ops @ [DsbSy]) \<and>
    (\<forall>a. unat b \<le> a \<and> a < unat e \<longrightarrow> (\<exists>x. DcCivac x \<in> set ops \<and> same_line (unat ls) (unat x) a))"
proof (induction "unat e - unat b" arbitrary: b acc rule: less_induct)
  case less
  show ?case
  proof (cases "b < e")
    case True
    then have lt: "unat b < unat e" by (simp add: word_less_nat_alt)
    have u: "unat (b + ls) = unat b + unat ls" using lt lim by (intro unat_add64) linarith
    obtain ops where ops: "dcache_loop ls (b + ls) e (acc @ [DcCivac b]) = Some ((acc @ [DcCivac b]) @ ops @ [DsbSy])"
      "\<forall>a. unat (b + ls) \<le> a \<and> a < unat e \<longrightarrow> (\<exists>x. DcCivac x \<in> set ops \<and> same_line (unat ls) (unat x) a)"
    proof -
      have "unat e - unat (b + ls) < unat e - unat b" "unat ls dvd unat (b + ls)" using u lt ls less(2) by simp_all
      from less(1) [OF this, of "acc @ [DcCivac b]"] show thesis using that by blast
    qed
    have "dcache_loop ls b e acc = Some (acc @ (DcCivac b # ops) @ [DsbSy])"
      using ops(1) True by (subst dcache_loop.simps) simp
    moreover have "\<exists>x. DcCivac x \<in> set (DcCivac b # ops) \<and> same_line (unat ls) (unat x) a"
      if a: "unat b \<le> a" "a < unat e" for a
    proof (cases "a < unat b + unat ls")
      case True
      then show ?thesis using a less(2) by (intro exI [of _ b]) (simp add: same_lineI)
    next
      case False
      then obtain x where "DcCivac x \<in> set ops" "same_line (unat ls) (unat x) a"
        using ops(2) a u by (auto simp: not_less)
      then show ?thesis by (intro exI [of _ x]) simp
    qed
    ultimately show ?thesis by blast
  next
    case False
    then show ?thesis by (subst dcache_loop.simps) (auto simp: word_less_nat_alt intro!: exI [of _ "[]"])
  qed
qed

lemma line_size_value:
  assumes "unat (drop_bit 16 ctr AND 0xf) \<le> 13"
  shows "ucast (arch_mm_dcache_line_size ctr) = (2 ^ (unat (drop_bit 16 ctr AND 0xf) + 2) :: u64)"
proof -
  define k where "k = unat (drop_bit 16 ctr AND 0xf)"
  have "k = 0 \<or> k = 1 \<or> k = 2 \<or> k = 3 \<or> k = 4 \<or> k = 5 \<or> k = 6 \<or> k = 7 \<or> k = 8 \<or> k = 9 \<or>
      k = 10 \<or> k = 11 \<or> k = 12 \<or> k = 13" using assms unfolding k_def [symmetric] by presburger
  then have "ucast (4 * push_bit k 1 :: u16) = (2 ^ (k + 2) :: u64)"
    by (elim disjE) (simp_all add: push_bit_eq_mult)
  then show ?thesis by (simp add: arch_mm_dcache_line_size_def k_def)
qed

text \<open>C30. \<open>arch_mm_flush_dcache\<close> cleans and invalidates every cache line that holds a byte of its range,
  wherever the range begins, and then issues the barrier, for every line size below 64 KiB and every range
  that ends at least 64 KiB before the end of the address space. It ends. A clean of an address
  reaches only the line the address is in.\<close>

theorem flush_dcache_covers:
  assumes ctr: "unat (drop_bit 16 ctr AND 0xf) \<le> 13" and range: "unat base + unat sz + 2 ^ 16 < 2 ^ 64"
  shows "\<exists>ops. arch_mm_flush_dcache ctr base sz = Inr (ops @ [DsbSy]) \<and>
    (\<forall>a. unat base \<le> a \<and> a < unat base + unat sz \<longrightarrow>
      (\<exists>x. DcCivac x \<in> set ops \<and> same_line (2 ^ (unat (drop_bit 16 ctr AND 0xf) + 2)) (unat x) a))"
proof -
  define k where "k = unat (drop_bit 16 ctr AND 0xf) + 2"
  have k: "k \<le> 15" using ctr by (simp add: k_def)
  have ls: "ucast (arch_mm_dcache_line_size ctr) = (2 ^ k :: u64)" using line_size_value [OF ctr] by (simp add: k_def)
  let ?b = "base AND NOT (2 ^ k - 1)"
  have b: "unat ?b \<le> unat base" "2 ^ k dvd unat ?b"
    using unat_and_not_mask64 [of base k] by (simp_all add: power_minus_1_mask)
  have e: "unat (base + sz) = unat base + unat sz" using range by (intro unat_add64) simp
  have pk: "(2 :: nat) ^ k \<le> 2 ^ 15" using k by (rule power_increasing) simp
  have u: "unat ((2 :: u64) ^ k) = 2 ^ k" using k by (intro unat_power64) simp
  obtain ops where "dcache_loop (2 ^ k) ?b (base + sz) [] = Some ([] @ ops @ [DsbSy])"
    "\<forall>a. unat ?b \<le> a \<and> a < unat (base + sz) \<longrightarrow>
       (\<exists>x. DcCivac x \<in> set ops \<and> same_line (unat ((2 :: u64) ^ k)) (unat x) a)"
    using dcache_loop_lines [of "2 ^ k" "base + sz" ?b "[]"] u e range pk b(2) by auto
  then show ?thesis
    using b unfolding k_def [symmetric]
    by (intro exI [of _ ops]) (auto simp: arch_mm_flush_dcache_def ls Let_def u e)
qed

theorem flush_dcache_covers_witness:
  "\<exists>ops. arch_mm_flush_dcache 0x40000 0x1030 0x20 = Inr (ops @ [DsbSy]) \<and>
     (\<exists>x. DcCivac x \<in> set ops \<and> same_line 64 (unat x) 0x1040)"
proof -
  have "unat (drop_bit 16 (0x40000 :: u64) AND 0xf) = 4" by (simp add: drop_bit_eq_div)
  then show ?thesis using flush_dcache_covers [of "0x40000" "0x1030" "0x20"] by auto
qed

section \<open>Configuration\<close>

text \<open>C31. \<open>arch_mm_init\<close> succeeds exactly for CPUs with 4 KiB granules and a known physical address
  range. Its stage-2 tables then cover that address range completely, and the start level and
  size fields of \<open>vtcr_el2\<close> agree with the levels the table code uses.\<close>

theorem arch_mm_init_covers:
  "case arch_mm_init table features pe_features sctlr vhe of
     None \<Rightarrow> drop_bit 28 features AND 0xf \<noteq> 0 \<or> 6 \<le> unat (features AND 0xf)
   | Some (config, max_level, root_table_count) \<Rightarrow>
       drop_bit 28 features AND 0xf = 0 \<and> unat (features AND 0xf) < 6 \<and>
       max_level \<in> {1, 2, 3} \<and> root_table_count \<in> {1, 2, 4, 8} \<and>
       2 ^ (pa_bits_table ! unat (features AND 0xf)) \<le> root_table_count * 2 ^ (12 + 9 * (max_level + 1)) \<and>
       unat (vtcr_el2 config AND 0x3f) = 64 - pa_bits_table ! unat (features AND 0xf) \<and>
       unat (drop_bit 6 (vtcr_el2 config) AND 3) + 1 = max_level \<and> ttbr0_el2 config = table"
proof -
  define x where "x = features AND 0xf"
  have "unat x < 16"
  proof -
    have "x = take_bit 4 features" by (simp add: x_def take_bit_eq_mask mask_eq_exp_minus_1)
    then show ?thesis by (simp add: unat_take_bit64)
  qed
  then have "unat x = unat (0 :: u64) \<or> unat x = unat (1 :: u64) \<or> unat x = unat (2 :: u64) \<or>
      unat x = unat (3 :: u64) \<or> unat x = unat (4 :: u64) \<or> unat x = unat (5 :: u64) \<or> 6 \<le> unat x \<and> unat x < 16"
    by simp presburger
  then consider "x = 0" | "x = 1" | "x = 2" | "x = 3" | "x = 4" | "x = 5" | "6 \<le> unat x" "unat x < 16"
    unfolding unat_eq_iff64 [symmetric] by blast
  then show ?thesis
  proof cases
    case 7
    then have "pa_bits_table ! unat x = 0"
      by (auto simp: pa_bits_table_def nth_Cons' split: if_splits)
    then show ?thesis using 7 by (simp add: arch_mm_init_def x_def [symmetric])
  qed (simp_all add: arch_mm_init_def x_def [symmetric] pa_bits_table_def Let_def
          PAGE_BITS_def PAGE_LEVEL_BITS_def push_bit_eq_mult drop_bit_eq_div)
qed

theorem arch_mm_init_covers_witness:
  "\<exists>config max_level root_table_count. arch_mm_init 0x1000 2 0 0 False = Some (config, max_level, root_table_count) \<and>
     2 ^ 40 \<le> root_table_count * 2 ^ (12 + 9 * (max_level + 1)) \<and> ttbr0_el2 config = 0x1000"
  using arch_mm_init_covers [of 2 "0x1000" 0 0 False]
  by (cases "arch_mm_init 0x1000 2 0 0 False") (auto simp: pa_bits_table_def)

end
