(* ===== verification/Mm_Range.thy ===== *)
theory Mm_Range
  imports Mm_Read Arch_Mm_Props
begin

text \<open>
  Which addresses an update of a page table reaches, told without the code's arithmetic: the
  addresses of the pages that contain a byte of the range. The request of \<open>mm_ptable_map\<close> is that set, but for
  the offset of the physical address in its page, which the code adds to the length: it
  rounds the physical start down before it computes the length from it.
\<close>

definition page_floor :: "nat \<Rightarrow> nat" where
  "page_floor a = 4096 * (a div 4096)"

definition page_ceil :: "nat \<Rightarrow> nat" where
  "page_ceil a = page_floor (a + 4095)"

text \<open>The addresses of the pages that contain an address from \<open>b\<close> to \<open>e\<close>.\<close>

definition containing_pages :: "nat \<Rightarrow> nat \<Rightarrow> nat set" where
  "containing_pages b e = {a. \<exists>x. b \<le> x \<and> x < e \<and> a div 4096 = x div 4096}"

text \<open>The addresses that mapping the physical range from \<open>pa_begin\<close> to \<open>pa_end\<close> at \<open>ipa_begin\<close> reaches. If
  \<open>pa_begin\<close> is the start of a page these are the pages that contain the requested range; otherwise
  the range is longer by the offset of \<open>pa_begin\<close> in its page, which may add one page.\<close>

definition reached :: "u64 \<Rightarrow> u64 \<Rightarrow> u64 \<Rightarrow> nat set" where
  "reached pa_begin pa_end ipa_begin =
     containing_pages (unat ipa_begin) (unat ipa_begin + (unat pa_end - unat pa_begin) + unat pa_begin mod 4096)"

text \<open>The new translation of a reached address: none when unmapping, and otherwise its place in the physical
  range with the attributes of the call. An address that already had these attributes may also keep the
  physical address it had, since the code does not compare physical addresses.\<close>

definition remapped ::
  "u32 \<Rightarrow> u64 \<Rightarrow> u64 \<Rightarrow> u64 \<Rightarrow> nat \<Rightarrow> (nat \<times> u64) option \<Rightarrow> (nat \<times> u64) option \<Rightarrow> bool" where
  "remapped flags pa_begin ipa_begin attrs a old new \<longleftrightarrow>
     (if flags AND MM_FLAG_UNMAP \<noteq> 0 then new = None
      else new = Some (page_floor (unat pa_begin) + (a - page_floor (unat ipa_begin)), attrs) \<or>
        new = old \<and> (\<exists>pa. old = Some (pa, attrs)))"

text \<open>The range is not empty, its addresses are in the 48 bits the tables know, and the end does not wrap around.\<close>

definition range_ok :: "u64 \<Rightarrow> u64 \<Rightarrow> u64 \<Rightarrow> bool" where
  "range_ok pa_begin pa_end ipa_begin \<longleftrightarrow> unat pa_begin < unat pa_end \<and> unat pa_begin < 2 ^ 48 \<and> unat ipa_begin < 2 ^ 48 \<and>
     unat ipa_begin + unat pa_end + 4095 < 2 ^ 64"

lemma containing_pages_iff:
  assumes "b < e"
  shows "a \<in> containing_pages b e \<longleftrightarrow> page_floor b \<le> a \<and> a < page_ceil e"
proof
  assume "a \<in> containing_pages b e"
  then obtain x where x: "b \<le> x" "x < e" "a div 4096 = x div 4096" by (auto simp: containing_pages_def)
  have "b div 4096 \<le> a div 4096" using x by (simp add: div_le_mono)
  moreover have "a div 4096 < (e + 4095) div 4096" unfolding x(3) using x(2) by linarith
  ultimately show "page_floor b \<le> a \<and> a < page_ceil e" unfolding page_ceil_def page_floor_def by linarith
next
  assume a: "page_floor b \<le> a \<and> a < page_ceil e"
  show "a \<in> containing_pages b e"
  proof (cases "page_floor a \<le> b")
    case True
    then have "a div 4096 = b div 4096" using a unfolding page_floor_def by linarith
    then show ?thesis using assms by (auto simp: containing_pages_def)
  next
    case False
    moreover have "page_floor a < e"
    proof -
      have "a div 4096 < (e + 4095) div 4096"
        using a by (simp add: page_floor_def page_ceil_def div_less_iff_less_mult mult.commute)
      then show ?thesis unfolding page_floor_def by linarith
    qed
    ultimately show ?thesis
      by (auto simp: containing_pages_def page_floor_def intro!: exI [of _ "4096 * (a div 4096)"])
  qed
qed

lemma unat_round_up_ceil: "unat a + 4095 < 2 ^ 64 \<Longrightarrow> unat (mm_round_up_to_page a) = page_ceil (unat a)"
proof -
  assume a: "unat a + 4095 < 2 ^ 64"
  have "a + PAGE_SIZE - 1 = a + 4095" by (simp add: PAGE_SIZE_def PAGE_BITS_def push_bit_eq_mult)
  moreover have "unat (a + 4095) = unat a + 4095" using a by (subst unat_add64) simp_all
  ultimately show ?thesis
    unfolding mm_round_up_to_page_def unat_round_down page_ceil_def page_floor_def by (simp only: mult.commute)
qed

lemma unat_clear_floor: "unat a < 2 ^ 48 \<Longrightarrow> unat (arch_mm_clear_pa a) = page_floor (unat a)"
  by (simp add: arch_mm_clear_pa_def pte_addr_def unat_clear_pa page_floor_def)

lemma request_reaches:
  assumes "range_ok pb pe ib" "a < space_size flags s"
  shows "in_req (ptable_request flags pb pe ib attrs s) a \<longleftrightarrow> a \<in> reached pb pe ib"
proof -
  have r: "unat pb < unat pe" "unat pb < 2 ^ 48" "unat ib < 2 ^ 48" "unat ib + unat pe + 4095 < 2 ^ 64"
    using assms(1) by (simp_all add: range_ok_def)
  have f: "page_floor (unat pb) = unat pb - unat pb mod 4096" by (simp add: page_floor_def minus_mod_eq_mult_div)
  have pb: "unat (pe - arch_mm_clear_pa pb) = unat pe - unat pb + unat pb mod 4096"
    using r f unat_clear_floor [OF r(2)] by (subst unat_sub64) (simp_all add: mod_less_eq_dividend)
  have le: "unat pb mod 4096 \<le> unat pb" by (rule mod_less_eq_dividend)
  have e: "unat (ib + (pe - arch_mm_clear_pa pb)) = unat ib + (unat pe - unat pb) + unat pb mod 4096"
    using r le by (subst unat_add64) (simp_all add: pb)
  have "unat (mm_round_up_to_page (ib + (pe - arch_mm_clear_pa pb))) =
      page_ceil (unat ib + (unat pe - unat pb) + unat pb mod 4096)"
    using r le by (subst unat_round_up_ceil) (simp_all add: e)
  then show ?thesis
    using assms(2) r(1) unfolding reached_def
    by (subst containing_pages_iff) (simp_all add: in_req_def ptable_request_def unat_clear_floor [OF r(3)])
qed

lemma installed_remapped:
  assumes "range_ok pb pe ib"
  shows "installed (ptable_request flags pb pe ib attrs s) a old new = remapped flags pb ib attrs a old new"
  using assms
  by (simp add: range_ok_def installed_def remapped_def target_def ptable_request_def unat_clear_floor)

lemma updates_reached:
  assumes "range_ok pb pe ib" "updates (ptable_request flags pb pe ib attrs s) ok (space_size flags s) f g" "a < space_size flags s"
  shows "if ok \<and> a \<in> reached pb pe ib then remapped flags pb ib attrs a (f a) (g a) else g a = f a"
  using assms(2) [unfolded updates_def, rule_format, OF assms(3)]
  unfolding request_reaches [OF assms(1,3)] installed_remapped [OF assms(1)] .

lemma updates_reached_ok:
  assumes "range_ok pb pe ib" "updates (ptable_request flags pb pe ib attrs s) True (space_size flags s) f g" "a < space_size flags s"
  shows "if a \<in> reached pb pe ib then remapped flags pb ib attrs a (f a) (g a) else g a = f a"
  using updates_reached [OF assms] by simp

end
