(* ===== verification/Mm_Contract.thy ===== *)
theory Mm_Contract
  imports Mm_Range
begin

text \<open>
  The contract of the page-table operations of \<^verbatim>\<open>src/mm.c\<close>, property by property. The instances
  use a stage-2 table with one empty root table at address 0x1000 and a pool with two free pages.
\<close>

definition demo_chunk_mem :: "u64 \<Rightarrow> u64" where
  "demo_chunk_mem a = (if a = 0x8008 then 0xa000 else 0)"

definition demo_mm :: mm_machine where
  "demo_mm = \<lparr>mem = demo_chunk_mem,
     pools = (\<lambda>p. \<lparr>mp_lock = False, entry_size = 0x1000, chunk_list = 0x8000, entry_list = 0, fallback = None\<rparr>),
     mpool_locks_enabled = True, mm_stage2_invalidate = True, mm_s2_max_level = 2, mm_s2_root_table_count = 1,
     mm_log = [], hyp_ptable = 0, ptable_lock = False\<rparr>"

abbreviation demo_roots :: "ptree list list" where
  "demo_roots \<equiv> [replicate 512 (Leaf 0)]"

lemma demo_mm_simps [simp]:
  "mem demo_mm = demo_chunk_mem" "mm_s2_max_level demo_mm = 2" "mm_s2_root_table_count demo_mm = 1"
  "mm_stage2_invalidate demo_mm"
  by (simp_all add: demo_mm_def)

lemma demo_table: "table_rep demo_chunk_mem 2 0x1000 (replicate 512 (Leaf 0))"
proof -
  have t: "table_ok 0x1000" by (simp add: table_ok_def addr_ok_iff)
  have "demo_chunk_mem (entry_at 0x1000 i) = 0" if "i < 512" for i
  proof -
    have "unat (entry_at 0x1000 i) = 0x1000 + 8 * i" using entry_at_in_page(2) [OF t that] by simp
    then have "unat (entry_at 0x1000 i) \<noteq> unat (0x8008 :: u64)" using that by simp
    then have "entry_at 0x1000 i \<noteq> 0x8008" by metis
    then show ?thesis by (simp add: demo_chunk_mem_def)
  qed
  then show ?thesis using t by (simp add: table_rep_def)
qed

lemma demo_mm_pool: "pool_rep 0x1000 demo_mm 0 [0] [0x8000, 0x9000]"
  unfolding pool_rep_def
proof (intro conjI exI [of _ "[(0, [], [(0x8000, 0xa000)])]"])
  show "chain_rep 0x1000 demo_mm (Some 0) [(0, [], [(0x8000, 0xa000)])]"
    by (simp add: demo_mm_def demo_chunk_mem_def pool_at_def unlocked_def chunk_ok_def)
qed (simp_all add: chunk_pages_def upt_rec free_ok_def page_ok_def)

lemma demo_ptable: "ptable_ok 0 demo_mm 0x1000 demo_roots 0 [0] [0x8000, 0x9000]"
proof -
  have "rpages demo_roots = []" by (simp add: rpages_def tpages_def)
  then show ?thesis
    using demo_table demo_mm_pool
    by (simp add: ptable_ok_def rinv_def mm_max_level_def mm_root_table_count_def root_pages_def root_at_def addr_ok_iff)
qed

lemma demo_size: "space_size 0 demo_mm = 2 ^ 39" "mm_max_level 0 demo_mm = 2"
  by (simp_all add: space_size_def mm_max_level_def mm_root_table_count_def esz_def)

lemma demo_request:
  "ptable_request 0 0x5000 0x7000 0x200000 attrs demo_mm =
     \<lparr>rq_unmap = False, rq_attrs = attrs, rq_begin = 0x200000, rq_end = 0x202000, rq_pa = 0x5000\<rparr>"
  unfolding ptable_request_def demo_size
  by (simp add: arch_mm_clear_pa_def pte_addr_def pte_masks mm_round_up_to_page_def mm_round_down_to_page_def
      PAGE_SIZE_def PAGE_BITS_def push_bit_eq_mult)

lemma demo_args: "attrs_ok attrs \<Longrightarrow> args_ok 0 0x5000 0x7000 0x200000 attrs demo_mm"
  by (simp add: args_ok_def demo_request)

text \<open>A second instance: one block of 1 GiB, for which the root table needs no table below it.\<close>

lemma demo_block_request:
  "ptable_request 0 0x40000000 0x80000000 0x80000000 attrs demo_mm =
     \<lparr>rq_unmap = False, rq_attrs = attrs, rq_begin = 0x80000000, rq_end = 0xC0000000, rq_pa = 0x40000000\<rparr>"
  unfolding ptable_request_def demo_size
  by (simp add: arch_mm_clear_pa_def pte_addr_def pte_masks mm_round_up_to_page_def mm_round_down_to_page_def
      PAGE_SIZE_def PAGE_BITS_def push_bit_eq_mult)

lemma demo_block_args:
  "attrs_ok attrs \<Longrightarrow> args_ok 0 0x40000000 0x80000000 0x80000000 attrs demo_mm"
  "range_ok 0x40000000 0x80000000 0x80000000"
  by (simp_all add: args_ok_def demo_block_request range_ok_def)

lemma demo_block_ready:
  assumes "\<not> rq_unmap r" "rq_begin r = 0x80000000" "rq_end r = 0xC0000000" "rq_pa r = 0x40000000"
  shows "all_ready r 2 demo_roots"
proof -
  have "ready r 2 (i * 2 ^ 30) (Leaf 0)" if "hits r (i * 2 ^ 30) (2 ^ 30)" for i
  proof -
    have "i = 2" using that assms by (simp add: hits_def)
    then show ?thesis using assms by (simp add: whole_def target_def esz_def)
  qed
  then show ?thesis by (simp add: all_ready_def tready_def esz_def)
qed

lemma demo_unmapped: "a < 2 ^ 39 \<Longrightarrow> space 2 demo_roots a = None"
proof -
  assume "a < 2 ^ 39"
  then have "a div esz 3 = 0" "a mod esz 3 div esz 2 < 512" by (simp_all add: esz_def div_less_iff_less_mult)
  then show ?thesis by (simp add: space_def numeral_3_eq_3 [symmetric] numeral_2_eq_2 [symmetric] del: look.simps)
      (simp add: numeral_3_eq_3 numeral_2_eq_2)
qed

lemma demo_reached: "a \<in> reached 0x40000000 0x80000000 0x80000000 \<longleftrightarrow> 0x80000000 \<le> a \<and> a < 0xC0000000"
  unfolding reached_def by (subst containing_pages_iff) (simp_all add: page_floor_def page_ceil_def)

section \<open>Updating a table\<close>

text \<open>C1. \<open>mm_ptable_update\<close> is atomic and never panics, whatever the pool holds: it returns and keeps the
  page table well formed. If it reports success, every reached address has its new translation, and every
  other address the one it had; if it reports failure, all translations are as they were and the pool has
  run out of pages. It succeeds if the tables it needs are there. The reached addresses are those of
  the pages that contain the requested range, if the physical address is page-aligned; otherwise the
  range is longer by the offset of the physical address in its page. The new
  translation of a reached address is the requested one, except that an address which already had the
  requested attributes may keep its physical address.\<close>

theorem mm_ptable_update_atomic:
  assumes "ptable_ok flags s root roots p qs fl" "args_ok flags pa_begin pa_end ipa_begin attrs s"
    and "range_ok pa_begin pa_end ipa_begin" "L = mm_max_level flags s"
  shows "\<exists>ok s' roots' fl'. mm_ptable_update root pa_begin pa_end ipa_begin attrs flags p s = Inr (ok, s') \<and>
    ptable_ok flags s' root roots' p qs fl' \<and>
    (\<forall>a < space_size flags s.
       if ok \<and> a \<in> reached pa_begin pa_end ipa_begin
       then remapped flags pa_begin ipa_begin attrs a (space L roots a) (space L roots' a)
       else space L roots' a = space L roots a) \<and>
    (ok \<or> fl' = []) \<and> (all_ready (ptable_request flags pa_begin pa_end ipa_begin attrs s) L roots \<longrightarrow> ok)"
proof -
  obtain ok s' roots' fl' where c: "mm_ptable_update root pa_begin pa_end ipa_begin attrs flags p s = Inr (ok, s')"
    "ptable_step flags root p qs s roots fl s' roots' fl'"
    "updates (ptable_request flags pa_begin pa_end ipa_begin attrs s) ok (space_size flags s) (space L roots) (space L roots')"
    "ok \<or> fl' = []" "all_ready (ptable_request flags pa_begin pa_end ipa_begin attrs s) L roots \<longrightarrow> ok"
    using mm_ptable_update_spec [OF assms(1,2) refl] unfolding assms(4) by blast
  have "ptable_ok flags s' root roots' p qs fl'" using c(2) by (simp add: ptable_step_def)
  then show ?thesis using c(1,4,5) updates_reached [OF assms(3) c(3)] by blast
qed

theorem mm_ptable_update_atomic_witness:
  "\<exists>s' roots'. mm_ptable_update 0x1000 0x40000000 0x80000000 0x80000000 (arch_mm_mode_to_stage2_attrs 3) 0 0 demo_mm =
       Inr (True, s') \<and>
     (\<forall>a<2 ^ 39. space 2 roots' a = (if 0x80000000 \<le> a \<and> a < 0xC0000000
        then Some (0x40000000 + (a - 0x80000000), arch_mm_mode_to_stage2_attrs 3) else space 2 demo_roots a))"
proof -
  let ?x = "arch_mm_mode_to_stage2_attrs 3"
  have x: "attrs_ok ?x" by (rule stage2_attrs_ok) (simp add: mode_defs)
  obtain ok s' roots' where c: "mm_ptable_update 0x1000 0x40000000 0x80000000 0x80000000 ?x 0 0 demo_mm = Inr (ok, s')"
    "\<forall>a < space_size 0 demo_mm. if ok \<and> a \<in> reached 0x40000000 0x80000000 0x80000000
       then remapped 0 0x40000000 0x80000000 ?x a (space 2 demo_roots a) (space 2 roots' a)
       else space 2 roots' a = space 2 demo_roots a"
    "all_ready (ptable_request 0 0x40000000 0x80000000 0x80000000 ?x demo_mm) 2 demo_roots \<longrightarrow> ok"
    using mm_ptable_update_atomic [OF demo_ptable demo_block_args(1) [OF x] demo_block_args(2) refl]
    unfolding demo_size(2) by blast
  have ok: ok using c(3) demo_block_ready by (simp add: demo_block_request)
  have "space 2 roots' a = (if 0x80000000 \<le> a \<and> a < 0xC0000000 then Some (0x40000000 + (a - 0x80000000), ?x)
      else space 2 demo_roots a)" if a: "a < 2 ^ 39" for a
    using c(2) [unfolded demo_reached demo_size(1), rule_format, OF a] demo_unmapped [OF a] ok
    by (auto simp: remapped_def page_floor_def)
  moreover have "Inr (ok, s') = Inr (True, s')" using ok by simp
  ultimately show ?thesis using c(1) by (metis (no_types, lifting))
qed

text \<open>C2. Preparing changes no translation. When it reports success the commit of the same request does not
  panic, and afterwards every reached address has its new translation and every other address the one it had;
  the reached addresses and their new translations are those of C1, with the same two qualifications for
  physical addresses that are not page-aligned and for addresses that had the attributes before.\<close>

theorem mm_ptable_prepare_commit:
  assumes "ptable_ok flags s root roots p qs fl" "args_ok flags pa_begin pa_end ipa_begin attrs s"
    and "range_ok pa_begin pa_end ipa_begin" "L = mm_max_level flags s"
  shows "\<exists>ok s1 roots1 fl1. mm_ptable_prepare root pa_begin pa_end ipa_begin attrs flags p s = Inr (ok, s1) \<and>
    ptable_ok flags s1 root roots1 p qs fl1 \<and> (\<forall>a < space_size flags s. space L roots1 a = space L roots a) \<and>
    (ok \<or> fl1 = []) \<and> (all_ready (ptable_request flags pa_begin pa_end ipa_begin attrs s) L roots \<longrightarrow> ok) \<and>
    (ok \<longrightarrow> (\<exists>s2 roots2 fl2. mm_ptable_commit root pa_begin pa_end ipa_begin attrs flags p s1 = Inr s2 \<and>
       ptable_ok flags s2 root roots2 p qs fl2 \<and>
       (\<forall>a < space_size flags s.
          if a \<in> reached pa_begin pa_end ipa_begin
          then remapped flags pa_begin ipa_begin attrs a (space L roots a) (space L roots2 a)
          else space L roots2 a = space L roots a)))"
proof -
  let ?r = "ptable_request flags pa_begin pa_end ipa_begin attrs s"
  obtain ok s1 roots1 fl1 where c: "mm_ptable_prepare root pa_begin pa_end ipa_begin attrs flags p s = Inr (ok, s1)"
    "ptable_step flags root p qs s roots fl s1 roots1 fl1" "updates ?r False (space_size flags s) (space L roots) (space L roots1)"
    "ok \<longrightarrow> all_ready ?r L roots1" "ok \<or> fl1 = []" "all_ready ?r L roots \<longrightarrow> ok"
    using mm_ptable_prepare_spec [OF assms(1,2) refl] unfolding assms(4) by blast
  note cfg = ptable_step_config [OF c(2) assms(1)]
  have ok1: "ptable_ok flags s1 root roots1 p qs fl1" using c(2) by (simp add: ptable_step_def)
  have "\<exists>s2 roots2 fl2. mm_ptable_commit root pa_begin pa_end ipa_begin attrs flags p s1 = Inr s2 \<and>
       ptable_step flags root p qs s1 roots1 fl1 s2 roots2 fl2 \<and>
       updates ?r True (space_size flags s) (space L roots1) (space L roots2)" if ok
    using mm_ptable_commit_spec [OF ok1, of pa_begin pa_end ipa_begin attrs ?r] assms(2,4) c(4) that by (simp add: cfg)
  then have "\<exists>s2 roots2 fl2. mm_ptable_commit root pa_begin pa_end ipa_begin attrs flags p s1 = Inr s2 \<and>
       ptable_ok flags s2 root roots2 p qs fl2 \<and> updates ?r True (space_size flags s) (space L roots) (space L roots2)" if ok
    using that updates_prepared [OF c(3)] by (metis ptable_step_def)
  then have "\<exists>s2 roots2 fl2. mm_ptable_commit root pa_begin pa_end ipa_begin attrs flags p s1 = Inr s2 \<and>
       ptable_ok flags s2 root roots2 p qs fl2 \<and>
       (\<forall>a < space_size flags s.
          if a \<in> reached pa_begin pa_end ipa_begin
          then remapped flags pa_begin ipa_begin attrs a (space L roots a) (space L roots2 a)
          else space L roots2 a = space L roots a)" if ok
    using that updates_reached_ok [OF assms(3), of flags attrs s] by blast
  moreover have "\<forall>a < space_size flags s. space L roots1 a = space L roots a" using c(3) by (simp add: updates_def)
  ultimately show ?thesis using c(1,5,6) ok1 by blast
qed

theorem mm_ptable_prepare_commit_witness:
  "\<exists>s1 s2 roots2. mm_ptable_prepare 0x1000 0x40000000 0x80000000 0x80000000 (arch_mm_mode_to_stage2_attrs 3) 0 0 demo_mm =
       Inr (True, s1) \<and>
     mm_ptable_commit 0x1000 0x40000000 0x80000000 0x80000000 (arch_mm_mode_to_stage2_attrs 3) 0 0 s1 = Inr s2 \<and>
     space 2 roots2 0x80001234 = Some (0x40001234, arch_mm_mode_to_stage2_attrs 3)"
proof -
  let ?x = "arch_mm_mode_to_stage2_attrs 3"
  have x: "attrs_ok ?x" by (rule stage2_attrs_ok) (simp add: mode_defs)
  obtain ok s1 where c: "mm_ptable_prepare 0x1000 0x40000000 0x80000000 0x80000000 ?x 0 0 demo_mm = Inr (ok, s1)"
    "all_ready (ptable_request 0 0x40000000 0x80000000 0x80000000 ?x demo_mm) 2 demo_roots \<longrightarrow> ok"
    "ok \<longrightarrow> (\<exists>s2 roots2 fl2. mm_ptable_commit 0x1000 0x40000000 0x80000000 0x80000000 ?x 0 0 s1 = Inr s2 \<and>
       ptable_ok 0 s2 0x1000 roots2 0 [0] fl2 \<and>
       (\<forall>a < space_size 0 demo_mm. if a \<in> reached 0x40000000 0x80000000 0x80000000
          then remapped 0 0x40000000 0x80000000 ?x a (space 2 demo_roots a) (space 2 roots2 a)
          else space 2 roots2 a = space 2 demo_roots a))"
    using mm_ptable_prepare_commit [OF demo_ptable demo_block_args(1) [OF x] demo_block_args(2) refl]
    unfolding demo_size(2) by blast
  have ok: ok using c(2) demo_block_ready by (simp add: demo_block_request)
  then obtain s2 roots2 where d: "mm_ptable_commit 0x1000 0x40000000 0x80000000 0x80000000 ?x 0 0 s1 = Inr s2"
    "\<forall>a < 2 ^ 39. if a \<in> reached 0x40000000 0x80000000 0x80000000
       then remapped 0 0x40000000 0x80000000 ?x a (space 2 demo_roots a) (space 2 roots2 a)
       else space 2 roots2 a = space 2 demo_roots a"
    using c(3) unfolding demo_size(1) by blast
  have "space 2 roots2 0x80001234 = Some (0x40001234, ?x)"
    using d(2) [unfolded demo_reached, rule_format, of "0x80001234"] demo_unmapped [of "0x80001234"]
    by (simp add: remapped_def page_floor_def)
  moreover have "Inr (ok, s1) = Inr (True, s1)" using ok by simp
  ultimately show ?thesis using c(1) d(1) by metis
qed

text \<open>C3. An update neither loses nor invents a page: the pages of the tables and the free pages of the
  pool stay the same set, no page is in use twice, and memory outside of them is not written.\<close>

theorem mm_ptable_update_conserves_pages:
  assumes "ptable_ok flags s root roots p qs fl" "args_ok flags pa_begin pa_end ipa_begin attrs s"
  shows "\<exists>ok s' roots' fl'. mm_ptable_update root pa_begin pa_end ipa_begin attrs flags p s = Inr (ok, s') \<and>
    ptable_ok flags s' root roots' p qs fl' \<and>
    mset (rpages roots' @ fl') = mset (rpages roots @ fl) \<and> distinct (rpages roots' @ fl') \<and>
    same_off 0x1000 (set (root_pages root (length roots) @ rpages roots @ fl)) (mem s) (mem s')"
proof -
  obtain ok s' roots' fl' where c: "mm_ptable_update root pa_begin pa_end ipa_begin attrs flags p s = Inr (ok, s')"
    "ptable_step flags root p qs s roots fl s' roots' fl'"
    using mm_ptable_update_spec [OF assms refl] by blast
  have "distinct (rpages roots' @ fl')" using c(2) by (simp add: ptable_step_def ptable_ok_def rinv_def)
  then show ?thesis
    using c by (intro exI [of _ ok] exI [of _ s'] exI [of _ roots'] exI [of _ fl'])
      (simp_all add: ptable_step_def mm_touches_def)
qed

theorem mm_ptable_update_conserves_pages_witness:
  "\<exists>ok s' roots' fl'. mm_ptable_update 0x1000 0x5000 0x7000 0x200000 (arch_mm_mode_to_stage2_attrs 3) 0 0 demo_mm = Inr (ok, s') \<and>
     mset (rpages roots' @ fl') = {#0x8000, 0x9000#}"
proof -
  have x: "attrs_ok (arch_mm_mode_to_stage2_attrs 3)" by (rule stage2_attrs_ok) (simp add: mode_defs)
  have "rpages demo_roots = []" by (simp add: rpages_def tpages_def)
  then show ?thesis using mm_ptable_update_conserves_pages [OF demo_ptable demo_args [OF x]] by auto
qed

text \<open>C4. Break before make. With TLB maintenance on, an update never overwrites a valid entry with
  another valid one: it stores the absent entry first and invalidates the TLB before the next store. The
  operations of the invalidation reach every input address of an entry that led to a table. If the entry was a
  block or a page, they reach its addresses from the one on that the entry is replaced for, at
  least one of its addresses in any case; the store itself goes to the entry this address selects.\<close>

theorem mm_ptable_update_break_before_make:
  assumes "ptable_ok flags s root roots p qs fl" "args_ok flags pa_begin pa_end ipa_begin attrs s"
    and "flags AND MM_FLAG_STAGE1 \<noteq> 0 \<or> mm_stage2_invalidate s"
  shows "\<exists>ok s' ev. mm_ptable_update root pa_begin pa_end ipa_begin attrs flags p s = Inr (ok, s') \<and>
    mm_log s' = mm_log s @ ev \<and> bbm_ok (stage1 flags) ev"
proof -
  obtain ok s' roots' fl' where c: "mm_ptable_update root pa_begin pa_end ipa_begin attrs flags p s = Inr (ok, s')"
    "ptable_step flags root p qs s roots fl s' roots' fl'"
    using mm_ptable_update_spec [OF assms(1,2) refl] by blast
  have "logs (stage1 flags) True s s'" using c(2) assms(3) by (simp add: ptable_step_def must_break_def)
  then show ?thesis using c(1) by (auto simp: logs_def)
qed

theorem mm_ptable_update_break_before_make_witness:
  "\<exists>ok s' ev. mm_ptable_update 0x1000 0x5000 0x7000 0x200000 (arch_mm_mode_to_stage2_attrs 3) 0 0 demo_mm = Inr (ok, s') \<and>
     mm_log s' = mm_log demo_mm @ ev \<and> bbm_ok False ev"
proof -
  have x: "attrs_ok (arch_mm_mode_to_stage2_attrs 3)" by (rule stage2_attrs_ok) (simp add: mode_defs)
  show ?thesis using mm_ptable_update_break_before_make [OF demo_ptable demo_args [OF x]] by (simp add: stage1_def)
qed

section \<open>Reading a table\<close>

text \<open>C8. \<open>mm_vm_page_table_walk\<close> computes the physical address the tables translate an address to, and
  fails exactly for addresses without an entry.\<close>

theorem mm_vm_page_table_walk_translates:
  assumes "ptable_ok 0 s root roots p qs fl" "unat ipa < space_size 0 s"
  shows "map_option unat (mm_vm_page_table_walk root ipa s) =
    map_option fst (space (mm_max_level 0 s) roots (unat ipa))"
  using assms by (rule mm_vm_page_table_walk_spec)

theorem mm_vm_page_table_walk_translates_witness:
  "map_option unat (mm_vm_page_table_walk 0x1000 0x12345 demo_mm) = map_option fst (space 2 demo_roots 0x12345)"
  using mm_vm_page_table_walk_translates [OF demo_ptable, of "0x12345"] by (simp add: demo_size)

text \<open>C9. \<open>mm_vm_get_mode\<close> returns, and it returns a mode exactly if the page-aligned hull of the range is
  not empty, lies in the address space, and has the same attributes everywhere; absent entries count
  as attributes 0.\<close>

theorem mm_vm_get_mode_uniform:
  assumes "ptable_ok 0 s root roots p qs fl"
    and "b = unat (mm_round_down_to_page begin)" "e = unat (mm_round_up_to_page end)"
  shows "\<exists>res. mm_vm_get_mode root begin end s = Inr res \<and>
    (\<forall>mode. res = Some mode \<longleftrightarrow> b < e \<and> e \<le> space_size 0 s \<and>
       (\<exists>attrs. mode = arch_mm_stage2_attrs_to_mode attrs \<and>
          (\<forall>a\<in>{b..<e}. attr_of (space (mm_max_level 0 s) roots a) = attrs)))"
proof -
  obtain res where "mm_vm_get_attrs root begin end s = Inr res" and
    "\<forall>x. res = Some x \<longleftrightarrow> b < e \<and> e \<le> space_size 0 s \<and>
       (\<forall>a\<in>{b..<e}. attr_of (space (mm_max_level 0 s) roots a) = x)"
    using mm_vm_get_attrs_spec [OF assms(1), of "begin" "end"] unfolding assms(2,3) by blast
  then show ?thesis by (intro exI [of _ "map_option arch_mm_stage2_attrs_to_mode res"]) (auto simp: mm_vm_get_mode_def)
qed

theorem mm_vm_get_mode_uniform_witness:
  "\<exists>res. mm_vm_get_mode 0x1000 0x5800 0x6800 demo_mm = Inr res"
  using mm_vm_get_mode_uniform [OF demo_ptable refl refl] by blast

section \<open>The operations on the tables of a virtual machine\<close>

lemma stage2_flags:
  assumes "flags AND MM_FLAG_STAGE1 = 0"
  shows "ptable_ok flags s root roots p qs fl = ptable_ok 0 s root roots p qs fl"
    "space_size flags s = space_size 0 s" "mm_max_level flags s = mm_max_level 0 s"
  using assms by (simp_all add: ptable_ok_def space_size_def mm_max_level_def mm_root_table_count_def)

lemma mode_flags_stage2: "mm_mode_to_flags mode AND MM_FLAG_STAGE1 = 0"
  by (simp add: mm_mode_to_flags_def MM_FLAG_UNMAP_def MM_FLAG_STAGE1_def)

lemma mode_flags_unmap:
  "mm_mode_to_flags mode AND MM_FLAG_UNMAP \<noteq> 0 \<longleftrightarrow> mode AND MM_MODE_UNMAPPED_MASK = MM_MODE_UNMAPPED_MASK"
  by (simp add: mm_mode_to_flags_def MM_FLAG_UNMAP_def)

text \<open>The request of \<open>mm_vm_map\<close>, with the condition that the physical range fits 48 bits.\<close>

definition vm_request :: "u64 \<Rightarrow> u64 \<Rightarrow> u64 \<Rightarrow> u32 \<Rightarrow> 'a mm_machine_scheme \<Rightarrow> request" where
  "vm_request begin end ipa_begin mode s =
     ptable_request (mm_mode_to_flags mode) begin end ipa_begin (arch_mm_mode_to_stage2_attrs mode) s"

definition request_fits :: "request \<Rightarrow> bool" where
  "request_fits r \<longleftrightarrow> rq_pa r + (rq_end r - rq_begin r) \<le> 2 ^ 48"

lemma vm_args_ok:
  assumes "request_fits (vm_request begin end ipa_begin mode s)"
  shows "args_ok (mm_mode_to_flags mode) begin end ipa_begin (arch_mm_mode_to_stage2_attrs mode) s"
  using assms stage2_attrs_ok [of mode] mode_flags_unmap [of mode]
  by (auto simp: args_ok_def Let_def request_fits_def vm_request_def) (simp add: ptable_request_def)

lemma mm_vm_map_spec:
  assumes "ptable_ok 0 s root roots p qs fl" "request_fits (vm_request begin end ipa_begin mode s)"
    and r: "r = vm_request begin end ipa_begin mode s"
  shows "\<exists>ok s' roots' fl'. mm_vm_map root begin end ipa_begin mode p s = Inr (ok, if ok then Some begin else None, s') \<and>
    ptable_ok 0 s' root roots' p qs fl' \<and> space_size 0 s' = space_size 0 s \<and> mm_max_level 0 s' = mm_max_level 0 s \<and>
    updates r ok (space_size 0 s) (space (mm_max_level 0 s) roots) (space (mm_max_level 0 s) roots') \<and>
    (all_ready r (mm_max_level 0 s) roots \<longrightarrow> ok)"
proof -
  let ?f = "mm_mode_to_flags mode"
  note f = stage2_flags [OF mode_flags_stage2 [of mode]]
  have ok: "ptable_ok ?f s root roots p qs fl" using assms(1) by (simp add: f)
  obtain ok s' roots' fl' where c:
    "mm_ptable_update root begin end ipa_begin (arch_mm_mode_to_stage2_attrs mode) ?f p s = Inr (ok, s')"
    "ptable_step ?f root p qs s roots fl s' roots' fl'"
    "updates r ok (space_size ?f s) (space (mm_max_level ?f s) roots) (space (mm_max_level ?f s) roots')"
    "all_ready r (mm_max_level ?f s) roots \<longrightarrow> ok"
    using mm_ptable_update_spec [OF ok vm_args_ok [OF assms(2)] r [unfolded vm_request_def]] by blast
  have "ptable_ok 0 s' root roots' p qs fl'" using c(2) by (simp add: ptable_step_def f)
  then show ?thesis
    using c ptable_step_config(2,3) [OF c(2) ok]
    by (intro exI [of _ ok] exI [of _ s'] exI [of _ roots'] exI [of _ fl']) (simp_all add: mm_vm_map_def f)
qed

lemma walk_eqI:
  assumes "ptable_ok 0 s root roots p qs fl" "ptable_ok 0 s' root roots' p qs fl'" "unat a < space_size 0 s"
    "space_size 0 s' = space_size 0 s" "mm_max_level 0 s' = mm_max_level 0 s"
    "space (mm_max_level 0 s) roots' (unat a) = space (mm_max_level 0 s) roots (unat a)"
  shows "mm_vm_page_table_walk root a s' = mm_vm_page_table_walk root a s"
proof -
  have "map_option unat (mm_vm_page_table_walk root a s') = map_option unat (mm_vm_page_table_walk root a s)"
    using mm_vm_page_table_walk_spec [OF assms(1,3)] mm_vm_page_table_walk_spec [OF assms(2), of a] assms by simp
  then show ?thesis by (auto simp: map_option_case unat_eq_iff64 split: option.splits)
qed

lemma vm_request_end: "in_req (vm_request begin end ipa_begin mode s) a \<Longrightarrow> a < space_size 0 s"
  by (simp add: in_req_def vm_request_def ptable_request_def stage2_flags(2) [OF mode_flags_stage2])

lemma vm_request_unmap:
  "rq_unmap (vm_request begin end ipa_begin mode s) \<longleftrightarrow> mode AND MM_MODE_UNMAPPED_MASK = MM_MODE_UNMAPPED_MASK"
  using mode_flags_unmap by (simp add: vm_request_def ptable_request_def)

text \<open>C5. What \<open>mm_vm_map\<close> maps, \<open>mm_vm_page_table_walk\<close> finds: after a successful call, every reached address,
  mapped before or not, is translated to its place in the physical range; only an address that had the
  attributes of the call before may keep the physical address it had. All other addresses, and all addresses after
  a call that failed, are translated as before. The call succeeds if the tables it needs are there. The reached
  addresses are those of the pages that contain the range, for a page-aligned physical address.\<close>

theorem mm_vm_map_then_walk:
  assumes "ptable_ok 0 s root roots p qs fl" "range_ok begin end ipa_begin"
    and "request_fits (vm_request begin end ipa_begin mode s)" "mode AND MM_MODE_UNMAPPED_MASK \<noteq> MM_MODE_UNMAPPED_MASK"
  shows "\<exists>ok ipa' s'. mm_vm_map root begin end ipa_begin mode p s = Inr (ok, ipa', s') \<and>
    (all_ready (vm_request begin end ipa_begin mode s) (mm_max_level 0 s) roots \<longrightarrow> ok) \<and>
    (\<forall>a. unat a < space_size 0 s \<longrightarrow>
       (if ok \<and> unat a \<in> reached begin end ipa_begin
        then map_option unat (mm_vm_page_table_walk root a s') =
               Some (page_floor (unat begin) + (unat a - page_floor (unat ipa_begin))) \<or>
             mm_vm_page_table_walk root a s' = mm_vm_page_table_walk root a s \<and>
             (\<exists>pa. space (mm_max_level 0 s) roots (unat a) = Some (pa, arch_mm_mode_to_stage2_attrs mode))
        else mm_vm_page_table_walk root a s' = mm_vm_page_table_walk root a s))"
proof -
  let ?L = "mm_max_level 0 s" and ?f = "mm_mode_to_flags mode" and ?x = "arch_mm_mode_to_stage2_attrs mode"
  let ?r = "vm_request begin end ipa_begin mode s"
  obtain ok s' roots' fl' where c: "mm_vm_map root begin end ipa_begin mode p s = Inr (ok, if ok then Some begin else None, s')"
    "ptable_ok 0 s' root roots' p qs fl'" "space_size 0 s' = space_size 0 s" "mm_max_level 0 s' = ?L"
    "updates ?r ok (space_size 0 s) (space ?L roots) (space ?L roots')" "all_ready ?r ?L roots \<longrightarrow> ok"
    using mm_vm_map_spec [OF assms(1,3) refl] by blast
  have sz: "space_size ?f s = space_size 0 s" by (rule stage2_flags(2) [OF mode_flags_stage2])
  have un: "\<not> ?f AND MM_FLAG_UNMAP \<noteq> 0" using assms(4) mode_flags_unmap [of mode] by blast
  have u: "if ok \<and> unat a \<in> reached begin end ipa_begin
      then remapped ?f begin ipa_begin ?x (unat a) (space ?L roots (unat a)) (space ?L roots' (unat a))
      else space ?L roots' (unat a) = space ?L roots (unat a)" if "unat a < space_size 0 s" for a
    using that by (intro updates_reached [OF assms(2) c(5) [unfolded vm_request_def sz [symmetric]]]) (simp add: sz)
  have walk': "map_option unat (mm_vm_page_table_walk root a s') = map_option fst (space ?L roots' (unat a))"
    if "unat a < space_size 0 s" for a
    using mm_vm_page_table_walk_spec [OF c(2), of a] that by (simp add: c(3,4))
  have same: "mm_vm_page_table_walk root a s' = mm_vm_page_table_walk root a s"
    if "unat a < space_size 0 s" "space ?L roots' (unat a) = space ?L roots (unat a)" for a
    using that by (intro walk_eqI [OF assms(1) c(2) _ c(3,4)])
  have "if ok \<and> unat a \<in> reached begin end ipa_begin
      then map_option unat (mm_vm_page_table_walk root a s') =
             Some (page_floor (unat begin) + (unat a - page_floor (unat ipa_begin))) \<or>
           mm_vm_page_table_walk root a s' = mm_vm_page_table_walk root a s \<and>
           (\<exists>pa. space ?L roots (unat a) = Some (pa, ?x))
      else mm_vm_page_table_walk root a s' = mm_vm_page_table_walk root a s" if a: "unat a < space_size 0 s" for a
    using u [OF a] walk' [OF a] same [OF a] un by (auto simp: remapped_def split: if_splits)
  then show ?thesis using c(1,6) by blast
qed

lemma demo_flags: "mm_mode_to_flags 3 = 0" "(3 :: u32) AND MM_MODE_UNMAPPED_MASK \<noteq> MM_MODE_UNMAPPED_MASK"
  by (simp_all add: mm_mode_to_flags_def mode_defs)

lemma demo_vm_request:
  "vm_request 0x40000000 0x80000000 0x80000000 3 demo_mm = \<lparr>rq_unmap = False, rq_attrs = arch_mm_mode_to_stage2_attrs 3,
     rq_begin = 0x80000000, rq_end = 0xC0000000, rq_pa = 0x40000000\<rparr>"
  by (simp add: vm_request_def demo_flags demo_block_request)

lemma demo_vm_fits:
  "request_fits (vm_request 0x40000000 0x80000000 0x80000000 3 demo_mm)"
  "all_ready (vm_request 0x40000000 0x80000000 0x80000000 3 demo_mm) 2 demo_roots"
  using demo_block_ready by (simp_all add: request_fits_def demo_vm_request)

theorem mm_vm_map_then_walk_witness:
  "\<exists>ipa' s'. mm_vm_map 0x1000 0x40000000 0x80000000 0x80000000 3 0 demo_mm = Inr (True, ipa', s') \<and>
     map_option unat (mm_vm_page_table_walk 0x1000 0x80001234 s') = Some 0x40001234 \<and>
     mm_vm_page_table_walk 0x1000 0x12345 s' = mm_vm_page_table_walk 0x1000 0x12345 demo_mm"
proof -
  obtain ok ipa' s' where c: "mm_vm_map 0x1000 0x40000000 0x80000000 0x80000000 3 0 demo_mm = Inr (ok, ipa', s')"
    "all_ready (vm_request 0x40000000 0x80000000 0x80000000 3 demo_mm) 2 demo_roots \<longrightarrow> ok"
    "\<forall>a. unat a < 2 ^ 39 \<longrightarrow>
       (if ok \<and> 0x80000000 \<le> unat a \<and> unat a < 0xC0000000
        then map_option unat (mm_vm_page_table_walk 0x1000 a s') =
               Some (page_floor (unat (0x40000000 :: u64)) + (unat a - page_floor (unat (0x80000000 :: u64)))) \<or>
             mm_vm_page_table_walk 0x1000 a s' = mm_vm_page_table_walk 0x1000 a demo_mm \<and>
             (\<exists>pa. space 2 demo_roots (unat a) = Some (pa, arch_mm_mode_to_stage2_attrs 3))
        else mm_vm_page_table_walk 0x1000 a s' = mm_vm_page_table_walk 0x1000 a demo_mm)"
    using mm_vm_map_then_walk [OF demo_ptable demo_block_args(2) demo_vm_fits(1) demo_flags(2)]
    unfolding demo_size demo_reached by blast
  then have ok: ok using demo_vm_fits(2) by blast
  have "map_option unat (mm_vm_page_table_walk 0x1000 0x80001234 s') = Some 0x40001234"
    using c(3) [rule_format, of "0x80001234"] ok demo_unmapped [of "0x80001234"] by (simp add: page_floor_def)
  moreover have "mm_vm_page_table_walk 0x1000 0x12345 s' = mm_vm_page_table_walk 0x1000 0x12345 demo_mm"
    using c(3) [rule_format, of "0x12345"] by simp
  moreover have "Inr (ok, ipa', s') = Inr (True, ipa', s')" using ok by simp
  ultimately show ?thesis using c(1) by metis
qed

text \<open>C6. What was mapped with a mode reads back as that mode: after a successful \<open>mm_vm_map\<close>,
  \<open>mm_vm_get_mode\<close> on any non-empty page range inside the request returns the seven mode bits of the call.\<close>

theorem mm_vm_map_then_get_mode:
  assumes "ptable_ok 0 s root roots p qs fl" "request_fits r"
    and "r = vm_request begin end ipa_begin mode s" "mode AND MM_MODE_UNMAPPED_MASK \<noteq> MM_MODE_UNMAPPED_MASK"
    and "rq_begin r \<le> unat (mm_round_down_to_page b)" "unat (mm_round_up_to_page e) \<le> rq_end r"
    and "unat (mm_round_down_to_page b) < unat (mm_round_up_to_page e)"
  shows "\<exists>ok ipa' s'. mm_vm_map root begin end ipa_begin mode p s = Inr (ok, ipa', s') \<and>
    (ok \<longrightarrow> mm_vm_get_mode root b e s' = Inr (Some (mode AND 0x7F)))"
proof -
  let ?L = "mm_max_level 0 s" and ?x = "arch_mm_mode_to_stage2_attrs mode"
  obtain ok s' roots' fl' where c: "mm_vm_map root begin end ipa_begin mode p s = Inr (ok, if ok then Some begin else None, s')"
    "ptable_ok 0 s' root roots' p qs fl'" "space_size 0 s' = space_size 0 s" "mm_max_level 0 s' = ?L"
    "updates r ok (space_size 0 s) (space ?L roots) (space ?L roots')"
    using mm_vm_map_spec [OF assms(1) assms(2) [unfolded assms(3)] assms(3)] by blast
  have un: "\<not> rq_unmap r" using assms(4) by (simp add: assms(3) vm_request_unmap)
  have ra: "rq_attrs r = ?x" by (simp add: assms(3) vm_request_def ptable_request_def)
  have "mm_vm_get_mode root b e s' = Inr (Some (mode AND 0x7F))" if ok
  proof -
    have at: "attr_of (space ?L roots' a) = ?x"
      if a: "a \<in> {unat (mm_round_down_to_page b)..<unat (mm_round_up_to_page e)}" for a
    proof -
      have r: "in_req r a" using a assms(5,6) by (simp add: in_req_def)
      have "a < space_size 0 s" using vm_request_end r unfolding assms(3) by blast
      then have "installed r a (space ?L roots a) (space ?L roots' a)" using c(5) \<open>ok\<close> r by (auto simp: updates_def)
      then show ?thesis using un ra by (auto simp: installed_def attr_of_def)
    qed
    have "rq_end r \<le> space_size 0 s"
      by (simp add: assms(3) vm_request_def ptable_request_def stage2_flags(2) [OF mode_flags_stage2])
    then have "unat (mm_round_up_to_page e) \<le> space_size 0 s" using assms(6) by simp
    then have "mm_vm_get_attrs root b e s' = Inr (Some ?x)"
      using mm_vm_get_attrs_spec [OF c(2), of b e] at assms(7) by (auto simp: c(3,4))
    then show ?thesis by (simp add: mm_vm_get_mode_def stage2_attrs_round_trip)
  qed
  then show ?thesis using c(1) by blast
qed

theorem mm_vm_map_then_get_mode_witness:
  "\<exists>ipa' s'. mm_vm_map 0x1000 0x40000000 0x80000000 0x80000000 3 0 demo_mm = Inr (True, ipa', s') \<and>
     mm_vm_get_mode 0x1000 0x80000800 0x80001800 s' = Inr (Some 3)"
proof -
  have r: "unat (mm_round_down_to_page 0x80000800) = 0x80000000" "unat (mm_round_up_to_page 0x80001800) = 0x80002000"
    by (simp_all add: mm_round_up_to_page_def mm_round_down_to_page_def PAGE_SIZE_def PAGE_BITS_def push_bit_eq_mult)
  have m: "(3 :: u32) AND 0x7F = 3" by simp
  obtain ok ipa' s' where c: "mm_vm_map 0x1000 0x40000000 0x80000000 0x80000000 3 0 demo_mm = Inr (ok, ipa', s')"
    "ok \<longrightarrow> mm_vm_get_mode 0x1000 0x80000800 0x80001800 s' = Inr (Some (3 AND 0x7F))"
    using mm_vm_map_then_get_mode [OF demo_ptable demo_vm_fits(1) refl demo_flags(2), of "0x80000800" "0x80001800"]
    unfolding r demo_vm_request by auto
  have "mm_vm_map 0x1000 0x40000000 0x80000000 0x80000000 3 0 demo_mm = Inr (True, ipa', s')"
    using mm_vm_map_spec [OF demo_ptable demo_vm_fits(1) refl] demo_vm_fits(2) c(1) by (auto simp: demo_size)
  then show ?thesis using c unfolding m by auto
qed

text \<open>C7. After a successful \<open>mm_vm_unmap\<close> no reached address is translated any more, and every other
  address is translated as before; a call that fails changes nothing, and one that needs no new table
  succeeds. For a page-aligned \<open>begin\<close> the reached addresses are those of the pages that contain the range
  from \<open>begin\<close> to \<open>end\<close>. For any other \<open>begin\<close> they are those of the pages that contain the range from
  \<open>begin\<close> to \<open>end\<close> plus the offset of \<open>begin\<close> in its page, which may be one page more.\<close>

theorem mm_vm_unmap_removes:
  assumes "ptable_ok 0 s root roots p qs fl" "range_ok begin end begin"
    and "request_fits (vm_request begin end begin MM_MODE_UNMAPPED_MASK s)"
  shows "\<exists>ok s'. mm_vm_unmap root begin end p s = Inr (ok, s') \<and>
    (all_ready (vm_request begin end begin MM_MODE_UNMAPPED_MASK s) (mm_max_level 0 s) roots \<longrightarrow> ok) \<and>
    (\<forall>a. unat a < space_size 0 s \<longrightarrow> mm_vm_page_table_walk root a s' =
       (if ok \<and> unat a \<in> containing_pages (unat begin) (unat end + unat begin mod 4096) then None
        else mm_vm_page_table_walk root a s))"
proof -
  let ?L = "mm_max_level 0 s" and ?f = "mm_mode_to_flags MM_MODE_UNMAPPED_MASK"
  let ?r = "vm_request begin end begin MM_MODE_UNMAPPED_MASK s"
  obtain ok s' roots' fl' where c:
    "mm_vm_map root begin end begin MM_MODE_UNMAPPED_MASK p s = Inr (ok, if ok then Some begin else None, s')"
    "ptable_ok 0 s' root roots' p qs fl'" "space_size 0 s' = space_size 0 s" "mm_max_level 0 s' = ?L"
    "updates ?r ok (space_size 0 s) (space ?L roots) (space ?L roots')" "all_ready ?r ?L roots \<longrightarrow> ok"
    using mm_vm_map_spec [OF assms(1,3) refl] by blast
  have sz: "space_size ?f s = space_size 0 s" by (rule stage2_flags(2) [OF mode_flags_stage2])
  have un: "?f AND MM_FLAG_UNMAP \<noteq> 0" using mode_flags_unmap [of MM_MODE_UNMAPPED_MASK] by simp
  have re: "reached begin end begin = containing_pages (unat begin) (unat end + unat begin mod 4096)"
    using assms(2) by (simp add: reached_def range_ok_def)
  have u: "if ok \<and> unat a \<in> reached begin end begin then space ?L roots' (unat a) = None
      else space ?L roots' (unat a) = space ?L roots (unat a)" if "unat a < space_size 0 s" for a
    using updates_reached [OF assms(2) c(5) [unfolded vm_request_def sz [symmetric]], of "unat a"] that un
    by (auto simp: sz remapped_def split: if_splits)
  have "mm_vm_page_table_walk root a s' = None" if "unat a < space_size 0 s" "ok" "unat a \<in> reached begin end begin" for a
    using mm_vm_page_table_walk_spec [OF c(2), of a] u [of a] that by (simp add: c(3,4))
  moreover have "mm_vm_page_table_walk root a s' = mm_vm_page_table_walk root a s"
    if "unat a < space_size 0 s" "\<not> (ok \<and> unat a \<in> reached begin end begin)" for a
    using that u [of a] by (intro walk_eqI [OF assms(1) c(2) _ c(3,4)]) (auto split: if_splits)
  ultimately show ?thesis using c(1,6) unfolding re
    by (intro exI [of _ ok] exI [of _ s']) (auto simp: mm_vm_unmap_def)
qed

text \<open>The instance unmaps 1 GiB of an empty table.\<close>

theorem mm_vm_unmap_removes_witness:
  "\<exists>s'. mm_vm_unmap 0x1000 0x40000000 0x80000000 0 demo_mm = Inr (True, s') \<and>
     mm_vm_page_table_walk 0x1000 0x40006123 s' = None"
proof -
  let ?r = "vm_request 0x40000000 0x80000000 0x40000000 MM_MODE_UNMAPPED_MASK demo_mm"
  have e: "rq_begin ?r = 0x40000000" "rq_end ?r = 0x80000000" "rq_pa ?r = 0x40000000"
    unfolding vm_request_def ptable_request_def stage2_flags(2) [OF mode_flags_stage2] demo_size
    by (simp_all add: arch_mm_clear_pa_def pte_addr_def pte_masks mm_round_up_to_page_def mm_round_down_to_page_def
        PAGE_SIZE_def PAGE_BITS_def push_bit_eq_mult)
  have "ready ?r 2 (i * 2 ^ 30) (Leaf 0)" for i
    using vm_request_unmap [of "0x40000000" "0x80000000" "0x40000000" MM_MODE_UNMAPPED_MASK demo_mm]
    by (simp add: arch_mm_pte_is_present_def arch_mm_pte_is_valid_def)
  then have rd: "all_ready ?r 2 demo_roots" by (simp add: all_ready_def tready_def esz_def)
  have f: "request_fits ?r" "range_ok 0x40000000 0x80000000 0x40000000" by (simp_all add: request_fits_def e range_ok_def)
  have "0x40006123 \<in> containing_pages 0x40000000 0x80000000"
    by (subst containing_pages_iff) (simp_all add: page_floor_def page_ceil_def)
  then show ?thesis
    using mm_vm_unmap_removes [OF demo_ptable f(2,1)] rd
    by (auto simp: demo_size dest!: spec [of _ "0x40006123"])
qed

section \<open>Ranges that are not page-aligned\<close>

text \<open>A range that starts in the middle of a page may reach one page too far: the page at 0x2000 does not
  contain an address from 0x1800 to 0x2000.\<close>

theorem reached_unaligned: "0x2000 \<in> reached 0x1800 0x2000 0x1800 \<and> 0x2000 \<notin> containing_pages 0x1800 0x2000"
  by (simp add: reached_def containing_pages_iff page_floor_def page_ceil_def)

end
