(* ===== verification/Pma.thy ===== *)
theory Pma
  imports Mm
begin

text \<open>
  The allocator of physical memory pages, \<^verbatim>\<open>src/pma.c\<close>. The array \<^verbatim>\<open>pages\<close> has one element per page of
  physical memory, with two bits per identity: the page is assigned to it, and the page is the last
  one of one of its chunks. The array is a list of the state, \<open>pages_addr\<close> its address; every access
  is checked against its length. It is kept apart from \<open>mem\<close>, whose cells hold page-table entries and the links
  of free memory: nothing but this file reads or writes the array. The memory size, a constant of the build, is a field of the state.
  The bookkeeping of used identities for debug output is left out.
\<close>

unbundle bit_operations_syntax

section \<open>State\<close>

record alloc_cache_entry =
  ce_addr :: u64
  ce_begin :: u64
  ce_end :: u64
  ce_page_count :: u64
  ce_owner_ids :: u16

record pma_machine = mm_machine +
  phys_start_address :: u64
  MEMORY_SIZE :: u64
  branch_protection :: bool
  pma_pages :: "u16 list"
  pages_addr :: u64
  pages_spinlock :: bool
  alloc_cache :: "alloc_cache_entry list"
  hypervisor_ptable :: u64
  hypervisor_ppool :: nat

definition PMA_ALIGN_AUTO_PAGE_LVL :: u8 where "PMA_ALIGN_AUTO_PAGE_LVL = 255"

definition PMA_IDENTITY_MAP :: u64 where "PMA_IDENTITY_MAP = 0xDEADDEAD"

definition FAULT_PAGE_NUMBER :: u64 where "FAULT_PAGE_NUMBER = 0"

definition HYPERVISOR_ID :: u8 where "HYPERVISOR_ID = 0"

definition MAX_IDS :: u8 where "MAX_IDS = 8"

definition LAST_PAGE_BITS :: u16 where "LAST_PAGE_BITS = 0xAAAA"

definition PN_TO_PTR :: "u64 \<Rightarrow> 'a pma_machine_scheme \<Rightarrow> u64" where
  "PN_TO_PTR pn s = phys_start_address s + pn * PAGE_SIZE"

definition PTR_TO_PN :: "u64 \<Rightarrow> 'a pma_machine_scheme \<Rightarrow> u64" where
  "PTR_TO_PN ptr s = (ptr - phys_start_address s) div PAGE_SIZE"

definition BYTES_TO_PAGES :: "u64 \<Rightarrow> u64" where
  "BYTES_TO_PAGES bytes = (bytes + PAGE_SIZE - 1) div PAGE_SIZE"

definition PAGES_TO_BYTES :: "u64 \<Rightarrow> u64" where
  "PAGES_TO_BYTES page_count = page_count * PAGE_SIZE"

definition ID_TO_BIT :: "u8 \<Rightarrow> u16" where
  "ID_TO_BIT i = push_bit (unat i * 2) 1"

definition ID_TO_LAST_PAGE_BIT :: "u8 \<Rightarrow> u16" where
  "ID_TO_LAST_PAGE_BIT i = push_bit 1 (ID_TO_BIT i)"

definition PAGE_COUNT :: "'a pma_machine_scheme \<Rightarrow> u64" where
  "PAGE_COUNT s = BYTES_TO_PAGES (MEMORY_SIZE s)"

definition pma_get_fault_ptr :: "'a pma_machine_scheme \<Rightarrow> u64" where
  "pma_get_fault_ptr s = PN_TO_PTR FAULT_PAGE_NUMBER s"

text \<open>Reading and writing \<^verbatim>\<open>pages[i]\<close>.\<close>

definition page_at :: "nat \<Rightarrow> 'a pma_machine_scheme \<Rightarrow> u16 res" where
  "page_at i s = (if i < length (pma_pages s) then Inr (pma_pages s ! i) else Inl OutOfBounds)"

definition set_page :: "nat \<Rightarrow> u16 \<Rightarrow> 'a pma_machine_scheme \<Rightarrow> 'a pma_machine_scheme res" where
  "set_page i v s =
     (if i < length (pma_pages s) then Inr (s\<lparr>pma_pages := (pma_pages s)[i := v]\<rparr>) else Inl OutOfBounds)"

definition pages_lock :: "'a pma_machine_scheme \<Rightarrow> 'a pma_machine_scheme res" where
  "pages_lock s = (if pages_spinlock s then Inl Deadlock else Inr (s\<lparr>pages_spinlock := True\<rparr>))"

definition pages_unlock :: "'a pma_machine_scheme \<Rightarrow> 'a pma_machine_scheme" where
  "pages_unlock s = s\<lparr>pages_spinlock := False\<rparr>"

section \<open>The cache of allocations\<close>

definition PTR_HASH :: "u64 \<Rightarrow> nat" where
  "PTR_HASH x = unat (drop_bit 12 (x AND 0x0FFFFFFF) mod 0x1F)"

definition get_cached :: "u64 \<Rightarrow> 'a pma_machine_scheme \<Rightarrow> alloc_cache_entry option" where
  "get_cached addr s =
     (let entry = alloc_cache s ! PTR_HASH addr in if ce_addr entry = addr then Some entry else None)"

definition add_alloc_cache :: "u64 \<Rightarrow> u64 \<Rightarrow> u64 \<Rightarrow> u64 \<Rightarrow> u8 \<Rightarrow> 'a pma_machine_scheme \<Rightarrow> 'a pma_machine_scheme" where
  "add_alloc_cache addr begin end page_count owner s =
     s\<lparr>alloc_cache := (alloc_cache s)[PTR_HASH addr :=
        \<lparr>ce_addr = addr, ce_begin = begin, ce_end = end, ce_page_count = page_count, ce_owner_ids = ID_TO_BIT owner\<rparr>]\<rparr>"

text \<open>Changing the owners of the entry of an address, where there is one.\<close>

definition cache_owners :: "u64 \<Rightarrow> (u16 \<Rightarrow> u16) \<Rightarrow> 'a pma_machine_scheme \<Rightarrow> 'a pma_machine_scheme" where
  "cache_owners addr f s =
     (case get_cached addr s of
        None \<Rightarrow> s
      | Some entry \<Rightarrow> s\<lparr>alloc_cache := (alloc_cache s)[PTR_HASH addr := entry\<lparr>ce_owner_ids := f (ce_owner_ids entry)\<rparr>]\<rparr>)"

section \<open>Looking at pages\<close>

definition pma_calc_ipa_offset :: "u64 \<Rightarrow> nat \<Rightarrow> u64" where
  "pma_calc_ipa_offset ipa_begin alignment =
     (let align_zeroes_mask = push_bit (alignment + PAGE_BITS) 1 - 1 in
      if ipa_begin = PMA_IDENTITY_MAP \<or> ipa_begin AND align_zeroes_mask = 0 then 0
      else drop_bit PAGE_BITS (ipa_begin AND align_zeroes_mask))"

definition is_restricted :: "u64 \<Rightarrow> 'a pma_machine_scheme \<Rightarrow> bool" where
  "is_restricted pn s \<longleftrightarrow>
     pn = FAULT_PAGE_NUMBER \<or>
     pn \<ge> PTR_TO_PN (pages_addr s) s \<and> pn < PTR_TO_PN (pages_addr s + 2 * PAGE_COUNT s) s"

definition is_valid_id :: "u8 \<Rightarrow> bool" where
  "is_valid_id i \<longleftrightarrow> i < MAX_IDS"

definition is_start_page :: "u64 \<Rightarrow> u8 \<Rightarrow> 'a pma_machine_scheme \<Rightarrow> bool res" where
  "is_start_page pn i s =
     (if pn \<ge> PAGE_COUNT s then Inr False
      else if pn = 0 then Inr True
      else res_bind (page_at (unat pn - 1) s) (\<lambda>v. Inr (v = 0 \<or> v AND ID_TO_LAST_PAGE_BIT i \<noteq> 0)))"

primrec start_page_loop :: "nat \<Rightarrow> u8 \<Rightarrow> 'a pma_machine_scheme \<Rightarrow> nat res" where
  "start_page_loop 0 i s = Inr 0"
| "start_page_loop (Suc k) i s =
     res_bind (page_at k s) (\<lambda>v.
     if v AND ID_TO_BIT i = 0 \<or> v AND ID_TO_LAST_PAGE_BIT i \<noteq> 0 then Inr (Suc k) else start_page_loop k i s)"

definition get_start_page_number :: "u64 \<Rightarrow> u8 \<Rightarrow> 'a pma_machine_scheme \<Rightarrow> u64 res" where
  "get_start_page_number ptr i s =
     (case get_cached ptr s of
        Some entry \<Rightarrow> Inr (ce_begin entry)
      | None \<Rightarrow>
          let pn = PTR_TO_PN ptr s in
          if pn \<ge> PAGE_COUNT s then Inr FAULT_PAGE_NUMBER
          else res_bind (page_at (unat pn) s) (\<lambda>v.
               if v = 0 then Inr FAULT_PAGE_NUMBER
               else res_bind (start_page_loop (unat pn) i s) (\<lambda>k. Inr (word_of_nat k))))"

text \<open>The loops \<^verbatim>\<open>for (i = start; i < PAGE_COUNT; i++)\<close> recurse over the number of iterations left.\<close>

primrec get_size_loop :: "nat \<Rightarrow> nat \<Rightarrow> u8 \<Rightarrow> u64 \<Rightarrow> 'a pma_machine_scheme \<Rightarrow> u64 res" where
  "get_size_loop 0 k i sz s = Inr sz"
| "get_size_loop (Suc n) k i sz s =
     res_bind (page_at k s) (\<lambda>v.
     if v AND ID_TO_LAST_PAGE_BIT i \<noteq> 0 then Inr (sz + 1) else get_size_loop n (Suc k) i (sz + 1) s)"

definition pma_get_size :: "u64 \<Rightarrow> u8 \<Rightarrow> 'a pma_machine_scheme \<Rightarrow> u64 res" where
  "pma_get_size ptr i s =
     (case get_cached ptr s of
        Some entry \<Rightarrow> Inr (PAGES_TO_BYTES (ce_page_count entry))
      | None \<Rightarrow>
          res_bind (get_start_page_number ptr i s) (\<lambda>start_pn.
          if start_pn = FAULT_PAGE_NUMBER then Inr 0
          else res_bind (get_size_loop (unat (PAGE_COUNT s) - unat start_pn) (unat start_pn) i 0 s) (\<lambda>sz.
               Inr (PAGES_TO_BYTES sz))))"

definition pma_get_start :: "u64 \<Rightarrow> u8 \<Rightarrow> 'a pma_machine_scheme \<Rightarrow> u64 res" where
  "pma_get_start ptr i s = res_bind (get_start_page_number ptr i s) (\<lambda>start_pn. Inr (PN_TO_PTR start_pn s))"

text \<open>The loops \<^verbatim>\<open>for (i = start; i <= end; i++)\<close> likewise, over at most \<open>end + 1 - start\<close> iterations.\<close>

primrec is_assigned_loop :: "nat \<Rightarrow> nat \<Rightarrow> u16 \<Rightarrow> 'a pma_machine_scheme \<Rightarrow> bool res" where
  "is_assigned_loop 0 k id_bit s = Inr True"
| "is_assigned_loop (Suc n) k id_bit s =
     res_bind (page_at k s) (\<lambda>v.
     if v AND id_bit = 0 then Inr False else is_assigned_loop n (Suc k) id_bit s)"

definition pma_is_assigned :: "u64 \<Rightarrow> u64 \<Rightarrow> u8 \<Rightarrow> 'a pma_machine_scheme \<Rightarrow> bool res" where
  "pma_is_assigned ptr sz i s =
     (case get_cached ptr s of
        Some entry \<Rightarrow> Inr (ce_owner_ids entry AND ID_TO_BIT i \<noteq> 0)
      | None \<Rightarrow>
          let start_pn = PTR_TO_PN ptr s; end_pn = PTR_TO_PN (ptr + sz - 1) s in
          if start_pn = FAULT_PAGE_NUMBER \<or> \<not> is_valid_id i then Inr False
          else is_assigned_loop (Suc (unat end_pn) - unat start_pn) (unat start_pn) (ID_TO_BIT i) s)"

section \<open>Mapping\<close>

definition map_memory ::
  "u64 \<Rightarrow> u64 \<Rightarrow> u64 \<Rightarrow> u64 \<Rightarrow> u32 \<Rightarrow> u8 \<Rightarrow> nat \<Rightarrow> 'a pma_machine_scheme \<Rightarrow> (u64 \<times> 'a pma_machine_scheme) res" where
  "map_memory p ipa_begin start_pn end_pn mode i ppool s =
     (if i = HYPERVISOR_ID
      then res_bind (mm_identity_map_ptable (branch_protection s) p (PN_TO_PTR start_pn s) (PN_TO_PTR (end_pn + 1) s)
                       mode ppool s) (\<lambda>(r, s1).
           if r \<noteq> PN_TO_PTR start_pn s then Inr (PN_TO_PTR FAULT_PAGE_NUMBER s1, s1)
           else Inr (PN_TO_PTR start_pn s1, s1))
      else res_bind (mm_vm_prepare p ipa_begin (PN_TO_PTR start_pn s) (PN_TO_PTR (end_pn + 1) s) mode ppool s) (\<lambda>(ok, s1).
           if \<not> ok then Inr (PN_TO_PTR FAULT_PAGE_NUMBER s1, s1)
           else res_bind (mm_vm_commit p ipa_begin (PN_TO_PTR start_pn s1) (PN_TO_PTR (end_pn + 1) s1) mode ppool s1)
                  (\<lambda>(_, s2). Inr (PN_TO_PTR start_pn s2, s2))))"

definition unmap_memory ::
  "u64 \<Rightarrow> u64 \<Rightarrow> u64 \<Rightarrow> u8 \<Rightarrow> nat \<Rightarrow> 'a pma_machine_scheme \<Rightarrow> (u64 \<times> 'a pma_machine_scheme) res" where
  "unmap_memory p start_pn end_pn i ppool s =
     map_memory p (PN_TO_PTR start_pn s) start_pn end_pn MM_MODE_UNMAPPED_MASK i ppool s"

section \<open>Reserving and releasing\<close>

text \<open>The loop that resets the pages reserved so far, \<^verbatim>\<open>for (j = i - 1; j >= start_pn; j--)\<close>; the first
  argument is \<open>j + 1\<close>. For \<open>start_pn = 0\<close> the condition always holds: \<open>j\<close> wraps around after 0.\<close>

primrec reserve_undo :: "nat \<Rightarrow> nat \<Rightarrow> 'a pma_machine_scheme \<Rightarrow> 'a pma_machine_scheme res" where
  "reserve_undo 0 start_pn s = (if start_pn = 0 then Inl OutOfBounds else Inr s)"
| "reserve_undo (Suc j) start_pn s =
     (if start_pn \<le> j then res_bind (set_page j 0 s) (reserve_undo j start_pn) else Inr s)"

primrec reserve_loop ::
  "nat \<Rightarrow> nat \<Rightarrow> nat \<Rightarrow> nat \<Rightarrow> u8 \<Rightarrow> 'a pma_machine_scheme \<Rightarrow> (bool \<times> 'a pma_machine_scheme) res" where
  "reserve_loop 0 k start_pn end_pn i s = Inr (True, s)"
| "reserve_loop (Suc n) k start_pn end_pn i s =
     res_bind (page_at k s) (\<lambda>v.
     if v = 0
     then res_bind (set_page k (ID_TO_BIT i) s) (\<lambda>s1.
          if k = end_pn
          then res_bind (pages_lock s1) (\<lambda>s2.
               res_bind (page_at k s2) (\<lambda>w.
               res_bind (set_page k (w OR ID_TO_LAST_PAGE_BIT i) s2) (\<lambda>s3.
               reserve_loop n (Suc k) start_pn end_pn i (pages_unlock s3))))
          else reserve_loop n (Suc k) start_pn end_pn i s1)
     else res_bind (pages_lock s) (\<lambda>s1.
          res_bind (reserve_undo k start_pn s1) (\<lambda>s2. Inr (False, pages_unlock s2))))"

definition pma_reserve_memory ::
  "u64 \<Rightarrow> u64 \<Rightarrow> u8 \<Rightarrow> 'a pma_machine_scheme \<Rightarrow> (bool \<times> 'a pma_machine_scheme) res" where
  "pma_reserve_memory begin end i s =
     (let start_pn = PTR_TO_PN begin s; end_pn = PTR_TO_PN (end - 1) s in
      if begin < phys_start_address s \<or> start_pn \<ge> PAGE_COUNT s then Inr (False, s)
      else if end_pn > PAGE_COUNT s then Inr (False, s)
      else reserve_loop (Suc (unat end_pn) - unat start_pn) (unat start_pn) (unat start_pn) (unat end_pn) i s)"

primrec release_loop :: "nat \<Rightarrow> nat \<Rightarrow> u8 \<Rightarrow> 'a pma_machine_scheme \<Rightarrow> 'a pma_machine_scheme res" where
  "release_loop 0 k i s = Inr s"
| "release_loop (Suc n) k i s =
     res_bind (page_at k s) (\<lambda>v.
     if v AND ID_TO_BIT i \<noteq> 0
     then res_bind (pages_lock s) (\<lambda>s1.
          res_bind (set_page k (v AND NOT (ID_TO_BIT i)) s1) (\<lambda>s2.
          let s3 = pages_unlock s2 in
          res_bind (page_at k s3) (\<lambda>w.
          if w AND ID_TO_LAST_PAGE_BIT i \<noteq> 0
          then res_bind (set_page k (w AND NOT (ID_TO_LAST_PAGE_BIT i)) s3) (release_loop n (Suc k) i)
          else release_loop n (Suc k) i s3)))
     else release_loop n (Suc k) i s)"

definition pma_release_memory ::
  "u64 \<Rightarrow> u64 \<Rightarrow> u8 \<Rightarrow> 'a pma_machine_scheme \<Rightarrow> (bool \<times> 'a pma_machine_scheme) res" where
  "pma_release_memory begin end i s =
     (let start_pn = PTR_TO_PN begin s; end_pn = PTR_TO_PN (end - 1) s in
      if begin < phys_start_address s then Inr (False, s)
      else if start_pn \<ge> PAGE_COUNT s then Inr (False, s)
      else if end_pn > PAGE_COUNT s then Inr (False, s)
      else res_bind (page_at (unat end_pn) s) (\<lambda>_.
           res_bind
             (if start_pn > 0
              then res_bind (page_at (unat start_pn - 1) s) (\<lambda>v.
                   if v AND ID_TO_BIT i \<noteq> 0
                   then res_bind (pages_lock s) (\<lambda>s1.
                        res_bind (set_page (unat start_pn - 1) (v OR ID_TO_LAST_PAGE_BIT i) s1) (\<lambda>s2.
                        Inr (pages_unlock s2)))
                   else Inr s)
              else Inr s) (\<lambda>s1.
           res_bind (release_loop (Suc (unat end_pn) - unat start_pn) (unat start_pn) i s1) (\<lambda>s2.
           Inr (True, s2)))))"

section \<open>Allocating\<close>

text \<open>\<^verbatim>\<open>1 << n\<close> in the type \<^verbatim>\<open>int\<close>; for 31 and more its value is not defined.\<close>

definition int_shl1 :: "nat \<Rightarrow> u64 res" where
  "int_shl1 n = (if n < 31 then Inr (push_bit n 1) else Inl OutOfBounds)"

text \<open>The alignment for \<open>PMA_ALIGN_AUTO_PAGE_LVL\<close>; the list is \<^verbatim>\<open>lvl = 1\<close> to the largest level.\<close>

primrec auto_alignment :: "u64 \<Rightarrow> u64 \<Rightarrow> nat \<Rightarrow> nat list \<Rightarrow> nat" where
  "auto_alignment ipa_begin sz alignment [] = alignment"
| "auto_alignment ipa_begin sz alignment (lvl # lvls) =
     (let al = lvl * PAGE_LEVEL_BITS; align_offset = pma_calc_ipa_offset ipa_begin al in
      if sz < mm_entry_size lvl \<or>
         align_offset > 0 \<and> sz < mm_entry_size lvl + PAGE_SIZE * (push_bit al 1 - align_offset)
      then (lvl - 1) * PAGE_LEVEL_BITS
      else auto_alignment ipa_begin sz al lvls)"

text \<open>The search for free pages. Result: \<open>start_pn\<close> and \<open>page_count\<close>.\<close>

function alloc_search ::
  "nat \<Rightarrow> nat \<Rightarrow> nat \<Rightarrow> nat \<Rightarrow> nat \<Rightarrow> nat \<Rightarrow> nat \<Rightarrow> 'a pma_machine_scheme \<Rightarrow> (nat \<times> nat) res" where
  "alloc_search pc need alignment align_offset k start_pn page_count s =
     (if k < pc
      then res_bind (page_at k s) (\<lambda>v.
           if v = 0
           then if Suc page_count \<ge> need then Inr (start_pn, Suc page_count)
                else alloc_search pc need alignment align_offset (Suc k) start_pn (Suc page_count) s
           else if alignment > 0
           then res_bind (int_shl1 alignment) (\<lambda>unit.
                let align_incr = unat unit - Suc k mod unat unit
                in alloc_search pc need alignment align_offset (Suc k + align_incr + align_offset)
                     (Suc k + align_incr + align_offset) 0 s)
           else alloc_search pc need alignment align_offset (Suc k) (Suc k) 0 s)
      else Inr (start_pn, page_count))"
  by pat_completeness auto
termination by (relation "measure (\<lambda>(pc, need, al, off, k, st, cnt, s). pc - k)") auto

declare alloc_search.simps [simp del]

primrec mark_pages :: "nat \<Rightarrow> nat \<Rightarrow> u16 \<Rightarrow> 'a pma_machine_scheme \<Rightarrow> 'a pma_machine_scheme res" where
  "mark_pages 0 k v s = Inr s"
| "mark_pages (Suc n) k v s = res_bind (set_page k v s) (mark_pages n (Suc k) v)"

definition pma_aligned_alloc ::
  "u64 \<Rightarrow> u64 \<Rightarrow> u64 \<Rightarrow> u8 \<Rightarrow> u32 \<Rightarrow> u8 \<Rightarrow> nat \<Rightarrow> 'a pma_machine_scheme \<Rightarrow> (u64 \<times> 'a pma_machine_scheme) res" where
  "pma_aligned_alloc p ipa_begin sz alignment mode i ppool s =
     (if sz \<le> 0 then Inr (PN_TO_PTR FAULT_PAGE_NUMBER s, s)
      else if sz > MEMORY_SIZE s then Inr (PN_TO_PTR FAULT_PAGE_NUMBER s, s)
      else if \<not> is_valid_id i then Inr (PN_TO_PTR FAULT_PAGE_NUMBER s, s)
      else
        let al = (if alignment = PMA_ALIGN_AUTO_PAGE_LVL
                  then auto_alignment ipa_begin sz 0 [1..<Suc (mm_s2_max_level s)] else unat alignment);
            need = unat (BYTES_TO_PAGES sz)
        in res_bind (alloc_search (unat (PAGE_COUNT s)) need al (unat (pma_calc_ipa_offset ipa_begin al)) 0 0 0 s)
             (\<lambda>(start_pn, page_count).
           if start_pn \<ge> unat (PAGE_COUNT s) \<or> page_count < need then Inr (PN_TO_PTR FAULT_PAGE_NUMBER s, s)
           else
             let end_pn = start_pn + page_count - 1 in
             res_bind (pages_lock s) (\<lambda>s1.
             res_bind (mark_pages page_count start_pn (ID_TO_BIT i) s1) (\<lambda>s2.
             res_bind (mark_pages page_count start_pn (ID_TO_BIT i) s2) (\<lambda>s3.
             res_bind (page_at end_pn s3) (\<lambda>v.
             res_bind (set_page end_pn (v OR ID_TO_LAST_PAGE_BIT i) s3) (\<lambda>s4.
             let s5 = pages_unlock s4;
                 ipa = (if ipa_begin = PMA_IDENTITY_MAP then PN_TO_PTR (word_of_nat start_pn) s5 else ipa_begin)
             in res_bind (map_memory p ipa (word_of_nat start_pn) (word_of_nat end_pn) mode i ppool s5) (\<lambda>(ret, s6).
                Inr (ret, add_alloc_cache ret (word_of_nat start_pn) (word_of_nat end_pn) (word_of_nat page_count) i s6)))))))))"

definition pma_alloc ::
  "u64 \<Rightarrow> u64 \<Rightarrow> u64 \<Rightarrow> u32 \<Rightarrow> u8 \<Rightarrow> nat \<Rightarrow> 'a pma_machine_scheme \<Rightarrow> (u64 \<times> 'a pma_machine_scheme) res" where
  "pma_alloc p ipa_begin sz mode i ppool s = pma_aligned_alloc p ipa_begin sz 0 mode i ppool s"

definition pma_update_pool :: "nat \<Rightarrow> 'a pma_machine_scheme \<Rightarrow> 'a pma_machine_scheme" where
  "pma_update_pool ppool s = s\<lparr>hypervisor_ppool := ppool\<rparr>"

text \<open>The split sizes are multiples of a page only where \<open>sz\<close> is; the number of splits bounds the recursion.\<close>

definition split_1_size :: "u64 \<Rightarrow> u64" where
  "split_1_size sz =
     (if sz AND push_bit PAGE_BITS 1 \<noteq> 0
      then (drop_bit 1 sz AND NOT (PAGE_SIZE - 1)) + push_bit PAGE_BITS 1
      else drop_bit 1 sz AND NOT (PAGE_SIZE - 1))"

primrec pma_aligned_alloc_with_split ::
  "nat \<Rightarrow> u64 \<Rightarrow> u64 \<Rightarrow> u64 \<Rightarrow> u8 \<Rightarrow> u32 \<Rightarrow> u8 \<Rightarrow> nat \<Rightarrow> 'a pma_machine_scheme \<Rightarrow> (u64 \<times> 'a pma_machine_scheme) res" where
  "pma_aligned_alloc_with_split 0 p ipa_begin sz alignment mode i ppool s =
     pma_aligned_alloc p ipa_begin sz alignment mode i ppool s"
| "pma_aligned_alloc_with_split (Suc max_splits) p ipa_begin sz alignment mode i ppool s =
     res_bind (pma_aligned_alloc p ipa_begin sz alignment mode i ppool s) (\<lambda>(ret, s1).
     if ret = PN_TO_PTR FAULT_PAGE_NUMBER s1 \<and> sz > PAGE_SIZE
     then
       let split_2_size = sz - split_1_size sz;
           split_2_ipa_begin = ipa_begin + split_1_size sz
       in res_bind (pma_aligned_alloc_with_split max_splits p ipa_begin (split_1_size sz) alignment mode i ppool s1)
            (\<lambda>(ret1, s2).
          if ret1 = PN_TO_PTR FAULT_PAGE_NUMBER s2 then Inr (ret1, s2)
          else pma_aligned_alloc_with_split max_splits p split_2_ipa_begin split_2_size alignment mode i ppool s2)
     else Inr (ret, s1))"

section \<open>Assigning and freeing\<close>

primrec assign_loop :: "nat \<Rightarrow> nat \<Rightarrow> u16 \<Rightarrow> 'a pma_machine_scheme \<Rightarrow> 'a pma_machine_scheme res" where
  "assign_loop 0 k id_bit s = Inr s"
| "assign_loop (Suc n) k id_bit s =
     res_bind (page_at k s) (\<lambda>v.
     res_bind (set_page k (v OR id_bit) s) (assign_loop n (Suc k) id_bit))"

definition pma_assign ::
  "u64 \<Rightarrow> u64 \<Rightarrow> u64 \<Rightarrow> u64 \<Rightarrow> u32 \<Rightarrow> u8 \<Rightarrow> nat \<Rightarrow> 'a pma_machine_scheme \<Rightarrow> (bool \<times> 'a pma_machine_scheme) res" where
  "pma_assign p ptr ipa_begin sz mode i ppool s =
     (let id_bit = ID_TO_BIT i; start_pn = PTR_TO_PN ptr s; end_pn = PTR_TO_PN (ptr + sz - 1) s in
      if \<not> is_valid_id i then Inr (False, s)
      else if sz > MEMORY_SIZE s then Inr (False, s)
      else if i = HYPERVISOR_ID \<and> ipa_begin \<noteq> PMA_IDENTITY_MAP then Inr (False, s)
      else if start_pn > PAGE_COUNT s then Inr (False, s)
      else if is_restricted start_pn s then Inr (False, s)
      else res_bind (page_at (unat start_pn) s) (\<lambda>v.
        if v = 0 then Inr (False, s)
        else if v AND id_bit \<noteq> 0 then Inr (True, s)
        else
          res_bind (pages_lock s) (\<lambda>s1.
          res_bind (assign_loop (Suc (unat end_pn) - unat start_pn) (unat start_pn) id_bit s1) (\<lambda>s2.
          res_bind (page_at (unat end_pn) s2) (\<lambda>w.
          res_bind (set_page (unat end_pn) (w OR ID_TO_LAST_PAGE_BIT i) s2) (\<lambda>s3.
          res_bind (map_memory p ipa_begin start_pn end_pn mode i ppool (pages_unlock s3)) (\<lambda>(r, s4).
          if r = PN_TO_PTR FAULT_PAGE_NUMBER s4 then Inr (False, s4)
          else Inr (True, cache_owners ptr (\<lambda>ids. ids OR ID_TO_BIT i) s4))))))))"

text \<open>The result is the number of the last page; 0 if no last page was found.\<close>

primrec free_loop :: "nat \<Rightarrow> nat \<Rightarrow> u8 \<Rightarrow> 'a pma_machine_scheme \<Rightarrow> (nat \<times> 'a pma_machine_scheme) res" where
  "free_loop 0 k i s = Inr (0, s)"
| "free_loop (Suc n) k i s =
     res_bind (page_at k s) (\<lambda>v.
     res_bind (set_page k (v AND NOT (ID_TO_BIT i)) s) (\<lambda>s1.
     res_bind (page_at k s1) (\<lambda>w.
     if w AND ID_TO_LAST_PAGE_BIT i \<noteq> 0
     then res_bind (set_page k (w AND NOT (ID_TO_LAST_PAGE_BIT i)) s1) (\<lambda>s2. Inr (k, s2))
     else free_loop n (Suc k) i s1)))"

definition pma_free :: "u64 \<Rightarrow> u64 \<Rightarrow> u8 \<Rightarrow> nat \<Rightarrow> 'a pma_machine_scheme \<Rightarrow> (bool \<times> 'a pma_machine_scheme) res" where
  "pma_free p ptr i ppool s =
     (if \<not> is_valid_id i then Inr (False, s)
      else res_bind (get_start_page_number ptr i s) (\<lambda>start_pn.
        if is_restricted start_pn s then Inr (False, s)
        else res_bind (page_at (unat start_pn) s) (\<lambda>v.
          if v = 0 then Inr (False, s)
          else if v AND ID_TO_BIT i = 0 then Inr (False, s)
          else
            let s1 = cache_owners ptr (\<lambda>ids. ids AND NOT (ID_TO_BIT i)) s in
            res_bind (pages_lock s1) (\<lambda>s2.
            res_bind (free_loop (unat (PAGE_COUNT s2) - unat start_pn) (unat start_pn) i s2) (\<lambda>(end_pn, s3).
            let s4 = pages_unlock s3 in
            res_bind (unmap_memory p start_pn (word_of_nat end_pn) i ppool s4) (\<lambda>(r, s5).
            Inr (r \<noteq> PN_TO_PTR FAULT_PAGE_NUMBER s5, s5)))))))"

section \<open>The hypervisor's own memory\<close>

definition pma_hypervisor_assign :: "u64 \<Rightarrow> u64 \<Rightarrow> u32 \<Rightarrow> 'a pma_machine_scheme \<Rightarrow> (bool \<times> 'a pma_machine_scheme) res" where
  "pma_hypervisor_assign ptr sz mode s =
     pma_assign (hypervisor_ptable s) ptr PMA_IDENTITY_MAP sz mode HYPERVISOR_ID (hypervisor_ppool s) s"

definition pma_hypervisor_free :: "u64 \<Rightarrow> 'a pma_machine_scheme \<Rightarrow> (bool \<times> 'a pma_machine_scheme) res" where
  "pma_hypervisor_free ptr s = pma_free (hypervisor_ptable s) ptr HYPERVISOR_ID (hypervisor_ppool s) s"

text \<open>Zeroing the bytes from \<open>ptr\<close> to \<open>ptr + n\<close>: byte \<open>k\<close> of the cell at \<open>a\<close> has the address \<open>a + k\<close>.\<close>

definition zero_bytes :: "u64 \<Rightarrow> u64 \<Rightarrow> (u64 \<Rightarrow> u64) \<Rightarrow> u64 \<Rightarrow> u64" where
  "zero_bytes ptr n m a =
     fold (\<lambda>k v. if a + word_of_nat k - ptr < n then v AND NOT (push_bit (8 * k) 0xFF) else v) [0..<8] (m a)"

definition pma_hypervisor_alloc :: "u64 \<Rightarrow> u32 \<Rightarrow> 'a pma_machine_scheme \<Rightarrow> (u64 \<times> 'a pma_machine_scheme) res" where
  "pma_hypervisor_alloc sz mode s =
     res_bind (pma_aligned_alloc (hypervisor_ptable s) PMA_IDENTITY_MAP sz 0 mode HYPERVISOR_ID (hypervisor_ppool s) s)
       (\<lambda>(ptr, s1).
     if ptr = 0 \<or> unat sz > RSIZE_MAX then Inl Panic else Inr (ptr, s1\<lparr>mem := zero_bytes ptr sz (mem s1)\<rparr>))"

text \<open>\<open>data_end\<close> is the address \<^verbatim>\<open>layout_data_end()\<close>; \<open>root\<close> the table of the locked stage 1. Where the array could not
  be mapped, \<^verbatim>\<open>memset_unsafe\<close> writes through the null pointer.\<close>

definition pma_init ::
  "u64 \<Rightarrow> u64 \<Rightarrow> nat \<Rightarrow> 'a pma_machine_scheme \<Rightarrow> (bool \<times> 'a pma_machine_scheme) res" where
  "pma_init data_end root ppool s =
     (let s1 = s\<lparr>pages_spinlock := False\<rparr> in
      res_bind (mm_identity_map (branch_protection s1) root data_end (data_end + 2 * PAGE_COUNT s1)
                  (MM_MODE_R OR MM_MODE_W) ppool s1) (\<lambda>(r, s2).
      if r = 0 then Inl NullPointer
      else
        let s3 = s2\<lparr>pages_addr := r, pma_pages := replicate (unat (PAGE_COUNT s2)) 0\<rparr> in
        res_bind (pma_reserve_memory r (r + 2 * (PAGE_COUNT s3 + 1)) HYPERVISOR_ID s3) (\<lambda>(result, s4).
        res_bind (set_page (unat FAULT_PAGE_NUMBER) (ID_TO_LAST_PAGE_BIT HYPERVISOR_ID OR ID_TO_BIT HYPERVISOR_ID) s4) (\<lambda>s5.
        res_bind (mm_identity_map (branch_protection s5) root (PN_TO_PTR FAULT_PAGE_NUMBER s5)
                    (PN_TO_PTR FAULT_PAGE_NUMBER s5 + PAGE_SIZE) 0 ppool s5) (\<lambda>(_, s6).
        Inr (result, s6\<lparr>hypervisor_ppool := ppool, hypervisor_ptable := root\<rparr>))))))"

end
