(* ===== verification/Pma_Pages.thy ===== *)
theory Pma_Pages
  imports Pma Mm_Contract
begin

text \<open>
  The array of page states: what the loops of \<^verbatim>\<open>src/pma.c\<close> do to it, as updates of ranges of
  elements, and that the page-table operations leave the allocator's state alone.
\<close>

section \<open>Identities\<close>

lemma valid_id_cases:
  assumes "is_valid_id i"
  obtains "i = 0" | "i = 1" | "i = 2" | "i = 3" | "i = 4" | "i = 5" | "i = 6" | "i = 7"
proof -
  have "unat i < 8" using assms by (simp add: is_valid_id_def MAX_IDS_def word_less_nat_alt)
  then have "unat i = unat (0 :: u8) \<or> unat i = unat (1 :: u8) \<or> unat i = unat (2 :: u8) \<or> unat i = unat (3 :: u8) \<or>
      unat i = unat (4 :: u8) \<or> unat i = unat (5 :: u8) \<or> unat i = unat (6 :: u8) \<or> unat i = unat (7 :: u8)"
    by simp presburger
  then show thesis unfolding word_unat_eq_iff [symmetric] using that by blast
qed

lemma id_bits:
  assumes "is_valid_id i"
  shows "ID_TO_BIT i \<noteq> 0" "ID_TO_LAST_PAGE_BIT i \<noteq> 0" "ID_TO_BIT i AND ID_TO_LAST_PAGE_BIT i = 0"
    "(ID_TO_BIT i OR ID_TO_LAST_PAGE_BIT i) AND NOT (ID_TO_BIT i) = ID_TO_LAST_PAGE_BIT i"
    "(ID_TO_BIT i OR ID_TO_LAST_PAGE_BIT i) AND ID_TO_BIT i = ID_TO_BIT i"
    "(ID_TO_BIT i OR ID_TO_LAST_PAGE_BIT i) AND ID_TO_LAST_PAGE_BIT i = ID_TO_LAST_PAGE_BIT i"
  using assms by (cases rule: valid_id_cases; simp add: ID_TO_LAST_PAGE_BIT_def ID_TO_BIT_def)+

section \<open>Ranges of the array\<close>

definition upd_range :: "nat \<Rightarrow> nat \<Rightarrow> (nat \<Rightarrow> u16 \<Rightarrow> u16) \<Rightarrow> u16 list \<Rightarrow> u16 list" where
  "upd_range lo hi f xs = map (\<lambda>j. if lo \<le> j \<and> j < hi then f j (xs ! j) else xs ! j) [0..<length xs]"

lemma length_upd_range [simp]: "length (upd_range lo hi f xs) = length xs"
  by (simp add: upd_range_def)

lemma nth_upd_range: "j < length xs \<Longrightarrow> upd_range lo hi f xs ! j = (if lo \<le> j \<and> j < hi then f j (xs ! j) else xs ! j)"
  by (simp add: upd_range_def)

lemma upd_range_empty [simp]: "hi \<le> lo \<Longrightarrow> upd_range lo hi f xs = xs"
  by (auto simp: upd_range_def intro!: nth_equalityI)

lemma upd_range_first: "lo < hi \<Longrightarrow> upd_range (Suc lo) hi f (xs[lo := f lo (xs ! lo)]) = upd_range lo hi f xs"
  by (rule nth_equalityI) (auto simp: nth_upd_range nth_list_update not_less_eq_eq dest: le_antisym)

lemma upd_range_cong:
  "(\<And>j. lo \<le> j \<Longrightarrow> j < hi \<Longrightarrow> f j (xs ! j) = g j (xs ! j)) \<Longrightarrow> upd_range lo hi f xs = upd_range lo hi g xs"
  by (auto simp: upd_range_def)

lemma upd_range_twice:
  "upd_range lo hi g (upd_range lo hi f xs) = upd_range lo hi (\<lambda>j v. g j (f j v)) xs"
  by (rule nth_equalityI) (auto simp: nth_upd_range)

lemma upd_range_last:
  "lo \<le> hi \<Longrightarrow> (upd_range lo (Suc hi) f xs)[hi := g (upd_range lo (Suc hi) f xs ! hi)] =
   upd_range lo (Suc hi) (\<lambda>j v. if j = hi then g (f j v) else f j v) xs"
  by (rule nth_equalityI) (auto simp: nth_upd_range nth_list_update)

lemma upd_range_same: "(\<And>j. lo \<le> j \<Longrightarrow> j < hi \<Longrightarrow> j < length xs \<Longrightarrow> f j (xs ! j) = xs ! j) \<Longrightarrow> upd_range lo hi f xs = xs"
  by (rule nth_equalityI) (auto simp: nth_upd_range)

lemma page_at_in [simp]: "k < length (pma_pages s) \<Longrightarrow> page_at k s = Inr (pma_pages s ! k)"
  by (simp add: page_at_def)

lemma set_page_in [simp]: "k < length (pma_pages s) \<Longrightarrow> set_page k v s = Inr (s\<lparr>pma_pages := (pma_pages s)[k := v]\<rparr>)"
  by (simp add: set_page_def)

lemma page_locks [simp]:
  "\<not> pages_spinlock s \<Longrightarrow> pages_lock s = Inr (s\<lparr>pages_spinlock := True\<rparr>)"
  "pages_unlock s = s\<lparr>pages_spinlock := False\<rparr>"
  by (simp_all add: pages_lock_def pages_unlock_def)

lemma unlocked_same [simp]: "\<not> pages_spinlock s \<Longrightarrow> s\<lparr>pages_spinlock := False\<rparr> = s"
  by (cases s) simp

section \<open>The loops\<close>

lemma mark_pages_eq:
  "k + n \<le> length (pma_pages s) \<Longrightarrow>
   mark_pages n k v s = Inr (s\<lparr>pma_pages := upd_range k (k + n) (\<lambda>_ _. v) (pma_pages s)\<rparr>)"
proof (induction n arbitrary: k s)
  case (Suc n)
  let ?s = "s\<lparr>pma_pages := (pma_pages s)[k := v]\<rparr>"
  have "mark_pages n (Suc k) v ?s = Inr (?s\<lparr>pma_pages := upd_range (Suc k) (Suc k + n) (\<lambda>_ _. v) (pma_pages ?s)\<rparr>)"
    using Suc.prems by (intro Suc.IH) simp
  then show ?case
    using Suc.prems upd_range_first [of k "k + Suc n" "\<lambda>_ _. v" "pma_pages s"] by simp
qed simp

lemma assign_loop_eq:
  "k + n \<le> length (pma_pages s) \<Longrightarrow>
   assign_loop n k b s = Inr (s\<lparr>pma_pages := upd_range k (k + n) (\<lambda>_ v. v OR b) (pma_pages s)\<rparr>)"
proof (induction n arbitrary: k s)
  case (Suc n)
  let ?s = "s\<lparr>pma_pages := (pma_pages s)[k := pma_pages s ! k OR b]\<rparr>"
  have "assign_loop n (Suc k) b ?s = Inr (?s\<lparr>pma_pages := upd_range (Suc k) (Suc k + n) (\<lambda>_ v. v OR b) (pma_pages ?s)\<rparr>)"
    using Suc.prems by (intro Suc.IH) simp
  then show ?case
    using Suc.prems upd_range_first [of k "k + Suc n" "\<lambda>_ v. v OR b" "pma_pages s"] by simp
qed simp

text \<open>Undoing a reservation: the pages from \<open>start\<close> to \<open>j\<close> are set to 0.\<close>

lemma reserve_undo_eq:
  "0 < start \<Longrightarrow> k \<le> length (pma_pages s) \<Longrightarrow>
   reserve_undo k start s = Inr (s\<lparr>pma_pages := upd_range start k (\<lambda>_ _. 0) (pma_pages s)\<rparr>)"
proof (induction k arbitrary: s)
  case (Suc j)
  show ?case
  proof (cases "start \<le> j")
    case True
    let ?s = "s\<lparr>pma_pages := (pma_pages s)[j := 0]\<rparr>"
    have "reserve_undo j start ?s = Inr (?s\<lparr>pma_pages := upd_range start j (\<lambda>_ _. 0) (pma_pages ?s)\<rparr>)"
      using Suc.prems by (intro Suc.IH) simp_all
    moreover have "upd_range start j (\<lambda>_ _. 0) ((pma_pages s)[j := 0]) = upd_range start (Suc j) (\<lambda>_ _. 0) (pma_pages s)"
      using True by (intro nth_equalityI) (auto simp: nth_upd_range nth_list_update less_Suc_eq)
    ultimately show ?thesis using Suc.prems True by simp
  qed simp
qed simp

text \<open>From page 0 on the loop does not end with the first page: the counter wraps around.\<close>

lemma reserve_undo_first: "k \<le> length (pma_pages s) \<Longrightarrow> reserve_undo k 0 s = Inl OutOfBounds"
  by (induction k arbitrary: s) simp_all

definition marked :: "u8 \<Rightarrow> nat \<Rightarrow> nat \<Rightarrow> u16" where
  "marked i hi j = (if j = hi then ID_TO_BIT i OR ID_TO_LAST_PAGE_BIT i else ID_TO_BIT i)"

text \<open>Reserving from \<open>k\<close> on, when the pages from \<open>start\<close> to \<open>k\<close> have been reserved.\<close>

lemma reserve_loop_eq:
  assumes "hi < length (pma_pages s)" "\<not> pages_spinlock s"
  shows "start \<le> k \<Longrightarrow> k + n = Suc hi \<Longrightarrow> \<forall>j. start \<le> j \<and> j < k \<longrightarrow> xs ! j = 0 \<Longrightarrow>
    length xs = length (pma_pages s) \<Longrightarrow> pma_pages s = upd_range start k (\<lambda>j _. marked i hi j) xs \<Longrightarrow>
    reserve_loop n k start hi i s =
      (if \<forall>j. start \<le> j \<and> j \<le> hi \<longrightarrow> xs ! j = 0
       then Inr (True, s\<lparr>pma_pages := upd_range start (Suc hi) (\<lambda>j _. marked i hi j) xs\<rparr>)
       else if start = 0 then Inl OutOfBounds else Inr (False, s\<lparr>pma_pages := xs\<rparr>))"
  using assms
proof (induction n arbitrary: k s)
  case 0
  then show ?case by (auto simp: less_Suc_eq_le)
next
  case (Suc n)
  have k: "k \<le> hi" "k < length (pma_pages s)" using Suc.prems by simp_all
  have at: "pma_pages s ! k = xs ! k" using Suc.prems(4,5) k by (simp add: nth_upd_range)
  show ?case
  proof (cases "xs ! k = 0")
    case True
    let ?s = "s\<lparr>pma_pages := (pma_pages s)[k := marked i hi k]\<rparr>"
    have step: "reserve_loop (Suc n) k start hi i s = reserve_loop n (Suc k) start hi i ?s"
      using k at True Suc.prems(7) by (auto simp: marked_def nth_list_update)
    have "(pma_pages s)[k := marked i hi k] = upd_range start (Suc k) (\<lambda>j _. marked i hi j) xs"
      unfolding Suc.prems(5) using Suc.prems(1)
      by (intro nth_equalityI) (auto simp: nth_upd_range nth_list_update less_Suc_eq)
    then have "reserve_loop n (Suc k) start hi i ?s =
      (if \<forall>j. start \<le> j \<and> j \<le> hi \<longrightarrow> xs ! j = 0
       then Inr (True, ?s\<lparr>pma_pages := upd_range start (Suc hi) (\<lambda>j _. marked i hi j) xs\<rparr>)
       else if start = 0 then Inl OutOfBounds else Inr (False, ?s\<lparr>pma_pages := xs\<rparr>))"
      using Suc.prems True by (intro Suc.IH) (auto simp: less_Suc_eq)
    then show ?thesis unfolding step by simp
  next
    case False
    have "upd_range start k (\<lambda>_ _. 0) (pma_pages s) = xs"
      unfolding Suc.prems(5) upd_range_twice using Suc.prems(3) by (intro upd_range_same) simp
    moreover have "\<not> (\<forall>j. start \<le> j \<and> j \<le> hi \<longrightarrow> xs ! j = 0)" using False k Suc.prems(1) by blast
    ultimately show ?thesis
      using k at False Suc.prems(7) reserve_undo_eq [of start k "s\<lparr>pages_spinlock := True\<rparr>"]
        reserve_undo_first [of k "s\<lparr>pages_spinlock := True\<rparr>"]
      by (cases "start = 0") (simp_all cong: if_cong)
  qed
qed

section \<open>The search\<close>

definition free_run :: "u16 list \<Rightarrow> nat \<Rightarrow> nat \<Rightarrow> bool" where
  "free_run xs st n \<longleftrightarrow> st + n \<le> length xs \<and> (\<forall>j. st \<le> j \<and> j < st + n \<longrightarrow> xs ! j = 0)"

text \<open>The start of an aligned allocation is \<open>off\<close> pages after a multiple of the alignment.\<close>

definition start_aligned :: "nat \<Rightarrow> nat \<Rightarrow> nat \<Rightarrow> bool" where
  "start_aligned al off st \<longleftrightarrow> al = 0 \<or> st = 0 \<or> (\<exists>q. st = q * 2 ^ al + off)"

definition search_ok :: "u16 list \<Rightarrow> nat \<Rightarrow> nat \<Rightarrow> nat \<Rightarrow> nat \<Rightarrow> nat \<Rightarrow> bool" where
  "search_ok xs need al off st n \<longleftrightarrow>
     (if st < length xs \<and> need \<le> n then n = need \<and> free_run xs st need \<and> start_aligned al off st
      else al = 0 \<longrightarrow> (\<forall>st'. \<not> free_run xs st' need))"

lemma unat_int_shl1: "al < 31 \<Longrightarrow> \<exists>u. int_shl1 al = Inr u \<and> unat u = 2 ^ al"
proof -
  assume "al < 31"
  moreover have "unat (push_bit al 1 :: u64) = 2 ^ al" if "al < 31"
  proof -
    have "(2 :: nat) ^ al \<le> 2 ^ 31" using that by (intro power_increasing) simp_all
    then show ?thesis by (subst unat_push_bit64) simp_all
  qed
  ultimately show ?thesis by (simp add: int_shl1_def)
qed

lemma alloc_search_spec:
  assumes "pc = length (pma_pages s)" "al < 31" "0 < need"
  shows "k = start + cnt \<Longrightarrow> cnt < need \<Longrightarrow> start_aligned al off start \<Longrightarrow>
    \<forall>j. start \<le> j \<and> j < k \<longrightarrow> pma_pages s ! j = 0 \<Longrightarrow>
    al = 0 \<longrightarrow> (\<forall>st < start. \<not> free_run (pma_pages s) st need) \<Longrightarrow>
    \<exists>st n. alloc_search pc need al off k start cnt s = Inr (st, n) \<and> search_ok (pma_pages s) need al off st n"
  using assms
proof (induction pc need al off k start cnt s rule: alloc_search.induct)
  case (1 pc need al off k start cnt s)
  note prems = "1.prems" and IH = "1.IH"
  show ?case
  proof (cases "k < pc")
    case False
    have "\<not> free_run (pma_pages s) st need" if "start \<le> st" for st
      using False prems(1,2,6) that by (simp add: free_run_def)
    then have "search_ok (pma_pages s) need al off start cnt"
      using prems(2,5) by (auto simp: search_ok_def) (meson not_le)
    then show ?thesis using False by (subst alloc_search.simps) simp
  next
    case True
    then have at: "page_at k s = Inr (pma_pages s ! k)" using prems(6) by simp
    show ?thesis
    proof (cases "pma_pages s ! k = 0")
      case free: True
      have run: "\<forall>j. start \<le> j \<and> j < Suc k \<longrightarrow> pma_pages s ! j = 0" using prems(4) free by (auto simp: less_Suc_eq)
      show ?thesis
      proof (cases "need \<le> Suc cnt")
        case True
        then have "Suc cnt = need" using prems(2) by simp
        moreover from this have "start + need = Suc k" using prems(1) by simp
        ultimately have "search_ok (pma_pages s) need al off start (Suc cnt)"
          using run prems(3,6) \<open>k < pc\<close> by (auto simp: search_ok_def free_run_def)
        then show ?thesis using at free True \<open>k < pc\<close> by (subst alloc_search.simps) simp
      next
        case False
        have "\<exists>st n. alloc_search pc need al off (Suc k) start (Suc cnt) s = Inr (st, n) \<and>
            search_ok (pma_pages s) need al off st n"
          using IH(1) [OF \<open>k < pc\<close> at free False] prems run False by simp
        then show ?thesis using at free False \<open>k < pc\<close> by (subst alloc_search.simps) simp
      qed
    next
      case used: False
      show ?thesis
      proof (cases "0 < al")
        case True
        obtain u where u: "int_shl1 al = Inr u" "unat u = 2 ^ al" using unat_int_shl1 [OF prems(7)] by blast
        define st where "st = Suc k + (unat u - Suc k mod unat u) + off"
        have "2 ^ al dvd Suc k + (unat u - Suc k mod unat u)"
        proof -
          have "Suc k mod unat u \<le> unat u" using u(2) by (simp add: less_imp_le)
          moreover have "Suc k = Suc k div unat u * unat u + Suc k mod unat u" by simp
          ultimately have "Suc k + (unat u - Suc k mod unat u) = (Suc k div unat u + 1) * unat u"
            by (metis add.assoc distrib_right le_add_diff_inverse mult_1)
          then show ?thesis using u(2) by simp
        qed
        then have "start_aligned al off st" by (auto simp: start_aligned_def st_def elim!: dvdE)
        then have "\<exists>st' n. alloc_search pc need al off st st 0 s = Inr (st', n) \<and>
            search_ok (pma_pages s) need al off st' n"
          using IH(2) [OF \<open>k < pc\<close> at used True u(1) refl, folded st_def] prems True by (simp add: add.assoc)
        then show ?thesis using at used True u(1) \<open>k < pc\<close> by (subst alloc_search.simps) (simp add: Let_def st_def)
      next
        case False
        have "\<not> free_run (pma_pages s) st need" if "st < Suc k" for st
        proof (cases "st < start")
          case True
          then show ?thesis using prems(5) False by simp
        next
          case ge: False
          then have "st \<le> k \<and> k < st + need" using that prems(1,2) by simp
          then show ?thesis using used by (auto simp: free_run_def)
        qed
        then have "\<exists>st n. alloc_search pc need al off (Suc k) (Suc k) 0 s = Inr (st, n) \<and>
            search_ok (pma_pages s) need al off st n"
          using IH(3) [OF \<open>k < pc\<close> at used False] prems False by (simp add: start_aligned_def)
        then show ?thesis using at used False \<open>k < pc\<close> by (subst alloc_search.simps) simp
      qed
    qed
  qed
qed

lemma alloc_search_top:
  assumes "pc = length (pma_pages s)" "al < 31" "0 < need"
  shows "\<exists>st n. alloc_search pc need al off 0 0 0 s = Inr (st, n) \<and> search_ok (pma_pages s) need al off st n"
  using assms by (intro alloc_search_spec) (simp_all add: start_aligned_def)

section \<open>Chunks\<close>

text \<open>The pages from \<open>lo\<close> to \<open>hi\<close> are one chunk of the identity \<open>i\<close>.\<close>

definition chunk :: "u8 \<Rightarrow> nat \<Rightarrow> nat \<Rightarrow> u16 list \<Rightarrow> bool" where
  "chunk i lo hi xs \<longleftrightarrow> lo \<le> hi \<and> hi < length xs \<and>
     (\<forall>j. lo \<le> j \<and> j \<le> hi \<longrightarrow> xs ! j AND ID_TO_BIT i \<noteq> 0) \<and>
     (\<forall>j. lo \<le> j \<and> j < hi \<longrightarrow> xs ! j AND ID_TO_LAST_PAGE_BIT i = 0) \<and>
     xs ! hi AND ID_TO_LAST_PAGE_BIT i \<noteq> 0"

definition chunk_start :: "u8 \<Rightarrow> nat \<Rightarrow> u16 list \<Rightarrow> bool" where
  "chunk_start i lo xs \<longleftrightarrow>
     lo = 0 \<or> xs ! (lo - 1) AND ID_TO_BIT i = 0 \<or> xs ! (lo - 1) AND ID_TO_LAST_PAGE_BIT i \<noteq> 0"

lemma and_not_absent: "v AND l = 0 \<Longrightarrow> v AND NOT l = (v :: u16)"
proof -
  assume "v AND l = 0"
  moreover have "v = (v AND l) OR (v AND NOT l)"
    by (simp only: bit.conj_disj_distrib [symmetric] bit.disj_cancel_right bit.conj_one_right)
  ultimately show ?thesis by simp
qed

lemma and_not_id:
  assumes "is_valid_id i"
  shows "(v AND NOT (ID_TO_BIT i)) AND ID_TO_LAST_PAGE_BIT i = v AND ID_TO_LAST_PAGE_BIT i"
proof -
  have "NOT (ID_TO_BIT i) AND ID_TO_LAST_PAGE_BIT i = ID_TO_LAST_PAGE_BIT i"
    using assms by (cases rule: valid_id_cases; simp add: ID_TO_LAST_PAGE_BIT_def ID_TO_BIT_def)
  then show ?thesis by (simp add: and.assoc)
qed

definition drop_id :: "u8 \<Rightarrow> u16 \<Rightarrow> u16" where
  "drop_id i v = (v AND NOT (ID_TO_BIT i)) AND NOT (ID_TO_LAST_PAGE_BIT i)"

lemma free_loop_eq:
  assumes "is_valid_id i"
  shows "chunk i k hi (pma_pages s) \<Longrightarrow> hi < k + n \<Longrightarrow>
    free_loop n k i s = Inr (hi, s\<lparr>pma_pages := upd_range k (Suc hi) (\<lambda>_. drop_id i) (pma_pages s)\<rparr>)"
proof (induction n arbitrary: k s)
  case (Suc n)
  have k: "k < length (pma_pages s)" using Suc.prems(1) by (simp add: chunk_def)
  let ?v = "pma_pages s ! k AND NOT (ID_TO_BIT i)"
  let ?s = "s\<lparr>pma_pages := (pma_pages s)[k := ?v]\<rparr>"
  show ?case
  proof (cases "k = hi")
    case True
    then have "?v AND ID_TO_LAST_PAGE_BIT i \<noteq> 0" using Suc.prems(1) and_not_id [OF assms] by (simp add: chunk_def)
    then show ?thesis
      using k True upd_range_first [of hi "Suc hi" "\<lambda>_. drop_id i" "pma_pages s"] by (simp flip: drop_id_def)
  next
    case False
    then have lt: "k < hi" using Suc.prems(1) by (simp add: chunk_def)
    then have l0: "pma_pages s ! k AND ID_TO_LAST_PAGE_BIT i = 0" using Suc.prems(1) by (simp add: chunk_def)
    then have dv: "?v = drop_id i (pma_pages s ! k)"
      unfolding drop_id_def using and_not_id [OF assms] and_not_absent by metis
    have step: "free_loop (Suc n) k i s = free_loop n (Suc k) i ?s"
      using k l0 and_not_id [OF assms] by simp
    have "chunk i (Suc k) hi (pma_pages ?s)" using Suc.prems(1) lt by (auto simp: chunk_def)
    then have "free_loop n (Suc k) i ?s =
        Inr (hi, ?s\<lparr>pma_pages := upd_range (Suc k) (Suc hi) (\<lambda>_. drop_id i) (pma_pages ?s)\<rparr>)"
      using Suc.prems(2) by (intro Suc.IH) simp_all
    then show ?thesis
      unfolding step using lt upd_range_first [of k "Suc hi" "\<lambda>_. drop_id i" "pma_pages s"] by (simp add: dv)
  qed
qed (simp add: chunk_def)

lemma start_page_loop_eq:
  "chunk i lo hi (pma_pages s) \<Longrightarrow> chunk_start i lo (pma_pages s) \<Longrightarrow> lo \<le> k \<Longrightarrow> k \<le> hi \<Longrightarrow>
   start_page_loop k i s = Inr lo"
proof (induction k)
  case (Suc k)
  have k: "k < length (pma_pages s)" using Suc.prems by (simp add: chunk_def)
  show ?case
  proof (cases "lo = Suc k")
    case True
    then show ?thesis using Suc.prems(2) k by (auto simp: chunk_start_def)
  next
    case False
    then show ?thesis using Suc k by (auto simp: chunk_def)
  qed
qed simp

lemma get_size_loop_eq:
  "chunk i k hi (pma_pages s) \<Longrightarrow> hi < k + n \<Longrightarrow> get_size_loop n k i sz s = Inr (sz + word_of_nat (Suc hi - k))"
proof (induction n arbitrary: k sz)
  case (Suc n)
  have k: "k < length (pma_pages s)" using Suc.prems by (simp add: chunk_def)
  show ?case
  proof (cases "k = hi")
    case True
    then show ?thesis using Suc.prems k by (simp add: chunk_def)
  next
    case False
    then have lt: "k < hi" using Suc.prems(1) by (simp add: chunk_def)
    have "get_size_loop n (Suc k) i (sz + 1) s = Inr (sz + 1 + word_of_nat (Suc hi - Suc k))"
      using Suc.prems lt by (intro Suc.IH) (auto simp: chunk_def)
    moreover have "sz + 1 + word_of_nat (Suc hi - Suc k) = sz + (word_of_nat (Suc hi - k) :: u64)"
      using lt by (simp add: Suc_diff_Suc [symmetric] algebra_simps)
    ultimately show ?thesis using Suc.prems k lt by (auto simp: chunk_def)
  qed
qed (simp add: chunk_def)

section \<open>Page tables and the allocator's state\<close>

lemma config_fields:
  assumes "mm_config s' = mm_config (s :: 'a pma_machine_scheme)"
  shows "phys_start_address s' = phys_start_address s" "MEMORY_SIZE s' = MEMORY_SIZE s" "branch_protection s' = branch_protection s"
    "pma_pages s' = pma_pages s" "pages_addr s' = pages_addr s" "pages_spinlock s' = pages_spinlock s"
    "alloc_cache s' = alloc_cache s" "hypervisor_ptable s' = hypervisor_ptable s" "hypervisor_ppool s' = hypervisor_ppool s"
    "PN_TO_PTR pn s' = PN_TO_PTR pn s" "PTR_TO_PN ptr s' = PTR_TO_PN ptr s" "PAGE_COUNT s' = PAGE_COUNT s"
    "is_restricted pn s' = is_restricted pn s" "mm_max_level flags s' = mm_max_level flags s"
    "space_size flags s' = space_size flags s"
  using assms by (cases s; cases s'; simp add: mm_config_def PN_TO_PTR_def PTR_TO_PN_def PAGE_COUNT_def is_restricted_def
      mm_max_level_def space_size_def mm_root_table_count_def)+

lemma touches_config: "mm_touches X qs s s' \<Longrightarrow> mm_config s' = mm_config s"
  by (simp add: mm_touches_def mm_config_def)

text \<open>A request with page-aligned addresses covers exactly its range.\<close>

lemma round_up_aligned: "4096 dvd unat a \<Longrightarrow> mm_round_up_to_page a = a"
proof -
  assume a: "4096 dvd unat a"
  have m: "PAGE_SIZE - 1 = mask 12" by (simp add: PAGE_SIZE_def PAGE_BITS_def mask_eq_exp_minus_1 push_bit_eq_mult)
  obtain k where k: "unat a = 4096 * k" using a by (auto elim: dvdE)
  have "unat a + unat (mask 12 :: u64) < 18446744073709551616"
    using unat_lt64 [of a] k by (simp add: mask_eq_exp_minus_1)
  then have "unat (a + mask 12) = unat a + 4095" by (subst unat_add64) (simp_all add: mask_eq_exp_minus_1)
  moreover have "a + PAGE_SIZE - 1 = a + mask 12" using m by (simp add: add_diff_eq)
  ultimately show ?thesis
    by (simp add: mm_round_up_to_page_def mm_round_down_to_page_def m unat_eq_iff64 unat_and_not_mask64 k)
qed

lemma clear_pa_aligned: "4096 dvd unat a \<Longrightarrow> unat a < 2 ^ 48 \<Longrightarrow> arch_mm_clear_pa a = a"
  using addr_ok_iff [of a] by (simp add: addr_ok_def arch_mm_clear_pa_def pte_addr_def)

lemma ptable_request_aligned:
  assumes "4096 dvd unat pb" "4096 dvd unat pe" "4096 dvd unat ib" "unat pb < 2 ^ 48" "unat ib < 2 ^ 48"
    "unat pb \<le> unat pe" "unat pe \<le> 2 ^ 48"
  shows "ptable_request flags pb pe ib attrs s =
    \<lparr>rq_unmap = (flags AND MM_FLAG_UNMAP \<noteq> 0), rq_attrs = attrs, rq_begin = unat ib,
     rq_end = min (unat ib + (unat pe - unat pb)) (space_size flags s), rq_pa = unat pb\<rparr>"
proof -
  have d: "unat (pe - pb) = unat pe - unat pb" using assms(6) by (rule unat_sub64)
  have u: "unat (ib + (pe - pb)) = unat ib + (unat pe - unat pb)"
    using assms(5,7) by (subst unat_add64) (simp_all add: d)
  have "4096 dvd unat (ib + (pe - pb))" unfolding u using assms(1-3) by (intro dvd_add dvd_diff_nat)
  then show ?thesis
    using assms by (simp add: ptable_request_def clear_pa_aligned round_up_aligned u)
qed

end
