(* ===== verification/Pma_Map.thy ===== *)
theory Pma_Map
  imports Pma_Pages
begin

text \<open>
  The allocator and the page tables together: what \<open>map_memory\<close> does to the tables of an identity,
  and the invariant \<open>pma_ok\<close> of the allocator.
\<close>

definition pma_ok :: "'a pma_machine_scheme \<Rightarrow> bool" where
  "pma_ok s \<longleftrightarrow>
     length (pma_pages s) = unat (PAGE_COUNT s) \<and> pma_pages s \<noteq> [] \<and>
     (\<forall>k<length (pma_pages s). is_restricted (word_of_nat k) s \<longrightarrow> pma_pages s ! k \<noteq> 0) \<and>
     \<not> pages_spinlock s \<and> length (alloc_cache s) = 32 \<and>
     4096 dvd unat (phys_start_address s) \<and> 4096 dvd unat (MEMORY_SIZE s) \<and>
     unat (phys_start_address s) + unat (MEMORY_SIZE s) \<le> 2 ^ 47"

text \<open>The part of the invariant that does not speak about reserved pages: it holds as soon as the page array
  exists.\<close>

definition pages_ok :: "'a pma_machine_scheme \<Rightarrow> bool" where
  "pages_ok s \<longleftrightarrow> length (pma_pages s) = unat (PAGE_COUNT s) \<and> \<not> pages_spinlock s \<and>
     4096 dvd unat (phys_start_address s) \<and> 4096 dvd unat (MEMORY_SIZE s) \<and>
     unat (phys_start_address s) + unat (MEMORY_SIZE s) \<le> 2 ^ 47"

lemma pma_ok_pages_ok: "pma_ok s \<Longrightarrow> pages_ok s"
  by (simp add: pma_ok_def pages_ok_def)

lemma pma_ok_first: "pma_ok s \<Longrightarrow> pma_pages s ! 0 \<noteq> 0"
  by (force simp: pma_ok_def is_restricted_def FAULT_PAGE_NUMBER_def)

text \<open>Identity 0 is the hypervisor with its stage-1 table; the others are virtual machines.\<close>

definition id_flags :: "u8 \<Rightarrow> u32 \<Rightarrow> u32" where
  "id_flags i mode = (if i = HYPERVISOR_ID then MM_FLAG_STAGE1 OR mm_mode_to_flags mode else mm_mode_to_flags mode)"

definition id_attrs :: "u8 \<Rightarrow> u32 \<Rightarrow> 'a pma_machine_scheme \<Rightarrow> u64" where
  "id_attrs i mode s =
     (if i = HYPERVISOR_ID then arch_mm_mode_to_stage1_attrs (branch_protection s) mode
      else arch_mm_mode_to_stage2_attrs mode)"

definition id_table ::
  "u8 \<Rightarrow> 'a pma_machine_scheme \<Rightarrow> u64 \<Rightarrow> ptree list list \<Rightarrow> nat \<Rightarrow> nat list \<Rightarrow> u64 list \<Rightarrow> bool" where
  "id_table i s p roots ppool qs fl \<longleftrightarrow> ptable_ok (if i = HYPERVISOR_ID then MM_FLAG_STAGE1 else 0) s p roots ppool qs fl"

definition mode_ok :: "u8 \<Rightarrow> u32 \<Rightarrow> bool" where
  "mode_ok i mode \<longleftrightarrow> (i = HYPERVISOR_ID \<longrightarrow> mode AND MM_MODE_INVALID = 0 \<or> mode AND MM_MODE_UNMAPPED_MASK = MM_MODE_UNMAPPED_MASK)"

lemma same_stage:
  assumes "(f AND MM_FLAG_STAGE1 = 0) = (g AND MM_FLAG_STAGE1 = 0)"
  shows "ptable_ok f s root roots p qs fl = ptable_ok g s root roots p qs fl"
    "space_size f s = space_size g s" "mm_max_level f s = mm_max_level g s"
  using assms by (simp_all add: ptable_ok_def space_size_def mm_max_level_def mm_root_table_count_def)

lemma id_flags_stage: "(id_flags i mode AND MM_FLAG_STAGE1 = 0) = ((if i = HYPERVISOR_ID then MM_FLAG_STAGE1 else 0) AND MM_FLAG_STAGE1 = 0)"
  by (simp add: id_flags_def mm_mode_to_flags_def MM_FLAG_STAGE1_def MM_FLAG_UNMAP_def)

lemma id_flags_unmap: "id_flags i mode AND MM_FLAG_UNMAP \<noteq> 0 \<longleftrightarrow> mode AND MM_MODE_UNMAPPED_MASK = MM_MODE_UNMAPPED_MASK"
  by (simp add: id_flags_def mm_mode_to_flags_def MM_FLAG_STAGE1_def MM_FLAG_UNMAP_def)

lemma id_attrs_ok: "mode_ok i mode \<Longrightarrow> id_flags i mode AND MM_FLAG_UNMAP \<noteq> 0 \<or> attrs_ok (id_attrs i mode s)"
  using stage1_attrs_ok [of mode] stage2_attrs_ok [of mode] id_flags_unmap [of i mode]
  by (auto simp: mode_ok_def id_attrs_def)

section \<open>Addresses of pages\<close>

lemma page_count_pages:
  assumes "pages_ok s"
  shows "unat (PAGE_COUNT s) = unat (MEMORY_SIZE s) div 4096" "length (pma_pages s) * 4096 = unat (MEMORY_SIZE s)"
proof -
  have m: "unat (MEMORY_SIZE s) \<le> 2 ^ 47" "4096 dvd unat (MEMORY_SIZE s)" using assms by (simp_all add: pages_ok_def)
  have p: "unat (PAGE_SIZE :: u64) = 4096" by (simp add: PAGE_SIZE_def PAGE_BITS_def push_bit_eq_mult)
  have "unat (MEMORY_SIZE s + PAGE_SIZE - 1) = unat (MEMORY_SIZE s) + 4095"
  proof -
    have "unat (MEMORY_SIZE s + PAGE_SIZE) = unat (MEMORY_SIZE s) + 4096" using m p by (subst unat_add64) simp_all
    then show ?thesis by (subst unat_sub64) simp_all
  qed
  then have "unat (PAGE_COUNT s) = (unat (MEMORY_SIZE s) + 4095) div 4096"
    by (simp add: PAGE_COUNT_def BYTES_TO_PAGES_def unat_div p)
  then show c: "unat (PAGE_COUNT s) = unat (MEMORY_SIZE s) div 4096" using m(2) by (auto elim!: dvdE)
  show "length (pma_pages s) * 4096 = unat (MEMORY_SIZE s)" using assms m(2) c by (simp add: pages_ok_def)
qed

lemmas page_count_eq = page_count_pages [OF pma_ok_pages_ok]

lemma unat_PN_TO_PTR:
  assumes "pma_ok s" "k \<le> length (pma_pages s)"
  shows "unat (PN_TO_PTR (word_of_nat k) s) = unat (phys_start_address s) + k * 4096"
    "unat (PN_TO_PTR (word_of_nat k) s) \<le> 2 ^ 47" "4096 dvd unat (PN_TO_PTR (word_of_nat k) s)"
proof -
  have m: "unat (phys_start_address s) + unat (MEMORY_SIZE s) \<le> 2 ^ 47" "4096 dvd unat (phys_start_address s)"
    using assms(1) by (simp_all add: pma_ok_def)
  have "k * 4096 \<le> length (pma_pages s) * 4096" using assms(2) by simp
  then have k: "unat (phys_start_address s) + k * 4096 \<le> 2 ^ 47" using m(1) page_count_eq(2) [OF assms(1)] by linarith
  have p: "unat (PAGE_SIZE :: u64) = 4096" by (simp add: PAGE_SIZE_def PAGE_BITS_def push_bit_eq_mult)
  have kk: "unat (word_of_nat k :: u64) = k" using k by (intro unat_of_nat64) simp
  have "unat (word_of_nat k * PAGE_SIZE :: u64) = k * 4096" using k by (subst unat_mult64) (simp_all add: p kk)
  then show e: "unat (PN_TO_PTR (word_of_nat k) s) = unat (phys_start_address s) + k * 4096"
    using k unfolding PN_TO_PTR_def by (subst unat_add64) simp_all
  show "unat (PN_TO_PTR (word_of_nat k) s) \<le> 2 ^ 47" unfolding e by (rule k)
  show "4096 dvd unat (PN_TO_PTR (word_of_nat k) s)" unfolding e using m(2) by simp
qed

lemma PTR_TO_PN_inverse:
  assumes "pma_ok s" "k \<le> length (pma_pages s)"
  shows "PTR_TO_PN (PN_TO_PTR (word_of_nat k) s) s = word_of_nat k"
proof -
  have p: "unat (PAGE_SIZE :: u64) = 4096" by (simp add: PAGE_SIZE_def PAGE_BITS_def push_bit_eq_mult)
  note u = unat_PN_TO_PTR [OF assms]
  have "unat (PN_TO_PTR (word_of_nat k) s - phys_start_address s) = k * 4096" using u(1) by (subst unat_sub64) simp_all
  then have "unat (PTR_TO_PN (PN_TO_PTR (word_of_nat k) s) s) = k" by (simp add: PTR_TO_PN_def unat_div p)
  moreover have "unat (word_of_nat k :: u64) = k" using u(1,2) by (intro unat_of_nat64) simp
  ultimately show ?thesis by (simp add: unat_eq_iff64)
qed

section \<open>Mapping\<close>

text \<open>The request \<open>map_memory\<close> makes for the pages from \<open>lo\<close> to \<open>hi\<close>.\<close>

definition map_request :: "u64 \<Rightarrow> nat \<Rightarrow> nat \<Rightarrow> u32 \<Rightarrow> u8 \<Rightarrow> 'a pma_machine_scheme \<Rightarrow> request" where
  "map_request ipa lo hi mode i s =
     \<lparr>rq_unmap = (mode AND MM_MODE_UNMAPPED_MASK = MM_MODE_UNMAPPED_MASK), rq_attrs = id_attrs i mode s,
      rq_begin = unat ipa, rq_end = min (unat ipa + (Suc hi - lo) * 4096) (space_size (id_flags i mode) s),
      rq_pa = unat (phys_start_address s) + lo * 4096\<rparr>"

lemma map_request_eq:
  assumes "pma_ok s" "lo \<le> hi" "hi < length (pma_pages s)" "4096 dvd unat ipa" "unat ipa < 2 ^ 48"
  shows "ptable_request (id_flags i mode) (PN_TO_PTR (word_of_nat lo) s) (PN_TO_PTR (word_of_nat hi + 1) s) ipa (id_attrs i mode s) s =
    map_request ipa lo hi mode i s"
proof -
  have s1: "word_of_nat hi + 1 = (word_of_nat (Suc hi) :: u64)" by (simp add: add.commute)
  note a = unat_PN_TO_PTR [OF assms(1), of lo] and b = unat_PN_TO_PTR [OF assms(1), of "Suc hi"]
  have le: "lo \<le> length (pma_pages s)" "Suc hi \<le> length (pma_pages s)" using assms(2,3) by simp_all
  have "lo * 4096 \<le> Suc hi * 4096" using assms(2) by (intro mult_le_mono1) simp
  then have "ptable_request (id_flags i mode) (PN_TO_PTR (word_of_nat lo) s) (PN_TO_PTR (word_of_nat (Suc hi)) s) ipa (id_attrs i mode s) s =
    \<lparr>rq_unmap = (id_flags i mode AND MM_FLAG_UNMAP \<noteq> 0), rq_attrs = id_attrs i mode s, rq_begin = unat ipa,
     rq_end = min (unat ipa + (unat (PN_TO_PTR (word_of_nat (Suc hi)) s) - unat (PN_TO_PTR (word_of_nat lo) s)))
       (space_size (id_flags i mode) s), rq_pa = unat (PN_TO_PTR (word_of_nat lo) s)\<rparr>"
    using a [OF le(1)] b [OF le(2)] assms(4,5) by (intro ptable_request_aligned) simp_all
  then show ?thesis
    unfolding s1 map_request_def id_flags_unmap a(1) [OF le(1)] b(1) [OF le(2)] by (simp only: Nat.diff_cancel diff_mult_distrib)
qed

lemma map_args_ok:
  assumes "pma_ok s" "lo \<le> hi" "hi < length (pma_pages s)" "4096 dvd unat ipa" "unat ipa < 2 ^ 48" "mode_ok i mode"
  shows "args_ok (id_flags i mode) (PN_TO_PTR (word_of_nat lo) s) (PN_TO_PTR (word_of_nat hi + 1) s) ipa (id_attrs i mode s) s"
proof -
  have "unat (phys_start_address s) + Suc hi * 4096 \<le> 2 ^ 47"
    using unat_PN_TO_PTR [OF assms(1), of "Suc hi"] assms(3) by simp
  moreover have "lo * 4096 + (Suc hi - lo) * 4096 = Suc hi * 4096"
    using assms(2) by (simp add: add_mult_distrib [symmetric] del: mult_Suc)
  ultimately have "unat (phys_start_address s) + lo * 4096 + (Suc hi - lo) * 4096 \<le> 2 ^ 48" by simp
  then show ?thesis
    using id_attrs_ok [OF assms(6), of s] id_flags_unmap [of i mode]
    unfolding args_ok_def Let_def map_request_eq [OF assms(1-5)] map_request_def by auto
qed

definition map_ipa :: "u8 \<Rightarrow> u64 \<Rightarrow> nat \<Rightarrow> 'a pma_machine_scheme \<Rightarrow> u64" where
  "map_ipa i ipa lo s = (if i = HYPERVISOR_ID then PN_TO_PTR (word_of_nat lo) s else ipa)"

lemma map_memory_spec:
  fixes s :: "'a pma_machine_scheme"
  assumes ok: "pma_ok s" "id_table i s p roots ppool qs fl" and m: "mode_ok i mode"
    and pn: "0 < lo" "lo \<le> hi" "hi < length (pma_pages s)"
    and ipa: "i \<noteq> HYPERVISOR_ID \<Longrightarrow> 4096 dvd unat ipa \<and> unat ipa < 2 ^ 48"
  shows "\<exists>ok s' roots' fl'. map_memory p ipa (word_of_nat lo) (word_of_nat hi) mode i ppool s =
      Inr (if ok then PN_TO_PTR (word_of_nat lo) s else PN_TO_PTR FAULT_PAGE_NUMBER s, s') \<and>
    mm_config s' = mm_config s \<and> id_table i s' p roots' ppool qs fl' \<and>
    updates (map_request (map_ipa i ipa lo s) lo hi mode i s) ok (space_size (id_flags i mode) s)
      (space (mm_max_level (id_flags i mode) s) roots) (space (mm_max_level (id_flags i mode) s) roots')"
proof -
  let ?f = "id_flags i mode" and ?pb = "PN_TO_PTR (word_of_nat lo) s" and ?pe = "PN_TO_PTR (word_of_nat hi + 1) s"
  let ?ib = "map_ipa i ipa lo s" and ?x = "id_attrs i mode s"
  have lo: "lo \<le> length (pma_pages s)" using pn by simp
  note a = unat_PN_TO_PTR [OF ok(1) lo]
  have ib: "4096 dvd unat ?ib" "unat ?ib < 2 ^ 48" using ipa a by (auto simp: map_ipa_def)
  have pt: "ptable_ok ?f s p roots ppool qs fl"
    using ok(2) unfolding id_table_def by (simp only: same_stage(1) [OF id_flags_stage [of i mode]])
  have tab: "id_table i t p r ppool qs l" if "ptable_ok ?f t p r ppool qs l" for t :: "'a pma_machine_scheme" and r l
    using that unfolding id_table_def by (simp only: same_stage(1) [OF id_flags_stage [of i mode]])
  note ar = map_args_ok [OF ok(1) pn(2,3) ib m]
  note rq = map_request_eq [OF ok(1) pn(2,3) ib, of i mode, symmetric]
  show ?thesis
  proof (cases "i = HYPERVISOR_ID")
    case True
    then have i: "?f = MM_FLAG_STAGE1 OR mm_mode_to_flags mode" "?x = arch_mm_mode_to_stage1_attrs (branch_protection s) mode"
      "?ib = ?pb" by (simp_all add: id_flags_def id_attrs_def map_ipa_def)
    obtain ok' s' roots' fl' where c: "mm_ptable_update p ?pb ?pe ?ib ?x ?f ppool s = Inr (ok', s')"
      "ptable_step ?f p ppool qs s roots fl s' roots' fl'"
      "updates (map_request ?ib lo hi mode i s) ok' (space_size ?f s) (space (mm_max_level ?f s) roots) (space (mm_max_level ?f s) roots')"
      using mm_ptable_update_spec [OF pt ar rq] by blast
    have more: "mm_config s' = mm_config s" using c(2) touches_config by (auto simp: ptable_step_def)
    have "?pb \<noteq> 0" using a(1) pn(1) by (metis add_is_0 mult_is_0 unsigned_0 zero_neq_numeral less_numeral_extra(3))
    then have "map_memory p ipa (word_of_nat lo) (word_of_nat hi) mode i ppool s =
        Inr (if ok' then ?pb else PN_TO_PTR FAULT_PAGE_NUMBER s, s')"
      using c(1) True i by (simp add: map_memory_def mm_identity_map_ptable_def config_fields [OF more])
    then show ?thesis
      using c(2,3) more tab by (intro exI [of _ ok'] exI [of _ s'] exI [of _ roots'] exI [of _ fl']) (simp add: ptable_step_def)
  next
    case False
    then have i: "?f = mm_mode_to_flags mode" "?x = arch_mm_mode_to_stage2_attrs mode" "?ib = ipa"
      by (simp_all add: id_flags_def id_attrs_def map_ipa_def)
    obtain ok1 s1 roots1 fl1 where c: "mm_ptable_prepare p ?pb ?pe ?ib ?x ?f ppool s = Inr (ok1, s1)"
      "ptable_step ?f p ppool qs s roots fl s1 roots1 fl1"
      "updates (map_request ?ib lo hi mode i s) False (space_size ?f s) (space (mm_max_level ?f s) roots) (space (mm_max_level ?f s) roots1)"
      "ok1 \<Longrightarrow> all_ready (map_request ?ib lo hi mode i s) (mm_max_level ?f s) roots1"
      using mm_ptable_prepare_spec [OF pt ar rq] by blast
    have more: "mm_config s1 = mm_config s" using c(2) touches_config by (auto simp: ptable_step_def)
    have pt1: "ptable_ok ?f s1 p roots1 ppool qs fl1" using c(2) by (simp add: ptable_step_def)
    note cfg = ptable_step_config [OF c(2) pt]
    show ?thesis
    proof (cases ok1)
      case no: False
      have "map_memory p ipa (word_of_nat lo) (word_of_nat hi) mode i ppool s = Inr (PN_TO_PTR FAULT_PAGE_NUMBER s, s1)"
        using c(1) False no i by (simp add: map_memory_def mm_vm_prepare_def config_fields [OF more])
      then show ?thesis
        using c(3) no more tab [OF pt1]
        by (intro exI [of _ False] exI [of _ s1] exI [of _ roots1] exI [of _ fl1]) simp
    next
      case yes: True
      obtain s2 roots2 fl2 where d: "mm_ptable_commit p ?pb ?pe ?ib ?x ?f ppool s1 = Inr s2"
        "ptable_step ?f p ppool qs s1 roots1 fl1 s2 roots2 fl2"
        "updates (map_request ?ib lo hi mode i s) True (space_size ?f s) (space (mm_max_level ?f s) roots1) (space (mm_max_level ?f s) roots2)"
        using mm_ptable_commit_spec [OF pt1, of ?pb ?pe ?ib ?x "map_request ?ib lo hi mode i s"] ar rq c(4) [OF yes]
        by (auto simp: cfg)
      have more2: "mm_config s2 = mm_config s1" using d(2) touches_config by (auto simp: ptable_step_def)
      have "map_memory p ipa (word_of_nat lo) (word_of_nat hi) mode i ppool s = Inr (?pb, s2)"
        using c(1) d(1) False yes i
        by (simp add: map_memory_def mm_vm_prepare_def mm_vm_commit_def config_fields [OF more] config_fields [OF more2])
      then show ?thesis
        using d(2) more more2 tab updates_prepared [OF c(3) d(3)]
        by (intro exI [of _ True] exI [of _ s2] exI [of _ roots2] exI [of _ fl2]) (simp add: ptable_step_def)
    qed
  qed
qed

end
