(* ===== verification/Pma_Alloc.thy ===== *)
theory Pma_Alloc
  imports Pma_Map
begin

text \<open>
  What allocating, freeing and reserving do: which pages they take or give back, what stays as it is,
  and that the invariant holds afterwards.
\<close>

lemma chain_rep_same:
  "mem t = mem s \<Longrightarrow> pools t = pools s \<Longrightarrow> mpool_locks_enabled t = mpool_locks_enabled s \<Longrightarrow>
   chain_rep E t r xs = chain_rep E s r xs"
  by (induction xs arbitrary: r) (auto simp: pool_at_def unlocked_def)

lemma ptable_ok_same:
  assumes "mem t = mem s" "pools t = pools s" "mpool_locks_enabled t = mpool_locks_enabled s"
    "mm_s2_max_level t = mm_s2_max_level s" "mm_s2_root_table_count t = mm_s2_root_table_count s"
  shows "ptable_ok flags t root roots p qs fl = ptable_ok flags s root roots p qs fl"
  using assms chain_rep_same [OF assms(1-3)]
  by (simp add: ptable_ok_def rinv_def pool_rep_def mm_max_level_def mm_root_table_count_def)

lemma id_table_pma [simp]:
  "id_table i (s\<lparr>pma_pages := xs\<rparr>) p roots ppool qs fl = id_table i s p roots ppool qs fl"
  "id_table i (s\<lparr>pages_spinlock := b\<rparr>) p roots ppool qs fl = id_table i s p roots ppool qs fl"
  "id_table i (s\<lparr>alloc_cache := c\<rparr>) p roots ppool qs fl = id_table i s p roots ppool qs fl"
  unfolding id_table_def by (rule ptable_ok_same; simp)+

lemma pma_addr_pma [simp]:
  "PN_TO_PTR pn (s\<lparr>pma_pages := xs\<rparr>) = PN_TO_PTR pn s" "PN_TO_PTR pn (s\<lparr>pages_spinlock := b\<rparr>) = PN_TO_PTR pn s"
  "PN_TO_PTR pn (s\<lparr>alloc_cache := c\<rparr>) = PN_TO_PTR pn s"
  "PTR_TO_PN pn (s\<lparr>pma_pages := xs\<rparr>) = PTR_TO_PN pn s" "PTR_TO_PN pn (s\<lparr>pages_spinlock := b\<rparr>) = PTR_TO_PN pn s"
  "PTR_TO_PN pn (s\<lparr>alloc_cache := c\<rparr>) = PTR_TO_PN pn s"
  "PAGE_COUNT (s\<lparr>pma_pages := xs\<rparr>) = PAGE_COUNT s" "PAGE_COUNT (s\<lparr>pages_spinlock := b\<rparr>) = PAGE_COUNT s"
  "PAGE_COUNT (s\<lparr>alloc_cache := c\<rparr>) = PAGE_COUNT s"
  "is_restricted pn (s\<lparr>pma_pages := xs\<rparr>) = is_restricted pn s" "is_restricted pn (s\<lparr>pages_spinlock := b\<rparr>) = is_restricted pn s"
  "is_restricted pn (s\<lparr>alloc_cache := c\<rparr>) = is_restricted pn s"
  by (simp_all add: PN_TO_PTR_def PTR_TO_PN_def PAGE_COUNT_def is_restricted_def)

lemma pma_pages_fields [simp]:
  "mm_max_level flags (s\<lparr>pma_pages := xs\<rparr>) = mm_max_level flags s"
  "space_size flags (s\<lparr>pma_pages := xs\<rparr>) = space_size flags s"
  "map_request ipa lo hi mode i (s\<lparr>pma_pages := xs\<rparr>) = map_request ipa lo hi mode i s"
  by (simp_all add: mm_max_level_def space_size_def mm_root_table_count_def map_request_def id_attrs_def)

section \<open>The invariant\<close>

text \<open>What keeps the invariant: the addresses and the lock stay, page 0 and the restricted pages stay taken.\<close>

lemma pma_ok_config:
  assumes "mm_config s' = mm_config s" "pma_ok s"
  shows "pma_ok s'"
  using assms(2) config_fields [OF assms(1)] by (simp add: pma_ok_def)

lemma pma_ok_pages:
  assumes "pma_ok s" "length xs = length (pma_pages s)"
    "\<And>k. k < length xs \<Longrightarrow> is_restricted (word_of_nat k) s \<Longrightarrow> xs ! k \<noteq> 0"
  shows "pma_ok (s\<lparr>pma_pages := xs\<rparr>)"
  using assms by (auto simp: pma_ok_def)

lemma pma_ok_cache: "pma_ok s \<Longrightarrow> length c = length (alloc_cache s) \<Longrightarrow> pma_ok (s\<lparr>alloc_cache := c\<rparr>)"
  by (simp add: pma_ok_def)

lemma pma_ok_owners: "pma_ok s \<Longrightarrow> pma_ok (cache_owners ptr f s)"
  by (auto simp: cache_owners_def intro: pma_ok_cache split: option.splits)

lemma pma_ok_add_cache: "pma_ok s \<Longrightarrow> pma_ok (add_alloc_cache a b e n i s)"
  by (auto simp: add_alloc_cache_def intro: pma_ok_cache)

lemma PTR_HASH_less: "PTR_HASH a < 31"
  by (simp add: PTR_HASH_def unat_mod)

lemma get_cached_add:
  assumes "pma_ok s"
  shows "get_cached a (add_alloc_cache a b e n i s) =
    Some \<lparr>ce_addr = a, ce_begin = b, ce_end = e, ce_page_count = n, ce_owner_ids = ID_TO_BIT i\<rparr>"
  using assms PTR_HASH_less [of a] by (simp add: get_cached_def add_alloc_cache_def pma_ok_def)

section \<open>Allocating\<close>

definition pages_of :: "u64 \<Rightarrow> nat" where
  "pages_of sz = unat (BYTES_TO_PAGES sz)"

lemma pages_of:
  assumes "sz \<le> MEMORY_SIZE s" "pma_ok s"
  shows "pages_of sz = (unat sz + 4095) div 4096"
proof -
  have m: "unat sz \<le> 2 ^ 47" using assms by (simp add: pma_ok_def word_le_nat_alt)
  have p: "unat (PAGE_SIZE :: u64) = 4096" by (simp add: PAGE_SIZE_def PAGE_BITS_def push_bit_eq_mult)
  have "unat (sz + PAGE_SIZE) = unat sz + 4096" using m p by (subst unat_add64) simp_all
  then have "unat (sz + PAGE_SIZE - 1) = unat sz + 4095" by (subst unat_sub64) simp_all
  then show ?thesis by (simp add: pages_of_def BYTES_TO_PAGES_def unat_div p)
qed

definition alignment_of :: "u64 \<Rightarrow> u64 \<Rightarrow> u8 \<Rightarrow> 'a pma_machine_scheme \<Rightarrow> nat" where
  "alignment_of ipa sz alignment s =
     (if alignment = PMA_ALIGN_AUTO_PAGE_LVL then auto_alignment ipa sz 0 [1..<Suc (mm_s2_max_level s)] else unat alignment)"

text \<open>The pages from \<open>st\<close> on are taken for the identity \<open>i\<close>; they were free.\<close>

definition takes :: "u8 \<Rightarrow> nat \<Rightarrow> nat \<Rightarrow> u16 list \<Rightarrow> u16 list \<Rightarrow> bool" where
  "takes i st n xs ys \<longleftrightarrow> free_run xs st n \<and> 0 < n \<and> ys = upd_range st (st + n) (\<lambda>j _. marked i (st + n - 1) j) xs"

definition alloc_ipa :: "u8 \<Rightarrow> u64 \<Rightarrow> nat \<Rightarrow> 'a pma_machine_scheme \<Rightarrow> u64" where
  "alloc_ipa i ipa st s = (if i = HYPERVISOR_ID \<or> ipa = PMA_IDENTITY_MAP then PN_TO_PTR (word_of_nat st) s else ipa)"

definition ipa_ok :: "u8 \<Rightarrow> u64 \<Rightarrow> bool" where
  "ipa_ok i ipa \<longleftrightarrow> i = HYPERVISOR_ID \<or> ipa = PMA_IDENTITY_MAP \<or> 4096 dvd unat ipa \<and> unat ipa < 2 ^ 48"

lemma marking_eq:
  assumes "st + n \<le> length (pma_pages s)" "0 < n" "\<not> pages_spinlock s"
  shows "res_bind (pages_lock s) (\<lambda>s1. res_bind (mark_pages n st (ID_TO_BIT i) s1) (\<lambda>s2.
      res_bind (mark_pages n st (ID_TO_BIT i) s2) (\<lambda>s3. res_bind (page_at (st + n - 1) s3) (\<lambda>v.
      res_bind (set_page (st + n - 1) (v OR ID_TO_LAST_PAGE_BIT i) s3) (\<lambda>s4. f (pages_unlock s4)))))) =
    f (s\<lparr>pma_pages := upd_range st (st + n) (\<lambda>j _. marked i (st + n - 1) j) (pma_pages s)\<rparr>)"
proof -
  let ?xs = "upd_range st (st + n) (\<lambda>_ _. ID_TO_BIT i) (pma_pages s)"
  have "?xs[st + n - 1 := ID_TO_BIT i OR ID_TO_LAST_PAGE_BIT i] =
      upd_range st (st + n) (\<lambda>j _. marked i (st + n - 1) j) (pma_pages s)"
    using assms(1,2) by (intro nth_equalityI) (auto simp: nth_upd_range nth_list_update marked_def)
  moreover have "?xs ! (st + n - 1) = ID_TO_BIT i" using assms(1,2) by (subst nth_upd_range) auto
  ultimately show ?thesis using assms by (simp add: mark_pages_eq upd_range_twice)
qed

lemma takes_pma_ok:
  assumes "pma_ok s" "is_valid_id i" "takes i st n (pma_pages s) ys"
  shows "pma_ok (s\<lparr>pma_pages := ys\<rparr>)"
proof (rule pma_ok_pages [OF assms(1)])
  show "length ys = length (pma_pages s)" using assms(3) by (simp add: takes_def)
  fix k assume "k < length ys" "is_restricted (word_of_nat k) s"
  then show "ys ! k \<noteq> 0"
    using assms(1,3) id_bits [OF assms(2)] by (auto simp: takes_def nth_upd_range marked_def pma_ok_def free_run_def)
qed

lemma takes_start: "pma_ok s \<Longrightarrow> takes i st n (pma_pages s) ys \<Longrightarrow> 0 < st \<and> st + n \<le> length (pma_pages s)"
  using pma_ok_first [of s] by (cases "st = 0") (auto simp: takes_def free_run_def)

text \<open>The result of an allocation: nothing was taken, or pages were taken and \<open>map_memory\<close> succeeded or failed.\<close>

lemma pma_aligned_alloc_spec:
  fixes s :: "'a pma_machine_scheme"
  assumes ok: "pma_ok s" "id_table i s p roots ppool qs fl" "mode_ok i mode" "ipa_ok i ipa"
    and arg: "0 < sz" "sz \<le> MEMORY_SIZE s" "is_valid_id i" "alignment_of ipa sz alignment s < 31"
  shows "(\<exists>st ok s' roots' fl' ys. pma_aligned_alloc p ipa sz alignment mode i ppool s =
        Inr (if ok then PN_TO_PTR (word_of_nat st) s else PN_TO_PTR FAULT_PAGE_NUMBER s,
          add_alloc_cache (if ok then PN_TO_PTR (word_of_nat st) s else PN_TO_PTR FAULT_PAGE_NUMBER s)
            (word_of_nat st) (word_of_nat (st + pages_of sz - 1)) (word_of_nat (pages_of sz)) i s') \<and>
      takes i st (pages_of sz) (pma_pages s) ys \<and>
      start_aligned (alignment_of ipa sz alignment s) (unat (pma_calc_ipa_offset ipa (alignment_of ipa sz alignment s))) st \<and>
      mm_config s' = mm_config (s\<lparr>pma_pages := ys\<rparr>) \<and> id_table i s' p roots' ppool qs fl' \<and>
      updates (map_request (alloc_ipa i ipa st s) st (st + pages_of sz - 1) mode i s) ok (space_size (id_flags i mode) s)
        (space (mm_max_level (id_flags i mode) s) roots) (space (mm_max_level (id_flags i mode) s) roots')) \<or>
    pma_aligned_alloc p ipa sz alignment mode i ppool s = Inr (PN_TO_PTR FAULT_PAGE_NUMBER s, s) \<and>
      (alignment_of ipa sz alignment s = 0 \<longrightarrow> (\<forall>st. \<not> free_run (pma_pages s) st (pages_of sz)))"
proof -
  let ?n = "pages_of sz" and ?al = "alignment_of ipa sz alignment s"
  let ?off = "unat (pma_calc_ipa_offset ipa ?al)"
  have n: "0 < ?n" using pages_of [OF arg(2) ok(1)] arg(1) by (simp add: word_less_nat_alt)
  have len: "unat (PAGE_COUNT s) = length (pma_pages s)" "\<not> pages_spinlock s" using ok(1) by (simp_all add: pma_ok_def)
  obtain st n' where a: "alloc_search (length (pma_pages s)) ?n ?al ?off 0 0 0 s = Inr (st, n')"
    "search_ok (pma_pages s) ?n ?al ?off st n'"
    using alloc_search_top [OF refl arg(4) n] by blast
  note unf = pma_aligned_alloc_def alignment_of_def [symmetric] pages_of_def [symmetric] Let_def len(1) a(1)
  show ?thesis
  proof (cases "st < length (pma_pages s) \<and> ?n \<le> n'")
    case False
    then have "pma_aligned_alloc p ipa sz alignment mode i ppool s = Inr (PN_TO_PTR FAULT_PAGE_NUMBER s, s)"
      using arg(1-3) unfolding unf by auto
    then show ?thesis using a(2) False by (auto simp: search_ok_def)
  next
    case True
    let ?hi = "st + ?n - 1" and ?ys = "upd_range st (st + ?n) (\<lambda>j _. marked i (st + ?n - 1) j) (pma_pages s)"
    let ?t = "s\<lparr>pma_pages := ?ys\<rparr>"
    have run: "n' = ?n" "free_run (pma_pages s) st ?n" "start_aligned ?al ?off st" using a(2) True by (simp_all add: search_ok_def)
    then have tk: "takes i st ?n (pma_pages s) ?ys" using n by (simp add: takes_def)
    note pos = takes_start [OF ok(1) tk]
    let ?ipa = "if ipa = PMA_IDENTITY_MAP then PN_TO_PTR (word_of_nat st) s else ipa"
    have ia: "4096 dvd unat ?ipa \<and> unat ?ipa < 2 ^ 48" if "i \<noteq> HYPERVISOR_ID"
      using ok(4) that unat_PN_TO_PTR [OF ok(1), of st] pos by (auto simp: ipa_ok_def)
    have pn: "st \<le> ?hi" "?hi < length (pma_pages ?t)" "id_table i ?t p roots ppool qs fl" using pos n ok(2) by auto
    note sp = map_memory_spec [OF takes_pma_ok [OF ok(1) arg(3) tk] pn(3) ok(3) conjunct1 [OF pos] pn(1,2) ia]
    obtain ok' s' roots' fl' where m: "map_memory p ?ipa (word_of_nat st) (word_of_nat ?hi) mode i ppool ?t =
        Inr (if ok' then PN_TO_PTR (word_of_nat st) ?t else PN_TO_PTR FAULT_PAGE_NUMBER ?t, s')"
      "mm_config s' = mm_config ?t" "id_table i s' p roots' ppool qs fl'"
      "updates (map_request (map_ipa i ?ipa st ?t) st ?hi mode i ?t) ok' (space_size (id_flags i mode) ?t)
        (space (mm_max_level (id_flags i mode) ?t) roots) (space (mm_max_level (id_flags i mode) ?t) roots')"
      using sp by blast
    have same: "map_request (map_ipa i ?ipa st ?t) st ?hi mode i ?t = map_request (alloc_ipa i ipa st s) st ?hi mode i s"
      "space_size (id_flags i mode) ?t = space_size (id_flags i mode) s" "mm_max_level (id_flags i mode) ?t = mm_max_level (id_flags i mode) s"
      by (simp_all add: map_request_def map_ipa_def alloc_ipa_def id_attrs_def space_size_def mm_root_table_count_def mm_max_level_def)
    have g: "(sz \<le> 0) = False" "(MEMORY_SIZE s < sz) = False" "is_valid_id i = True"
      "(length (pma_pages s) \<le> st \<or> ?n < ?n) = False" using arg(1-3) True by auto
    have "pma_aligned_alloc p ipa sz alignment mode i ppool s =
        res_bind (map_memory p ?ipa (word_of_nat st) (word_of_nat ?hi) mode i ppool ?t) (\<lambda>(ret, s6).
          Inr (ret, add_alloc_cache ret (word_of_nat st) (word_of_nat ?hi) (word_of_nat ?n) i s6))"
      unfolding unf run(1) res_bind.simps prod.case g not_True_eq_False if_False
      by (subst marking_eq [OF conjunct2 [OF pos] n len(2)]) simp
    then have "pma_aligned_alloc p ipa sz alignment mode i ppool s =
        Inr (if ok' then PN_TO_PTR (word_of_nat st) s else PN_TO_PTR FAULT_PAGE_NUMBER s,
          add_alloc_cache (if ok' then PN_TO_PTR (word_of_nat st) s else PN_TO_PTR FAULT_PAGE_NUMBER s)
            (word_of_nat st) (word_of_nat ?hi) (word_of_nat ?n) i s')"
      unfolding m(1) by simp
    then show ?thesis using tk run(3) m(2-4) unfolding same by blast
  qed
qed

end
