(* ===== verification/Pma_Free.thy ===== *)
theory Pma_Free
  imports Pma_Alloc
begin

text \<open>Freeing a chunk and reserving a range.\<close>

lemma marked_bits:
  assumes "is_valid_id i"
  shows "marked i hi j AND ID_TO_BIT i \<noteq> 0" "marked i hi j AND ID_TO_LAST_PAGE_BIT i = 0 \<longleftrightarrow> j \<noteq> hi"
  using assms by (cases rule: valid_id_cases; simp add: marked_def ID_TO_LAST_PAGE_BIT_def ID_TO_BIT_def)+

lemma takes_chunk:
  assumes "is_valid_id i" "takes i st n xs ys"
  shows "chunk i st (st + n - 1) ys"
proof -
  have n: "0 < n" "st + n \<le> length xs" "length ys = length xs" using assms(2) by (simp_all add: takes_def free_run_def)
  have "ys ! j = marked i (st + n - 1) j" if "st \<le> j" "j \<le> st + n - 1" for j
    using assms(2) that n by (auto simp: takes_def nth_upd_range)
  then show ?thesis using n by (auto simp: chunk_def marked_bits [OF assms(1)])
qed

lemma drop_id_marked:
  assumes "is_valid_id i"
  shows "drop_id i (marked i hi j) = 0"
  using assms by (cases rule: valid_id_cases; simp add: drop_id_def marked_def ID_TO_LAST_PAGE_BIT_def ID_TO_BIT_def)

text \<open>Dropping the identity from the pages taken gives the old pages.\<close>

lemma takes_dropped:
  assumes "is_valid_id i" "takes i st n xs ys"
  shows "upd_range st (st + n) (\<lambda>_. drop_id i) ys = xs"
  using assms drop_id_marked [OF assms(1)]
  by (intro nth_equalityI) (auto simp: takes_def free_run_def nth_upd_range)

lemma cache_owners_fields [simp]:
  "pma_pages (cache_owners ptr f s) = pma_pages s" "pages_spinlock (cache_owners ptr f s) = pages_spinlock s"
  "PAGE_COUNT (cache_owners ptr f s) = PAGE_COUNT s" "PN_TO_PTR pn (cache_owners ptr f s) = PN_TO_PTR pn s"
  "id_table i (cache_owners ptr f s) p roots ppool qs fl = id_table i s p roots ppool qs fl"
  "is_restricted pn (cache_owners ptr f s) = is_restricted pn s"
  "mm_max_level flags (cache_owners ptr f s) = mm_max_level flags s" "space_size flags (cache_owners ptr f s) = space_size flags s"
  "map_request ipa lo hi mode i (cache_owners ptr f s) = map_request ipa lo hi mode i s"
  by (simp_all add: cache_owners_def mm_max_level_def space_size_def mm_root_table_count_def map_request_def id_attrs_def
      split: option.split)

lemma pma_free_spec:
  fixes s :: "'a pma_machine_scheme"
  assumes ok: "pma_ok s" "id_table i s p roots ppool qs fl" "is_valid_id i"
    and c: "chunk i st hi (pma_pages s)" "get_start_page_number ptr i s = Inr (word_of_nat st)"
    and r: "\<And>k. st \<le> k \<Longrightarrow> k \<le> hi \<Longrightarrow> \<not> is_restricted (word_of_nat k) s"
  shows "\<exists>b s' roots' fl'. pma_free p ptr i ppool s = Inr (b, s') \<and>
      mm_config s' = mm_config ((cache_owners ptr (\<lambda>ids. ids AND NOT (ID_TO_BIT i)) s)\<lparr>pma_pages :=
        upd_range st (Suc hi) (\<lambda>_. drop_id i) (pma_pages s)\<rparr>) \<and>
      id_table i s' p roots' ppool qs fl' \<and> pma_ok s' \<and>
      updates (map_request (PN_TO_PTR (word_of_nat st) s) st hi MM_MODE_UNMAPPED_MASK i s) b
        (space_size (id_flags i MM_MODE_UNMAPPED_MASK) s)
        (space (mm_max_level (id_flags i MM_MODE_UNMAPPED_MASK) s) roots) (space (mm_max_level (id_flags i MM_MODE_UNMAPPED_MASK) s) roots')"
proof -
  let ?m = "MM_MODE_UNMAPPED_MASK" and ?s = "cache_owners ptr (\<lambda>ids. ids AND NOT (ID_TO_BIT i)) s"
  let ?t = "?s\<lparr>pma_pages := upd_range st (Suc hi) (\<lambda>_. drop_id i) (pma_pages s)\<rparr>"
  have len: "st < length (pma_pages s)" "st \<le> hi" "hi < length (pma_pages s)" "unat (PAGE_COUNT s) = length (pma_pages s)"
    "\<not> pages_spinlock s" "length (pma_pages s) * 4096 \<le> 2 ^ 47"
    using c(1) ok(1) page_count_eq(2) [OF ok(1)] by (auto simp: chunk_def pma_ok_def)
  have u: "unat (word_of_nat st :: u64) = st" using len(1,6) by (intro unat_of_nat64) simp
  have nr: "\<not> is_restricted (word_of_nat st) s" using r len(2) by blast
  have pos: "0 < st" using nr by (cases "st = 0") (simp_all add: is_restricted_def FAULT_PAGE_NUMBER_def)
  have v: "pma_pages s ! st AND ID_TO_BIT i \<noteq> 0" using c(1) by (simp add: chunk_def)
  then have v0: "pma_pages s ! st \<noteq> 0" by auto
  have inv: "pma_ok ?t"
  proof (rule pma_ok_pages [OF pma_ok_owners [OF ok(1)]])
    fix k assume "k < length (upd_range st (Suc hi) (\<lambda>_. drop_id i) (pma_pages s))" "is_restricted (word_of_nat k) ?s"
    then show "upd_range st (Suc hi) (\<lambda>_. drop_id i) (pma_pages s) ! k \<noteq> 0"
      using r [of k] ok(1) by (auto simp: nth_upd_range pma_ok_def)
  qed simp
  have fl: "free_loop (length (pma_pages s) - st) st i (?s\<lparr>pages_spinlock := True\<rparr>) =
      Inr (hi, ?s\<lparr>pages_spinlock := True, pma_pages := upd_range st (Suc hi) (\<lambda>_. drop_id i) (pma_pages s)\<rparr>)"
    using c(1) len by (subst free_loop_eq [OF ok(3)]) simp_all
  have "mode_ok i ?m" by (simp add: mode_ok_def)
  then obtain b s' roots' fl' where m: "map_memory p (PN_TO_PTR (word_of_nat st) s) (word_of_nat st) (word_of_nat hi) ?m i ppool ?t =
      Inr (if b then PN_TO_PTR (word_of_nat st) ?t else PN_TO_PTR FAULT_PAGE_NUMBER ?t, s')"
    "mm_config s' = mm_config ?t" "id_table i s' p roots' ppool qs fl'"
    "updates (map_request (map_ipa i (PN_TO_PTR (word_of_nat st) s) st ?t) st hi ?m i ?t) b (space_size (id_flags i ?m) ?t)
      (space (mm_max_level (id_flags i ?m) ?t) roots) (space (mm_max_level (id_flags i ?m) ?t) roots')"
    using map_memory_spec [OF inv, of i p roots ppool qs fl ?m st hi "PN_TO_PTR (word_of_nat st) s"] ok(2) pos len
      unat_PN_TO_PTR [OF ok(1), of st] by auto
  have "unat (PN_TO_PTR (word_of_nat st) s) \<noteq> unat (PN_TO_PTR (word_of_nat 0) s)"
    using unat_PN_TO_PTR(1) [OF ok(1), of st] unat_PN_TO_PTR(1) [OF ok(1), of 0] len pos by simp
  then have ne: "PN_TO_PTR (word_of_nat st) s \<noteq> PN_TO_PTR FAULT_PAGE_NUMBER s" by (auto simp: FAULT_PAGE_NUMBER_def)
  have "pma_free p ptr i ppool s = Inr (b, s')"
    using ok(3) c(2) nr v v0 u len fl m(1) ne
    by (cases b) (simp_all add: pma_free_def unmap_memory_def config_fields [OF m(2)])
  moreover have "pma_ok s'" using pma_ok_config [OF m(2) inv] .
  moreover have "map_ipa i (PN_TO_PTR (word_of_nat st) s) st ?t = PN_TO_PTR (word_of_nat st) s" by (simp add: map_ipa_def)
  ultimately show ?thesis using m(2-4) by auto
qed

section \<open>Reserving\<close>

lemma pages_same [simp]: "s\<lparr>pma_pages := pma_pages s\<rparr> = (s :: 'a pma_machine_scheme)"
  by (cases s) simp

lemma pma_reserve_memory_spec:
  fixes s :: "'a pma_machine_scheme"
  assumes ok: "pages_ok s" and r: "phys_start_address s \<le> begin" "begin < end"
    "unat end \<le> unat (phys_start_address s) + unat (MEMORY_SIZE s)"
    and pn: "lo = unat (PTR_TO_PN begin s)" "hi = unat (PTR_TO_PN (end - 1) s)"
  shows "lo \<le> hi \<and> hi < length (pma_pages s) \<and> pma_reserve_memory begin end i s =
    (if \<forall>j. lo \<le> j \<and> j \<le> hi \<longrightarrow> pma_pages s ! j = 0
     then Inr (True, s\<lparr>pma_pages := upd_range lo (Suc hi) (\<lambda>j _. marked i hi j) (pma_pages s)\<rparr>)
     else if lo = 0 then Inl OutOfBounds else Inr (False, s))"
proof -
  let ?p = "unat (phys_start_address s)"
  have P: "unat (PAGE_SIZE :: u64) = 4096" by (simp add: PAGE_SIZE_def PAGE_BITS_def push_bit_eq_mult)
  have p: "?p + unat (MEMORY_SIZE s) \<le> 2 ^ 47" "unat (PAGE_COUNT s) = length (pma_pages s)" "\<not> pages_spinlock s"
    using ok by (simp_all add: pages_ok_def)
  have b: "?p \<le> unat begin" "unat begin < unat end" using r(1,2) by (simp_all add: word_le_nat_alt word_less_nat_alt)
  have lo: "lo = (unat begin - ?p) div 4096" using b unfolding pn PTR_TO_PN_def unat_div P by (subst unat_sub64) simp_all
  have e1: "unat (end - 1) = unat end - 1" using b by (subst unat_sub64) simp_all
  have hi: "hi = (unat end - 1 - ?p) div 4096"
    using b unfolding pn PTR_TO_PN_def unat_div P by (subst unat_sub64) (simp_all add: e1)
  have le: "lo \<le> hi" using b unfolding lo hi by (intro div_le_mono) simp
  moreover have h: "hi < length (pma_pages s)"
    unfolding hi using r(3) b page_count_pages(2) [OF ok] by (subst div_less_iff_less_mult) simp_all
  moreover have "\<not> begin < phys_start_address s" "\<not> PAGE_COUNT s \<le> PTR_TO_PN begin s" "\<not> PAGE_COUNT s < PTR_TO_PN (end - 1) s"
    using b le h p(2) pn by (simp_all add: word_less_nat_alt word_le_nat_alt)
  moreover have "reserve_loop (Suc hi - lo) lo lo hi i s =
      (if \<forall>j. lo \<le> j \<and> j \<le> hi \<longrightarrow> pma_pages s ! j = 0
       then Inr (True, s\<lparr>pma_pages := upd_range lo (Suc hi) (\<lambda>j _. marked i hi j) (pma_pages s)\<rparr>)
       else if lo = 0 then Inl OutOfBounds else Inr (False, s\<lparr>pma_pages := pma_pages s\<rparr>))"
    using le h p(3) by (intro reserve_loop_eq) auto
  ultimately show ?thesis
    by (simp add: pma_reserve_memory_def pn [symmetric])
qed

end
