(* ===== verification/Pma_Contract.thy ===== *)
theory Pma_Contract
  imports Pma_Free
begin

text \<open>
  The contract of the physical memory allocator of \<^verbatim>\<open>src/pma.c\<close>, property by property. The instances
  use eight pages from address 0x10000 on, of which the pages 0 and 3 are taken, and the stage-2 table of
  the instances for the page tables.
\<close>

definition demo_pma :: pma_machine where
  "demo_pma = \<lparr>mem = demo_chunk_mem,
     pools = (\<lambda>p. \<lparr>mp_lock = False, entry_size = 0x1000, chunk_list = 0x8000, entry_list = 0, fallback = None\<rparr>),
     mpool_locks_enabled = True, mm_stage2_invalidate = True, mm_s2_max_level = 2, mm_s2_root_table_count = 1,
     mm_log = [], hyp_ptable = 0, ptable_lock = False, phys_start_address = 0x10000, MEMORY_SIZE = 0x8000,
     branch_protection = False, pma_pages = [3, 0, 0, 3, 0, 0, 0, 0], pages_addr = 0x10000, pages_spinlock = False,
     alloc_cache = replicate 32 \<lparr>ce_addr = 0, ce_begin = 0, ce_end = 0, ce_page_count = 0, ce_owner_ids = 0\<rparr>,
     hypervisor_ptable = 0, hypervisor_ppool = 0\<rparr>"

lemma demo_pma_simps [simp]:
  "pma_pages demo_pma = [3, 0, 0, 3, 0, 0, 0, 0]" "phys_start_address demo_pma = 0x10000" "MEMORY_SIZE demo_pma = 0x8000"
  "pages_addr demo_pma = 0x10000" "PAGE_COUNT demo_pma = 8"
  by (simp_all add: demo_pma_def PAGE_COUNT_def BYTES_TO_PAGES_def PAGE_SIZE_def PAGE_BITS_def push_bit_eq_mult)

lemma demo_restricted: "is_restricted pn demo_pma \<longleftrightarrow> pn = 0"
  by (simp add: is_restricted_def FAULT_PAGE_NUMBER_def PTR_TO_PN_def PAGE_SIZE_def PAGE_BITS_def push_bit_eq_mult)

lemma demo_pma_ok: "pma_ok demo_pma"
proof -
  have r: "pma_pages demo_pma ! k \<noteq> 0" if "k < length (pma_pages demo_pma)" "is_restricted (word_of_nat k) demo_pma" for k
  proof -
    have "k = 0" using that unat_of_nat64 [of k] by (simp add: demo_restricted)
    then show ?thesis by simp
  qed
  show ?thesis unfolding pma_ok_def using r by simp (simp add: demo_pma_def)
qed

lemma demo_id_table: "id_table 1 demo_pma 0x1000 demo_roots 0 [0] [0x8000, 0x9000]"
proof -
  have "ptable_ok 0 demo_pma 0x1000 demo_roots 0 [0] [0x8000, 0x9000] = ptable_ok 0 demo_mm 0x1000 demo_roots 0 [0] [0x8000, 0x9000]"
    by (rule ptable_ok_same) (simp_all add: demo_pma_def demo_mm_def)
  then show ?thesis using demo_ptable by (simp add: id_table_def HYPERVISOR_ID_def)
qed

lemma demo_alloc_args:
  "mode_ok 1 3" "ipa_ok 1 0x200000" "(0 :: u64) < 0x2000" "0x2000 \<le> MEMORY_SIZE demo_pma" "is_valid_id 1"
  "alignment_of 0x200000 0x2000 0 demo_pma = 0" "pages_of 0x2000 = 2"
  by (simp_all add: mode_ok_def ipa_ok_def HYPERVISOR_ID_def is_valid_id_def MAX_IDS_def alignment_of_def
      PMA_ALIGN_AUTO_PAGE_LVL_def pages_of_def BYTES_TO_PAGES_def PAGE_SIZE_def PAGE_BITS_def push_bit_eq_mult)



section \<open>Allocating\<close>

lemma alloc_fields:
  assumes "mm_config s' = mm_config (s\<lparr>pma_pages := ys\<rparr>)" "pma_ok (s\<lparr>pma_pages := ys\<rparr>)"
  shows "pma_pages (add_alloc_cache a b e n i s') = ys" "pma_ok (add_alloc_cache a b e n i s')"
  using config_fields(4) [OF assms(1)] pma_ok_add_cache [OF pma_ok_config [OF assms]] by (simp_all add: add_alloc_cache_def)

text \<open>C10. An allocation takes free pages only: \<open>pma_aligned_alloc\<close> returns, keeps the invariant of the
  allocator, and either leaves the state as it is and returns the fault pointer, or marks a run of pages that
  were all free, as many as the size needs, at the requested alignment, for the caller and no other page. Its
  result is then the address of the run, or the fault pointer where the pages could not be mapped.\<close>

theorem pma_aligned_alloc_takes_free_pages:
  assumes "pma_ok s" "id_table i s p roots ppool qs fl" "mode_ok i mode" "ipa_ok i ipa"
    and "0 < sz" "sz \<le> MEMORY_SIZE s" "is_valid_id i" "alignment_of ipa sz alignment s < 31"
  shows "\<exists>ret s'. pma_aligned_alloc p ipa sz alignment mode i ppool s = Inr (ret, s') \<and> pma_ok s' \<and>
    (ret = pma_get_fault_ptr s \<and> s' = s \<or>
     (\<exists>st. takes i st (pages_of sz) (pma_pages s) (pma_pages s') \<and>
        start_aligned (alignment_of ipa sz alignment s) (unat (pma_calc_ipa_offset ipa (alignment_of ipa sz alignment s))) st \<and>
        (ret = PN_TO_PTR (word_of_nat st) s \<or> ret = pma_get_fault_ptr s)))"
  using pma_aligned_alloc_spec [OF assms] unfolding pma_get_fault_ptr_def
proof (elim disjE exE conjE, goal_cases)
  case (1 st ok s' roots' fl' ys)
  note f = alloc_fields [OF 1(4) takes_pma_ok [OF assms(1,7) 1(2)]]
  show ?case
    by (rule exI, rule exI, rule conjI [OF 1(1)], rule conjI [OF f(2)], rule disjI2, rule exI [of _ st], unfold f(1))
      (simp add: 1(2,3))
next
  case 2
  then show ?case using assms(1) by blast
qed

theorem pma_aligned_alloc_takes_free_pages_witness:
  "\<exists>ret s'. pma_aligned_alloc 0x1000 0x200000 0x2000 0 3 1 0 demo_pma = Inr (ret, s') \<and> pma_ok s' \<and>
    (ret = pma_get_fault_ptr demo_pma \<and> s' = demo_pma \<or>
     (\<exists>st. takes 1 st 2 [3, 0, 0, 3, 0, 0, 0, 0] (pma_pages s') \<and>
        (ret = PN_TO_PTR (word_of_nat st) demo_pma \<or> ret = pma_get_fault_ptr demo_pma)))"
  using pma_aligned_alloc_takes_free_pages [OF demo_pma_ok demo_id_table demo_alloc_args(1-5), of 0] demo_alloc_args(6,7)
  by simp blast

text \<open>C11. Without an alignment the search is complete: \<open>pma_alloc\<close> takes pages exactly if there is a run of
  enough free pages anywhere in the memory.\<close>

theorem pma_alloc_complete:
  assumes "pma_ok s" "id_table i s p roots ppool qs fl" "mode_ok i mode" "ipa_ok i ipa"
    and "0 < sz" "sz \<le> MEMORY_SIZE s" "is_valid_id i"
  shows "\<exists>ret s'. pma_alloc p ipa sz mode i ppool s = Inr (ret, s') \<and>
    ((\<exists>st. free_run (pma_pages s) st (pages_of sz)) \<longleftrightarrow> (\<exists>st. takes i st (pages_of sz) (pma_pages s) (pma_pages s')))"
proof -
  have a: "alignment_of ipa sz 0 s = 0" "alignment_of ipa sz 0 s < 31" by (simp_all add: alignment_of_def PMA_ALIGN_AUTO_PAGE_LVL_def)
  show ?thesis
    using pma_aligned_alloc_spec [OF assms a(2)] unfolding pma_alloc_def
  proof (elim disjE exE conjE, goal_cases)
    case (1 st ok s' roots' fl' ys)
    note f = alloc_fields [OF 1(4) takes_pma_ok [OF assms(1,7) 1(2)]]
    have "free_run (pma_pages s) st (pages_of sz)" using 1(2) by (simp add: takes_def)
    then have "(\<exists>st. free_run (pma_pages s) st (pages_of sz)) \<longleftrightarrow> (\<exists>st. takes i st (pages_of sz) (pma_pages s) ys)"
      using 1(2) by blast
    then show ?case by - (rule exI, rule exI, rule conjI [OF 1(1)], unfold f(1))
  next
    case 2
    then show ?case using a(1) by (auto simp: takes_def)
  qed
qed

theorem pma_alloc_complete_witness:
  "\<exists>ret s'. pma_alloc 0x1000 0x200000 0x2000 3 1 0 demo_pma = Inr (ret, s') \<and>
    (\<exists>st. takes 1 st 2 [3, 0, 0, 3, 0, 0, 0, 0] (pma_pages s'))"
proof -
  have "free_run [3, 0, 0, 3, 0, 0, 0, 0] 1 2" by (auto simp: free_run_def less_Suc_eq nth_Cons split: nat.split)
  then show ?thesis
    using pma_alloc_complete [OF demo_pma_ok demo_id_table demo_alloc_args(1-5)] demo_alloc_args(7) by auto
qed



section \<open>Freeing\<close>

text \<open>C13. Freeing undoes an allocation: after an allocation that returned an address, \<open>pma_free\<close> with that address
  returns, keeps the invariant, and leaves every page of the memory as it was before the allocation.\<close>

theorem pma_alloc_then_free:
  assumes "pma_ok s" "id_table i s p roots ppool qs fl" "mode_ok i mode" "ipa_ok i ipa"
    and "0 < sz" "sz \<le> MEMORY_SIZE s" "is_valid_id i" "alignment_of ipa sz alignment s < 31"
  shows "\<exists>ret s'. pma_aligned_alloc p ipa sz alignment mode i ppool s = Inr (ret, s') \<and>
    (ret \<noteq> pma_get_fault_ptr s \<longrightarrow>
      (\<exists>b s''. pma_free p ret i ppool s' = Inr (b, s'') \<and> pma_pages s'' = pma_pages s \<and> pma_ok s''))"
  using pma_aligned_alloc_spec [OF assms] unfolding pma_get_fault_ptr_def
proof (elim disjE exE conjE, goal_cases)
  case (1 st ok s' roots' fl' ys)
  let ?n = "pages_of sz" and ?ret = "PN_TO_PTR (word_of_nat st) s"
  let ?c = "add_alloc_cache ?ret (word_of_nat st) (word_of_nat (st + ?n - 1)) (word_of_nat ?n) i s'"
  note tk = takes_pma_ok [OF assms(1,7) 1(2)] and f = alloc_fields [OF 1(4) takes_pma_ok [OF assms(1,7) 1(2)]]
  have n: "0 < ?n" using 1(2) by (simp add: takes_def)
  have ch: "chunk i st (st + ?n - 1) (pma_pages ?c)" unfolding f(1) by (rule takes_chunk [OF assms(7) 1(2)])
  have st: "get_start_page_number ?ret i ?c = Inr (word_of_nat st)"
    using get_cached_add [OF pma_ok_config [OF 1(4) tk]] by (simp add: get_start_page_number_def)
  have nr: "\<not> is_restricted (word_of_nat k) ?c" if "st \<le> k" "k \<le> st + ?n - 1" for k
    using that 1(2) n assms(1) config_fields(13) [OF 1(4)]
    by (auto simp: takes_def free_run_def pma_ok_def add_alloc_cache_def)
  have "id_table i ?c p roots' ppool qs fl'" using 1(5) by (simp add: add_alloc_cache_def)
  then obtain b s2 where fr: "pma_free p ?ret i ppool ?c = Inr (b, s2)" "pma_ok s2"
    "mm_config s2 = mm_config ((cache_owners ?ret (\<lambda>ids. ids AND NOT (ID_TO_BIT i)) ?c)\<lparr>pma_pages :=
        upd_range st (Suc (st + ?n - 1)) (\<lambda>_. drop_id i) (pma_pages ?c)\<rparr>)"
    using pma_free_spec [OF f(2) _ assms(7) ch st nr] by blast
  have "Suc (st + ?n - 1) = st + ?n" using n by simp
  then have "pma_pages s2 = pma_pages s"
    using config_fields(4) [OF fr(3)] takes_dropped [OF assms(7) 1(2)] by (simp add: f(1) del: One_nat_def)
  then show ?case by - (rule exI, rule exI, rule conjI [OF 1(1)], use fr(1,2) in auto)
next
  case 2
  then show ?case by blast
qed

theorem pma_alloc_then_free_witness:
  "\<exists>ret s'. pma_aligned_alloc 0x1000 0x200000 0x2000 0 3 1 0 demo_pma = Inr (ret, s') \<and>
    (ret \<noteq> pma_get_fault_ptr demo_pma \<longrightarrow>
      (\<exists>b s''. pma_free 0x1000 ret 1 0 s' = Inr (b, s'') \<and> pma_pages s'' = [3, 0, 0, 3, 0, 0, 0, 0] \<and> pma_ok s''))"
  using pma_alloc_then_free [OF demo_pma_ok demo_id_table demo_alloc_args(1-5), of 0] demo_alloc_args(6) by simp

text \<open>C14. \<open>pma_free\<close> unmaps the identity range only: for a virtual machine, exactly the intermediate physical
  addresses that are equal to the physical addresses of the freed pages lose their translation, wherever the
  machine had the pages mapped. Memory mapped at other addresses stays accessible after it was freed.\<close>

theorem pma_free_unmaps_identity_range:
  assumes "pma_ok s" "id_table i s root roots ppool qs fl" "is_valid_id i" "i \<noteq> HYPERVISOR_ID"
    and "chunk i st hi (pma_pages s)" "get_start_page_number ptr i s = Inr (word_of_nat st)"
    and "\<And>k. st \<le> k \<Longrightarrow> k \<le> hi \<Longrightarrow> \<not> is_restricted (word_of_nat k) s"
  shows "\<exists>b s'. pma_free root ptr i ppool s = Inr (b, s') \<and>
    (\<forall>a. unat a < space_size 0 s \<longrightarrow>
       mm_vm_page_table_walk root a s' =
         (if b \<and> unat (phys_start_address s) + st * 4096 \<le> unat a \<and> unat a < unat (phys_start_address s) + Suc hi * 4096
          then None else mm_vm_page_table_walk root a s))"
proof -
  let ?m = "MM_MODE_UNMAPPED_MASK"
  have f: "id_flags i ?m AND MM_FLAG_STAGE1 = 0" using assms(4) mode_flags_stage2 by (simp add: id_flags_def)
  note f0 = stage2_flags [OF f]
  let ?r = "map_request (PN_TO_PTR (word_of_nat st) s) st hi ?m i s" and ?L = "mm_max_level 0 s"
  obtain b s' roots' fl' where c: "pma_free root ptr i ppool s = Inr (b, s')"
    "mm_config s' = mm_config ((cache_owners ptr (\<lambda>ids. ids AND NOT (ID_TO_BIT i)) s)\<lparr>pma_pages :=
        upd_range st (Suc hi) (\<lambda>_. drop_id i) (pma_pages s)\<rparr>)"
    "id_table i s' root roots' ppool qs fl'" "updates ?r b (space_size 0 s) (space ?L roots) (space ?L roots')"
    using pma_free_spec [OF assms(1-3,5-7)] unfolding f0 by blast
  have cfg: "space_size 0 s' = space_size 0 s" "mm_max_level 0 s' = ?L" using config_fields [OF c(2)] by simp_all
  have pt: "ptable_ok 0 s root roots ppool qs fl" "ptable_ok 0 s' root roots' ppool qs fl'"
    using assms(2,4) c(3) by (simp_all add: id_table_def)
  have st: "st \<le> hi" "st \<le> length (pma_pages s)" using assms(5) by (simp_all add: chunk_def)
  have "st * 4096 + (Suc hi - st) * 4096 = Suc hi * 4096"
    using st(1) by (simp add: add_mult_distrib [symmetric] del: mult_Suc)
  then have r: "in_req ?r (unat a) \<longleftrightarrow> unat (phys_start_address s) + st * 4096 \<le> unat a \<and> unat a < unat (phys_start_address s) + Suc hi * 4096"
    if "unat a < space_size 0 s" for a :: u64
    using that unat_PN_TO_PTR(1) [OF assms(1) st(2)] by (simp add: in_req_def map_request_def f0 add.assoc)
  have "rq_unmap ?r" by (simp add: map_request_def)
  then have "mm_vm_page_table_walk root a s' = None" if "unat a < space_size 0 s" "b" "in_req ?r (unat a)" for a
    using mm_vm_page_table_walk_spec [OF pt(2), of a] c(4) that by (auto simp: cfg updates_def installed_def)
  moreover have "mm_vm_page_table_walk root a s' = mm_vm_page_table_walk root a s"
    if "unat a < space_size 0 s" "\<not> (b \<and> in_req ?r (unat a))" for a
    using that c(4) by (intro walk_eqI [OF pt _ cfg]) (auto simp: updates_def)
  ultimately show ?thesis using c(1) r by (intro exI [of _ b] exI [of _ s']) auto
qed

definition demo_taken :: pma_machine where
  "demo_taken = demo_pma\<lparr>pma_pages := [3, 4, 12, 3, 0, 0, 0, 0]\<rparr>"

lemma demo_taken_ok:
  "pma_ok demo_taken" "id_table 1 demo_taken 0x1000 demo_roots 0 [0] [0x8000, 0x9000]" "chunk 1 1 2 (pma_pages demo_taken)"
proof -
  have "[3, 4, 12, 3, 0, 0, 0, 0] ! k \<noteq> (0 :: u16)" if "is_restricted (word_of_nat k) demo_pma" "k < 8" for k
  proof -
    have "k = 0" using that unat_of_nat64 [of k] by (simp add: demo_restricted)
    then show ?thesis by simp
  qed
  then show "pma_ok demo_taken"
    unfolding demo_taken_def using demo_pma_ok by (intro pma_ok_pages) simp_all
  show "id_table 1 demo_taken 0x1000 demo_roots 0 [0] [0x8000, 0x9000]"
    unfolding demo_taken_def id_table_pma by (rule demo_id_table)
  have "j = 1 \<or> j = 2" if "1 \<le> j" "j \<le> 2" for j :: nat using that by auto
  then show "chunk 1 1 2 (pma_pages demo_taken)"
    by (force simp: chunk_def demo_taken_def ID_TO_BIT_def ID_TO_LAST_PAGE_BIT_def push_bit_eq_mult)
qed

lemma chunk_start_page:
  assumes "pma_ok s" "chunk i lo hi (pma_pages s)" "chunk_start i lo (pma_pages s)"
    and "get_cached ptr s = None" "PTR_TO_PN ptr s = word_of_nat k" "lo \<le> k" "k \<le> hi"
  shows "get_start_page_number ptr i s = Inr (word_of_nat lo)"
proof -
  have len: "unat (PAGE_COUNT s) = length (pma_pages s)" "hi < length (pma_pages s)" "length (pma_pages s) * 4096 \<le> 2 ^ 47"
    using assms(1,2) page_count_eq(2) [OF assms(1)] by (auto simp: pma_ok_def chunk_def)
  have u: "unat (word_of_nat k :: u64) = k" using len assms(7) by (intro unat_of_nat64) simp
  have "pma_pages s ! k AND ID_TO_BIT i \<noteq> 0" using assms(2,6,7) by (simp add: chunk_def)
  then have "pma_pages s ! k \<noteq> 0" by auto
  then show ?thesis
    using start_page_loop_eq [OF assms(2,3,6,7)] assms(4-7) len u by (simp add: get_start_page_number_def word_le_nat_alt)
qed

lemma chunk_uncached:
  assumes "pma_ok s" "chunk i lo hi (pma_pages s)" "chunk_start i lo (pma_pages s)" "0 < lo"
    and "get_cached ptr s = None" "PTR_TO_PN ptr s = word_of_nat k" "lo \<le> k" "k \<le> hi"
  shows "pma_get_start ptr i s = Inr (PN_TO_PTR (word_of_nat lo) s)"
    "pma_get_size ptr i s = Inr (PAGES_TO_BYTES (word_of_nat (Suc hi - lo)))"
proof -
  have len: "unat (PAGE_COUNT s) = length (pma_pages s)" "hi < length (pma_pages s)" "length (pma_pages s) * 4096 \<le> 2 ^ 47" "lo \<le> hi"
    using assms(1,2) page_count_eq(2) [OF assms(1)] by (auto simp: pma_ok_def chunk_def)
  have u: "unat (word_of_nat lo :: u64) = lo" using len by (intro unat_of_nat64) simp
  have "(word_of_nat lo :: u64) \<noteq> FAULT_PAGE_NUMBER" using u assms(4) by (auto simp: FAULT_PAGE_NUMBER_def)
  then show "pma_get_start ptr i s = Inr (PN_TO_PTR (word_of_nat lo) s)"
    "pma_get_size ptr i s = Inr (PAGES_TO_BYTES (word_of_nat (Suc hi - lo)))"
    using chunk_start_page [OF assms(1-3,5-8)] get_size_loop_eq [OF assms(2), of "length (pma_pages s) - lo" 0] assms(5) len u
    by (simp_all add: pma_get_start_def pma_get_size_def)
qed

text \<open>What an allocation that returned an address leaves behind: the chunk, and its entry in the cache.\<close>

lemma alloc_cached:
  assumes "pma_ok s" "id_table i s p roots ppool qs fl" "mode_ok i mode" "ipa_ok i ipa"
    and "0 < sz" "sz \<le> MEMORY_SIZE s" "is_valid_id i" "alignment_of ipa sz alignment s < 31"
    and run: "pma_aligned_alloc p ipa sz alignment mode i ppool s = Inr (ret, s')" and ok: "ret \<noteq> pma_get_fault_ptr s"
  shows "\<exists>st. chunk i st (st + pages_of sz - 1) (pma_pages s') \<and> ret = PN_TO_PTR (word_of_nat st) s' \<and> 0 < pages_of sz \<and>
    get_cached ret s' = Some \<lparr>ce_addr = ret, ce_begin = word_of_nat st, ce_end = word_of_nat (st + pages_of sz - 1),
       ce_page_count = word_of_nat (pages_of sz), ce_owner_ids = ID_TO_BIT i\<rparr>"
  using pma_aligned_alloc_spec [OF assms(1-8)]
proof (elim disjE exE conjE, goal_cases)
  case (1 st b t roots' fl' ys)
  note tk = takes_pma_ok [OF assms(1,7) 1(2)] and f = alloc_fields [OF 1(4) takes_pma_ok [OF assms(1,7) 1(2)]]
  have r: "ret = PN_TO_PTR (word_of_nat st) s" "s' = add_alloc_cache ret (word_of_nat st) (word_of_nat (st + pages_of sz - 1))
      (word_of_nat (pages_of sz)) i t"
    using 1(1) run ok by (auto simp: pma_get_fault_ptr_def split: if_splits)
  have "chunk i st (st + pages_of sz - 1) (pma_pages s')" unfolding r(2) f(1) by (rule takes_chunk [OF assms(7) 1(2)])
  moreover have "PN_TO_PTR (word_of_nat st) s' = PN_TO_PTR (word_of_nat st) s"
    unfolding r(2) using config_fields [OF 1(4)] by (simp add: add_alloc_cache_def PN_TO_PTR_def)
  moreover have "0 < pages_of sz" using 1(2) by (simp add: takes_def)
  moreover have "get_cached ret s' = Some \<lparr>ce_addr = ret, ce_begin = word_of_nat st, ce_end = word_of_nat (st + pages_of sz - 1),
       ce_page_count = word_of_nat (pages_of sz), ce_owner_ids = ID_TO_BIT i\<rparr>"
    unfolding r(2) by (rule get_cached_add [OF pma_ok_config [OF 1(4) tk]])
  ultimately show ?case using r(1) by auto
next
  case 2
  then show ?case using run ok by (simp add: pma_get_fault_ptr_def)
qed

lemma demo_taken_query:
  "chunk_start 1 1 (pma_pages demo_taken)" "get_cached 0x12000 demo_taken = None" "PTR_TO_PN 0x12000 demo_taken = word_of_nat 2"
proof -
  show "chunk_start 1 1 (pma_pages demo_taken)" by (simp add: chunk_start_def demo_taken_def ID_TO_BIT_def)
  have "PTR_HASH 0x12000 = 18" by (simp add: PTR_HASH_def)
  then show "get_cached 0x12000 demo_taken = None" by (simp add: get_cached_def demo_taken_def demo_pma_def)
  show "PTR_TO_PN 0x12000 demo_taken = word_of_nat 2"
    by (simp add: PTR_TO_PN_def demo_taken_def PAGE_SIZE_def PAGE_BITS_def push_bit_eq_mult)
qed

lemma demo_taken_start: "get_start_page_number 0x12000 1 demo_taken = Inr (word_of_nat 1)"
  by (rule chunk_start_page [OF demo_taken_ok(1,3) demo_taken_query]) simp_all

theorem pma_free_unmaps_identity_range_witness:
  "\<exists>b s'. pma_free 0x1000 0x12000 1 0 demo_taken = Inr (b, s') \<and>
     mm_vm_page_table_walk 0x1000 0x201234 s' = mm_vm_page_table_walk 0x1000 0x201234 demo_taken"
proof -
  have i: "(1 :: u8) \<noteq> HYPERVISOR_ID" by (simp add: HYPERVISOR_ID_def)
  have nr: "\<not> is_restricted (word_of_nat k) demo_taken" if "1 \<le> k" "k \<le> 2" for k
    using that unat_of_nat64 [of k] by (auto simp: demo_taken_def demo_restricted)
  have sz: "unat (0x201234 :: u64) < space_size 0 demo_taken" "unat (phys_start_address demo_taken) = 0x10000"
    by (simp_all add: demo_taken_def space_size_def mm_max_level_def mm_root_table_count_def esz_def demo_pma_def)
  obtain b s' where c: "pma_free 0x1000 0x12000 1 0 demo_taken = Inr (b, s')"
    "\<forall>a. unat a < space_size 0 demo_taken \<longrightarrow>
       mm_vm_page_table_walk 0x1000 a s' =
         (if b \<and> unat (phys_start_address demo_taken) + 1 * 4096 \<le> unat a \<and> unat a < unat (phys_start_address demo_taken) + Suc 2 * 4096
          then None else mm_vm_page_table_walk 0x1000 a demo_taken)"
    using pma_free_unmaps_identity_range [OF demo_taken_ok(1,2) demo_alloc_args(5) i demo_taken_ok(3) demo_taken_start nr] by blast
  show ?thesis using c(1) c(2) [rule_format, OF sz(1)] by (intro exI [of _ b] exI [of _ s']) (simp add: sz(2))
qed

text \<open>The cache entry for an address, if there is one, describes the chunk from \<open>lo\<close> to \<open>hi\<close>.\<close>

definition cache_fits :: "u64 \<Rightarrow> nat \<Rightarrow> nat \<Rightarrow> 'a pma_machine_scheme \<Rightarrow> bool" where
  "cache_fits ptr lo hi s \<longleftrightarrow>
     (case get_cached ptr s of None \<Rightarrow> True
      | Some entry \<Rightarrow> ce_begin entry = word_of_nat lo \<and> ce_page_count entry = word_of_nat (Suc hi - lo))"

text \<open>It does right after an allocation, for the address that was returned: the allocation leaves a chunk, and an
  entry that describes it.\<close>

lemma alloc_cache_fits:
  assumes "pma_ok s" "id_table i s p roots ppool qs fl" "mode_ok i mode" "ipa_ok i ipa"
    and "0 < sz" "sz \<le> MEMORY_SIZE s" "is_valid_id i" "alignment_of ipa sz alignment s < 31"
    and "pma_aligned_alloc p ipa sz alignment mode i ppool s = Inr (ret, s')" "ret \<noteq> pma_get_fault_ptr s"
  shows "\<exists>lo hi. chunk i lo hi (pma_pages s') \<and> ret = PN_TO_PTR (word_of_nat lo) s' \<and> Suc hi - lo = pages_of sz \<and>
    get_cached ret s' \<noteq> None \<and> cache_fits ret lo hi s'"
proof -
  obtain st where st: "chunk i st (st + pages_of sz - 1) (pma_pages s')" "ret = PN_TO_PTR (word_of_nat st) s'" "0 < pages_of sz"
    "get_cached ret s' = Some \<lparr>ce_addr = ret, ce_begin = word_of_nat st, ce_end = word_of_nat (st + pages_of sz - 1),
       ce_page_count = word_of_nat (pages_of sz), ce_owner_ids = ID_TO_BIT i\<rparr>"
    using alloc_cached [OF assms] by blast
  have "Suc (st + pages_of sz - 1) - st = pages_of sz" using st(3) by simp
  then show ?thesis
    using st by (intro exI [of _ st] exI [of _ "st + pages_of sz - 1"]) (simp add: cache_fits_def)
qed

text \<open>C15. \<open>pma_get_start\<close> and \<open>pma_get_size\<close> answer for a whole chunk: for any address in a chunk of the caller
  they return the address of its first page and the size of all its pages. They take the answer from the page array
  if the address is not in the cache, and from its cache entry otherwise. That such an entry describes the
  chunk the address is in is a condition. It holds for the address an allocation has just returned; the code never
  removes an entry, so that it may fail once the pages were freed and are part of another chunk.\<close>

theorem pma_chunk_queries:
  assumes "pma_ok s" "chunk i lo hi (pma_pages s)" "chunk_start i lo (pma_pages s)" "0 < lo"
    and "PTR_TO_PN ptr s = word_of_nat k" "lo \<le> k" "k \<le> hi" "cache_fits ptr lo hi s"
  shows "pma_get_start ptr i s = Inr (PN_TO_PTR (word_of_nat lo) s) \<and>
    pma_get_size ptr i s = Inr (word_of_nat ((Suc hi - lo) * 4096))"
proof -
  have pb: "PAGES_TO_BYTES (word_of_nat (Suc hi - lo)) = word_of_nat ((Suc hi - lo) * 4096)"
    by (simp add: PAGES_TO_BYTES_def PAGE_SIZE_def PAGE_BITS_def push_bit_eq_mult)
  show ?thesis
  proof (cases "get_cached ptr s")
    case None
    show ?thesis using chunk_uncached [OF assms(1-4) None assms(5-7)] pb by simp
  next
    case (Some entry)
    then show ?thesis
      using assms(8) pb by (simp add: cache_fits_def pma_get_start_def pma_get_size_def get_start_page_number_def)
  qed
qed

text \<open>The instances: the second page of the chunk, which is not in the cache, and its first page, which is.\<close>

definition demo_cached :: pma_machine where
  "demo_cached = add_alloc_cache 0x11000 1 2 2 1 demo_taken"

lemma demo_cached_ok:
  "pma_ok demo_cached" "pma_pages demo_cached = pma_pages demo_taken" "PTR_TO_PN 0x11000 demo_cached = word_of_nat 1"
  "cache_fits 0x11000 1 2 demo_cached" "get_cached 0x11000 demo_cached \<noteq> None"
  using pma_ok_add_cache [OF demo_taken_ok(1)] get_cached_add [OF demo_taken_ok(1), of "0x11000" 1 2 2 1]
  by (simp_all add: demo_cached_def cache_fits_def add_alloc_cache_def PTR_TO_PN_def demo_taken_def PAGE_SIZE_def PAGE_BITS_def
      push_bit_eq_mult)

theorem pma_chunk_queries_witness:
  "pma_get_start 0x12000 1 demo_taken = Inr (PN_TO_PTR (word_of_nat 1) demo_taken) \<and>
   pma_get_size 0x12000 1 demo_taken = Inr (word_of_nat ((Suc 2 - 1) * 4096)) \<and>
   get_cached 0x11000 demo_cached \<noteq> None \<and>
   pma_get_start 0x11000 1 demo_cached = Inr (PN_TO_PTR (word_of_nat 1) demo_cached) \<and>
   pma_get_size 0x11000 1 demo_cached = Inr (word_of_nat ((Suc 2 - 1) * 4096))"
proof -
  have f: "cache_fits 0x12000 1 2 demo_taken" using demo_taken_query(2) by (simp add: cache_fits_def)
  have "(0 :: nat) < 1" "(1 :: nat) \<le> 2" "(2 :: nat) \<le> 2" "(1 :: nat) \<le> 1" by simp_all
  note le = this
  show ?thesis
    using pma_chunk_queries [OF demo_taken_ok(1,3) demo_taken_query(1) le(1) demo_taken_query(3) le(2,3) f]
      pma_chunk_queries [OF demo_cached_ok(1) demo_taken_ok(3) [folded demo_cached_ok(2)]
        demo_taken_query(1) [folded demo_cached_ok(2)] le(1) demo_cached_ok(3) le(4,2) demo_cached_ok(4)]
      demo_cached_ok(5) by blast
qed

section \<open>Reserving\<close>

text \<open>C16. Reserving is all or nothing, for any range inside the memory: the call reserves every page the range
  touches if all of them are free. Otherwise it reports failure with all pages as they were, unless the range starts
  in the first page: then the loop that undoes the reservation counts below page 0 and leaves the page array.\<close>

theorem pma_reserve_all_or_nothing:
  assumes "pages_ok s" "phys_start_address s \<le> begin" "begin < end"
    and "unat end \<le> unat (phys_start_address s) + unat (MEMORY_SIZE s)"
    and "lo = unat (PTR_TO_PN begin s)" "hi = unat (PTR_TO_PN (end - 1) s)"
  shows "pma_reserve_memory begin end i s =
    (if free_run (pma_pages s) lo (Suc hi - lo)
     then Inr (True, s\<lparr>pma_pages := upd_range lo (Suc hi) (\<lambda>j _. marked i hi j) (pma_pages s)\<rparr>)
     else if lo = 0 then Inl OutOfBounds else Inr (False, s))"
proof -
  note r = pma_reserve_memory_spec [OF assms, of i]
  have "free_run (pma_pages s) lo (Suc hi - lo) \<longleftrightarrow> (\<forall>j. lo \<le> j \<and> j \<le> hi \<longrightarrow> pma_pages s ! j = 0)"
    using r by (auto simp: free_run_def)
  then show ?thesis using r by presburger
qed

theorem pma_reserve_all_or_nothing_witness:
  "pma_reserve_memory 0x11800 0x13800 1 demo_pma = Inr (False, demo_pma) \<and>
   pma_reserve_memory 0x11800 0x12800 1 demo_pma = Inr (True, demo_pma\<lparr>pma_pages := [3, 4, 12, 3, 0, 0, 0, 0]\<rparr>) \<and>
   pma_reserve_memory 0x10000 0x10011 1 demo_pma = Inl OutOfBounds"
proof -
  note ok = pma_ok_pages_ok [OF demo_pma_ok]
  have a: "phys_start_address demo_pma \<le> 0x11800" "(0x11800 :: u64) < 0x13800" "(0x11800 :: u64) < 0x12800"
    "phys_start_address demo_pma \<le> 0x10000" "(0x10000 :: u64) < 0x10011"
    "unat (0x13800 :: u64) \<le> unat (phys_start_address demo_pma) + unat (MEMORY_SIZE demo_pma)"
    "unat (0x12800 :: u64) \<le> unat (phys_start_address demo_pma) + unat (MEMORY_SIZE demo_pma)"
    "unat (0x10011 :: u64) \<le> unat (phys_start_address demo_pma) + unat (MEMORY_SIZE demo_pma)"
    "1 = unat (PTR_TO_PN 0x11800 demo_pma)" "3 = unat (PTR_TO_PN (0x13800 - 1) demo_pma)"
    "2 = unat (PTR_TO_PN (0x12800 - 1) demo_pma)" "0 = unat (PTR_TO_PN 0x10000 demo_pma)" "0 = unat (PTR_TO_PN (0x10011 - 1) demo_pma)"
    by (simp_all add: PTR_TO_PN_def PAGE_SIZE_def PAGE_BITS_def push_bit_eq_mult)
  have f: "\<not> free_run (pma_pages demo_pma) 1 (Suc 3 - 1)" "\<not> free_run (pma_pages demo_pma) 0 (Suc 0 - 0)"
    "free_run (pma_pages demo_pma) 1 (Suc 2 - 1)"
  proof -
    show "\<not> free_run (pma_pages demo_pma) 1 (Suc 3 - 1)" by (auto simp: free_run_def intro!: exI [of _ 3])
    show "\<not> free_run (pma_pages demo_pma) 0 (Suc 0 - 0)" by (simp add: free_run_def)
    have "j = 1 \<or> j = 2" if "1 \<le> j" "j < 1 + (Suc 2 - 1)" for j :: nat using that by auto
    then show "free_run (pma_pages demo_pma) 1 (Suc 2 - 1)" by (force simp: free_run_def)
  qed
  have m: "upd_range 1 (Suc 2) (\<lambda>j _. marked 1 2 j) (pma_pages demo_pma) = [3, 4, 12, 3, 0, 0, 0, 0]"
    by (simp add: upd_range_def upt_rec marked_def ID_TO_BIT_def ID_TO_LAST_PAGE_BIT_def push_bit_eq_mult)
  show ?thesis
    using pma_reserve_all_or_nothing [OF ok a(1,2,6,9,10), of 1] pma_reserve_all_or_nothing [OF ok a(1,3,7,9,11), of 1]
      pma_reserve_all_or_nothing [OF ok a(4,5,8,12,13), of 1] f m by simp
qed

end
