(* ===== verification/Bytes.thy ===== *)
theory Bytes
  imports Prelude
begin

text \<open>
  Memory as bytes, for the code that works on characters and buffers: little-endian loads and stores of
  32 and 64 bits, and \<open>put d O f m\<close>, the memory \<open>m\<close> in which the byte at offset \<open>k\<close> from \<open>d\<close> is \<open>f k\<close> for the
  offsets \<open>k\<close> of the set \<open>O\<close>. Addresses are 64-bit words, so offsets wrap around as in the machine.
\<close>

type_synonym bmem = "u64 \<Rightarrow> u8"

definition byte_of :: "nat \<Rightarrow> 'a::len word \<Rightarrow> u8" where
  "byte_of i w = ucast (drop_bit (8 * i) w)"

definition load32 :: "u64 \<Rightarrow> bmem \<Rightarrow> u32" where
  "load32 a m = ucast (m a) OR push_bit 8 (ucast (m (a + 1))) OR push_bit 16 (ucast (m (a + 2))) OR
     push_bit 24 (ucast (m (a + 3)))"

definition store32 :: "u64 \<Rightarrow> u32 \<Rightarrow> bmem \<Rightarrow> bmem" where
  "store32 a v m = m(a := byte_of 0 v, a + 1 := byte_of 1 v, a + 2 := byte_of 2 v, a + 3 := byte_of 3 v)"

definition load64 :: "u64 \<Rightarrow> bmem \<Rightarrow> u64" where
  "load64 a m = ucast (load32 a m) OR push_bit 32 (ucast (load32 (a + 4) m))"

definition store64 :: "u64 \<Rightarrow> u64 \<Rightarrow> bmem \<Rightarrow> bmem" where
  "store64 a v m = store32 (a + 4) (ucast (drop_bit 32 v)) (store32 a (ucast v) m)"

section \<open>Bytes of words\<close>

lemma byte_of_load32:
  "byte_of 0 (load32 a m) = m a" "byte_of (Suc 0) (load32 a m) = m (a + 1)"
  "byte_of 2 (load32 a m) = m (a + 2)" "byte_of 3 (load32 a m) = m (a + 3)"
  by (rule bit_eqI; auto simp: byte_of_def load32_def bit_simps dest: bit_imp_le_length)+

lemma ucast_load64: "ucast (load64 a m) = load32 a m" "ucast (drop_bit 32 (load64 a m)) = load32 (a + 4) m"
  by (rule bit_eqI; auto simp: load64_def bit_simps dest: bit_imp_le_length)+

lemma byte_of_join:
  assumes "i < 4" "l \<le> 4"
  shows "byte_of i (drop_bit (32 - 8 * l) w OR push_bit (8 * l) x :: u32) = (if i < l then byte_of (i + 4 - l) w else byte_of (i - l) x)"
proof (rule bit_eqI)
  fix n
  show "bit (byte_of i (drop_bit (32 - 8 * l) w OR push_bit (8 * l) x)) n =
      bit (if i < l then byte_of (i + 4 - l) w else byte_of (i - l) x) n"
    using assms by (auto simp: byte_of_def bit_simps algebra_simps dest: bit_imp_le_length)
qed

section \<open>Writing at offsets\<close>

definition put :: "u64 \<Rightarrow> nat set \<Rightarrow> (nat \<Rightarrow> u8) \<Rightarrow> bmem \<Rightarrow> bmem" where
  "put d K f m = (\<lambda>a. if unat (a - d) \<in> K then f (unat (a - d)) else m a)"

lemma put_empty [simp]: "put d {} f m = m"
  by (simp add: put_def)

lemma offset_eq: "k < 2 ^ 64 \<Longrightarrow> unat (a - d :: u64) = k \<longleftrightarrow> a = d + word_of_nat k"
proof -
  assume k: "k < 2 ^ 64"
  have "a - d = word_of_nat k \<longleftrightarrow> a = d + word_of_nat k" by (auto simp: algebra_simps)
  moreover have "unat (a - d) = k \<longleftrightarrow> a - d = word_of_nat k" using k unat_of_nat64 [of k] by (auto simp: unat_eq_iff64)
  ultimately show ?thesis by simp
qed

lemma put_byte:
  assumes "k < 2 ^ 64"
  shows "(put d K f m)(d + word_of_nat k := f k) = put d (insert k K) f m"
proof
  fix a show "((put d K f m)(d + word_of_nat k := f k)) a = put d (insert k K) f m a"
    using offset_eq [OF assms, of a d] by (auto simp: put_def)
qed

lemma put_store32:
  assumes "k + 4 \<le> 2 ^ 64" "byte_of 0 v = f k" "byte_of 1 v = f (k + 1)" "byte_of 2 v = f (k + 2)" "byte_of 3 v = f (k + 3)"
  shows "store32 (d + word_of_nat k) v (put d K f m) = put d (K \<union> {k..<k + 4}) f m"
proof -
  have s: "d + word_of_nat k + 1 = d + word_of_nat (k + 1)" "d + word_of_nat k + 2 = d + word_of_nat (k + 2)"
    "d + word_of_nat k + 3 = d + word_of_nat (k + 3)" by simp_all
  have "{k..<k + 4} = {k, k + 1, k + 2, k + 3}" by auto
  then have "insert (k + 3) (insert (k + 2) (insert (k + 1) (insert k K))) = K \<union> {k..<k + 4}" by auto
  then show ?thesis unfolding store32_def s assms(2-5) using assms(1) by (simp only: put_byte)
qed

lemma put_read: "unat (a - d) \<notin> K \<Longrightarrow> put d K f m a = m a"
  by (simp add: put_def)

end
