(* ===== verification/Std.thy ===== *)
theory Std
  imports Bytes
begin

text \<open>
  The memory functions of \<^verbatim>\<open>src/arch/aarch64/std.c\<close> and their checked versions of \<^verbatim>\<open>src/std.c\<close>, statement by
  statement on byte memory. The GCC branches of the conditional code are the ones modelled, little-endian,
  as the hypervisor is built. Sizes are natural numbers below \<open>2 ^ 64\<close>; no size is decreased below 0.
  \<^verbatim>\<open>char\<close> is unsigned on AArch64. The returned destination pointer is the argument and left out.
\<close>

section \<open>Filling\<close>

text \<open>The stores of single bytes at both ends: \<open>Inl\<close> where the function returns.\<close>

definition memset_ends :: "u64 \<Rightarrow> u8 \<Rightarrow> nat \<Rightarrow> bmem \<Rightarrow> bmem + bmem" where
  "memset_ends s c n m =
     (if n = 0 then Inl m else
      let m1 = m(s := c, s + word_of_nat (n - 1) := c) in
      if n \<le> 2 then Inl m1 else
      let m2 = m1(s + 1 := c, s + 2 := c, s + word_of_nat (n - 2) := c, s + word_of_nat (n - 3) := c) in
      if n \<le> 6 then Inl m2 else
      let m3 = m2(s + 3 := c, s + word_of_nat (n - 4) := c) in
      if n \<le> 8 then Inl m3 else Inr m3)"

text \<open>The stores of 32 bits at both ends, on an aligned address and a size that is a multiple of 4.\<close>

definition memset_ends32 :: "u64 \<Rightarrow> u32 \<Rightarrow> nat \<Rightarrow> bmem \<Rightarrow> bmem + bmem" where
  "memset_ends32 s c32 n m =
     (let m1 = store32 (s + word_of_nat (n - 4)) c32 (store32 s c32 m) in
      if n \<le> 8 then Inl m1 else
      let m2 = store32 (s + word_of_nat (n - 8)) c32 (store32 (s + word_of_nat (n - 12)) c32
                 (store32 (s + 8) c32 (store32 (s + 4) c32 m1))) in
      if n \<le> 24 then Inl m2 else
      let m3 = store32 (s + 24) c32 (store32 (s + 20) c32 (store32 (s + 16) c32 (store32 (s + 12) c32 m2))) in
      Inr (store32 (s + word_of_nat (n - 16)) c32 (store32 (s + word_of_nat (n - 20)) c32
            (store32 (s + word_of_nat (n - 24)) c32 (store32 (s + word_of_nat (n - 28)) c32 m3)))))"

fun memset_loop :: "u64 \<Rightarrow> u64 \<Rightarrow> nat \<Rightarrow> bmem \<Rightarrow> bmem" where
  "memset_loop s c64 n m =
     (if 32 \<le> n
      then memset_loop (s + 32) c64 (n - 32)
             (store64 (s + 24) c64 (store64 (s + 16) c64 (store64 (s + 8) c64 (store64 s c64 m))))
      else m)"

declare memset_loop.simps [simp del]

definition memset_peregrine :: "u64 \<Rightarrow> u32 \<Rightarrow> nat \<Rightarrow> bmem \<Rightarrow> bmem" where
  "memset_peregrine dest c n m =
     (case memset_ends dest (ucast c) n m of
        Inl m' \<Rightarrow> m'
      | Inr m1 \<Rightarrow>
          let k = unat (- dest AND 3);
              s = dest + word_of_nat k;
              n1 = (n - k) - (n - k) mod 4;
              c32 = (-1 div 255) * (ucast (ucast c :: u8) :: u32)
          in case memset_ends32 s c32 n1 m1 of
               Inl m' \<Rightarrow> m'
             | Inr m2 \<Rightarrow>
                 let k2 = 24 + unat (s AND 4);
                     c64 = ucast c32 OR push_bit 32 (ucast c32)
                 in memset_loop (s + word_of_nat k2) c64 (n1 - k2) m2)"

section \<open>Copying\<close>

text \<open>The state of the copy loops: destination, source, bytes left and memory.\<close>

type_synonym copying = "u64 \<times> u64 \<times> nat \<times> bmem"

text \<open>\<^verbatim>\<open>*d++ = *s++\<close>, \<open>b\<close> times.\<close>

primrec copy_bytes :: "nat \<Rightarrow> u64 \<Rightarrow> u64 \<Rightarrow> bmem \<Rightarrow> bmem" where
  "copy_bytes 0 d s m = m"
| "copy_bytes (Suc b) d s m = copy_bytes b (d + 1) (s + 1) (m(d := m s))"

definition copy32 :: "u64 \<Rightarrow> u64 \<Rightarrow> bmem \<Rightarrow> bmem" where
  "copy32 d s m = store32 d (load32 s m) m"

definition copy64 :: "u64 \<Rightarrow> u64 \<Rightarrow> bmem \<Rightarrow> bmem" where
  "copy64 d s m = store64 d (load64 s m) m"

text \<open>Copying single bytes until the source is aligned.\<close>

primrec memcpy_head :: "nat \<Rightarrow> u64 \<Rightarrow> u64 \<Rightarrow> bmem \<Rightarrow> copying" where
  "memcpy_head 0 d s m = (d, s, 0, m)"
| "memcpy_head (Suc n) d s m =
     (if unat s mod 4 \<noteq> 0 then memcpy_head n (d + 1) (s + 1) (m(d := m s)) else (d, s, Suc n, m))"

fun memcpy_loop16 :: "nat \<Rightarrow> u64 \<Rightarrow> u64 \<Rightarrow> bmem \<Rightarrow> copying" where
  "memcpy_loop16 n d s m =
     (if 16 \<le> n
      then memcpy_loop16 (n - 16) (d + 16) (s + 16)
             (copy32 (d + 12) (s + 12) (copy32 (d + 8) (s + 8) (copy32 (d + 4) (s + 4) (copy32 d s m))))
      else (d, s, n, m))"

declare memcpy_loop16.simps [simp del]

text \<open>The rest of the copy when source and destination are aligned.\<close>

definition memcpy_aligned :: "nat \<Rightarrow> u64 \<Rightarrow> u64 \<Rightarrow> bmem \<Rightarrow> bmem" where
  "memcpy_aligned n0 d0 s0 m0 =
     (let (d, s, n, m) = memcpy_loop16 n0 d0 s0 m0;
          (d, s, m) = (if bit n 3 then (d + 8, s + 8, copy32 (d + 4) (s + 4) (copy32 d s m)) else (d, s, m));
          (d, s, m) = (if bit n 2 then (d + 4, s + 4, copy32 d s m) else (d, s, m));
          (d, s, m) = (if bit n 1 then (d + 2, s + 2, copy_bytes 2 d s m) else (d, s, m))
      in if bit n 0 then copy_bytes 1 d s m else m)"

text \<open>
  The loops for a destination that is not aligned. Each combines the words \<open>w\<close> and \<open>x\<close> at the neighbouring
  aligned source addresses; the arguments \<open>ls\<close>, \<open>rs\<close> and \<open>k\<close> are 24, 8 and 1 in the first of the three cases,
  16, 16 and 2 in the second and 8, 24 and 3 in the third.
\<close>

fun memcpy_shift :: "nat \<Rightarrow> nat \<Rightarrow> nat \<Rightarrow> u32 \<Rightarrow> nat \<Rightarrow> u64 \<Rightarrow> u64 \<Rightarrow> bmem \<Rightarrow> copying" where
  "memcpy_shift ls rs k w n d s m =
     (if 16 + k \<le> n
      then
        let x = load32 (s + word_of_nat k) m;
            m1 = store32 d (drop_bit ls w OR push_bit rs x) m;
            w1 = load32 (s + word_of_nat (4 + k)) m1;
            m2 = store32 (d + 4) (drop_bit ls x OR push_bit rs w1) m1;
            x1 = load32 (s + word_of_nat (8 + k)) m2;
            m3 = store32 (d + 8) (drop_bit ls w1 OR push_bit rs x1) m2;
            w2 = load32 (s + word_of_nat (12 + k)) m3;
            m4 = store32 (d + 12) (drop_bit ls x1 OR push_bit rs w2) m3
        in memcpy_shift ls rs k w2 (n - 16) (d + 16) (s + 16) m4
      else (d, s, n, m))"

declare memcpy_shift.simps [simp del]

definition memcpy_unaligned :: "nat \<Rightarrow> u64 \<Rightarrow> u64 \<Rightarrow> bmem \<Rightarrow> copying" where
  "memcpy_unaligned n d s m =
     (if n \<ge> 32
      then if unat d mod 4 = 1
           then memcpy_shift 24 8 1 (load32 s m) (n - 3) (d + 3) (s + 3) (copy_bytes 3 d s m)
           else if unat d mod 4 = 2
           then memcpy_shift 16 16 2 (load32 s m) (n - 2) (d + 2) (s + 2) (copy_bytes 2 d s m)
           else if unat d mod 4 = 3
           then memcpy_shift 8 24 3 (load32 s m) (n - 1) (d + 1) (s + 1) (copy_bytes 1 d s m)
           else (d, s, n, m)
      else (d, s, n, m))"

definition memcpy_tail :: "copying \<Rightarrow> bmem" where
  "memcpy_tail st =
     (let (d, s, n, m) = st;
          (d, s, m) = (if bit n 4 then (d + 16, s + 16, copy_bytes 16 d s m) else (d, s, m));
          (d, s, m) = (if bit n 3 then (d + 8, s + 8, copy_bytes 8 d s m) else (d, s, m));
          (d, s, m) = (if bit n 2 then (d + 4, s + 4, copy_bytes 4 d s m) else (d, s, m));
          (d, s, m) = (if bit n 1 then (d + 2, s + 2, copy_bytes 2 d s m) else (d, s, m))
      in if bit n 0 then copy_bytes 1 d s m else m)"

definition memcpy_peregrine :: "u64 \<Rightarrow> u64 \<Rightarrow> nat \<Rightarrow> bmem \<Rightarrow> bmem" where
  "memcpy_peregrine dest src n0 m0 =
     (let (d, s, n, m) = memcpy_head n0 dest src m0 in
      if unat d mod 4 = 0 then memcpy_aligned n d s m
      else memcpy_tail (memcpy_unaligned n d s m))"

text \<open>\<^verbatim>\<open>memmove_peregrine\<close>: forwards, \<open>Inl\<close> where the function returns because no byte is left.\<close>

primrec memmove_head :: "nat \<Rightarrow> u64 \<Rightarrow> u64 \<Rightarrow> bmem \<Rightarrow> bmem + copying" where
  "memmove_head 0 d s m = (if unat d mod 8 \<noteq> 0 then Inl m else Inr (d, s, 0, m))"
| "memmove_head (Suc n) d s m =
     (if unat d mod 8 \<noteq> 0 then memmove_head n (d + 1) (s + 1) (m(d := m s)) else Inr (d, s, Suc n, m))"

fun memmove_loop8 :: "nat \<Rightarrow> u64 \<Rightarrow> u64 \<Rightarrow> bmem \<Rightarrow> copying" where
  "memmove_loop8 n d s m =
     (if 8 \<le> n then memmove_loop8 (n - 8) (d + 8) (s + 8) (copy64 d s m) else (d, s, n, m))"

declare memmove_loop8.simps [simp del]

definition memmove_forward :: "u64 \<Rightarrow> u64 \<Rightarrow> nat \<Rightarrow> bmem \<Rightarrow> bmem" where
  "memmove_forward d0 s0 n0 m0 =
     (if unat s0 mod 8 = unat d0 mod 8
      then case memmove_head n0 d0 s0 m0 of
             Inl m \<Rightarrow> m
           | Inr (d, s, n, m) \<Rightarrow> let (d', s', n', m') = memmove_loop8 n d s m in copy_bytes n' d' s' m'
      else copy_bytes n0 d0 s0 m0)"

text \<open>Backwards: the addresses stay, the number of bytes decreases.\<close>

primrec memmove_bytes_down :: "nat \<Rightarrow> u64 \<Rightarrow> u64 \<Rightarrow> bmem \<Rightarrow> bmem" where
  "memmove_bytes_down 0 d s m = m"
| "memmove_bytes_down (Suc n) d s m =
     memmove_bytes_down n d s (m(d + word_of_nat n := m (s + word_of_nat n)))"

primrec memmove_head_down :: "nat \<Rightarrow> u64 \<Rightarrow> u64 \<Rightarrow> bmem \<Rightarrow> bmem + nat \<times> bmem" where
  "memmove_head_down 0 d s m = (if unat d mod 8 \<noteq> 0 then Inl m else Inr (0, m))"
| "memmove_head_down (Suc n) d s m =
     (if unat (d + word_of_nat (Suc n)) mod 8 \<noteq> 0
      then memmove_head_down n d s (m(d + word_of_nat n := m (s + word_of_nat n)))
      else Inr (Suc n, m))"

fun memmove_loop8_down :: "nat \<Rightarrow> u64 \<Rightarrow> u64 \<Rightarrow> bmem \<Rightarrow> nat \<times> bmem" where
  "memmove_loop8_down n d s m =
     (if 8 \<le> n
      then memmove_loop8_down (n - 8) d s (copy64 (d + word_of_nat (n - 8)) (s + word_of_nat (n - 8)) m)
      else (n, m))"

declare memmove_loop8_down.simps [simp del]

definition memmove_backward :: "u64 \<Rightarrow> u64 \<Rightarrow> nat \<Rightarrow> bmem \<Rightarrow> bmem" where
  "memmove_backward d s n m =
     (if unat s mod 8 = unat d mod 8
      then case memmove_head_down n d s m of
             Inl m1 \<Rightarrow> m1
           | Inr (n1, m1) \<Rightarrow> let (n2, m2) = memmove_loop8_down n1 d s m1 in memmove_bytes_down n2 d s m2
      else memmove_bytes_down n d s m)"

definition memmove_peregrine :: "u64 \<Rightarrow> u64 \<Rightarrow> nat \<Rightarrow> bmem \<Rightarrow> bmem" where
  "memmove_peregrine d s n m =
     (if d = s then m
      else if s - d - word_of_nat n \<le> 2 * - word_of_nat n then memcpy_peregrine d s n m
      else if d < s then memmove_forward d s n m
      else memmove_backward d s n m)"

section \<open>Comparing and searching\<close>

primrec memcmp :: "u64 \<Rightarrow> u64 \<Rightarrow> nat \<Rightarrow> bmem \<Rightarrow> int" where
  "memcmp a b 0 m = 0"
| "memcmp a b (Suc n) m = (if m a \<noteq> m b then uint (m a) - uint (m b) else memcmp (a + 1) (b + 1) n m)"

primrec strncmp_loop :: "u8 \<Rightarrow> u8 \<Rightarrow> u64 \<Rightarrow> u64 \<Rightarrow> nat \<Rightarrow> bmem \<Rightarrow> int" where
  "strncmp_loop x y a b 0 m = uint x - uint y"
| "strncmp_loop x y a b (Suc n) m =
     (if m a = 0 \<or> m a \<noteq> m b then uint (m a) - uint (m b) else strncmp_loop (m a) (m b) (a + 1) (b + 1) n m)"

definition strncmp :: "u64 \<Rightarrow> u64 \<Rightarrow> nat \<Rightarrow> bmem \<Rightarrow> int" where
  "strncmp a b n m = strncmp_loop 0 0 a b n m"

text \<open>The result is the offset of the first occurrence.\<close>

primrec memchr_loop :: "nat \<Rightarrow> u64 \<Rightarrow> nat \<Rightarrow> u8 \<Rightarrow> bmem \<Rightarrow> u64 option" where
  "memchr_loop 0 p i ch m = None"
| "memchr_loop (Suc n) p i ch m =
     (if m (p + word_of_nat i) = ch then Some (p + word_of_nat i) else memchr_loop n p (Suc i) ch m)"

definition memchr :: "u64 \<Rightarrow> u32 \<Rightarrow> nat \<Rightarrow> bmem \<Rightarrow> u64 option res" where
  "memchr p ch n m = (if p = 0 then Inl Panic else Inr (memchr_loop n p 0 (ucast ch) m))"

section \<open>The checked functions\<close>

definition memset_s :: "u64 \<Rightarrow> nat \<Rightarrow> u32 \<Rightarrow> nat \<Rightarrow> bmem \<Rightarrow> bmem res" where
  "memset_s dest destsz ch n m =
     (if dest = 0 \<or> destsz > RSIZE_MAX then Inl Panic else Inr (memset_peregrine dest ch n m))"

text \<open>A failed check fills the destination and then panics; the panic ends the execution, and the memory with it.\<close>

definition panic :: "bmem \<Rightarrow> bmem res" where
  "panic m = Inl Panic"

definition CHECK_OR_FILL :: "bool \<Rightarrow> u64 \<Rightarrow> nat \<Rightarrow> u32 \<Rightarrow> bmem \<Rightarrow> bmem res \<Rightarrow> bmem res" where
  "CHECK_OR_FILL cond dest destsz ch m r =
     (if \<not> cond
      then res_bind (if dest \<noteq> 0 \<and> destsz \<le> RSIZE_MAX then memset_s dest destsz ch destsz m else Inr m) panic
      else r)"

definition CHECK_OR_ZERO_FILL :: "bool \<Rightarrow> u64 \<Rightarrow> nat \<Rightarrow> bmem \<Rightarrow> bmem res \<Rightarrow> bmem res" where
  "CHECK_OR_ZERO_FILL cond dest destsz m r = CHECK_OR_FILL cond dest destsz 0 m r"

definition memcpy_s :: "u64 \<Rightarrow> nat \<Rightarrow> u64 \<Rightarrow> nat \<Rightarrow> bmem \<Rightarrow> bmem res" where
  "memcpy_s dest destsz src n m =
     CHECK_OR_ZERO_FILL (dest \<noteq> 0) dest destsz m (
     CHECK_OR_ZERO_FILL (src \<noteq> 0) dest destsz m (
     CHECK_OR_ZERO_FILL (destsz \<le> RSIZE_MAX) dest destsz m (
     CHECK_OR_ZERO_FILL (n \<le> destsz) dest destsz m (
     CHECK_OR_ZERO_FILL (dest \<noteq> src) dest destsz m (
     CHECK_OR_ZERO_FILL (dest < src \<or> dest \<ge> src + word_of_nat n) dest destsz m (
     CHECK_OR_ZERO_FILL (dest > src \<or> src \<ge> dest + word_of_nat n) dest destsz m (
     Inr (memcpy_peregrine dest src n m))))))))"

definition memmove_s :: "u64 \<Rightarrow> nat \<Rightarrow> u64 \<Rightarrow> nat \<Rightarrow> bmem \<Rightarrow> bmem res" where
  "memmove_s dest destsz src n m =
     CHECK_OR_ZERO_FILL (dest \<noteq> 0) dest destsz m (
     CHECK_OR_ZERO_FILL (src \<noteq> 0) dest destsz m (
     CHECK_OR_ZERO_FILL (destsz \<le> RSIZE_MAX) dest destsz m (
     CHECK_OR_ZERO_FILL (n \<le> destsz) dest destsz m (
     Inr (memmove_peregrine dest src n m)))))"

definition memset_unsafe :: "u64 \<Rightarrow> u32 \<Rightarrow> nat \<Rightarrow> bmem \<Rightarrow> bmem" where
  "memset_unsafe dest ch n m = memset_peregrine dest ch n m"

definition memcpy_unsafe :: "u64 \<Rightarrow> u64 \<Rightarrow> nat \<Rightarrow> bmem \<Rightarrow> bmem" where
  "memcpy_unsafe dest src n m = memcpy_peregrine dest src n m"

definition memmove_unsafe :: "u64 \<Rightarrow> u64 \<Rightarrow> nat \<Rightarrow> bmem \<Rightarrow> bmem" where
  "memmove_unsafe dest src n m = memmove_peregrine dest src n m"

primrec strnlen_loop :: "nat \<Rightarrow> u64 \<Rightarrow> nat \<Rightarrow> bmem \<Rightarrow> nat" where
  "strnlen_loop 0 str i m = i"
| "strnlen_loop (Suc n) str i m = (if m (str + word_of_nat i) = 0 then i else strnlen_loop n str (Suc i) m)"

definition strnlen_s :: "u64 \<Rightarrow> nat \<Rightarrow> bmem \<Rightarrow> nat" where
  "strnlen_s str strsz m = (if str = 0 then 0 else strnlen_loop strsz str 0 m)"

section \<open>Pairs of words and atomic counters\<close>

definition uint64_to_uint64_pair :: "u64 \<Rightarrow> u64 \<times> u64" where
  "uint64_to_uint64_pair src = (drop_bit 32 src, ucast (ucast src :: u32))"

definition uint64_pair_to_uint64 :: "u64 \<Rightarrow> u64 \<Rightarrow> u64" where
  "uint64_pair_to_uint64 src_high src_low = push_bit 32 src_high OR ucast (ucast src_low :: u32)"

text \<open>
  \<open>obs\<close> are the values that failed exchanges find because of other CPUs; the exchange after the last of
  them succeeds. The result holds the value of the counter, the last one seen where nothing was written. A counter is an \<^verbatim>\<open>int\<close>: 32 bits that
  are compared as signed numbers and wrap around.
\<close>

primrec atomic_inc_loop :: "u32 list \<Rightarrow> u32 \<Rightarrow> u32 \<Rightarrow> bool \<times> u32" where
  "atomic_inc_loop [] old_val bound = (if sint old_val > sint bound then (False, old_val) else (True, old_val + 1))"
| "atomic_inc_loop (v # obs) old_val bound =
     (if sint old_val > sint bound then (False, old_val) else atomic_inc_loop obs v bound)"

definition atomic_inc :: "u32 list \<Rightarrow> u32 \<Rightarrow> u32 \<Rightarrow> bool \<times> u32" where
  "atomic_inc obs val bound = atomic_inc_loop obs val bound"

primrec atomic_dec_loop :: "u32 list \<Rightarrow> u32 \<Rightarrow> u32 \<Rightarrow> bool \<times> u32" where
  "atomic_dec_loop [] old_val bound = (if sint old_val \<le> sint bound then (False, old_val) else (True, old_val - 1))"
| "atomic_dec_loop (v # obs) old_val bound =
     (if sint old_val \<le> sint bound then (False, old_val) else atomic_dec_loop obs v bound)"

definition atomic_dec :: "u32 list \<Rightarrow> u32 \<Rightarrow> bool \<times> u32" where
  "atomic_dec obs val = atomic_dec_loop obs val 0"

end
