(* ===== verification/Text.thy ===== *)
theory Text
  imports Std
begin

text \<open>
  Memory iterators (\<^verbatim>\<open>src/memiter.c\<close>), bounded strings (\<^verbatim>\<open>src/string.c\<close>) and the reader of cpio archives
  (\<^verbatim>\<open>src/cpio.c\<close>) on byte memory. Output parameters are part of the results.
\<close>

section \<open>Memory iterators\<close>

record memiter =
  it_next :: u64
  it_limit :: u64

definition memiter_init :: "u64 \<Rightarrow> nat \<Rightarrow> memiter" where
  "memiter_init data sz = \<lparr>it_next = data, it_limit = data + word_of_nat sz\<rparr>"

definition memiter_base :: "memiter \<Rightarrow> u64" where
  "memiter_base it = it_next it"

definition memiter_size :: "memiter \<Rightarrow> nat" where
  "memiter_size it = unat (it_limit it - it_next it)"

definition memiter_isspace :: "bmem \<Rightarrow> memiter \<Rightarrow> bool" where
  "memiter_isspace m it \<longleftrightarrow> m (it_next it) \<in> {0x20, 0x09, 0x0A, 0x0D}"

function memiter_skip_space :: "bmem \<Rightarrow> memiter \<Rightarrow> memiter" where
  "memiter_skip_space m it =
     (if it_next it < it_limit it \<and> memiter_isspace m it
      then memiter_skip_space m (it\<lparr>it_next := it_next it + 1\<rparr>) else it)"
  by pat_completeness auto
termination
  by (relation "measure (\<lambda>(m, it). unat (it_limit it) - unat (it_next it))")
    (auto simp: word_less_nat_alt unat_Suc64)

declare memiter_skip_space.simps [simp del]

text \<open>The end of a word: the loop of \<^verbatim>\<open>memiter_parse_str\<close>.\<close>

function memiter_skip_word :: "bmem \<Rightarrow> memiter \<Rightarrow> memiter" where
  "memiter_skip_word m it =
     (if it_next it < it_limit it \<and> \<not> memiter_isspace m it
      then memiter_skip_word m (it\<lparr>it_next := it_next it + 1\<rparr>) else it)"
  by pat_completeness auto
termination
  by (relation "measure (\<lambda>(m, it). unat (it_limit it) - unat (it_next it))")
    (auto simp: word_less_nat_alt unat_Suc64)

declare memiter_skip_word.simps [simp del]

definition memiter_iseq :: "memiter \<Rightarrow> u64 \<Rightarrow> bmem \<Rightarrow> bool" where
  "memiter_iseq it str m =
     (let it_len = memiter_size it; len = strnlen_s str (it_len + 1) m in
      len = it_len \<and> memcmp (it_next it) str len m = 0)"

definition memiter_parse_str :: "bmem \<Rightarrow> memiter \<Rightarrow> memiter option \<times> memiter" where
  "memiter_parse_str m it0 =
     (let it = memiter_skip_space m it0 in
      if it_next it \<ge> it_limit it then (None, it)
      else let it' = memiter_skip_word m it in (Some \<lparr>it_next = it_next it, it_limit = it_next it'\<rparr>, it'))"

definition is_digit :: "u8 \<Rightarrow> bool" where
  "is_digit c \<longleftrightarrow> 0x30 \<le> c \<and> c \<le> 0x39"

function memiter_digits :: "bmem \<Rightarrow> memiter \<Rightarrow> u64 \<Rightarrow> u64 \<times> memiter" where
  "memiter_digits m it v =
     (if it_next it < it_limit it \<and> is_digit (m (it_next it))
      then memiter_digits m (it\<lparr>it_next := it_next it + 1\<rparr>) (v * 10 + ucast (m (it_next it)) - 0x30)
      else (v, it))"
  by pat_completeness auto
termination
  by (relation "measure (\<lambda>(m, it, v). unat (it_limit it) - unat (it_next it))")
    (auto simp: word_less_nat_alt unat_Suc64)

declare memiter_digits.simps [simp del]

definition memiter_parse_uint :: "bmem \<Rightarrow> memiter \<Rightarrow> u64 option \<times> memiter" where
  "memiter_parse_uint m it0 =
     (let it = memiter_skip_space m it0 in
      if it_next it \<ge> it_limit it then (None, it)
      else if \<not> is_digit (m (it_next it)) then (None, it)
      else let (v, it') = memiter_digits m it 0 in (Some v, it'))"

definition memiter_advance :: "memiter \<Rightarrow> u64 \<Rightarrow> bool \<times> memiter" where
  "memiter_advance it v =
     (let p = it_next it + v in
      if p < it_next it \<or> p > it_limit it then (False, it) else (True, it\<lparr>it_next := p\<rparr>))"

definition memiter_restrict :: "memiter \<Rightarrow> nat \<Rightarrow> bool \<times> memiter" where
  "memiter_restrict it v =
     (let s = memiter_size it in
      if v > s then (False, it) else (True, it\<lparr>it_limit := it_next it + word_of_nat (s - v)\<rparr>))"

text \<open>The results are the new iterator and the advanced one.\<close>

definition memiter_consume :: "memiter \<Rightarrow> nat \<Rightarrow> (memiter option \<times> memiter) res" where
  "memiter_consume it v =
     (if v > memiter_size it then Inr (None, it)
      else case memiter_advance it (word_of_nat v) of
             (True, it') \<Rightarrow> Inr (Some (memiter_init (memiter_base it) v), it')
           | (False, _) \<Rightarrow> Inl Panic)"

section \<open>Strings\<close>

definition STRING_MAX_SIZE :: nat where "STRING_MAX_SIZE = 32"

datatype string_return_code = STRING_SUCCESS | STRING_ERROR_INVALID_INPUT | STRING_ERROR_TOO_LONG

definition string_init_empty :: "u64 \<Rightarrow> bmem \<Rightarrow> bmem" where
  "string_init_empty str m = m(str := 0)"

definition string_init :: "u64 \<Rightarrow> memiter \<Rightarrow> bmem \<Rightarrow> (string_return_code \<times> bmem) res" where
  "string_init str data m =
     (let base = memiter_base data; sz = memiter_size data in
      if sz < 1 then Inr (STRING_ERROR_INVALID_INPUT, m)
      else res_bind (memchr base 0 sz m) (\<lambda>r.
        if r \<noteq> Some (base + word_of_nat (sz - 1)) then Inr (STRING_ERROR_INVALID_INPUT, m)
        else if sz > STRING_MAX_SIZE then Inr (STRING_ERROR_TOO_LONG, m)
        else res_bind (memcpy_s str STRING_MAX_SIZE base sz m) (\<lambda>m'. Inr (STRING_SUCCESS, m'))))"

definition string_is_empty :: "u64 \<Rightarrow> bmem \<Rightarrow> bool" where
  "string_is_empty str m \<longleftrightarrow> m str = 0"

definition string_data :: "u64 \<Rightarrow> u64" where
  "string_data str = str"

definition string_eq :: "u64 \<Rightarrow> memiter \<Rightarrow> bmem \<Rightarrow> bool" where
  "string_eq str data m \<longleftrightarrow>
     memiter_size data \<le> STRING_MAX_SIZE \<and> strncmp str (memiter_base data) (memiter_size data) m = 0"

subsection \<open>Copying by words\<close>

definition UNALIGNED :: "u64 \<Rightarrow> u64 \<Rightarrow> bool" where
  "UNALIGNED x y \<longleftrightarrow> (x AND 7) OR (y AND 7) \<noteq> 0"

definition DETECTNULL :: "u64 \<Rightarrow> u64" where
  "DETECTNULL x = (x - 0x0101010101010101) AND NOT x AND 0x8080808080808080"

fun ncpy_words :: "nat \<Rightarrow> u64 \<Rightarrow> u64 \<Rightarrow> bmem \<Rightarrow> copying" where
  "ncpy_words n d s m =
     (if 8 \<le> n \<and> DETECTNULL (load64 s m) = 0 then ncpy_words (n - 8) (d + 8) (s + 8) (copy64 d s m)
      else (d, s, n, m))"

declare ncpy_words.simps [simp del]

primrec ncpy_bytes :: "nat \<Rightarrow> u64 \<Rightarrow> u64 \<Rightarrow> bmem \<Rightarrow> nat \<times> u64 \<times> bmem" where
  "ncpy_bytes 0 d s m = (0, d, m)"
| "ncpy_bytes (Suc n) d s m =
     (let m' = m(d := m s) in if m s = 0 then (n, d + 1, m') else ncpy_bytes n (d + 1) (s + 1) m')"

primrec ncpy_zeros :: "nat \<Rightarrow> u64 \<Rightarrow> bmem \<Rightarrow> bmem" where
  "ncpy_zeros 0 d m = m"
| "ncpy_zeros (Suc n) d m = ncpy_zeros n (d + 1) (m(d := 0))"

definition string_ncpy :: "u64 \<Rightarrow> u64 \<Rightarrow> nat \<Rightarrow> bmem \<Rightarrow> bmem" where
  "string_ncpy dst0 src0 n0 m0 =
     (let (d, s, n, m) = (if \<not> UNALIGNED src0 dst0 \<and> \<not> n0 < 8 then ncpy_words n0 dst0 src0 m0 else (dst0, src0, n0, m0));
          (n', d', m') = ncpy_bytes n d s m
      in ncpy_zeros n' d' m')"

section \<open>Archives\<close>

definition CPIO_OLD_BINARY_FORMAT_MAGIC :: u16 where "CPIO_OLD_BINARY_FORMAT_MAGIC = 0x71C7"

definition load16 :: "u64 \<Rightarrow> bmem \<Rightarrow> u16" where
  "load16 a m = ucast (m a) OR push_bit 8 (ucast (m (a + 1)))"

text \<open>The fields of the packed header that the reader uses.\<close>

record cpio_header =
  cpio_magic :: u16
  cpio_namesize :: u16
  cpio_filesize :: "u16 \<times> u16"

definition cpio_header_size :: u64 where "cpio_header_size = 26"

definition cpio_header_at :: "u64 \<Rightarrow> bmem \<Rightarrow> cpio_header" where
  "cpio_header_at h m =
     \<lparr>cpio_magic = load16 h m, cpio_namesize = load16 (h + 20) m, cpio_filesize = (load16 (h + 22) m, load16 (h + 24) m)\<rparr>"

record cpio_file =
  cf_name :: u64
  cf_contents :: u64
  cf_size :: u64

text \<open>\<open>trailer\<close> is the address of the constant \<^verbatim>\<open>TRAILER!!!\<close>, of 11 bytes.\<close>

definition cpio_next :: "u64 \<Rightarrow> bmem \<Rightarrow> memiter \<Rightarrow> (cpio_file \<times> memiter) option" where
  "cpio_next trailer m iter =
     (let h = it_next iter; hdr = cpio_header_at h m in
      if h = 0 then None else
      case memiter_advance iter cpio_header_size of
        (False, _) \<Rightarrow> None
      | (True, lit) \<Rightarrow>
          if cpio_magic hdr \<noteq> CPIO_OLD_BINARY_FORMAT_MAGIC then None else
          let name = it_next lit; len = (ucast (cpio_namesize hdr) + 1) AND NOT 1 in
          case memiter_advance lit len of
            (False, _) \<Rightarrow> None
          | (True, lit1) \<Rightarrow>
              if cpio_namesize hdr = 0 \<or> m (name + ucast (cpio_namesize hdr) - 1) \<noteq> 0 then None else
              let contents = it_next lit1;
                  sz = push_bit 16 (ucast (fst (cpio_filesize hdr))) OR ucast (snd (cpio_filesize hdr))
              in case memiter_advance lit1 ((sz + 1) AND NOT 1) of
                   (False, _) \<Rightarrow> None
                 | (True, lit2) \<Rightarrow>
                     if strncmp name trailer 11 m = 0 then None
                     else Some (\<lparr>cf_name = name, cf_contents = contents, cf_size = sz\<rparr>, lit2))"

lemma memiter_advance_bounds:
  "memiter_advance it v = (True, it') \<Longrightarrow> it_next it \<le> it_next it' \<and> it_next it' \<le> it_limit it' \<and> it_limit it' = it_limit it \<and>
    it_next it' = it_next it + v"
  by (auto simp: memiter_advance_def Let_def split: if_splits)

lemma cpio_next_advances:
  assumes "cpio_next trailer m iter = Some (f, iter')"
  shows "it_next iter < it_next iter' \<and> it_next iter' \<le> it_limit iter' \<and> it_limit iter' = it_limit iter"
proof -
  obtain lit lit1 v1 v2 where a: "memiter_advance iter cpio_header_size = (True, lit)" "memiter_advance lit v1 = (True, lit1)"
    "memiter_advance lit1 v2 = (True, iter')"
    using assms by (auto simp: cpio_next_def Let_def split: if_splits prod.splits bool.splits)
  note b = memiter_advance_bounds [OF a(1)] memiter_advance_bounds [OF a(2)] memiter_advance_bounds [OF a(3)]
  have "it_next lit \<noteq> it_next iter" using b(1) by (simp add: cpio_header_size_def)
  then have "it_next iter < it_next lit" using b(1) by (metis order.not_eq_order_implies_strict)
  then show ?thesis using b(2,3) b(1) by auto
qed

function cpio_find :: "u64 \<Rightarrow> u64 \<Rightarrow> bmem \<Rightarrow> memiter \<Rightarrow> memiter option" where
  "cpio_find trailer name m iter =
     (case cpio_next trailer m iter of
        None \<Rightarrow> None
      | Some (f, iter') \<Rightarrow>
          if strncmp (cf_name f) (string_data name) STRING_MAX_SIZE m = 0
          then Some (memiter_init (cf_contents f) (unat (cf_size f)))
          else cpio_find trailer name m iter')"
  by pat_completeness auto
termination
proof (relation "measure (\<lambda>(t, n, m, it). unat (it_limit it) - unat (it_next it))")
  show "wf (measure (\<lambda>(t, n, m, it). unat (it_limit it) - unat (it_next it)))" by (rule wf_measure)
next
  fix trailer name m iter p f iter'
  assume "cpio_next trailer m iter = Some p" "(f, iter') = p"
  then have "cpio_next trailer m iter = Some (f, iter')" by simp
  from cpio_next_advances [OF this]
  show "((trailer, name, m, iter'), trailer, name, m, iter) \<in> measure (\<lambda>(t, n, m, it). unat (it_limit it) - unat (it_next it))"
    by (auto simp: word_less_nat_alt word_le_nat_alt)
qed

declare cpio_find.simps [simp del]

definition cpio_get_file :: "u64 \<Rightarrow> memiter \<Rightarrow> u64 \<Rightarrow> bmem \<Rightarrow> memiter option" where
  "cpio_get_file trailer cpio name m = cpio_find trailer name m cpio"

end
