(* ===== verification/Format.thy ===== *)
theory Format
  imports Text
begin

text \<open>
  Numbers and formatted output: \<^verbatim>\<open>string_toul\<close> and \<^verbatim>\<open>string_snprintf\<close> of \<^verbatim>\<open>src/string.c\<close> and the debug log of
  \<^verbatim>\<open>src/dlog.c\<close>. A \<^verbatim>\<open>char *\<close> argument is the list of the bytes from the pointer to the end of the object it
  points into; reading past it is a fault. The two sources have the same printing functions, one writing to a
  buffer and one to the console: the functions here take the function that writes one character as argument.
\<close>

abbreviation ch :: "char \<Rightarrow> u8" where "ch c \<equiv> of_char c"

section \<open>Reading numbers\<close>

definition ULONG_MAX :: u64 where "ULONG_MAX = 4294967295"

definition isspace_l :: "u8 \<Rightarrow> bool" where
  "isspace_l c \<longleftrightarrow> c = ch CHR '' '' \<or> (ucast c :: u32) - 9 < 5"

text \<open>\<^verbatim>\<open>do c = *s++; while (isspace_l(c))\<close>: the character, the rest and the position of \<open>s\<close>.\<close>

fun toul_space :: "u8 list \<Rightarrow> nat \<Rightarrow> (u8 \<times> u8 list \<times> nat) res" where
  "toul_space [] i = Inl OutOfBounds"
| "toul_space (c # xs) i = (if isspace_l c then toul_space xs (Suc i) else Inr (c, xs, Suc i))"

definition next_char :: "u8 list \<times> nat \<Rightarrow> (u8 \<times> u8 list \<times> nat) res" where
  "next_char s = (case s of ([], i) \<Rightarrow> Inl OutOfBounds | (c # xs, i) \<Rightarrow> Inr (c, xs, Suc i))"

definition toul_digit :: "u8 \<Rightarrow> u8 option" where
  "toul_digit c =
     (if ch CHR ''0'' \<le> c \<and> c \<le> ch CHR ''9'' then Some (c - ch CHR ''0'')
      else if ch CHR ''A'' \<le> c \<and> c \<le> ch CHR ''Z'' then Some (c - (ch CHR ''A'' - 10))
      else if ch CHR ''a'' \<le> c \<and> c \<le> ch CHR ''z'' then Some (c - (ch CHR ''a'' - 10))
      else None)"

text \<open>The loop over the digits; \<open>any\<close> is 0, 1 or -1. Result: \<open>acc\<close>, \<open>any\<close> and the position of \<open>s\<close>.\<close>

fun toul_digits :: "u8 \<Rightarrow> u8 list \<Rightarrow> nat \<Rightarrow> u16 \<Rightarrow> u64 \<Rightarrow> int \<Rightarrow> (u64 \<times> int \<times> nat) res" where
  "toul_digits c xs i base acc any =
     (let cutoff = ULONG_MAX div ucast base; cutlim = ULONG_MAX mod ucast base in
      case toul_digit c of
        None \<Rightarrow> Inr (acc, any, i)
      | Some d \<Rightarrow>
          if (ucast d :: u16) \<ge> base then Inr (acc, any, i)
          else
            let (acc', any') = (if any < 0 \<or> acc > cutoff \<or> acc = cutoff \<and> (ucast d :: u64) > cutlim then (acc, -1)
                                else (acc * ucast base + ucast d, 1))
            in case xs of
                 [] \<Rightarrow> Inl OutOfBounds
               | c' # xs' \<Rightarrow> toul_digits c' xs' (Suc i) base acc' any')"

declare toul_digits.simps [simp del]

text \<open>The results are the number and what \<^verbatim>\<open>*endptr\<close> is set to, as an offset from \<open>nptr\<close>.\<close>

definition string_toul_l :: "u8 list \<Rightarrow> u16 \<Rightarrow> (u64 \<times> nat) res" where
  "string_toul_l nptr base0 =
     res_bind (toul_space nptr 0) (\<lambda>(c0, s0, i0).
     res_bind (if c0 = ch CHR ''-'' \<or> c0 = ch CHR ''+'' then next_char (s0, i0) else Inr (c0, s0, i0)) (\<lambda>(c1, s1, i1).
     let neg = (c0 = ch CHR ''-'') in
     res_bind (if (base0 = 0 \<or> base0 = 16) \<and> c1 = ch CHR ''0''
               then case s1 of
                      [] \<Rightarrow> Inl OutOfBounds
                    | x # s2 \<Rightarrow> if x = ch CHR ''x'' \<or> x = ch CHR ''X''
                                then res_bind (next_char (s2, Suc i1)) (\<lambda>(c, s, i). Inr (c, s, i, 16))
                                else Inr (c1, s1, i1, base0)
               else Inr (c1, s1, i1, base0)) (\<lambda>(c, s, i, base1).
     let base = (if base1 = 0 then (if c = ch CHR ''0'' then 8 else 10) else base1) in
     res_bind (toul_digits c s i base 0 0) (\<lambda>(acc, any, i').
     Inr (if any < 0 then ULONG_MAX else if neg then - acc else acc, if any \<noteq> 0 then i' - 1 else 0)))))"

definition string_toul :: "u8 list \<Rightarrow> u32 \<Rightarrow> (u64 \<times> nat) res" where
  "string_toul s base = string_toul_l s (ucast base)"

section \<open>Printing\<close>

definition FLAG_SPACE :: u32 where "FLAG_SPACE = 0x01"
definition FLAG_ZERO :: u32 where "FLAG_ZERO = 0x02"
definition FLAG_MINUS :: u32 where "FLAG_MINUS = 0x04"
definition FLAG_PLUS :: u32 where "FLAG_PLUS = 0x08"
definition FLAG_ALT :: u32 where "FLAG_ALT = 0x10"
definition FLAG_UPPER :: u32 where "FLAG_UPPER = 0x20"
definition FLAG_NEG :: u32 where "FLAG_NEG = 0x40"

definition DLOG_MAX_STRING_LENGTH :: nat where "DLOG_MAX_STRING_LENGTH = 64"

type_synonym 's putc = "u8 \<Rightarrow> 's \<Rightarrow> 's res"

text \<open>Printing up to the terminator; the result has the number of characters.\<close>

fun raw_string :: "'s putc \<Rightarrow> u8 list \<Rightarrow> nat \<Rightarrow> 's \<Rightarrow> (nat \<times> 's) res" where
  "raw_string emit [] n s = Inl OutOfBounds"
| "raw_string emit (c # cs) n s = (if c = 0 then Inr (n, s) else res_bind (emit c s) (raw_string emit cs (Suc n)))"

text \<open>Printing a number of characters, without looking for a terminator.\<close>

primrec put_chars :: "'s putc \<Rightarrow> nat \<Rightarrow> u8 list \<Rightarrow> 's \<Rightarrow> 's res" where
  "put_chars emit 0 xs s = Inr s"
| "put_chars emit (Suc n) xs s = (case xs of [] \<Rightarrow> Inl OutOfBounds | c # cs \<Rightarrow> res_bind (emit c s) (put_chars emit n cs))"

primrec pad :: "'s putc \<Rightarrow> nat \<Rightarrow> u8 \<Rightarrow> 's \<Rightarrow> 's res" where
  "pad emit 0 c s = Inr s"
| "pad emit (Suc n) c s = res_bind (emit c s) (pad emit n c)"

text \<open>\<^verbatim>\<open>strnlen_s\<close> on the bytes of an object.\<close>

fun strnlen_list :: "u8 list \<Rightarrow> nat \<Rightarrow> nat \<Rightarrow> nat res" where
  "strnlen_list xs 0 i = Inr i"
| "strnlen_list [] (Suc n) i = Inl OutOfBounds"
| "strnlen_list (c # cs) (Suc n) i = (if c = 0 then Inr i else strnlen_list cs n (Suc i))"

text \<open>The suffix is given by its offset in \<open>str\<close>.\<close>

definition print_string_with ::
  "'s putc \<Rightarrow> u8 list \<Rightarrow> nat \<Rightarrow> nat \<Rightarrow> u32 \<Rightarrow> u8 \<Rightarrow> 's \<Rightarrow> 's res" where
  "print_string_with emit str suffix width flags fill s =
     res_bind (put_chars emit suffix str s) (\<lambda>s1.
     if flags AND FLAG_MINUS \<noteq> 0
     then res_bind (raw_string emit (drop suffix str) 0 s1) (\<lambda>(n, s2). pad emit (width - (suffix + n)) (ch CHR '' '') s2)
     else res_bind (strnlen_list (drop suffix str) DLOG_MAX_STRING_LENGTH 0) (\<lambda>n.
          res_bind (pad emit (width - (suffix + n)) fill s1) (\<lambda>s2.
          res_bind (raw_string emit (drop suffix str) 0 s2) (\<lambda>(_, s3). Inr s3))))"

definition digits_lower :: "u8 list" where "digits_lower = map of_char ''0123456789abcdefx''"
definition digits_upper :: "u8 list" where "digits_upper = map of_char ''0123456789ABCDEFX''"

text \<open>The digits of \<open>v\<close> in front of \<open>acc\<close>; the base is 8, 10 or 16.\<close>

function num_digits :: "u8 list \<Rightarrow> nat \<Rightarrow> nat \<Rightarrow> u8 list \<Rightarrow> u8 list" where
  "num_digits d base v acc =
     (let acc' = d ! (v mod base) # acc in
      if v div base = 0 \<or> base < 2 then acc' else num_digits d base (v div base) acc')"
  by pat_completeness auto
termination
proof (relation "measure (\<lambda>(d, base, v, acc). v)", goal_cases)
  case (2 d base v acc x)
  then have "v \<noteq> 0" "1 < base" by (cases "v = 0"; simp)+
  then show ?case by simp
qed simp

declare num_digits.simps [simp del]

definition num_prefix :: "u8 list \<Rightarrow> nat \<Rightarrow> u32 \<Rightarrow> u8 list" where
  "num_prefix d base flags =
     (if flags AND FLAG_NEG \<noteq> 0 then [ch CHR ''-'']
      else if flags AND FLAG_PLUS \<noteq> 0 then [ch CHR ''+'']
      else if flags AND FLAG_SPACE \<noteq> 0 then [ch CHR '' ''] else []) @
     (if flags AND FLAG_ALT \<noteq> 0
      then if base = 16 then [ch CHR ''0'', d ! 16] else if base = 8 then [ch CHR ''0''] else []
      else [])"

text \<open>The local buffer holds \<^verbatim>\<open>DLOG_MAX_STRING_LENGTH\<close> characters.\<close>

definition print_num_with :: "'s putc \<Rightarrow> u64 \<Rightarrow> nat \<Rightarrow> nat \<Rightarrow> u32 \<Rightarrow> 's \<Rightarrow> 's res" where
  "print_num_with emit v base width flags s =
     (let d = (if flags AND FLAG_UPPER \<noteq> 0 then digits_upper else digits_lower);
          num = num_digits d base (unat v) [0];
          prefix = num_prefix d base flags
      in if length prefix + length num > DLOG_MAX_STRING_LENGTH then Inl OutOfBounds
         else if flags AND FLAG_ZERO \<noteq> 0 then print_string_with emit (prefix @ num) (length prefix) width flags (ch CHR ''0'') s
         else print_string_with emit (prefix @ num) 0 width flags (ch CHR '' '') s)"

fun parse_flags :: "u8 list \<Rightarrow> u32 \<Rightarrow> (u8 list \<times> u32) res" where
  "parse_flags [] flags = Inl OutOfBounds"
| "parse_flags (c # p) flags =
     (if c = ch CHR '' '' then parse_flags p (flags OR FLAG_SPACE)
      else if c = ch CHR ''0'' then parse_flags p (flags OR FLAG_ZERO)
      else if c = ch CHR ''-'' then parse_flags p (flags OR FLAG_MINUS)
      else if c = ch CHR ''+'' then parse_flags p (flags OR FLAG_PLUS OR FLAG_ALT)
      else if c = ch CHR ''#'' then parse_flags p (flags OR FLAG_ALT)
      else Inr (c # p, flags))"

fun parse_width :: "u8 list \<Rightarrow> u64 \<Rightarrow> (u8 list \<times> u64) res" where
  "parse_width [] w = Inl OutOfBounds"
| "parse_width (c # p) w = (if is_digit c then parse_width p (w * 10 + ucast (c - 0x30)) else Inr (c # p, w))"

text \<open>The variable arguments.\<close>

datatype va = VInt u32 | VSize u64 | VStr "u8 list"

fun va_int :: "va list \<Rightarrow> (u32 \<times> va list) res" where
  "va_int (VInt v # args) = Inr (v, args)"
| "va_int _ = Inl BadArgument"

fun va_size :: "va list \<Rightarrow> (u64 \<times> va list) res" where
  "va_size (VSize v # args) = Inr (v, args)"
| "va_size _ = Inl BadArgument"

fun va_str :: "va list \<Rightarrow> (u8 list \<times> va list) res" where
  "va_str (VStr v # args) = Inr (v, args)"
| "va_str _ = Inl BadArgument"

definition star_width :: "u8 list \<Rightarrow> u64 \<Rightarrow> u32 \<Rightarrow> va list \<Rightarrow> (u8 list \<times> u64 \<times> u32 \<times> va list) res" where
  "star_width p w flags args =
     (case p of
        [] \<Rightarrow> Inl OutOfBounds
      | c # rest \<Rightarrow>
          if w = 0 \<and> c = ch CHR ''*''
          then res_bind (va_int args) (\<lambda>(v, args').
               if 0 \<le> sint v then Inr (rest, scast v, flags, args')
               else Inr (rest, scast (- v), flags OR FLAG_MINUS, args'))
          else Inr (p, w, flags, args))"

text \<open>
  The conversion after flags and width. \<open>long\<close> says whether \<^verbatim>\<open>l\<close> is known. The results are where the format
  goes on, the remaining arguments and the state.
\<close>

definition print_spec ::
  "'s putc \<Rightarrow> bool \<Rightarrow> u8 list \<Rightarrow> u64 \<Rightarrow> u32 \<Rightarrow> va list \<Rightarrow> 's \<Rightarrow> (u8 list \<times> va list \<times> 's) res" where
  "print_spec emit long p w flags args s =
     (case p of
        [] \<Rightarrow> Inl OutOfBounds
      | c # rest \<Rightarrow>
          let size_num = (\<lambda>base width flags rest.
                res_bind (va_size args) (\<lambda>(v, args').
                res_bind (print_num_with emit v base width flags s) (\<lambda>s'. Inr (rest, args', s'))))
          in
          if c = ch CHR ''s''
          then res_bind (va_str args) (\<lambda>(str, args').
               res_bind (print_string_with emit str 0 (unat w) flags (ch CHR '' '') s) (\<lambda>s'. Inr (rest, args', s')))
          else if c = ch CHR ''d'' \<or> c = ch CHR ''i''
          then res_bind (va_int args) (\<lambda>(v, args').
               let (v', flags') = (if sint v < 0 then (- v, flags OR FLAG_NEG) else (v, flags)) in
               res_bind (print_num_with emit (scast v') 10 (unat w) flags' s) (\<lambda>s'. Inr (rest, args', s')))
          else if c = ch CHR ''X'' then size_num 16 (unat w) (flags OR FLAG_UPPER) rest
          else if c = ch CHR ''p'' then size_num 16 16 FLAG_ZERO rest
          else if c = ch CHR ''x'' then size_num 16 (unat w) flags rest
          else if c = ch CHR ''l'' \<and> long then size_num 10 (unat w) flags (drop 1 rest)
          else if c = ch CHR ''u'' then size_num 10 (unat w) flags rest
          else if c = ch CHR ''o'' then size_num 8 (unat w) flags rest
          else if c = ch CHR ''c''
          then res_bind (va_int args) (\<lambda>(v, args').
               res_bind (print_string_with emit [ucast v, 0] 0 (unat w) flags (ch CHR '' '') s) (\<lambda>s'. Inr (rest, args', s')))
          else if c = ch CHR ''%'' then Inr (p, args, s)
          else res_bind (emit (ch CHR ''%'') s) (\<lambda>s'. Inr (p, args, s')))"

lemma parse_flags_length: "parse_flags p flags = Inr (q, flags') \<Longrightarrow> length q \<le> length p"
  by (induction p flags rule: parse_flags.induct) (auto split: if_splits)

lemma parse_width_length: "parse_width p w = Inr (q, w') \<Longrightarrow> length q \<le> length p"
  by (induction p w rule: parse_width.induct) (auto split: if_splits)

lemma star_width_length: "star_width p w flags args = Inr (q, r) \<Longrightarrow> length q \<le> length p"
  by (auto simp: star_width_def res_bind_eq_Inr split: list.splits if_splits)

lemma print_spec_length: "print_spec emit long p w flags args s = Inr (q, r) \<Longrightarrow> length q \<le> length p"
  by (auto simp: print_spec_def res_bind_eq_Inr Let_def split: list.splits if_splits prod.splits)

function vformat :: "'s putc \<Rightarrow> ('s \<Rightarrow> bool) \<Rightarrow> bool \<Rightarrow> u8 list \<Rightarrow> va list \<Rightarrow> 's \<Rightarrow> 's res" where
  "vformat emit room long [] args s = Inl OutOfBounds"
| "vformat emit room long (c # rest) args s =
     (if c = 0 \<or> \<not> room s then Inr s
      else if c \<noteq> ch CHR ''%'' then res_bind (emit c s) (\<lambda>s'. vformat emit room long rest args s')
      else res_bind (parse_flags rest 0) (\<lambda>(p1, flags).
           res_bind (parse_width p1 0) (\<lambda>(p2, w).
           res_bind (star_width p2 w flags args) (\<lambda>(p3, w', flags', args').
           res_bind (print_spec emit long p3 w' flags' args' s) (\<lambda>(rest', args'', s').
           vformat emit room long rest' args'' s')))))"
  by pat_completeness auto
termination
  by (relation "measure (\<lambda>(emit, room, long, p, args, s). length p)")
    (auto dest!: parse_flags_length parse_width_length star_width_length print_spec_length)

section \<open>Printing to a buffer\<close>

text \<open>\<^verbatim>\<open>out\<close>, the bytes of the object, and \<^verbatim>\<open>idx\<close>. The bound \<^verbatim>\<open>size - 1\<close> wraps around for a size of 0.\<close>

record sbuf =
  sb_out :: "u8 list"
  sb_idx :: nat

definition size_1 :: "nat \<Rightarrow> nat" where
  "size_1 sz = (if sz = 0 then 2 ^ 64 - 1 else sz - 1)"

definition sprintf_putchar :: "nat \<Rightarrow> u8 \<Rightarrow> sbuf \<Rightarrow> sbuf res" where
  "sprintf_putchar sz c b =
     (if sb_idx b < size_1 sz
      then if sb_idx b < length (sb_out b)
           then Inr (b\<lparr>sb_out := (sb_out b)[sb_idx b := c], sb_idx := Suc (sb_idx b)\<rparr>) else Inl OutOfBounds
      else Inr b)"

definition sprint_raw_string :: "nat \<Rightarrow> u8 list \<Rightarrow> sbuf \<Rightarrow> (nat \<times> sbuf) res" where
  "sprint_raw_string sz str b = raw_string (sprintf_putchar sz) str 0 b"

definition sprint_string :: "nat \<Rightarrow> u8 list \<Rightarrow> nat \<Rightarrow> nat \<Rightarrow> u32 \<Rightarrow> u8 \<Rightarrow> sbuf \<Rightarrow> sbuf res" where
  "sprint_string sz str suffix width flags fill b = print_string_with (sprintf_putchar sz) str suffix width flags fill b"

definition sprint_num :: "nat \<Rightarrow> u64 \<Rightarrow> nat \<Rightarrow> nat \<Rightarrow> u32 \<Rightarrow> sbuf \<Rightarrow> sbuf res" where
  "sprint_num sz v base width flags b = print_num_with (sprintf_putchar sz) v base width flags b"

definition vsprintf :: "u8 list \<Rightarrow> nat \<Rightarrow> u8 list \<Rightarrow> va list \<Rightarrow> (nat \<times> u8 list) res" where
  "vsprintf out sz fmt args =
     res_bind (vformat (sprintf_putchar sz) (\<lambda>b. sb_idx b < size_1 sz) False fmt args \<lparr>sb_out = out, sb_idx = 0\<rparr>) (\<lambda>b.
     if sb_idx b < length (sb_out b) then Inr (Suc (sb_idx b), (sb_out b)[sb_idx b := 0]) else Inl OutOfBounds)"

definition string_snprintf :: "u8 list \<Rightarrow> nat \<Rightarrow> u8 list \<Rightarrow> va list \<Rightarrow> (nat \<times> u8 list) res" where
  "string_snprintf out sz fmt args = vsprintf out sz fmt args"

section \<open>The debug log\<close>

text \<open>The console is the list of the characters written.\<close>

record dlog_state =
  dlog_out :: "u8 list"
  dlog_lock_enabled :: bool
  dlog_sl :: bool

definition dlog_lock :: "dlog_state \<Rightarrow> dlog_state res" where
  "dlog_lock s =
     (if dlog_lock_enabled s then if dlog_sl s then Inl Deadlock else Inr (s\<lparr>dlog_sl := True\<rparr>) else Inr s)"

definition dlog_unlock :: "dlog_state \<Rightarrow> dlog_state" where
  "dlog_unlock s = (if dlog_lock_enabled s then s\<lparr>dlog_sl := False\<rparr> else s)"

definition dlog_enable_lock :: "dlog_state \<Rightarrow> dlog_state" where
  "dlog_enable_lock s = s\<lparr>dlog_lock_enabled := True\<rparr>"

definition dlog_putchar :: "u8 \<Rightarrow> dlog_state \<Rightarrow> dlog_state res" where
  "dlog_putchar c s = Inr (s\<lparr>dlog_out := dlog_out s @ [c]\<rparr>)"

definition print_raw_string :: "u8 list \<Rightarrow> dlog_state \<Rightarrow> (nat \<times> dlog_state) res" where
  "print_raw_string str s = raw_string dlog_putchar str 0 s"

definition print_string :: "u8 list \<Rightarrow> nat \<Rightarrow> nat \<Rightarrow> u32 \<Rightarrow> u8 \<Rightarrow> dlog_state \<Rightarrow> dlog_state res" where
  "print_string str suffix width flags fill s = print_string_with dlog_putchar str suffix width flags fill s"

definition print_num :: "u64 \<Rightarrow> nat \<Rightarrow> nat \<Rightarrow> u32 \<Rightarrow> dlog_state \<Rightarrow> dlog_state res" where
  "print_num v base width flags s = print_num_with dlog_putchar v base width flags s"

text \<open>The characters of the buffer are printed and cleared.\<close>

definition dlog_flush_vm_buffer :: "u16 \<Rightarrow> u8 list \<Rightarrow> nat \<Rightarrow> dlog_state \<Rightarrow> (u8 list \<times> dlog_state) res" where
  "dlog_flush_vm_buffer i buffer len s =
     res_bind (dlog_lock s) (\<lambda>s0.
     res_bind (print_raw_string (map of_char ''VM '' @ [0]) s0) (\<lambda>(_, s1).
     res_bind (print_num (ucast i) 16 0 0 s1) (\<lambda>s2.
     res_bind (print_raw_string (map of_char '': '' @ [0]) s2) (\<lambda>(_, s3).
     res_bind (put_chars dlog_putchar len buffer s3) (\<lambda>s4.
     res_bind (dlog_putchar 0x0A s4) (\<lambda>s5.
     Inr (replicate len 0 @ drop len buffer, dlog_unlock s5)))))))"

definition vdlog :: "u8 list \<Rightarrow> va list \<Rightarrow> dlog_state \<Rightarrow> dlog_state res" where
  "vdlog fmt args s =
     res_bind (dlog_lock s) (\<lambda>s1.
     res_bind (vformat dlog_putchar (\<lambda>_. True) True fmt args s1) (\<lambda>s2. Inr (dlog_unlock s2)))"

definition dlog :: "u8 list \<Rightarrow> va list \<Rightarrow> dlog_state \<Rightarrow> dlog_state res" where
  "dlog fmt args s = vdlog fmt args s"

section \<open>Identifiers\<close>

record uuid =
  timeLow :: u32
  timeMid :: u16
  timeHiAndVersion :: u16
  clockSeqAndNode :: "u8 list"

definition UUID_STR_SIZE :: nat where "UUID_STR_SIZE = 36"

definition uuid_is_equal :: "uuid \<Rightarrow> uuid \<Rightarrow> bool" where
  "uuid_is_equal a b \<longleftrightarrow>
     timeLow a = timeLow b \<and> timeMid a = timeMid b \<and> timeHiAndVersion a = timeHiAndVersion b \<and>
     (\<forall>i<8. clockSeqAndNode a ! i = clockSeqAndNode b ! i)"

definition uuid_from_uint64 :: "u64 \<Rightarrow> u64 \<Rightarrow> uuid" where
  "uuid_from_uint64 p1 p2 =
     \<lparr>timeLow = ucast (p1 AND 0xFFFFFFFF), timeMid = ucast (drop_bit 32 p1 AND 0xFFFF),
      timeHiAndVersion = ucast (drop_bit 48 p1),
      clockSeqAndNode = map (\<lambda>i. ucast (drop_bit (i * 8) p2 AND 0xFF)) [0..<8]\<rparr>"

definition uuid_to_uint64 :: "uuid \<Rightarrow> u64 \<times> u64" where
  "uuid_to_uint64 u =
     (ucast (timeLow u) OR push_bit 32 (ucast (timeMid u)) OR push_bit 48 (ucast (timeHiAndVersion u)),
      fold (\<lambda>i p. p OR push_bit (i * 8) (ucast (clockSeqAndNode u ! i))) [1..<8] (ucast (clockSeqAndNode u ! 0)))"

text \<open>The bytes of an array.\<close>

definition buf :: "u64 \<Rightarrow> nat \<Rightarrow> bmem \<Rightarrow> u8 list" where
  "buf a n m = map (\<lambda>k. m (a + word_of_nat k)) [0..<n]"

text \<open>
  Parsing. \<open>tmp\<close> and \<open>spec\<close> are the addresses of \<^verbatim>\<open>temp_str\<close>, of 3 bytes, and \<^verbatim>\<open>temp_str_special\<close>, of 32 bytes; the
  memory has whatever the stack holds there. The loop over \<open>j\<close> runs while \<open>seq_count\<close>, the number of elements of
  the list, is below 8.
\<close>

function uuid_seq_loop :: "u64 \<Rightarrow> u64 \<Rightarrow> nat \<Rightarrow> u8 list \<Rightarrow> bmem \<Rightarrow> (u8 list \<times> bmem) res" where
  "uuid_seq_loop str tmp j seq m =
     (if j < UUID_STR_SIZE \<and> length seq < 8
      then
        let j' = (if m (str + word_of_nat j) = ch CHR ''-'' then Suc j else j);
            m' = string_ncpy tmp (str + word_of_nat j') 2 m
        in res_bind (string_toul (buf tmp 3 m') 16) (\<lambda>(v, _).
           uuid_seq_loop str tmp (j' + 2) (seq @ [ucast v]) m')
      else Inr (seq, m))"
  by pat_completeness auto
termination by (relation "measure (\<lambda>(str, tmp, j, seq, m). 8 - length seq)") auto

declare uuid_seq_loop.simps [simp del]

text \<open>The loop over \<open>i\<close>; \<open>tds\<close> has the elements of \<^verbatim>\<open>time_data\<close> found so far and \<open>b\<close> is the index of \<^verbatim>\<open>substr_begin\<close>;
  \<open>u0\<close> is the identifier before the call.\<close>

primrec uuid_time_loop ::
  "nat \<Rightarrow> uuid \<Rightarrow> u64 \<Rightarrow> u64 \<Rightarrow> u64 \<Rightarrow> nat \<Rightarrow> nat \<Rightarrow> u32 list \<Rightarrow> bmem \<Rightarrow> (uuid option \<times> bmem) res" where
  "uuid_time_loop 0 u0 str tmp spec i b tds m = Inr (None, m)"
| "uuid_time_loop (Suc n) u0 str tmp spec i b tds m =
     (if length tds > 2
      then res_bind (uuid_seq_loop str tmp i [] m) (\<lambda>(seq, m').
           Inr (Some \<lparr>timeLow = tds ! 0, timeMid = ucast (tds ! 1), timeHiAndVersion = ucast (tds ! 2),
                      clockSeqAndNode = seq @ drop (length seq) (clockSeqAndNode u0)\<rparr>, m'))
      else if m (str + word_of_nat i) = ch CHR ''-''
      then
        let m1 = memset_peregrine spec 0 32 m;
            m2 = string_ncpy spec (str + word_of_nat b) (i - b) m1
        in res_bind (string_toul (buf spec 32 m2) 16) (\<lambda>(v, _).
           uuid_time_loop n u0 str tmp spec (Suc i) (Suc i) (tds @ [ucast v]) m2)
      else uuid_time_loop n u0 str tmp spec (Suc i) b tds m)"

text \<open>The value of the output parameter, if the result is true.\<close>

definition uuid_from_str :: "uuid \<Rightarrow> u64 \<Rightarrow> nat \<Rightarrow> u64 \<Rightarrow> u64 \<Rightarrow> bmem \<Rightarrow> (uuid option \<times> bmem) res" where
  "uuid_from_str u0 str sz tmp spec m =
     (if sz \<noteq> UUID_STR_SIZE \<or> strnlen_s str UUID_STR_SIZE m \<noteq> UUID_STR_SIZE then Inr (None, m)
      else uuid_time_loop sz u0 str tmp spec 0 0 [] m)"

definition uuid_format :: "u8 list" where
  "uuid_format = map of_char ''%08x-%04x-%04x-%02x%02x-%02x%02x%02x%02x%02x%02x'' @ [0]"

definition uuid_to_str :: "uuid \<Rightarrow> u8 list \<Rightarrow> nat \<Rightarrow> (bool \<times> u8 list) res" where
  "uuid_to_str u out sz =
     res_bind (string_snprintf out sz uuid_format
       ([VSize (ucast (timeLow u)), VSize (ucast (timeMid u)), VSize (ucast (timeHiAndVersion u))] @
        map (\<lambda>i. VSize (ucast (clockSeqAndNode u ! i))) [0..<8])) (\<lambda>(ret, out').
     Inr (ret > 0, out'))"

end
