(* ===== verification/Format_Safe.thy ===== *)
theory Format_Safe
  imports Format
begin

text \<open>
  Printing never leaves its buffer. The printing functions are used with two ways to write a character, to a
  buffer and to the console; the locale \<open>printer\<close> is what they rely on, and both are interpretations of it.
\<close>

text \<open>A format, or a string argument, with its terminator.\<close>

definition terminated :: "u8 list \<Rightarrow> bool" where
  "terminated xs \<longleftrightarrow> 0 \<in> set xs"

fun va_ok :: "va \<Rightarrow> bool" where
  "va_ok (VStr xs) = terminated xs"
| "va_ok _ = True"

definition vas_ok :: "va list \<Rightarrow> bool" where
  "vas_ok args \<longleftrightarrow> (\<forall>a\<in>set args. va_ok a)"

lemma va_int_cases: "vas_ok args \<Longrightarrow> va_int args = Inl BadArgument \<or> (\<exists>v args'. va_int args = Inr (v, args') \<and> vas_ok args')"
  by (cases args rule: va_int.cases) (auto simp: vas_ok_def)

lemma va_size_cases: "vas_ok args \<Longrightarrow> va_size args = Inl BadArgument \<or> (\<exists>v args'. va_size args = Inr (v, args') \<and> vas_ok args')"
  by (cases args rule: va_size.cases) (auto simp: vas_ok_def)

lemma va_str_cases:
  "vas_ok args \<Longrightarrow> va_str args = Inl BadArgument \<or> (\<exists>x args'. va_str args = Inr (x, args') \<and> terminated x \<and> vas_ok args')"
  by (cases args rule: va_str.cases) (auto simp: vas_ok_def)

text \<open>The outcome of printing one conversion: a missing argument, or a good state and a rest of the format.\<close>

definition spec_safe :: "('s \<Rightarrow> bool) \<Rightarrow> (u8 list \<times> va list \<times> 's) res \<Rightarrow> bool" where
  "spec_safe good r \<longleftrightarrow> (case r of Inl e \<Rightarrow> e = BadArgument | Inr (q, args, s) \<Rightarrow> terminated q \<and> vas_ok args \<and> good s)"

lemma strnlen_list_ok: "terminated xs \<Longrightarrow> \<exists>j. strnlen_list xs n i = Inr j"
  by (induction xs n i rule: strnlen_list.induct) (auto simp: terminated_def)

lemma num_digits_length:
  "v < base ^ Suc k \<Longrightarrow> length (num_digits d base v acc) \<le> Suc k + length acc"
proof (induction k arbitrary: v acc)
  case 0
  then show ?case by (subst num_digits.simps) simp
next
  case (Suc k)
  have "v div base < base ^ Suc k" using Suc.prems by (simp add: less_mult_imp_div_less ac_simps)
  then show ?case using Suc.IH [of "v div base" "d ! (v mod base) # acc"] by (subst num_digits.simps) (auto simp: Let_def)
qed

lemma num_digits_terminated: "terminated acc \<Longrightarrow> terminated (num_digits d base v acc)"
proof (induction d base v acc rule: num_digits.induct)
  case (1 d base v acc)
  then show ?case by (subst num_digits.simps) (auto simp: Let_def terminated_def)
qed

lemma num_prefix_length: "length (num_prefix d base flags) \<le> 3"
  by (simp add: num_prefix_def)

lemma parse_flags_ok: "terminated p \<Longrightarrow> \<exists>q f. parse_flags p flags = Inr (q, f) \<and> terminated q"
  by (induction p flags rule: parse_flags.induct) (auto simp: terminated_def)

lemma parse_width_ok: "terminated p \<Longrightarrow> \<exists>q w'. parse_width p w = Inr (q, w') \<and> terminated q"
  by (induction p w rule: parse_width.induct) (auto simp: terminated_def is_digit_def)

lemma star_width_ok:
  assumes "terminated p" "vas_ok args"
  shows "star_width p w flags args = Inl BadArgument \<or>
    (\<exists>q w' f args'. star_width p w flags args = Inr (q, w', f, args') \<and> terminated q \<and> vas_ok args')"
  using assms va_int_cases [OF assms(2)] by (cases p) (auto simp: star_width_def terminated_def)

locale printer =
  fixes emit :: "u8 \<Rightarrow> 's \<Rightarrow> 's res" and good :: "'s \<Rightarrow> bool"
  assumes emit_inv: "good s \<Longrightarrow> \<exists>s'. emit c s = Inr s' \<and> good s'"
begin

lemma raw_string_inv: "terminated xs \<Longrightarrow> good s \<Longrightarrow> \<exists>j s'. raw_string emit xs n s = Inr (j, s') \<and> good s'"
proof (induction xs arbitrary: n s)
  case (Cons c cs)
  show ?case
  proof (cases "c = 0")
    case False
    obtain s1 where s1: "emit c s = Inr s1" "good s1" using emit_inv [OF Cons.prems(2)] by blast
    have "terminated cs" using Cons.prems(1) False by (simp add: terminated_def)
    then show ?thesis using Cons.IH [OF _ s1(2)] s1(1) False by simp
  qed (use Cons.prems in simp)
qed (simp add: terminated_def)

lemma put_chars_inv: "n \<le> length xs \<Longrightarrow> good s \<Longrightarrow> \<exists>s'. put_chars emit n xs s = Inr s' \<and> good s'"
proof (induction n arbitrary: xs s)
  case (Suc n)
  then obtain c cs where xs: "xs = c # cs" by (cases xs) auto
  obtain s1 where "emit c s = Inr s1" "good s1" using emit_inv [OF Suc.prems(2)] by blast
  then show ?case using Suc.IH [of cs s1] Suc.prems xs by simp
qed simp

lemma pad_inv: "good s \<Longrightarrow> \<exists>s'. pad emit n c s = Inr s' \<and> good s'"
proof (induction n arbitrary: s)
  case (Suc n)
  obtain s1 where "emit c s = Inr s1" "good s1" using emit_inv [OF Suc.prems] by blast
  then show ?case using Suc.IH by simp
qed simp

lemma print_string_inv:
  assumes "good s" "suffix \<le> length str" "terminated (drop suffix str)"
  shows "\<exists>s'. print_string_with emit str suffix width flags fill s = Inr s' \<and> good s'"
proof -
  obtain s1 where s1: "put_chars emit suffix str s = Inr s1" "good s1" using put_chars_inv [OF assms(2,1)] by blast
  obtain n where n: "strnlen_list (drop suffix str) DLOG_MAX_STRING_LENGTH 0 = Inr n" using strnlen_list_ok [OF assms(3)] by blast
  show ?thesis
  proof (cases "flags AND FLAG_MINUS = 0")
    case True
    obtain s2 where s2: "pad emit (width - (suffix + n)) fill s1 = Inr s2" "good s2" using pad_inv [OF s1(2)] by blast
    then show ?thesis using raw_string_inv [OF assms(3) s2(2), of 0] s1 n True by (auto simp: print_string_with_def)
  next
    case False
    obtain j s2 where s2: "raw_string emit (drop suffix str) 0 s1 = Inr (j, s2)" "good s2"
      using raw_string_inv [OF assms(3) s1(2)] by blast
    then show ?thesis using pad_inv [OF s2(2)] s1 False by (simp add: print_string_with_def)
  qed
qed

lemma print_num_inv:
  assumes "good s" "base = 8 \<or> base = 10 \<or> base = 16"
  shows "\<exists>s'. print_num_with emit v base width flags s = Inr s' \<and> good s'"
proof -
  let ?d = "if flags AND FLAG_UPPER \<noteq> 0 then digits_upper else digits_lower"
  let ?n = "num_digits ?d base (unat v) [0]" and ?p = "num_prefix ?d base flags"
  have "unat v < base ^ Suc 21"
  proof -
    have "unat v < 8 ^ Suc 21" by (rule less_le_trans [OF unat_lt64]) simp
    also have "\<dots> \<le> base ^ Suc 21" using assms(2) by (intro power_mono) auto
    finally show ?thesis .
  qed
  then have "length ?n \<le> Suc 21 + length [0 :: u8]" by (rule num_digits_length)
  then have "length ?p + length ?n \<le> DLOG_MAX_STRING_LENGTH"
    using num_prefix_length [of ?d base flags] by (simp add: DLOG_MAX_STRING_LENGTH_def)
  moreover have t: "terminated ?n" by (rule num_digits_terminated) (simp add: terminated_def)
  moreover have "terminated (?p @ ?n)" using t by (simp add: terminated_def)
  ultimately show ?thesis
    using print_string_inv [OF assms(1), of "length ?p" "?p @ ?n"] print_string_inv [OF assms(1), of 0 "?p @ ?n"]
    by (simp add: print_num_with_def Let_def)
qed

lemma print_spec_inv:
  assumes i: "good s" and p: "terminated p" and a: "vas_ok args"
  shows "spec_safe good (print_spec emit False p w flags args s)"
proof -
  obtain c rest where c: "p = c # rest" using p by (cases p) (auto simp: terminated_def)
  have num: "spec_safe good (res_bind (print_num_with emit v base width fl s) (\<lambda>s'. Inr (rest, args', s')))"
    if "base = 8 \<or> base = 10 \<or> base = 16" "terminated rest" "vas_ok args'" for v base width fl args'
    using print_num_inv [OF i that(1), of v width fl] that by (auto simp: spec_safe_def)
  have sz: "spec_safe good (res_bind (va_size args) (\<lambda>(v, args').
      res_bind (print_num_with emit v base width fl s) (\<lambda>s'. Inr (rest, args', s'))))"
    if "base = 8 \<or> base = 10 \<or> base = 16" "terminated rest" for base width fl
    using va_size_cases [OF a] num [OF that] by (auto simp: spec_safe_def)
  have str: "spec_safe good (res_bind (print_string_with emit str 0 width fl fill s) (\<lambda>s'. Inr (rest, args', s')))"
    if "terminated str" "terminated rest" "vas_ok args'" for str width fl fill args'
    using print_string_inv [OF i, of 0 str width fl fill] that by (auto simp: spec_safe_def)
  have pct: "spec_safe good (res_bind (emit (ch CHR ''%'') s) (\<lambda>s'. Inr (p, args, s')))"
    using emit_inv [OF i, of "ch CHR ''%''"] p a by (auto simp: spec_safe_def)
  show ?thesis
  proof (cases "c = 0")
    case True
    then show ?thesis using pct c by (simp add: print_spec_def)
  next
    case False
    then have rest: "terminated rest" using p c by (simp add: terminated_def)
    consider "c = ch CHR ''s''" | "c = ch CHR ''d'' \<or> c = ch CHR ''i''" | "c = ch CHR ''c''"
      | "c = ch CHR ''X'' \<or> c = ch CHR ''p'' \<or> c = ch CHR ''x'' \<or> c = ch CHR ''u'' \<or> c = ch CHR ''o''" | "c = ch CHR ''%''"
      | "c \<notin> {ch CHR ''s'', ch CHR ''d'', ch CHR ''i'', ch CHR ''c'', ch CHR ''X'', ch CHR ''p'', ch CHR ''x'', ch CHR ''u'', ch CHR ''o'', ch CHR ''%''}"
      by auto
    then show ?thesis
    proof cases
      case 1
      then show ?thesis
        using va_str_cases [OF a] str [OF _ rest] by (auto simp: print_spec_def c spec_safe_def)
    next
      case 2
      then show ?thesis
        using va_int_cases [OF a] num [OF _ rest, of 10] by (auto simp: print_spec_def c Let_def) (auto simp: spec_safe_def)
    next
      case 3
      then show ?thesis
        using va_int_cases [OF a] str [OF _ rest] by (auto simp: print_spec_def c terminated_def) (auto simp: spec_safe_def)
    next
      case 4
      then show ?thesis using sz [OF _ rest] by (auto simp: print_spec_def c Let_def)
    next
      case 5
      then show ?thesis using p a i c by (simp add: print_spec_def spec_safe_def)
    next
      case 6
      then show ?thesis using pct c by (simp add: print_spec_def Let_def)
    qed
  qed
qed

lemma vformat_inv:
  "terminated p \<Longrightarrow> vas_ok args \<Longrightarrow> good s \<Longrightarrow>
   vformat emit room False p args s = Inl BadArgument \<or> (\<exists>s'. vformat emit room False p args s = Inr s' \<and> good s')"
proof (induction "length p" arbitrary: p args s rule: less_induct)
  case less
  obtain c rest where p: "p = c # rest" using less.prems(1) by (cases p) (auto simp: terminated_def)
  show ?case
  proof (cases "c = 0 \<or> \<not> room s")
    case True
    then show ?thesis using less.prems(3) p by auto
  next
    case False
    then have rest: "terminated rest" using less.prems(1) p by (simp add: terminated_def)
    show ?thesis
    proof (cases "c = ch CHR ''%''")
      case no: False
      obtain s1 where "emit c s = Inr s1" "good s1" using emit_inv [OF less.prems(3)] by blast
      then show ?thesis using less.hyps [of rest args s1] rest less.prems(2) p False no by simp
    next
      case pct: True
      obtain p1 f where p1: "parse_flags rest 0 = Inr (p1, f)" "terminated p1" using parse_flags_ok [OF rest] by blast
      obtain p2 w where p2: "parse_width p1 0 = Inr (p2, w)" "terminated p2" using parse_width_ok [OF p1(2)] by blast
      show ?thesis
      proof (cases "star_width p2 w f args")
        case (Inl e)
        then show ?thesis using star_width_ok [OF p2(2) less.prems(2), of w f] p False pct p1(1) p2(1) by simp
      next
        case (Inr r)
        then obtain p3 w' f' args' where p3: "star_width p2 w f args = Inr (p3, w', f', args')" "terminated p3" "vas_ok args'"
          using star_width_ok [OF p2(2) less.prems(2), of w f] by auto
        note sp = print_spec_inv [OF less.prems(3) p3(2,3), of w' f']
        show ?thesis
        proof (cases "print_spec emit False p3 w' f' args' s")
          case (Inl e)
          then show ?thesis using sp p False pct p1(1) p2(1) p3(1) by (simp add: spec_safe_def)
        next
          case (Inr r)
          obtain q args'' s' where r: "r = (q, args'', s')" by (metis prod_cases3)
          have "terminated q" "vas_ok args''" "good s'" using sp Inr r by (simp_all add: spec_safe_def)
          moreover have "length q < length p"
            using parse_flags_length [OF p1(1)] parse_width_length [OF p2(1)] star_width_length [OF p3(1)]
              print_spec_length [of emit False p3 w' f' args' s q "(args'', s')"] Inr r p by simp
          ultimately show ?thesis using less.hyps [of q args'' s'] Inr r p False pct p1(1) p2(1) p3(1) by simp
        qed
      qed
    qed
  qed
qed

end

section \<open>The buffer\<close>

text \<open>Within the bound, and nothing behind it is touched.\<close>

definition sbuf_ok :: "nat \<Rightarrow> u8 list \<Rightarrow> sbuf \<Rightarrow> bool" where
  "sbuf_ok sz out b \<longleftrightarrow> sb_idx b < sz \<and> length (sb_out b) = length out \<and> drop sz (sb_out b) = drop sz out"

lemma sprintf_putchar_ok:
  assumes "sz \<le> length out" "sbuf_ok sz out b"
  shows "\<exists>b'. sprintf_putchar sz c b = Inr b' \<and> sbuf_ok sz out b'"
  using assms by (auto simp: sprintf_putchar_def sbuf_ok_def size_1_def)

interpretation snprintf: printer "sprintf_putchar sz" "\<lambda>b. sz \<le> length out \<and> sbuf_ok sz out b" for sz out
  using sprintf_putchar_ok by unfold_locales blast

interpretation console: printer dlog_putchar "\<lambda>s. dlog_lock_enabled s = e \<and> dlog_sl s = l \<and> (\<exists>xs. dlog_out s = out @ xs)" for e l out
  by unfold_locales (auto simp: dlog_putchar_def)

end
