(* ===== verification/Format_Exact.thy ===== *)
theory Format_Exact
  imports Format_Safe
begin

text \<open>
  What is printed. \<open>writer\<close> adds to the promise of \<open>printer\<close> that a character is appended to what was
  written while there is room; the console has room always and the buffer up to its size.
\<close>

lemma strnlen_list_exact: "0 \<notin> set xs \<Longrightarrow> length xs < n \<Longrightarrow> strnlen_list (xs @ 0 # ys) n i = Inr (i + length xs)"
proof (induction xs arbitrary: n i)
  case Nil
  then show ?case by (cases n) simp_all
next
  case (Cons c xs)
  then show ?case by (cases n) auto
qed

locale writer =
  fixes emit :: "u8 \<Rightarrow> 's \<Rightarrow> 's res" and view :: "'s \<Rightarrow> u8 list" and fits :: "'s \<Rightarrow> nat \<Rightarrow> bool"
  assumes emit_view: "fits s (Suc n) \<Longrightarrow> \<exists>s'. emit c s = Inr s' \<and> view s' = view s @ [c] \<and> fits s' n"
    and fits_le: "fits s n \<Longrightarrow> k \<le> n \<Longrightarrow> fits s k"
begin

lemma raw_string_view:
  "0 \<notin> set xs \<Longrightarrow> fits s (length xs + n) \<Longrightarrow>
   \<exists>s'. raw_string emit (xs @ 0 # ys) k s = Inr (k + length xs, s') \<and> view s' = view s @ xs \<and> fits s' n"
proof (induction xs arbitrary: k s)
  case (Cons c xs)
  then obtain s1 where s1: "emit c s = Inr s1" "view s1 = view s @ [c]" "fits s1 (length xs + n)"
    using emit_view [of s "length xs + n" c] by auto
  then show ?case using Cons.IH [OF _ s1(3), of "Suc k"] Cons.prems(1) by auto
qed simp

lemma pad_view: "fits s (k + n) \<Longrightarrow> \<exists>s'. pad emit k c s = Inr s' \<and> view s' = view s @ replicate k c \<and> fits s' n"
proof (induction k arbitrary: s)
  case (Suc k)
  then obtain s1 where s1: "emit c s = Inr s1" "view s1 = view s @ [c]" "fits s1 (k + n)" using emit_view [of s "k + n" c] by auto
  then show ?case using Suc.IH [OF s1(3)] by auto
qed simp

text \<open>A number in base 16, filled with zeros.\<close>

lemma print_hex_view:
  assumes d: "num_digits digits_lower 16 (unat v) [0] = ds @ [0]" "0 \<notin> set ds" "length ds \<le> width" and f: "fits s (width + n)"
  shows "\<exists>s'. print_num_with emit v 16 width FLAG_ZERO s = Inr s' \<and> view s' = view s @ replicate (width - length ds) (ch CHR ''0'') @ ds \<and> fits s' n"
proof -
  have "unat v < 16 ^ Suc 15" using unat_lt64 [of v] by (simp del: unat_lt64)
  then have "length ds + 1 \<le> Suc 15 + 1" using num_digits_length [of "unat v" 16 15 digits_lower "[0]"] d(1) by simp
  then have l: "length (ds @ [0]) \<le> 64" "length ds < 64" by simp_all
  have n: "strnlen_list (ds @ [0]) DLOG_MAX_STRING_LENGTH 0 = Inr (length ds)"
    using strnlen_list_exact [OF d(2), of 64 "[]" 0] l(2) by (simp add: DLOG_MAX_STRING_LENGTH_def)
  have "fits s ((width - length ds) + (length ds + n))" using f d(3) by simp
  then obtain s1 where s1: "pad emit (width - length ds) (ch CHR ''0'') s = Inr s1"
    "view s1 = view s @ replicate (width - length ds) (ch CHR ''0'')" "fits s1 (length ds + n)" using pad_view by blast
  obtain s2 where s2: "raw_string emit (ds @ 0 # []) 0 s1 = Inr (0 + length ds, s2)" "view s2 = view s1 @ ds" "fits s2 n"
    using raw_string_view [OF d(2) s1(3), of "[]" 0] by blast
  have fl: "FLAG_ZERO AND FLAG_UPPER = 0" "FLAG_ZERO AND FLAG_MINUS = 0" "FLAG_ZERO AND FLAG_NEG = 0" "FLAG_ZERO AND FLAG_PLUS = 0"
    "FLAG_ZERO AND FLAG_SPACE = 0" "FLAG_ZERO AND FLAG_ALT = 0" "FLAG_ZERO AND FLAG_ZERO \<noteq> 0"
    by (simp_all add: FLAG_ZERO_def FLAG_UPPER_def FLAG_MINUS_def FLAG_NEG_def FLAG_PLUS_def FLAG_SPACE_def FLAG_ALT_def)
  have "print_num_with emit v 16 width FLAG_ZERO s = Inr s2"
    using s1(1) s2(1) n l fl(7)
    by (simp add: print_num_with_def num_prefix_def print_string_with_def fl d(1) DLOG_MAX_STRING_LENGTH_def Let_def)
  then show ?thesis using s1(2) s2(2,3) by simp
qed

end

section \<open>Hexadecimal numbers\<close>

abbreviation hexd :: "nat \<Rightarrow> u8" where "hexd d \<equiv> digits_lower ! d"

lemma hexd_cases:
  assumes "d < (16 :: nat)"
  shows "d \<in> {0, 1, 2, 3, 4, 5, 6, 7, 8, 9, 10, 11, 12, 13, 14, 15}"
  using assms by simp arith

lemma hexd_values:
  assumes "d < 16"
  shows "hexd d \<noteq> 0" "toul_digit (hexd d) = Some (word_of_nat d)" "\<not> isspace_l (hexd d)"
    "hexd d \<noteq> ch CHR ''-''" "hexd d \<noteq> ch CHR ''+''" "hexd d \<noteq> ch CHR ''x''" "hexd d \<noteq> ch CHR ''X''"
  using hexd_cases [OF assms] by (auto simp: digits_lower_def toul_digit_def isspace_l_def)

text \<open>The \<open>w\<close> lowest digits of a number.\<close>

primrec hexdigs :: "nat \<Rightarrow> nat \<Rightarrow> nat list" where
  "hexdigs 0 v = []"
| "hexdigs (Suc w) v = hexdigs w (v div 16) @ [v mod 16]"

lemma hexdigs_length [simp]: "length (hexdigs w v) = w"
  by (induction w arbitrary: v) simp_all

lemma hexdigs_less: "d \<in> set (hexdigs w v) \<Longrightarrow> d < 16"
  by (induction w arbitrary: v) auto

lemma hexdigs_zero: "hexdigs w 0 = replicate w 0"
  by (induction w) (simp_all add: replicate_append_same)

definition hexval :: "nat \<Rightarrow> nat list \<Rightarrow> nat" where
  "hexval a ds = foldl (\<lambda>a d. a * 16 + d) a ds"

lemma hexval_simps [simp]: "hexval a [] = a" "hexval a (d # ds) = hexval (a * 16 + d) ds"
  by (simp_all add: hexval_def)

lemma hexval_append [simp]: "hexval a (ds @ [d]) = hexval a ds * 16 + d"
  by (simp add: hexval_def)

lemma hexval_ge: "a \<le> hexval a ds"
proof (induction ds arbitrary: a)
  case (Cons d ds)
  have "a \<le> a * 16 + d" by simp
  then show ?case using Cons [of "a * 16 + d"] by simp
qed simp

lemma hexval_hexdigs: "v < 16 ^ w \<Longrightarrow> hexval 0 (hexdigs w v) = v"
proof (induction w arbitrary: v)
  case (Suc w)
  have "v div 16 < 16 ^ w" using Suc.prems by (simp add: less_mult_imp_div_less ac_simps)
  then show ?case using Suc.IH by simp
qed simp

text \<open>What is printed with a width is the number with that many digits.\<close>

lemma num_digits_hex:
  "v < 16 ^ Suc w \<Longrightarrow> \<exists>ds. num_digits digits_lower 16 v acc = ds @ acc \<and> length ds \<le> Suc w \<and> 0 \<notin> set ds \<and>
     replicate (Suc w - length ds) (ch CHR ''0'') @ ds = map hexd (hexdigs (Suc w) v)"
proof (induction w arbitrary: v acc)
  case 0
  then have v: "v < 16" by simp
  then have "num_digits digits_lower 16 v acc = [hexd v] @ acc" by (subst num_digits.simps) simp
  then show ?case using hexd_values(1) [OF v] v by (intro exI [of _ "[hexd v]"]) simp
next
  case (Suc w)
  have z: "ch CHR ''0'' = hexd 0" by (simp add: digits_lower_def)
  have m: "v mod 16 < 16" by simp
  show ?case
  proof (cases "v div 16 = 0")
    case True
    then have "num_digits digits_lower 16 v acc = [hexd (v mod 16)] @ acc" by (subst num_digits.simps) simp
    moreover have "replicate (Suc (Suc w) - 1) (hexd 0) @ [hexd (v mod 16)] = map hexd (hexdigs (Suc (Suc w)) v)"
      using True hexdigs_zero [of "Suc w"] by simp
    ultimately show ?thesis using hexd_values(1) [OF m] unfolding z by (intro exI [of _ "[hexd (v mod 16)]"]) auto
  next
    case False
    have "v div 16 < 16 ^ Suc w" using Suc.prems by (simp add: less_mult_imp_div_less ac_simps)
    then obtain ds where d: "num_digits digits_lower 16 (v div 16) (hexd (v mod 16) # acc) = ds @ hexd (v mod 16) # acc"
      "length ds \<le> Suc w" "0 \<notin> set ds" "replicate (Suc w - length ds) (ch CHR ''0'') @ ds = map hexd (hexdigs (Suc w) (v div 16))"
      using Suc.IH [of "v div 16" "hexd (v mod 16) # acc"] by blast
    have "num_digits digits_lower 16 v acc = (ds @ [hexd (v mod 16)]) @ acc"
      using False d(1) by (subst num_digits.simps) (simp add: Let_def)
    moreover have "replicate (Suc (Suc w) - length (ds @ [hexd (v mod 16)])) (ch CHR ''0'') @ ds @ [hexd (v mod 16)] =
        map hexd (hexdigs (Suc (Suc w)) v)"
      using d(4) by (simp add: append_assoc [symmetric] del: append_assoc)
    ultimately show ?thesis
      using hexd_values(1) [OF m] d(2,3) by (intro exI [of _ "ds @ [hexd (v mod 16)]"]) auto
  qed
qed

context writer
begin

lemma print_hex:
  assumes "unat v < 16 ^ Suc w" "fits s (Suc w + n)"
  shows "\<exists>s'. print_num_with emit v 16 (Suc w) FLAG_ZERO s = Inr s' \<and> view s' = view s @ map hexd (hexdigs (Suc w) (unat v)) \<and> fits s' n"
proof -
  obtain ds where d: "num_digits digits_lower 16 (unat v) [0] = ds @ [0]" "length ds \<le> Suc w" "0 \<notin> set ds"
    "replicate (Suc w - length ds) (ch CHR ''0'') @ ds = map hexd (hexdigs (Suc w) (unat v))"
    using num_digits_hex [OF assms(1), of "[0]"] by blast
  show ?thesis using print_hex_view [OF d(1,3,2) assms(2)] unfolding d(4) .
qed

end

text \<open>Reading them back.\<close>

lemma toul_step:
  assumes d: "d < 16" and a: "a * 16 + d < 2 ^ 32" and any: "0 \<le> any"
  shows "toul_digits (hexd d) (c # xs) i 16 (word_of_nat a) any = toul_digits c xs (Suc i) 16 (word_of_nat (a * 16 + d)) 1"
proof -
  have u: "unat (ucast (word_of_nat d :: u8) :: u16) = d" "unat (ucast (word_of_nat d :: u8) :: u64) = d"
    using d by (simp_all add: unsigned_ucast_eq take_bit_eq_mod unat_of_nat)
  have ua: "unat (word_of_nat a :: u64) = a" using a by (intro unat_of_nat64) simp
  have n1: "\<not> 16 \<le> (ucast (word_of_nat d :: u8) :: u16)" using d u(1) by (simp add: word_le_nat_alt)
  have n2: "\<not> (word_of_nat a :: u64) > ULONG_MAX div 16" using a ua by (simp add: ULONG_MAX_def word_less_nat_alt)
  have n3: "\<not> (ucast (word_of_nat d :: u8) :: u64) > ULONG_MAX mod 16" using d u(2) by (simp add: ULONG_MAX_def word_less_nat_alt)
  have s: "word_of_nat a * 16 + ucast (word_of_nat d :: u8) = (word_of_nat (a * 16 + d) :: u64)"
  proof -
    have "ucast (word_of_nat d :: u8) = (word_of_nat d :: u64)" using u(2) d unat_of_nat64 [of d] by (simp add: unat_eq_iff64)
    then show ?thesis by simp
  qed
  show ?thesis
    using n1 n2 n3 any s by (subst toul_digits.simps) (simp add: hexd_values(2) [OF d] Let_def)
qed

definition ends_number :: "u8 \<Rightarrow> bool" where
  "ends_number t \<longleftrightarrow> (case toul_digit t of None \<Rightarrow> True | Some e \<Rightarrow> 16 \<le> unat e)"

lemma toul_stop: "ends_number t \<Longrightarrow> toul_digits t rest i 16 acc any = Inr (acc, any, i)"
proof -
  assume e: "ends_number t"
  have "16 \<le> (ucast d :: u16)" if "toul_digit t = Some d" for d :: u8
  proof -
    have "unat (ucast d :: u16) = unat d" using unsigned_less [of d, where ?'a = nat] by (simp add: unsigned_ucast_eq take_bit_eq_mod)
    then show ?thesis using e that by (simp add: ends_number_def word_le_nat_alt)
  qed
  then show ?thesis by (subst toul_digits.simps) (auto simp: Let_def split: option.split)
qed

lemma toul_digits_hex:
  "d < 16 \<Longrightarrow> (\<And>e. e \<in> set ds \<Longrightarrow> e < 16) \<Longrightarrow> hexval a (d # ds) < 2 ^ 32 \<Longrightarrow> 0 \<le> any \<Longrightarrow> ends_number t \<Longrightarrow>
   toul_digits (hexd d) (map hexd ds @ t # rest) i 16 (word_of_nat a) any =
     Inr (word_of_nat (hexval a (d # ds)), 1, i + Suc (length ds))"
proof (induction ds arbitrary: d a any i)
  case Nil
  then show ?case using toul_step [of d a any t rest i] toul_stop by simp
next
  case (Cons e ds)
  have "a * 16 + d < 2 ^ 32" using hexval_ge [of "a * 16 + d" "e # ds"] Cons.prems(3) by simp
  then show ?case
    using toul_step [OF Cons.prems(1) _ Cons.prems(4), of a "hexd e" "map hexd ds @ t # rest" i]
      Cons.IH [of e "a * 16 + d" 1 "Suc i"] Cons.prems by simp
qed

lemma string_toul_hex:
  assumes v: "v < 16 ^ w" "2 \<le> w" "w \<le> 8" and t: "ends_number t"
  shows "string_toul (map hexd (hexdigs w v) @ t # rest) 16 = Inr (word_of_nat v, w)"
proof -
  obtain d e ds where ds: "hexdigs w v = d # e # ds"
    using v(2) hexdigs_length [of w v] by (metis One_nat_def Suc_1 Suc_le_length_iff Suc_length_conv le_Suc_ex plus_1_eq_Suc add_Suc)
  have lt: "d < 16" "e < 16" "\<And>x. x \<in> set (e # ds) \<Longrightarrow> x < 16" using hexdigs_less [of _ w v] ds by auto
  have "(16 :: nat) ^ w \<le> 16 ^ 8" using v(3) by (intro power_increasing) simp_all
  then have h: "hexval 0 (d # e # ds) = v" "v < 2 ^ 32" using hexval_hexdigs [OF v(1)] v(1) unfolding ds by simp_all
  have sp: "toul_space (map hexd (d # e # ds) @ t # rest) 0 = Inr (hexd d, map hexd (e # ds) @ t # rest, 1)"
    using hexd_values(3) [OF lt(1)] by simp
  have "toul_digits (hexd d) (map hexd (e # ds) @ t # rest) 1 16 0 0 = Inr (word_of_nat v, 1, 1 + Suc (length (e # ds)))"
    using toul_digits_hex [of d "e # ds" 0 0 t rest 1] lt t h by simp
  moreover have "length (e # ds) + 1 = w" using hexdigs_length [of w v] unfolding ds by simp
  ultimately show ?thesis
    unfolding ds string_toul_def string_toul_l_def sp
    using hexd_values(4-7) [OF lt(1)] hexd_values(6,7) [OF lt(2)] by (cases "hexd d = 48") simp_all
qed


section \<open>The two printers\<close>

interpretation console_writer: writer dlog_putchar dlog_out "\<lambda>_ _. True"
  by unfold_locales (simp add: dlog_putchar_def)

definition sbuf_view :: "sbuf \<Rightarrow> u8 list" where "sbuf_view b = take (sb_idx b) (sb_out b)"

definition sbuf_fits :: "nat \<Rightarrow> sbuf \<Rightarrow> nat \<Rightarrow> bool" where
  "sbuf_fits sz b n \<longleftrightarrow> sb_idx b + n < sz \<and> sz \<le> length (sb_out b)"

interpretation buffer_writer: writer "sprintf_putchar sz" sbuf_view "sbuf_fits sz" for sz
  by unfold_locales (auto simp: sprintf_putchar_def sbuf_view_def sbuf_fits_def size_1_def take_Suc_conv_app_nth)

end
