(* ===== verification/Std_Copy.thy ===== *)
theory Std_Copy
  imports Std
begin

text \<open>
  Forward copying: every loop of \<^verbatim>\<open>memcpy_peregrine\<close> and of the forward half of \<^verbatim>\<open>memmove_peregrine\<close> makes
  progress from one prefix of the copy to a longer one.
\<close>

definition copied :: "u64 \<Rightarrow> u64 \<Rightarrow> nat \<Rightarrow> bmem \<Rightarrow> bmem" where
  "copied d s n m = put d {..<n} (\<lambda>k. m (s + word_of_nat k)) m"

text \<open>No byte is overwritten before it is read: the source byte \<open>j\<close> is not among the first \<open>j\<close> destination bytes.\<close>

definition fwd_ok :: "u64 \<Rightarrow> u64 \<Rightarrow> nat \<Rightarrow> bool" where
  "fwd_ok d s n \<longleftrightarrow> n < 2 ^ 64 \<and> (\<forall>j<n. j \<le> unat (s + word_of_nat j - d))"

text \<open>All but \<open>n\<close> of \<open>N\<close> bytes have been copied.\<close>

definition progress :: "u64 \<Rightarrow> u64 \<Rightarrow> nat \<Rightarrow> bmem \<Rightarrow> copying \<Rightarrow> bool" where
  "progress d0 s0 N m0 st \<longleftrightarrow>
     (case st of (d, s, n, m) \<Rightarrow>
        \<exists>k. k + n = N \<and> d = d0 + word_of_nat k \<and> s = s0 + word_of_nat k \<and> m = copied d0 s0 k m0)"

lemma progress_start: "progress d s n m (d, s, n, m)"
  by (simp add: progress_def copied_def)

lemma progress_end: "progress d0 s0 N m0 (d, s, 0, m) \<Longrightarrow> m = copied d0 s0 N m0"
  by (simp add: progress_def)

lemma progress_read:
  assumes "fwd_ok d0 s0 N" "progress d0 s0 N m0 (d, s, n, m)" "j < n"
  shows "m (s + word_of_nat j) = m0 (s + word_of_nat j)"
proof -
  obtain k where k: "k + n = N" "s = s0 + word_of_nat k" "m = copied d0 s0 k m0" using assms(2) by (auto simp: progress_def)
  have e: "s + word_of_nat j = s0 + word_of_nat (k + j)" by (simp add: k(2))
  have "k + j \<le> unat (s0 + word_of_nat (k + j) - d0)" using assms(1,3) k(1) unfolding fwd_ok_def by (auto simp del: of_nat_add)
  then show ?thesis unfolding e k(3) copied_def by (intro put_read) simp
qed

lemma progress_byte:
  assumes "fwd_ok d0 s0 N" "progress d0 s0 N m0 (d, s, Suc n, m)"
  shows "progress d0 s0 N m0 (d + 1, s + 1, n, m(d := m s))"
proof -
  obtain k where k: "k + Suc n = N" "d = d0 + word_of_nat k" "s = s0 + word_of_nat k" "m = copied d0 s0 k m0"
    using assms(2) by (auto simp: progress_def)
  have lt: "k < 2 ^ 64" using k(1) assms(1) by (auto simp: fwd_ok_def)
  have "m s = m0 (s0 + word_of_nat k)" using progress_read [OF assms, of 0] by (simp add: k(3))
  then have "m(d := m s) = copied d0 s0 (Suc k) m0"
    using put_byte [OF lt, of d0 "{..<k}" "\<lambda>k. m0 (s0 + word_of_nat k)" m0]
    by (simp only: k(2,4) copied_def lessThan_Suc)
  then show ?thesis using k by (auto simp: progress_def intro!: exI [of _ "Suc k"])
qed

lemma progress_bytes:
  "fwd_ok d0 s0 N \<Longrightarrow> progress d0 s0 N m0 (d, s, n, m) \<Longrightarrow> b \<le> n \<Longrightarrow>
   progress d0 s0 N m0 (d + word_of_nat b, s + word_of_nat b, n - b, copy_bytes b d s m)"
proof (induction b arbitrary: d s n m)
  case (Suc b)
  then obtain n' where n: "n = Suc n'" by (cases n) auto
  show ?case
    using Suc.IH [OF Suc.prems(1) progress_byte [OF Suc.prems(1) Suc.prems(2) [unfolded n]]] Suc.prems(3)
    by (simp add: n ac_simps del: fun_upd_apply)
qed simp

text \<open>A store of 32 bits that holds the next four source bytes.\<close>

lemma progress_store32:
  assumes "fwd_ok d0 s0 N" "progress d0 s0 N m0 (d, s, n, m)" "4 \<le> n"
    and "\<And>i. i < 4 \<Longrightarrow> byte_of i v = m0 (s + word_of_nat i)"
  shows "progress d0 s0 N m0 (d + 4, s + 4, n - 4, store32 d v m)"
proof -
  obtain k where k: "k + n = N" "d = d0 + word_of_nat k" "s = s0 + word_of_nat k" "m = copied d0 s0 k m0"
    using assms(2) by (auto simp: progress_def)
  have lt: "k + 4 \<le> 2 ^ 64" using k(1) assms(1,3) by (auto simp: fwd_ok_def)
  have u: "{..<k} \<union> {k..<k + 4} = {..<k + 4}" by auto
  have "store32 d v m = copied d0 s0 (k + 4) m0"
    using put_store32 [OF lt, of v "\<lambda>k. m0 (s0 + word_of_nat k)" d0 "{..<k}" m0]
      assms(4) [of 0] assms(4) [of 1] assms(4) [of 2] assms(4) [of 3]
    by (simp add: k(2-4) copied_def u ac_simps)
  then show ?thesis using k assms(3) by (auto simp: progress_def intro!: exI [of _ "k + 4"])
qed

lemma byte_of_load32_nth: "i < 4 \<Longrightarrow> byte_of i (load32 a m) = m (a + word_of_nat i)"
  using byte_of_load32 [of a m] by (auto simp: less_Suc_eq numeral_eq_Suc)

lemma progress_copy32:
  assumes "fwd_ok d0 s0 N" "progress d0 s0 N m0 (d, s, n, m)" "4 \<le> n"
  shows "progress d0 s0 N m0 (d + 4, s + 4, n - 4, copy32 d s m)"
  unfolding copy32_def
  using progress_read [OF assms(1,2)] assms(3) by (intro progress_store32 [OF assms]) (simp add: byte_of_load32_nth)

lemma progress_copy64:
  assumes "fwd_ok d0 s0 N" "progress d0 s0 N m0 (d, s, n, m)" "8 \<le> n"
  shows "progress d0 s0 N m0 (d + 8, s + 8, n - 8, copy64 d s m)"
proof -
  have p: "progress d0 s0 N m0 (d + 4, s + 4, n - 4, store32 d (load32 s m) m)"
    using progress_copy32 [OF assms(1,2)] assms(3) by (simp add: copy32_def)
  have "byte_of i (load32 (s + 4) m) = m0 (s + 4 + word_of_nat i)" if "i < 4" for i
    using progress_read [OF assms(1,2), of "4 + i"] that assms(3) by (simp add: byte_of_load32_nth add.assoc)
  then have "progress d0 s0 N m0 (d + 4 + 4, s + 4 + 4, n - 4 - 4, store32 (d + 4) (load32 (s + 4) m) (store32 d (load32 s m) m))"
    using assms(3) by (intro progress_store32 [OF assms(1) p]) simp_all
  then show ?thesis by (simp add: copy64_def store64_def ucast_load64 add.assoc)
qed

section \<open>The loops of memcpy\<close>

lemma memcpy_head_progress:
  "fwd_ok d0 s0 N \<Longrightarrow> progress d0 s0 N m0 (d, s, n, m) \<Longrightarrow>
   progress d0 s0 N m0 (memcpy_head n d s m) \<and> (case memcpy_head n d s m of (d', s', n', m') \<Rightarrow> n' = 0 \<or> unat s' mod 4 = 0)"
proof (induction n arbitrary: d s m)
  case (Suc n)
  then show ?case using Suc.IH [OF Suc.prems(1) progress_byte [OF Suc.prems]] by (simp del: fun_upd_apply)
qed simp

lemma memcpy_loop16_progress:
  "fwd_ok d0 s0 N \<Longrightarrow> progress d0 s0 N m0 (d, s, n, m) \<Longrightarrow>
   progress d0 s0 N m0 (memcpy_loop16 n d s m) \<and> fst (snd (snd (memcpy_loop16 n d s m))) < 16"
proof (induction n d s m rule: memcpy_loop16.induct)
  case (1 n d s m)
  show ?case
  proof (cases "16 \<le> n")
    case True
    let ?m = "copy32 (d + 12) (s + 12) (copy32 (d + 8) (s + 8) (copy32 (d + 4) (s + 4) (copy32 d s m)))"
    note p1 = progress_copy32 [OF "1.prems"]
    note p2 = progress_copy32 [OF "1.prems"(1) p1]
    note p3 = progress_copy32 [OF "1.prems"(1) p2]
    note p4 = progress_copy32 [OF "1.prems"(1) p3]
    have "progress d0 s0 N m0 (d + 16, s + 16, n - 16, ?m)" using p4 True by (simp add: add.assoc)
    then show ?thesis using "1.IH" [OF True "1.prems"(1)] True by (simp add: memcpy_loop16.simps [of n])
  next
    case False
    then show ?thesis using "1.prems" by (simp add: memcpy_loop16.simps [of n])
  qed
qed

text \<open>The register \<open>w\<close> holds the last word read, whose upper \<open>k\<close> bytes are the next bytes to store.\<close>

definition carried :: "nat \<Rightarrow> u32 \<Rightarrow> u64 \<Rightarrow> bmem \<Rightarrow> bool" where
  "carried k w s m0 \<longleftrightarrow> (\<forall>i<k. byte_of (i + 4 - k) w = m0 (s + word_of_nat i))"

lemma shift_step:
  assumes "fwd_ok d0 s0 N" "progress d0 s0 N m0 (d, s, n, m)" "k \<le> 4" "4 + k \<le> n" "carried k w s m0"
    and x: "x = load32 (s + word_of_nat k) m"
  shows "progress d0 s0 N m0 (d + 4, s + 4, n - 4, store32 d (drop_bit (32 - 8 * k) w OR push_bit (8 * k) x) m)"
    "carried k x (s + 4) m0"
proof -
  have b: "byte_of i x = m0 (s + word_of_nat (k + i))" if "i < 4" for i
    using progress_read [OF assms(1,2), of "k + i"] that assms(4) unfolding x by (simp add: byte_of_load32_nth add.assoc)
  have "byte_of i (drop_bit (32 - 8 * k) w OR push_bit (8 * k) x) = m0 (s + word_of_nat i)" if "i < 4" for i
    using byte_of_join [OF that assms(3), of w x] assms(5) b [of "i - k"] that by (auto simp: carried_def)
  then show "progress d0 s0 N m0 (d + 4, s + 4, n - 4, store32 d (drop_bit (32 - 8 * k) w OR push_bit (8 * k) x) m)"
    using assms(4) by (intro progress_store32 [OF assms(1,2)]) simp_all
  have "byte_of (i + 4 - k) x = m0 (s + 4 + word_of_nat i)" if "i < k" for i
  proof -
    have "k + (i + 4 - k) = 4 + i" using assms(3) by simp
    then show ?thesis using b [of "i + 4 - k"] that by (simp add: add.assoc)
  qed
  then show "carried k x (s + 4) m0" by (simp add: carried_def)
qed

lemma memcpy_shift_progress:
  assumes "ls = 32 - 8 * k" "rs = 8 * k" "k \<le> 4" "fwd_ok d0 s0 N"
  shows "progress d0 s0 N m0 (d, s, n, m) \<Longrightarrow> carried k w s m0 \<Longrightarrow>
    progress d0 s0 N m0 (memcpy_shift ls rs k w n d s m) \<and>
    (16 + k \<le> n \<longrightarrow> fst (snd (snd (memcpy_shift ls rs k w n d s m))) < 16 + k)"
  using assms
proof (induction ls rs k w n d s m rule: memcpy_shift.induct)
  case (1 ls rs k w n d s m)
  show ?case
  proof (cases "16 + k \<le> n")
    case True
    note f = "1.prems"(6) and l = "1.prems"(3,4)
    have e: "s + word_of_nat (4 + k) = s + 4 + word_of_nat k" "s + word_of_nat (8 + k) = s + 4 + 4 + word_of_nat k"
      "s + word_of_nat (12 + k) = s + 4 + 4 + 4 + word_of_nat k" by (simp_all add: add.assoc)
    have n: "4 + k \<le> n" "4 + k \<le> n - 4" "4 + k \<le> n - 4 - 4" "4 + k \<le> n - 4 - 4 - 4" using True by simp_all
    define x where "x = load32 (s + word_of_nat k) m"
    define m1 where "m1 = store32 d (drop_bit ls w OR push_bit rs x) m"
    define w1 where "w1 = load32 (s + word_of_nat (4 + k)) m1"
    define m2 where "m2 = store32 (d + 4) (drop_bit ls x OR push_bit rs w1) m1"
    define x1 where "x1 = load32 (s + word_of_nat (8 + k)) m2"
    define m3 where "m3 = store32 (d + 8) (drop_bit ls w1 OR push_bit rs x1) m2"
    define w2 where "w2 = load32 (s + word_of_nat (12 + k)) m3"
    define m4 where "m4 = store32 (d + 12) (drop_bit ls x1 OR push_bit rs w2) m3"
    note p1 = shift_step [OF f "1.prems"(1,5) n(1) "1.prems"(2) x_def, folded l, folded m1_def]
    note p2 = shift_step [OF f p1(1) "1.prems"(5) n(2) p1(2) w1_def [unfolded e], folded l, folded m2_def]
    have d: "d + 4 + 4 = d + 8" "d + 8 + 4 = d + 12" by simp_all
    note p3 = shift_step [OF f p2(1) "1.prems"(5) n(3) p2(2) x1_def [unfolded e], unfolded d, folded l, folded m3_def]
    note p4 = shift_step [OF f p3(1) "1.prems"(5) n(4) p3(2) w2_def [unfolded e], unfolded d, folded l, folded m4_def]
    have "progress d0 s0 N m0 (d + 16, s + 16, n - 16, m4)" "carried k w2 (s + 16) m0"
      using p4 by (simp_all add: add.assoc)
    then have "progress d0 s0 N m0 (memcpy_shift ls rs k w2 (n - 16) (d + 16) (s + 16) m4) \<and>
        (16 + k \<le> n - 16 \<longrightarrow> fst (snd (snd (memcpy_shift ls rs k w2 (n - 16) (d + 16) (s + 16) m4))) < 16 + k)"
      using "1.IH" [OF True x_def m1_def w1_def m2_def x1_def m3_def w2_def m4_def] "1.prems"(3-6) by blast
    moreover have "memcpy_shift ls rs k w n d s m = memcpy_shift ls rs k w2 (n - 16) (d + 16) (s + 16) m4"
      using True by (simp add: memcpy_shift.simps [of ls rs k w n] Let_def x_def m1_def w1_def m2_def x1_def m3_def w2_def m4_def)
    moreover have "\<not> 16 + k \<le> n - 16 \<Longrightarrow> memcpy_shift ls rs k w2 (n - 16) (d + 16) (s + 16) m4 = (d + 16, s + 16, n - 16, m4)"
      by (simp add: memcpy_shift.simps [of ls rs k w2])
    ultimately show ?thesis by (cases "16 + k \<le> n - 16") auto
  next
    case False
    then show ?thesis using "1.prems"(1) by (simp add: memcpy_shift.simps [of ls rs k w n])
  qed
qed

end
