(* ===== verification/Std_Move.thy ===== *)
theory Std_Move
  imports Std_Copy
begin

text \<open>
  The copies as a whole: \<^verbatim>\<open>memcpy_peregrine\<close> on ranges that do not overlap, and \<^verbatim>\<open>memmove_peregrine\<close> on any ranges,
  equal the byte-wise copy \<open>copied\<close>.
\<close>

section \<open>The rest of a copy, bit by bit of its length\<close>

lemma mod_bit_step: "(n :: nat) mod 2 ^ Suc j = n mod 2 ^ j + (if bit n j then 2 ^ j else 0)"
  using take_bit_Suc_from_most [of j n] by (simp add: take_bit_eq_mod ac_simps)

lemma progress_bit:
  assumes "fwd_ok d0 s0 N" "progress d0 s0 N m0 (d, s, n mod 2 ^ Suc j, m)"
    and "\<And>l. 2 ^ j \<le> l \<Longrightarrow> progress d0 s0 N m0 (d, s, l, m) \<Longrightarrow>
      progress d0 s0 N m0 (d + 2 ^ j, s + 2 ^ j, l - 2 ^ j, m1)"
    and st: "(if bit n j then (d + 2 ^ j, s + 2 ^ j, m1) else (d, s, m)) = (d', s', m')"
  shows "progress d0 s0 N m0 (d', s', n mod 2 ^ j, m')"
proof (cases "bit n j")
  case True
  then have e: "n mod 2 ^ Suc j = n mod 2 ^ j + 2 ^ j" using mod_bit_step [of n j] by simp
  have "progress d0 s0 N m0 (d + 2 ^ j, s + 2 ^ j, n mod 2 ^ Suc j - 2 ^ j, m1)"
    by (rule assms(3) [OF _ assms(2)], unfold e) simp
  then show ?thesis using st True unfolding e by simp
next
  case False
  then show ?thesis using assms(2) st mod_bit_step [of n j] by simp
qed

lemma progress_bytes_bit:
  assumes "fwd_ok d0 s0 N" "progress d0 s0 N m0 (d, s, n mod 2 ^ Suc j, m)"
    and "(if bit n j then (d + 2 ^ j, s + 2 ^ j, copy_bytes (2 ^ j) d s m) else (d, s, m)) = (d', s', m')"
  shows "progress d0 s0 N m0 (d', s', n mod 2 ^ j, m')"
  by (rule progress_bit [OF assms(1,2) _ assms(3)]) (use progress_bytes [OF assms(1), of m0 d s _ m "2 ^ j"] in simp)

lemma progress_last:
  assumes "fwd_ok d0 s0 N" "progress d0 s0 N m0 (d, s, n mod 2, m)"
  shows "(if bit n 0 then copy_bytes 1 d s m else m) = copied d0 s0 N m0"
proof (cases "bit n 0")
  case True
  then have "n mod 2 = 1" by (simp add: bit_0 odd_iff_mod_2_eq_one)
  then have "progress d0 s0 N m0 (d + word_of_nat 1, s + word_of_nat 1, 1 - 1, copy_bytes 1 d s m)"
    using assms(2) by (intro progress_bytes [OF assms(1)]) simp_all
  then show ?thesis using True progress_end by simp
next
  case False
  then have "n mod 2 = 0" by (simp add: bit_0)
  then show ?thesis using False assms(2) progress_end by auto
qed

lemma memcpy_tail_copied:
  assumes f: "fwd_ok d0 s0 N" and p: "progress d0 s0 N m0 (d, s, n, m)" and n: "n < 32"
  shows "memcpy_tail (d, s, n, m) = copied d0 s0 N m0"
proof -
  obtain d4 s4 m4 where e4: "(if bit n 4 then (d + 16, s + 16, copy_bytes 16 d s m) else (d, s, m)) = (d4, s4, m4)"
    by (metis prod_cases3)
  obtain d3 s3 m3 where e3: "(if bit n 3 then (d4 + 8, s4 + 8, copy_bytes 8 d4 s4 m4) else (d4, s4, m4)) = (d3, s3, m3)"
    by (metis prod_cases3)
  obtain d2 s2 m2 where e2: "(if bit n 2 then (d3 + 4, s3 + 4, copy_bytes 4 d3 s3 m3) else (d3, s3, m3)) = (d2, s2, m2)"
    by (metis prod_cases3)
  obtain d1 s1 m1 where e1: "(if bit n 1 then (d2 + 2, s2 + 2, copy_bytes 2 d2 s2 m2) else (d2, s2, m2)) = (d1, s1, m1)"
    by (metis prod_cases3)
  have "progress d0 s0 N m0 (d4, s4, n mod 2 ^ 4, m4)"
    using p n e4 progress_bytes_bit [OF f, of m0 d s n 4 m d4 s4 m4] by (simp cong: if_cong)
  then have "progress d0 s0 N m0 (d3, s3, n mod 2 ^ 3, m3)"
    using e3 progress_bytes_bit [OF f, of m0 d4 s4 n 3 m4 d3 s3 m3] by (simp cong: if_cong)
  then have "progress d0 s0 N m0 (d2, s2, n mod 2 ^ 2, m2)"
    using e2 progress_bytes_bit [OF f, of m0 d3 s3 n 2 m3 d2 s2 m2] by (simp cong: if_cong)
  then have "progress d0 s0 N m0 (d1, s1, n mod 2 ^ 1, m1)"
    using e1 progress_bytes_bit [OF f, of m0 d2 s2 n 1 m2 d1 s1 m1] by (simp cong: if_cong)
  then have "(if bit n 0 then copy_bytes 1 d1 s1 m1 else m1) = copied d0 s0 N m0" using progress_last [OF f] by simp
  then show ?thesis unfolding memcpy_tail_def by (simp only: prod.case e4 e3 e2 e1 Let_def)
qed

lemma memcpy_aligned_copied:
  assumes f: "fwd_ok d0 s0 N" and p: "progress d0 s0 N m0 (d, s, n, m)"
  shows "memcpy_aligned n d s m = copied d0 s0 N m0"
proof -
  obtain d4 s4 n4 m4 where e4: "memcpy_loop16 n d s m = (d4, s4, n4, m4)" by (metis prod_cases4)
  have p4: "progress d0 s0 N m0 (d4, s4, n4, m4)" "n4 < 16" using memcpy_loop16_progress [OF f p] by (simp_all add: e4)
  obtain d3 s3 m3 where e3: "(if bit n4 3 then (d4 + 8, s4 + 8, copy32 (d4 + 4) (s4 + 4) (copy32 d4 s4 m4)) else (d4, s4, m4)) = (d3, s3, m3)"
    by (metis prod_cases3)
  obtain d2 s2 m2 where e2: "(if bit n4 2 then (d3 + 4, s3 + 4, copy32 d3 s3 m3) else (d3, s3, m3)) = (d2, s2, m2)"
    by (metis prod_cases3)
  obtain d1 s1 m1 where e1: "(if bit n4 1 then (d2 + 2, s2 + 2, copy_bytes 2 d2 s2 m2) else (d2, s2, m2)) = (d1, s1, m1)"
    by (metis prod_cases3)
  have c8: "progress d0 s0 N m0 (d4 + 8, s4 + 8, l - 8, copy32 (d4 + 4) (s4 + 4) (copy32 d4 s4 m4))"
    if "8 \<le> l" "progress d0 s0 N m0 (d4, s4, l, m4)" for l
    using progress_copy32 [OF f progress_copy32 [OF f that(2)]] that(1) by (simp add: add.assoc)
  have "progress d0 s0 N m0 (d3, s3, n4 mod 2 ^ 3, m3)"
    using p4 e3 c8 progress_bit [OF f, of m0 d4 s4 n4 3 m4 "copy32 (d4 + 4) (s4 + 4) (copy32 d4 s4 m4)" d3 s3 m3] by (simp cong: if_cong)
  then have "progress d0 s0 N m0 (d2, s2, n4 mod 2 ^ 2, m2)"
    using e2 progress_copy32 [OF f, of m0 d3 s3 _ m3] progress_bit [OF f, of m0 d3 s3 n4 2 m3 "copy32 d3 s3 m3" d2 s2 m2] by (simp cong: if_cong)
  then have "progress d0 s0 N m0 (d1, s1, n4 mod 2 ^ 1, m1)"
    using e1 progress_bytes_bit [OF f, of m0 d2 s2 n4 1 m2 d1 s1 m1] by (simp cong: if_cong)
  then have "(if bit n4 0 then copy_bytes 1 d1 s1 m1 else m1) = copied d0 s0 N m0" using progress_last [OF f] by simp
  then show ?thesis unfolding memcpy_aligned_def by (simp only: prod.case e4 e3 e2 e1 Let_def)
qed

section \<open>memcpy\<close>

lemma memcpy_unaligned_progress:
  assumes f: "fwd_ok d0 s0 N" and p: "progress d0 s0 N m0 (d, s, n, m)" and d: "unat d mod 4 \<noteq> 0"
  shows "progress d0 s0 N m0 (memcpy_unaligned n d s m) \<and> fst (snd (snd (memcpy_unaligned n d s m))) < 32"
proof (cases "32 \<le> n")
  case True
  have r: "byte_of i (load32 s m) = m0 (s + word_of_nat i)" if "i < 4" for i
    using progress_read [OF f p, of i] that True by (simp add: byte_of_load32_nth)
  have step: "progress d0 s0 N m0 (memcpy_shift ls rs k (load32 s m) (n - b) (d + word_of_nat b) (s + word_of_nat b) (copy_bytes b d s m)) \<and>
      fst (snd (snd (memcpy_shift ls rs k (load32 s m) (n - b) (d + word_of_nat b) (s + word_of_nat b) (copy_bytes b d s m)))) < 32"
    if k: "k + b = 4" "k \<le> 3" "b \<le> 3" "ls = 32 - 8 * k" "rs = 8 * k" for k b ls rs
  proof -
    have "byte_of (i + 4 - k) (load32 s m) = m0 (s + word_of_nat b + word_of_nat i)" if "i < k" for i
    proof -
      have "i + 4 - k = b + i" "b + i < 4" using k(1) that by simp_all
      then show ?thesis using r [of "b + i"] by (simp add: add.assoc)
    qed
    then have c: "carried k (load32 s m) (s + word_of_nat b) m0" by (simp add: carried_def)
    have l: "k \<le> 4" "b \<le> n" "16 + k \<le> n - b" using k True by simp_all
    note q = memcpy_shift_progress [OF k(4,5) l(1) f progress_bytes [OF f p l(2)] c]
    have "16 + k \<le> 32" using k(2) by simp
    then show ?thesis using q l(3) by (meson less_le_trans)
  qed
  have "unat d mod 4 = 1 \<or> unat d mod 4 = 2 \<or> unat d mod 4 = 3" using d by linarith
  then show ?thesis
    using True step [of 1 3] step [of 2 2] step [of 3 1] by (auto simp: memcpy_unaligned_def)
next
  case False
  then show ?thesis using p by (simp add: memcpy_unaligned_def)
qed

lemma memcpy_copied:
  assumes f: "fwd_ok dest src N"
  shows "memcpy_peregrine dest src N m0 = copied dest src N m0"
proof -
  obtain d s n m where h: "memcpy_head N dest src m0 = (d, s, n, m)" by (metis prod_cases4)
  have p: "progress dest src N m0 (d, s, n, m)" using memcpy_head_progress [OF f progress_start, of m0] by (simp add: h)
  show ?thesis
  proof (cases "unat d mod 4 = 0")
    case True
    then show ?thesis using memcpy_aligned_copied [OF f p] by (simp add: memcpy_peregrine_def h)
  next
    case False
    obtain d' s' n' m' where u: "memcpy_unaligned n d s m = (d', s', n', m')" by (metis prod_cases4)
    have "progress dest src N m0 (d', s', n', m')" "n' < 32" using memcpy_unaligned_progress [OF f p False] by (simp_all add: u)
    then show ?thesis using memcpy_tail_copied [OF f] False by (simp add: memcpy_peregrine_def h u)
  qed
qed

lemma unat_add_offset: "unat (s - d) + j < 2 ^ 64 \<Longrightarrow> unat (s + word_of_nat j - d :: u64) = unat (s - d) + j"
proof -
  assume a: "unat (s - d) + j < 2 ^ 64"
  have e: "s + word_of_nat j - d = (s - d) + word_of_nat j" by simp
  have "unat (word_of_nat j :: u64) = j" using a by (intro unat_of_nat64) simp
  then show ?thesis unfolding e using a unat_add64 [of "s - d" "word_of_nat j"] by simp
qed

lemma fwd_okI: "unat (s - d) + n \<le> 2 ^ 64 \<Longrightarrow> n < 2 ^ 64 \<Longrightarrow> fwd_ok d s n"
  using unat_add_offset [of s d] by (auto simp: fwd_ok_def)

section \<open>memmove\<close>

lemma memmove_head_progress:
  "fwd_ok d0 s0 N \<Longrightarrow> progress d0 s0 N m0 (d, s, n, m) \<Longrightarrow>
   (case memmove_head n d s m of Inl m' \<Rightarrow> m' = copied d0 s0 N m0 | Inr st \<Rightarrow> progress d0 s0 N m0 st)"
proof (induction n arbitrary: d s m)
  case 0
  then show ?case using progress_end by simp
next
  case (Suc n)
  then show ?case using Suc.IH [OF Suc.prems(1) progress_byte [OF Suc.prems]] by (simp del: fun_upd_apply)
qed

lemma memmove_loop8_progress:
  "fwd_ok d0 s0 N \<Longrightarrow> progress d0 s0 N m0 (d, s, n, m) \<Longrightarrow> progress d0 s0 N m0 (memmove_loop8 n d s m)"
proof (induction n d s m rule: memmove_loop8.induct)
  case (1 n d s m)
  show ?case
  proof (cases "8 \<le> n")
    case True
    then show ?thesis
      using "1.IH" [OF True "1.prems"(1) progress_copy64 [OF "1.prems" True]] by (simp add: memmove_loop8.simps [of n])
  next
    case False
    then show ?thesis using "1.prems" by (simp add: memmove_loop8.simps [of n])
  qed
qed

lemma copy_bytes_copied:
  assumes "fwd_ok d0 s0 N" "progress d0 s0 N m0 (d, s, n, m)"
  shows "copy_bytes n d s m = copied d0 s0 N m0"
  using progress_bytes [OF assms, of n] progress_end by simp

lemma memmove_forward_copied:
  assumes f: "fwd_ok d s n"
  shows "memmove_forward d s n m = copied d s n m"
proof (cases "unat s mod 8 = unat d mod 8")
  case True
  show ?thesis
  proof (cases "memmove_head n d s m")
    case (Inl m')
    then show ?thesis using memmove_head_progress [OF f progress_start, of m] True by (simp add: memmove_forward_def)
  next
    case (Inr st)
    obtain d1 s1 n1 m1 where st: "st = (d1, s1, n1, m1)" by (metis prod_cases4)
    obtain d2 s2 n2 m2 where l: "memmove_loop8 n1 d1 s1 m1 = (d2, s2, n2, m2)" by (metis prod_cases4)
    have "progress d s n m (d1, s1, n1, m1)" using memmove_head_progress [OF f progress_start, of m] Inr st by simp
    then have "progress d s n m (d2, s2, n2, m2)" using memmove_loop8_progress [OF f] l by metis
    then show ?thesis using copy_bytes_copied [OF f] True Inr st l by (simp add: memmove_forward_def)
  qed
next
  case False
  then show ?thesis using copy_bytes_copied [OF f progress_start] by (simp add: memmove_forward_def)
qed

subsection \<open>Backwards\<close>

definition bwd_ok :: "u64 \<Rightarrow> u64 \<Rightarrow> nat \<Rightarrow> bool" where
  "bwd_ok d s N \<longleftrightarrow> N < 2 ^ 64 \<and> (\<forall>j<N. unat (s + word_of_nat j - d) \<le> j \<or> N \<le> unat (s + word_of_nat j - d))"

text \<open>The bytes from \<open>n\<close> on have been copied.\<close>

definition copied_from :: "u64 \<Rightarrow> u64 \<Rightarrow> nat \<Rightarrow> bmem \<Rightarrow> nat \<Rightarrow> bmem" where
  "copied_from d s N m0 n = put d {n..<N} (\<lambda>k. m0 (s + word_of_nat k)) m0"

lemma copied_from_read:
  "bwd_ok d s N \<Longrightarrow> n \<le> N \<Longrightarrow> j < n \<Longrightarrow> copied_from d s N m0 n (s + word_of_nat j) = m0 (s + word_of_nat j)"
proof -
  assume "bwd_ok d s N" "n \<le> N" "j < n"
  then have "unat (s + word_of_nat j - d) \<le> j \<or> N \<le> unat (s + word_of_nat j - d)" by (simp add: bwd_ok_def)
  then show ?thesis unfolding copied_from_def using \<open>j < n\<close> by (intro put_read) auto
qed

lemma down_byte:
  assumes "bwd_ok d s N" "Suc n \<le> N"
  shows "(copied_from d s N m0 (Suc n))(d + word_of_nat n := copied_from d s N m0 (Suc n) (s + word_of_nat n)) = copied_from d s N m0 n"
proof -
  have "n < 2 ^ 64" using assms by (simp add: bwd_ok_def)
  moreover have "insert n {Suc n..<N} = {n..<N}" using assms(2) by auto
  ultimately show ?thesis
    using copied_from_read [OF assms, of n m0] put_byte [of n d "{Suc n..<N}" "\<lambda>k. m0 (s + word_of_nat k)" m0]
    by (simp add: copied_from_def)
qed

lemma memmove_bytes_down_copied:
  "bwd_ok d s N \<Longrightarrow> n \<le> N \<Longrightarrow> memmove_bytes_down n d s (copied_from d s N m0 n) = copied d s N m0"
proof (induction n)
  case 0
  then show ?case by (simp add: copied_from_def copied_def lessThan_atLeast0)
next
  case (Suc n)
  then show ?case using down_byte [OF Suc.prems, of m0] by simp
qed

lemma memmove_head_down_spec:
  "bwd_ok d s N \<Longrightarrow> n \<le> N \<Longrightarrow>
   (case memmove_head_down n d s (copied_from d s N m0 n) of
      Inl m \<Rightarrow> m = copied d s N m0 | Inr (n', m) \<Rightarrow> n' \<le> N \<and> m = copied_from d s N m0 n')"
proof (induction n)
  case 0
  then show ?case by (simp add: copied_from_def copied_def lessThan_atLeast0)
next
  case (Suc n)
  then show ?case using down_byte [OF Suc.prems, of m0] by simp
qed

lemma down_copy64:
  assumes b: "bwd_ok d s N" and n: "8 \<le> n" "n \<le> N"
  shows "copy64 (d + word_of_nat (n - 8)) (s + word_of_nat (n - 8)) (copied_from d s N m0 n) = copied_from d s N m0 (n - 8)"
proof -
  obtain k where k: "n = k + 8" using n(1) by (metis add.commute le_iff_add)
  let ?m = "copied_from d s N m0 n" and ?f = "\<lambda>j. m0 (s + word_of_nat j)"
  have r: "?m (s + word_of_nat (k + j)) = ?f (k + j)" if "j < 8" for j
    using copied_from_read [OF b n(2), of "k + j"] that k by simp
  have lt: "k + 4 \<le> 2 ^ 64" "k + 4 + 4 \<le> 2 ^ 64" using b n(2) k by (auto simp: bwd_ok_def)
  have a: "s + word_of_nat k + 4 = s + word_of_nat (k + 4)" "d + word_of_nat k + 4 = d + word_of_nat (k + 4)" by simp_all
  have b1: "byte_of i (load32 (s + word_of_nat k) ?m) = ?f (k + i)" if "i < 4" for i
    using r [of i] that by (simp add: byte_of_load32_nth add.assoc)
  have b2: "byte_of i (load32 (s + word_of_nat (k + 4)) ?m) = ?f (k + 4 + i)" if "i < 4" for i
    using r [of "4 + i"] that by (simp add: byte_of_load32_nth add.assoc)
  have "store32 (d + word_of_nat k) (load32 (s + word_of_nat k) ?m) ?m = put d ({n..<N} \<union> {k..<k + 4}) ?f m0"
    using put_store32 [OF lt(1), of "load32 (s + word_of_nat k) ?m" ?f d "{n..<N}" m0] b1 [of 0] b1 [of 1] b1 [of 2] b1 [of 3]
    by (simp add: copied_from_def)
  then have "copy64 (d + word_of_nat k) (s + word_of_nat k) ?m = put d ({n..<N} \<union> {k..<k + 4} \<union> {k + 4..<k + 4 + 4}) ?f m0"
    using put_store32 [OF lt(2), of "load32 (s + word_of_nat (k + 4)) ?m" ?f d "{n..<N} \<union> {k..<k + 4}" m0]
      b2 [of 0] b2 [of 1] b2 [of 2] b2 [of 3]
    by (simp add: copy64_def store64_def ucast_load64 a)
  moreover have "{n..<N} \<union> {k..<k + 4} \<union> {k + 4..<k + 4 + 4} = {k..<N}" using n(2) k by auto
  ultimately show ?thesis by (simp add: k copied_from_def)
qed

lemma memmove_loop8_down_spec:
  "bwd_ok d s N \<Longrightarrow> n \<le> N \<Longrightarrow> m = copied_from d s N m0 n \<Longrightarrow>
   (case memmove_loop8_down n d s m of (n', m') \<Rightarrow> n' \<le> N \<and> m' = copied_from d s N m0 n')"
proof (induction n d s m rule: memmove_loop8_down.induct)
  case (1 n d s m)
  show ?case
  proof (cases "8 \<le> n")
    case True
    then show ?thesis
      using "1.IH" [OF True "1.prems"(1)] down_copy64 [OF "1.prems"(1) True "1.prems"(2), of m0] "1.prems"(2,3)
      by (simp add: memmove_loop8_down.simps [of n])
  next
    case False
    then show ?thesis using "1.prems" by (simp add: memmove_loop8_down.simps [of n])
  qed
qed

lemma memmove_backward_copied:
  assumes b: "bwd_ok d s n"
  shows "memmove_backward d s n m = copied d s n m"
proof -
  have m: "m = copied_from d s n m n" by (simp add: copied_from_def)
  show ?thesis
  proof (cases "unat s mod 8 = unat d mod 8")
    case True
    note h = memmove_head_down_spec [OF b le_refl, of m, folded m]
    show ?thesis
    proof (cases "memmove_head_down n d s m")
      case (Inl m')
      then show ?thesis using h True by (simp add: memmove_backward_def)
    next
      case (Inr st)
      obtain n1 m1 where st: "st = (n1, m1)" by (cases st)
      obtain n2 m2 where l: "memmove_loop8_down n1 d s m1 = (n2, m2)" by (metis surj_pair)
      have "n2 \<le> n \<and> m2 = copied_from d s n m n2"
        using h Inr st l memmove_loop8_down_spec [OF b, of n1 m1 m] by simp
      then show ?thesis using memmove_bytes_down_copied [OF b, of n2 m] True Inr st l by (simp add: memmove_backward_def)
    qed
  next
    case False
    then show ?thesis using memmove_bytes_down_copied [OF b le_refl, of m] m by (simp add: memmove_backward_def)
  qed
qed

end
