(* ===== verification/Std_Set.thy ===== *)
theory Std_Set
  imports Std_Move
begin

text \<open>
  \<^verbatim>\<open>memmove_peregrine\<close> on any ranges, and \<^verbatim>\<open>memset_peregrine\<close>: the stores of bytes and words at both ends and
  in the loop together cover the range and nothing else.
\<close>

lemma copied_self: "copied d d n m = m"
proof
  fix a show "copied d d n m a = m a" by (simp add: copied_def put_def)
qed

lemma memmove_copied:
  assumes n: "n \<le> 2 ^ 63" and r: "unat d + n \<le> 2 ^ 64" "unat s + n \<le> 2 ^ 64"
  shows "memmove_peregrine d s n m = copied d s n m"
proof -
  let ?w = "word_of_nat n :: u64"
  have un: "unat ?w = n" using n by (intro unat_of_nat64) simp
  show ?thesis
  proof (cases "d = s")
    case True
    then show ?thesis by (simp add: memmove_peregrine_def copied_self)
  next
    case ne: False
    show ?thesis
    proof (cases "s - d - ?w \<le> 2 * - ?w")
      case True
      have "unat (s - d) + n \<le> 2 ^ 64"
      proof (rule ccontr)
        assume a: "\<not> unat (s - d) + n \<le> 2 ^ 64"
        then have a': "18446744073709551616 < unat (s - d) + n" by simp
        have "0 < n" using a' unat_lt64 [of "s - d"] by (cases n) (simp_all del: unat_lt64)
        then have le: "n \<le> unat (s - d)" "0 < n" using a' n by simp_all
        have "unat (s - d - ?w) = unat (s - d) - n" using le(1) un by (subst unat_sub64) simp_all
        moreover have "unat (2 * - ?w) = (2 ^ 64 - 2 * n) mod 2 ^ 64"
        proof -
          have "2 * - ?w = word_of_nat (2 ^ 64 - 2 * n)" using n by (simp add: of_nat_diff)
          then show ?thesis by (simp add: unat_of_nat)
        qed
        moreover have "(2 ^ 64 - 2 * n) mod 2 ^ 64 = 2 ^ 64 - 2 * n" using n le(2) by simp
        ultimately have "unat (s - d) - n \<le> 2 ^ 64 - 2 * n" using True by (simp add: word_le_nat_alt)
        then show False using a n by simp
      qed
      then have "fwd_ok d s n" using n by (intro fwd_okI) simp_all
      then show ?thesis using ne True memcpy_copied by (simp add: memmove_peregrine_def)
    next
      case no: False
      show ?thesis
      proof (cases "d < s")
        case True
        then have "unat (s - d) = unat s - unat d" by (intro unat_sub64) (simp add: word_less_nat_alt)
        then have "fwd_ok d s n" using n r by (intro fwd_okI) simp_all
        then show ?thesis using ne no True memmove_forward_copied by (simp add: memmove_peregrine_def)
      next
        case False
        have lt: "unat s < unat d" using False ne by (simp add: word_less_nat_alt unat_eq_iff64)
        have "unat (s + word_of_nat j - d) \<le> j \<or> n \<le> unat (s + word_of_nat j - d)" if "j < n" for j
        proof (cases "unat d \<le> unat s + j")
          case True
          have "unat (s + word_of_nat j) = unat s + j"
            using that r(2) unat_of_nat64 [of j] n by (subst unat_add64) simp_all
          then have "unat (s + word_of_nat j - d) = unat s + j - unat d" using True by (subst unat_sub64) simp_all
          then show ?thesis using True lt by arith
        next
          case False
          have "unat d \<le> 2 ^ 64 + unat s + j" by (rule order.trans [OF less_imp_le [OF unat_lt64]]) simp
          then have "s + word_of_nat j - d = word_of_nat (2 ^ 64 + unat s + j - unat d)" by (subst of_nat_diff) simp_all
          moreover have "unat (word_of_nat (2 ^ 64 + unat s + j - unat d) :: u64) = 2 ^ 64 + unat s + j - unat d"
            using False by (intro unat_of_nat64) simp
          ultimately have "unat (s + word_of_nat j - d) = 2 ^ 64 + unat s + j - unat d" by simp
          then have "n \<le> unat (s + word_of_nat j - d)" using r(1) by simp
          then show ?thesis ..
        qed
        then have "bwd_ok d s n" using n by (simp add: bwd_ok_def)
        then show ?thesis using ne no False memmove_backward_copied by (simp add: memmove_peregrine_def)
      qed
    qed
  qed
qed

section \<open>Filling\<close>

abbreviation fill :: "u64 \<Rightarrow> nat set \<Rightarrow> u8 \<Rightarrow> bmem \<Rightarrow> bmem" where
  "fill d K c m \<equiv> put d K (\<lambda>_. c) m"

lemma fill_byte: "k < 2 ^ 64 \<Longrightarrow> (fill d K c m)(d + word_of_nat k := c) = fill d (insert k K) c m"
  using put_byte [of k d K "\<lambda>_. c" m] by simp

lemma fill_start: "m(d := c) = fill d {0} c m" for m :: bmem
  using put_byte [of 0 d "{}" "\<lambda>_. c" m] by simp

definition all_bytes :: "u32 \<Rightarrow> u8 \<Rightarrow> bool" where
  "all_bytes v c \<longleftrightarrow> byte_of 0 v = c \<and> byte_of 1 v = c \<and> byte_of 2 v = c \<and> byte_of 3 v = c"

lemma fill_store32:
  "all_bytes v c \<Longrightarrow> k + 4 \<le> 2 ^ 64 \<Longrightarrow> store32 (d + word_of_nat k) v (fill d K c m) = fill d (K \<union> {k..<k + 4}) c m"
  using put_store32 [of k v "\<lambda>_. c" d K m] by (simp add: all_bytes_def)

lemma repeated_byte:
  assumes "x < 256"
  shows "16843009 * x mod 256 = (x :: nat)" "16843009 * x div 256 mod 256 = x" "16843009 * x div 65536 mod 256 = x"
    "16843009 * x div 16777216 mod 256 = x"
proof -
  have h: "(x + 256 * y) div 256 = y" "(x + 256 * y) mod 256 = x" for y
    using assms by (simp_all only: div_mult_self2 mod_mult_self2) simp_all
  have e: "16843009 * x = x + 256 * (65793 * x)" "65793 * x = x + 256 * (257 * x)" "257 * x = x + 256 * x" by simp_all
  have d: "16843009 * x div 256 = 65793 * x" "65793 * x div 256 = 257 * x" "257 * x div 256 = x"
    "65793 * x mod 256 = x" "257 * x mod 256 = x"
    by (simp_all only: e h)
  show "16843009 * x mod 256 = x" by (simp only: e h)
  show "16843009 * x div 256 mod 256 = x" by (simp only: d)
  have "16843009 * x div (256 * 256) = 16843009 * x div 256 div 256"
    "16843009 * x div (256 * 256 * 256) = 16843009 * x div 256 div 256 div 256"
    by (simp_all only: div_mult2_eq)
  then show "16843009 * x div 65536 mod 256 = x" "16843009 * x div 16777216 mod 256 = x"
    unfolding d using assms by (simp_all add: d(5))
qed

lemma all_bytes_mult: "all_bytes ((-1 div 255) * ucast (c :: u8)) c"
proof -
  let ?v = "(-1 div 255) * ucast c :: u32"
  have x: "unat c < 256" using unsigned_less [of c, where ?'a = nat] by simp
  have "(-1 div 255 :: u32) = 16843009" by simp
  then have v: "unat ?v = 16843009 * unat c"
    using x by (simp add: unat_word_ariths unsigned_ucast_eq take_bit_eq_mod)
  have b: "unat (byte_of i w) = unat w div 2 ^ (8 * i) mod 256" for i and w :: u32
    unfolding byte_of_def unsigned_ucast_eq unat_drop_bit_eq unfolding drop_bit_eq_div take_bit_eq_mod by simp
  have "unat (byte_of 0 ?v) = unat c" "unat (byte_of 1 ?v) = unat c" "unat (byte_of 2 ?v) = unat c" "unat (byte_of 3 ?v) = unat c"
    unfolding b v using repeated_byte [OF x] by simp_all
  then show ?thesis by (simp add: all_bytes_def unsigned_word_eqI)
qed

lemma fill_store64:
  assumes "all_bytes v c" "k + 8 \<le> 2 ^ 64"
  shows "store64 (d + word_of_nat k) (ucast v OR push_bit 32 (ucast v)) (fill d K c m) = fill d (K \<union> {k..<k + 8}) c m"
proof -
  have u: "ucast (ucast v OR push_bit 32 (ucast v) :: u64) = v" "ucast (drop_bit 32 (ucast v OR push_bit 32 (ucast v) :: u64)) = v"
    by (rule bit_eqI; auto simp: bit_simps dest: bit_imp_le_length)+
  have a: "d + word_of_nat k + 4 = d + word_of_nat (k + 4)" by simp
  have "K \<union> {k..<k + 4} \<union> {k + 4..<k + 4 + 4} = K \<union> {k..<k + 8}" by auto
  then show ?thesis
    unfolding store64_def u a using fill_store32 [OF assms(1), of k d K m] fill_store32 [OF assms(1), of "k + 4" d "K \<union> {k..<k + 4}" m] assms(2)
    by simp
qed

lemma memset_loop_fill:
  assumes "all_bytes v c" "c64 = ucast v OR push_bit 32 (ucast v)" "k + n \<le> 2 ^ 64"
  shows "memset_loop (d + word_of_nat k) c64 n (fill d K c m) = fill d (K \<union> {k..<k + n div 32 * 32}) c m"
  using assms(3)
proof (induction n arbitrary: k K rule: less_induct)
  case (less n)
  show ?case
  proof (cases "32 \<le> n")
    case True
    have a: "d + word_of_nat k + 8 = d + word_of_nat (k + 8)" "d + word_of_nat k + 16 = d + word_of_nat (k + 16)"
      "d + word_of_nat k + 24 = d + word_of_nat (k + 24)" "d + word_of_nat k + 32 = d + word_of_nat (k + 32)" by simp_all
    let ?K = "K \<union> {k..<k + 8} \<union> {k + 8..<k + 8 + 8} \<union> {k + 16..<k + 16 + 8} \<union> {k + 24..<k + 24 + 8}"
    have "store64 (d + word_of_nat (k + 24)) c64 (store64 (d + word_of_nat (k + 16)) c64
        (store64 (d + word_of_nat (k + 8)) c64 (store64 (d + word_of_nat k) c64 (fill d K c m)))) = fill d ?K c m"
      unfolding assms(2) using True less.prems by (simp only: fill_store64 [OF assms(1)])
    moreover have "memset_loop (d + word_of_nat (k + 32)) c64 (n - 32) (fill d ?K c m) =
        fill d (?K \<union> {k + 32..<k + 32 + (n - 32) div 32 * 32}) c m"
      using True less.prems by (intro less.IH) simp_all
    moreover have "?K \<union> {k + 32..<k + 32 + (n - 32) div 32 * 32} = K \<union> {k..<k + n div 32 * 32}"
    proof -
      have "n div 32 * 32 = 32 + (n - 32) div 32 * 32" using True by (simp add: le_div_geq)
      then show ?thesis by auto
    qed
    ultimately show ?thesis using True unfolding memset_loop.simps [of _ _ n] a by simp
  next
    case False
    then show ?thesis by (simp add: memset_loop.simps [of _ _ n])
  qed
qed

text \<open>The stores at both ends.\<close>

lemma memset_ends_fill:
  assumes "n < 2 ^ 64"
  shows "case memset_ends d c n m of
    Inl m' \<Rightarrow> m' = fill d {..<n} c m | Inr m' \<Rightarrow> 8 < n \<and> m' = fill d ({..<4} \<union> {n - 4..<n}) c m"
proof (cases "n = 0")
  case True
  then show ?thesis by (simp add: memset_ends_def)
next
  case n: False
  have a: "d + 1 = d + word_of_nat 1" "d + 2 = d + word_of_nat 2" "d + 3 = d + word_of_nat 3" by simp_all
  have lt: "n - 1 < 2 ^ 64" "n - 2 < 2 ^ 64" "n - 3 < 2 ^ 64" "n - 4 < 2 ^ 64" "1 < (2 :: nat) ^ 64" "2 < (2 :: nat) ^ 64" "3 < (2 :: nat) ^ 64"
    using assms by simp_all
  note f = fill_byte [OF lt(1)] fill_byte [OF lt(2)] fill_byte [OF lt(3)] fill_byte [OF lt(4)]
    fill_byte [OF lt(5)] fill_byte [OF lt(6)] fill_byte [OF lt(7)]
  have m1: "m(d := c, d + word_of_nat (n - 1) := c) = fill d {n - 1, 0} c m" unfolding fill_start [of m d c] f ..
  have m2: "(fill d {n - 1, 0} c m)(d + 1 := c, d + 2 := c, d + word_of_nat (n - 2) := c, d + word_of_nat (n - 3) := c) =
      fill d {n - 3, n - 2, 2, 1, n - 1, 0} c m" unfolding a f ..
  have m3: "(fill d {n - 3, n - 2, 2, 1, n - 1, 0} c m)(d + 3 := c, d + word_of_nat (n - 4) := c) =
      fill d {n - 4, 3, n - 3, n - 2, 2, 1, n - 1, 0} c m" unfolding a f ..
  have k1: "{n - 1, 0} = {..<n}" if "n \<le> 2" using that n by auto
  have k2: "{n - 3, n - 2, 2, 1, n - 1, 0} = {..<n}" if "\<not> n \<le> 2" "n \<le> 6"
  proof -
    have "n = 3 \<or> n = 4 \<or> n = 5 \<or> n = 6" using that by linarith
    then show ?thesis by (elim disjE) auto
  qed
  have k3: "{n - 4, 3, n - 3, n - 2, 2, 1, n - 1, 0} = {..<n}" if "\<not> n \<le> 6" "n \<le> 8"
  proof -
    have "n = 7 \<or> n = 8" using that by linarith
    then show ?thesis by (elim disjE) auto
  qed
  have k4: "{n - 4, 3, n - 3, n - 2, 2, 1, n - 1, 0} = {..<4} \<union> {n - 4..<n}" if "\<not> n \<le> 8"
  proof -
    have "{..<4} = {0, 1, 2, 3 :: nat}" "{n - 4..<n} = {n - 4, n - 3, n - 2, n - 1}" using that by auto
    then show ?thesis by auto
  qed
  show ?thesis
    unfolding memset_ends_def Let_def m1 m2 m3 using n k1 k2 k3 k4 by (simp del: fun_upd_apply)
qed

lemma blocks7: "{b..<b + 4} \<union> {b + 4..<b + 4 + 4} \<union> {b + 8..<b + 8 + 4} \<union> {b + 12..<b + 12 + 4} \<union> {b + 16..<b + 16 + 4} \<union>
  {b + 20..<b + 20 + 4} \<union> {b + 24..<b + 24 + 4} = {b..<b + 28 :: nat}"
  by auto

lemma memset_ends32_fill:
  assumes v: "all_bytes v c" and n: "4 \<le> n" "n mod 4 = 0" "k + n < 2 ^ 64"
  shows "case memset_ends32 (d + word_of_nat k) v n (fill d K c m) of
    Inl m' \<Rightarrow> m' = fill d (K \<union> {k..<k + n}) c m
  | Inr m' \<Rightarrow> 28 \<le> n \<and> m' = fill d (K \<union> {k..<k + 28} \<union> {k + n - 28..<k + n}) c m"
proof -
  obtain q where q: "n = 4 * q" "1 \<le> q" using n(1,2) by (auto elim!: dvdE simp: mod_eq_0_iff_dvd)
  have a: "d + word_of_nat k + word_of_nat j = d + word_of_nat (k + j)" for j by simp
  have a': "d + word_of_nat k + 4 = d + word_of_nat (k + 4)" "d + word_of_nat k + 8 = d + word_of_nat (k + 8)"
    "d + word_of_nat k + 12 = d + word_of_nat (k + 12)" "d + word_of_nat k + 16 = d + word_of_nat (k + 16)"
    "d + word_of_nat k + 20 = d + word_of_nat (k + 20)" "d + word_of_nat k + 24 = d + word_of_nat (k + 24)" by simp_all
  let ?K1 = "K \<union> {k..<k + 4} \<union> {k + (n - 4)..<k + (n - 4) + 4}"
  let ?K2 = "?K1 \<union> {k + 4..<k + 4 + 4} \<union> {k + 8..<k + 8 + 4} \<union> {k + (n - 12)..<k + (n - 12) + 4} \<union> {k + (n - 8)..<k + (n - 8) + 4}"
  let ?K3 = "?K2 \<union> {k + 12..<k + 12 + 4} \<union> {k + 16..<k + 16 + 4} \<union> {k + 20..<k + 20 + 4} \<union> {k + 24..<k + 24 + 4} \<union>
    {k + (n - 28)..<k + (n - 28) + 4} \<union> {k + (n - 24)..<k + (n - 24) + 4} \<union> {k + (n - 20)..<k + (n - 20) + 4} \<union>
    {k + (n - 16)..<k + (n - 16) + 4}"
  have K1: "?K1 = K \<union> {k..<k + n}" if "n \<le> 8" using that q by auto
  have K2: "?K2 = K \<union> {k..<k + n}" if "\<not> n \<le> 8" "n \<le> 24"
  proof -
    have "q = 3 \<or> q = 4 \<or> q = 5 \<or> q = 6" using that q by linarith
    then show ?thesis unfolding q(1) by (elim disjE) auto
  qed
  have K3: "?K3 = K \<union> {k..<k + 28} \<union> {k + n - 28..<k + n}" if "\<not> n \<le> 24"
  proof -
    have n7: "28 \<le> n" using that q by simp
    define b where "b = k + (n - 28)"
    have b: "k + (n - 24) = b + 4" "k + (n - 20) = b + 8" "k + (n - 16) = b + 12" "k + (n - 12) = b + 16" "k + (n - 8) = b + 20"
      "k + (n - 4) = b + 24" "k + n - 28 = b" "k + n = b + 28" unfolding b_def using n7 by simp_all
    show ?thesis unfolding b(7) unfolding b b_def [symmetric] blocks7 [symmetric] by blast
  qed
  have m1: "store32 (d + word_of_nat k + word_of_nat (n - 4)) v (store32 (d + word_of_nat k) v (fill d K c m)) = fill d ?K1 c m"
  proof -
    have "k + 4 \<le> 2 ^ 64" "k + (n - 4) + 4 \<le> 2 ^ 64" using n by simp_all
    then show ?thesis unfolding a by (simp only: fill_store32 [OF v])
  qed
  have m2: "store32 (d + word_of_nat k + word_of_nat (n - 8)) v (store32 (d + word_of_nat k + word_of_nat (n - 12)) v
      (store32 (d + word_of_nat k + 8) v (store32 (d + word_of_nat k + 4) v (fill d ?K1 c m)))) = fill d ?K2 c m" if "\<not> n \<le> 8"
  proof -
    have "k + 4 + 4 \<le> 2 ^ 64" "k + 8 + 4 \<le> 2 ^ 64" "k + (n - 12) + 4 \<le> 2 ^ 64" "k + (n - 8) + 4 \<le> 2 ^ 64" using n that q by simp_all
    then show ?thesis unfolding a a' by (simp only: fill_store32 [OF v])
  qed
  have m3: "store32 (d + word_of_nat k + word_of_nat (n - 16)) v (store32 (d + word_of_nat k + word_of_nat (n - 20)) v
      (store32 (d + word_of_nat k + word_of_nat (n - 24)) v (store32 (d + word_of_nat k + word_of_nat (n - 28)) v
      (store32 (d + word_of_nat k + 24) v (store32 (d + word_of_nat k + 20) v (store32 (d + word_of_nat k + 16) v
      (store32 (d + word_of_nat k + 12) v (fill d ?K2 c m)))))))) = fill d ?K3 c m" if "\<not> n \<le> 24"
  proof -
    have "k + 12 + 4 \<le> 2 ^ 64" "k + 16 + 4 \<le> 2 ^ 64" "k + 20 + 4 \<le> 2 ^ 64" "k + 24 + 4 \<le> 2 ^ 64"
      "k + (n - 28) + 4 \<le> 2 ^ 64" "k + (n - 24) + 4 \<le> 2 ^ 64" "k + (n - 20) + 4 \<le> 2 ^ 64" "k + (n - 16) + 4 \<le> 2 ^ 64"
      using n that q by simp_all
    then show ?thesis unfolding a a' by (simp only: fill_store32 [OF v])
  qed
  have q28: "28 \<le> n" if "\<not> n \<le> 24" using that q by simp
  consider "n \<le> 8" | "\<not> n \<le> 8" "n \<le> 24" | "\<not> n \<le> 8" "\<not> n \<le> 24" by blast
  then show ?thesis
  proof cases
    case 1
    then show ?thesis unfolding memset_ends32_def Let_def m1 K1 [OF 1] by simp
  next
    case 2
    then show ?thesis unfolding memset_ends32_def Let_def m1 m2 [OF 2(1)] K2 [OF 2] by simp
  next
    case 3
    then show ?thesis unfolding memset_ends32_def Let_def m1 m2 [OF 3(1)] m3 [OF 3(2)] K3 [OF 3(2)] using q28 by simp
  qed
qed

section \<open>memset\<close>

lemma and_4: "(s :: u64) AND 4 = (if bit s 2 then 4 else 0)"
proof (rule bit_eqI)
  fix j
  have "bit (4 :: u64) j \<longleftrightarrow> j = 2" using bit_exp_iff [of 2 j, where ?'a = "64 word"] by auto
  then show "bit (s AND 4) j = bit (if bit s 2 then 4 else 0 :: u64) j" by (auto simp: bit_and_iff)
qed

lemma memset_covers:
  assumes "k < 4" "n1 mod 4 = 0" "k + n1 \<le> n" "n < k + n1 + 4" "8 < n" "28 \<le> n1" "k2 = 24 \<or> k2 = (28 :: nat)"
  shows "{..<4} \<union> {n - 4..<n} \<union> {k..<k + 28} \<union> {k + n1 - 28..<k + n1} \<union> {k + k2..<k + k2 + (n1 - k2) div 32 * 32} = {..<n}"
proof -
  define l where "l = (n1 - k2) div 32 * 32"
  have "4 dvd n1 - k2" using assms(2,7) by (auto simp: mod_eq_0_iff_dvd intro: dvd_diff_nat)
  then obtain q where q: "n1 - k2 = 4 * q" by (auto elim: dvdE)
  have "4 * q mod 32 = 4 * (q mod 8)" using mult_mod_right [of 4 q 8] by simp
  moreover have "q mod 8 \<le> 7" by (simp add: less_Suc_eq_le [symmetric])
  moreover have "n1 - k2 = l + 4 * q mod 32" unfolding l_def q by (rule div_mult_mod_eq [symmetric])
  ultimately have "n1 - k2 \<le> l + 28" "l \<le> n1 - k2" by simp_all
  then show ?thesis unfolding l_def [symmetric] using assms(1,3-7) by auto
qed

lemma memset_fills:
  assumes n: "n < 2 ^ 63"
  shows "memset_peregrine d c n m = fill d {..<n} (ucast c) m"
proof (cases "memset_ends d (ucast c) n m")
  case (Inl m')
  then show ?thesis using memset_ends_fill [of n d "ucast c" m] n by (simp add: memset_peregrine_def)
next
  case (Inr m1)
  let ?c = "ucast c :: u8" and ?k = "unat (- d AND 3)"
  let ?n = "n - ?k - (n - ?k) mod 4" and ?v = "(-1 div 255) * (ucast (ucast c :: u8) :: u32)" and ?s = "d + word_of_nat ?k"
  let ?K = "{..<4} \<union> {n - 4..<n}"
  note v = all_bytes_mult [of "ucast c"]
  have e: "8 < n" "m1 = fill d ?K ?c m" using memset_ends_fill [of n d ?c m] Inr n by simp_all
  have "- d AND 3 = take_bit 2 (- d)" by (simp add: take_bit_eq_mask mask_eq_exp_minus_1)
  then have k: "?k < 4" by (simp add: unat_take_bit64)
  have n1: "4 \<le> ?n" "?n mod 4 = 0" "?k + ?n < 2 ^ 64" "?k + ?n \<le> n" "n < ?k + ?n + 4"
  proof -
    define r where "r = n - ?k"
    have r: "5 < r" "?k + r = n" using e(1) k by (simp_all add: r_def)
    have m: "r - r mod 4 = r div 4 * 4" by (rule minus_mod_eq_div_mult)
    have lt: "r mod 4 < 4" "r mod 4 \<le> r" by simp_all
    have "0 < r div 4" using r(1) by (simp add: div_greater_zero_iff)
    then show "4 \<le> ?n" unfolding r_def [symmetric] m by simp
    show "?n mod 4 = 0" unfolding r_def [symmetric] m by simp
    show "?k + ?n \<le> n" unfolding r_def [symmetric] using r(2) lt by linarith
    show "n < ?k + ?n + 4" unfolding r_def [symmetric] using r(2) lt by linarith
    show "?k + ?n < 2 ^ 64" unfolding r_def [symmetric] using r(2) lt n by simp
  qed
  note f = memset_ends32_fill [OF v n1(1-3), of d ?K m]
  show ?thesis
  proof (cases "memset_ends32 ?s ?v ?n m1")
    case inl: (Inl m2)
    have "?K \<union> {?k..<?k + ?n} = {..<n}" using k n1(4,5) e(1) by auto
    then show ?thesis using f inl Inr e(2) by (simp add: memset_peregrine_def Let_def)
  next
    case inr: (Inr m2)
    let ?K2 = "?K \<union> {?k..<?k + 28} \<union> {?k + ?n - 28..<?k + ?n}" and ?k2 = "24 + unat (?s AND 4)"
    have g: "28 \<le> ?n" "m2 = fill d ?K2 ?c m" using f inr e(2) by simp_all
    have k2: "?k2 = 24 \<or> ?k2 = 28" by (simp add: and_4)
    let ?l = "(?n - ?k2) div 32 * 32"
    have "memset_loop (d + word_of_nat (?k + ?k2)) (ucast ?v OR push_bit 32 (ucast ?v)) (?n - ?k2) (fill d ?K2 ?c m) =
        fill d (?K2 \<union> {?k + ?k2..<?k + ?k2 + ?l}) ?c m"
      using n1(3) k2 g(1) by (intro memset_loop_fill [OF v refl]) auto
    moreover have "?K2 \<union> {?k + ?k2..<?k + ?k2 + ?l} = {..<n}"
      by (rule memset_covers [OF k n1(2,4,5) e(1) g(1) k2])
    ultimately show ?thesis using Inr inr e(2) g(2) by (simp add: memset_peregrine_def Let_def add.assoc)
  qed
qed

end
