(* ===== verification/Text_Props.thy ===== *)
theory Text_Props
  imports Format Std_Set
begin

text \<open>
  The string functions: the word-wise test for a zero byte, the word-wise string copy, iterators and archives.
\<close>

section \<open>Zero bytes of a word\<close>

definition dig :: "nat \<Rightarrow> nat \<Rightarrow> nat" where
  "dig i x = x div 256 ^ i mod 256"

definition ones :: "nat \<Rightarrow> nat" where
  "ones i = (\<Sum>j<i. 256 ^ j)"

lemma ones_Suc: "ones (Suc i) = ones i + 256 ^ i"
  by (simp add: ones_def)

lemma ones_split: "ones (i + k) = ones i + 256 ^ i * ones k"
  by (induction k) (simp_all add: ones_def algebra_simps power_add)

lemma ones_le: "ones i \<le> 256 ^ i"
  by (induction i) (simp_all add: ones_Suc, simp add: ones_def)

lemma low_ge_ones: "(\<And>j. j < i \<Longrightarrow> 1 \<le> dig j x) \<Longrightarrow> ones i \<le> x mod 256 ^ i"
proof (induction i)
  case (Suc i)
  have "x mod 256 ^ Suc i = x mod 256 ^ i + 256 ^ i * dig i x"
    using mod_mult2_eq [of x "256 ^ i" 256] by (simp add: dig_def ac_simps)
  moreover have "256 ^ i * 1 \<le> 256 ^ i * dig i x" using Suc.prems [of i] by (intro mult_le_mono) simp_all
  moreover have "ones i \<le> x mod 256 ^ i" using Suc.IH Suc.prems by simp
  ultimately show ?case unfolding ones_Suc by linarith
qed (simp add: ones_def)

lemma dig_sub_ones:
  assumes i: "i < 8" and low: "\<And>j. j < i \<Longrightarrow> 1 \<le> dig j x"
  shows "dig i ((x + 256 ^ 8 - ones 8) mod 256 ^ 8) = (dig i x + 255) mod 256"
proof -
  define B where "B = (256 :: nat) ^ i"
  define C where "C = (256 :: nat) ^ (8 - i)"
  define a where "a = ones i"
  define c where "c = ones (8 - i)"
  define q where "q = x div B"
  define r where "r = x mod B"
  obtain k where k: "8 - i = Suc k" using i by (metis Suc_diff_Suc)
  have B: "0 < B" "B * C = 256 ^ 8" using i by (simp_all add: B_def C_def power_add [symmetric])
  have s: "ones 8 = a + B * c" using ones_split [of i "8 - i"] i by (simp add: a_def c_def B_def)
  have a: "a \<le> r" using low_ge_ones [OF low] by (simp add: a_def r_def B_def)
  have c: "c \<le> C" using ones_le by (simp add: c_def C_def)
  have C: "C = 256 * 256 ^ k" by (simp add: C_def k)
  have "ones (Suc k) = 1 + 256 * ones k" using ones_split [of 1 k] by (simp add: ones_def)
  then have c1: "c = 1 + 256 * ones k" by (simp add: c_def k)
  have x: "x = r + B * q" by (simp add: r_def q_def)
  have "B * c \<le> B * C" using c by simp
  then have "x + 256 ^ 8 - ones 8 = (r - a) + B * (q + C - c)"
    unfolding s B(2) [symmetric] x diff_mult_distrib2 add_mult_distrib2 using a by linarith
  then have "(x + 256 ^ 8 - ones 8) mod 256 ^ 8 div B = (q + C - c) mod C"
  proof -
    assume e: "x + 256 ^ 8 - ones 8 = (r - a) + B * (q + C - c)"
    have "r - a < B" using B(1) by (simp add: r_def less_imp_diff_less)
    then have "((r - a) + B * (q + C - c)) div B = q + C - c" "((r - a) + B * (q + C - c)) mod B = r - a" using B(1) by simp_all
    then have "((r - a) + B * (q + C - c)) mod (B * C) div B = (q + C - c) mod C"
      unfolding mod_mult2_eq [of _ B C] using \<open>r - a < B\<close> B(1) by simp
    then show ?thesis unfolding e B(2) .
  qed
  then have "dig i ((x + 256 ^ 8 - ones 8) mod 256 ^ 8) = (q + C - c) mod C mod 256" by (simp add: dig_def B_def)
  also have "\<dots> = (q + C - c) mod 256" unfolding C by (simp add: mod_mod_cancel)
  also have "\<dots> = (q + 255) mod 256"
  proof -
    have o: "ones k < 256 ^ k" using c unfolding c1 C by simp
    have "q + C - c = q + 255 + 256 * (256 ^ k - 1 - ones k)"
      unfolding c1 C using o by (simp add: diff_mult_distrib2)
    then show ?thesis by simp
  qed
  also have "\<dots> = (dig i x + 255) mod 256" by (simp add: dig_def q_def B_def mod_add_left_eq)
  finally show ?thesis .
qed

lemma dig_byte_of: "dig i (unat x) = unat (byte_of i x)" for x :: u64
  unfolding byte_of_def unsigned_ucast_eq unat_drop_bit_eq
  unfolding drop_bit_eq_div take_bit_eq_mod dig_def by (simp add: power_mult)

lemma byte_of_load64: "i < 8 \<Longrightarrow> byte_of i (load64 a m) = m (a + word_of_nat i)"
proof -
  assume i: "i < 8"
  show ?thesis
  proof (cases "i < 4")
    case True
    have "byte_of i (load64 a m) = byte_of i (ucast (load64 a m) :: u32)"
      using True by (intro bit_eqI) (auto simp: byte_of_def bit_simps)
    then show ?thesis using byte_of_load32_nth [OF True] by (simp add: ucast_load64)
  next
    case False
    have "byte_of i (load64 a m) = byte_of (i - 4) (ucast (drop_bit 32 (load64 a m)) :: u32)"
      using False i by (intro bit_eqI) (auto simp: byte_of_def bit_simps algebra_simps)
    then show ?thesis using byte_of_load32_nth [of "i - 4" "a + 4" m] False i by (simp add: ucast_load64 of_nat_diff)
  qed
qed

lemma bit_top_of_byte: "i < 8 \<Longrightarrow> bit x (8 * i + 7) \<longleftrightarrow> 128 \<le> dig i (unat x)" for x :: u64
proof -
  assume i: "i < 8"
  have "bit x (8 * i + 7) \<longleftrightarrow> bit (byte_of i x) 7" using i by (auto simp: byte_of_def bit_simps)
  also have "\<dots> \<longleftrightarrow> odd (unat (byte_of i x) div 128)" using bit_unsigned_iff [of "byte_of i x" 7, where ?'a = nat] by (simp add: bit_nat_def)
  also have "\<dots> \<longleftrightarrow> 128 \<le> unat (byte_of i x)"
  proof -
    have "unat (byte_of i x) < 256" using unsigned_less [of "byte_of i x", where ?'a = nat] by simp
    then have "unat (byte_of i x) div 128 = 0 \<or> unat (byte_of i x) div 128 = 1" by linarith
    then show ?thesis by auto
  qed
  finally show ?thesis by (simp add: dig_byte_of)
qed

lemma ones_8: "ones 8 = 72340172838076673"
proof -
  have "ones 1 = 1" by (simp add: ones_def)
  then have "ones 2 = 257" using ones_split [of 1 1] by (simp add: numeral_2_eq_2)
  then have "ones 4 = 16843009" using ones_split [of 2 2] by simp
  then show ?thesis using ones_split [of 4 4] by simp
qed

lemma high_bits: "n < 64 \<Longrightarrow> bit (0x8080808080808080 :: u64) n \<longleftrightarrow> n mod 8 = 7"
proof -
  assume n: "n < 64"
  let ?q = "n div 8" and ?r = "n mod 8"
  have q: "?q < 8" "?r < 8" "n = 8 * ?q + ?r" using n by simp_all
  have b: "byte_of i (0x8080808080808080 :: u64) = 0x80" if "i < 8" for i
  proof -
    have "i \<in> {0, 1, 2, 3, 4, 5, 6, 7}" using that by auto
    then show ?thesis by (auto simp: byte_of_def drop_bit_eq_div)
  qed
  have r: "bit (0x80 :: u8) j \<longleftrightarrow> j = 7" if "j < 8" for j
  proof -
    have "j \<in> {0, 1, 2, 3, 4, 5, 6, 7}" using that by auto
    then show ?thesis by auto
  qed
  have "bit (0x8080808080808080 :: u64) (8 * ?q + ?r) \<longleftrightarrow> bit (byte_of ?q (0x8080808080808080 :: u64)) ?r"
    using q(1,2) by (simp add: byte_of_def bit_simps)
  then show ?thesis using b [OF q(1)] r [OF q(2)] q(3) by simp
qed

lemma DETECTNULL_iff: "DETECTNULL x = 0 \<longleftrightarrow> (\<forall>i<8. byte_of i x \<noteq> 0)"
proof -
  let ?L = "0x0101010101010101 :: u64"
  have L: "unat ?L = ones 8" by (simp add: ones_8)
  have D: "unat (x - ?L) = (unat x + 256 ^ 8 - ones 8) mod 256 ^ 8"
  proof -
    have "x - ?L = word_of_nat (unat x + 256 ^ 8 - ones 8)" using ones_le [of 8] by (subst of_nat_diff) (simp_all add: ones_8)
    then show ?thesis by (simp add: unat_of_nat)
  qed
  have z: "byte_of i x \<noteq> 0 \<longleftrightarrow> 1 \<le> dig i (unat x)" for i by (simp add: dig_byte_of) (metis unsigned_0 unsigned_word_eqI gr0I less_Suc_eq_le not_less_eq)
  have bit_iff: "bit (DETECTNULL x) (8 * i + 7) \<longleftrightarrow> 128 \<le> dig i (unat (x - ?L)) \<and> dig i (unat x) < 128" if "i < 8" for i
    using that bit_top_of_byte [OF that, of "x - ?L"] bit_top_of_byte [OF that, of x] high_bits [of "8 * i + 7"]
    by (auto simp: DETECTNULL_def bit_simps)
  have "DETECTNULL x = 0 \<longleftrightarrow> (\<forall>i<8. \<not> bit (DETECTNULL x) (8 * i + 7))"
  proof
    assume r: "\<forall>i<8. \<not> bit (DETECTNULL x) (8 * i + 7)"
    show "DETECTNULL x = 0"
    proof (rule bit_eqI)
      fix n assume "possible_bit TYPE(u64) n"
      then have n: "n < 64" by simp
      have "\<not> bit (DETECTNULL x) n" if "n mod 8 = 7"
      proof -
        have "n = 8 * (n div 8) + 7" "n div 8 < 8" using that n by (metis mult_div_mod_eq, simp)
        then show ?thesis using r by metis
      qed
      moreover have "\<not> bit (DETECTNULL x) n" if "n mod 8 \<noteq> 7" using high_bits [OF n] that by (simp add: DETECTNULL_def bit_simps)
      ultimately show "bit (DETECTNULL x) n = bit 0 n" by auto
    qed
  qed simp
  then have iff: "DETECTNULL x = 0 \<longleftrightarrow> (\<forall>i<8. 128 \<le> dig i (unat (x - ?L)) \<longrightarrow> 128 \<le> dig i (unat x))"
    using bit_iff by (auto simp: not_less)
  have d: "dig i (unat (x - ?L)) = (dig i (unat x) + 255) mod 256" if "i < 8" "\<And>j. j < i \<Longrightarrow> 1 \<le> dig j (unat x)" for i
    unfolding D by (rule dig_sub_ones [OF that])
  have lt: "dig i (unat x) < 256" for i by (simp add: dig_def)
  show ?thesis
  proof
    assume "DETECTNULL x = 0"
    show "\<forall>i<8. byte_of i x \<noteq> 0"
    proof (rule ccontr)
      assume "\<not> (\<forall>i<8. byte_of i x \<noteq> 0)"
      then obtain i where i: "i < 8" "byte_of i x = 0" "\<And>j. j < i \<Longrightarrow> \<not> (j < 8 \<and> byte_of j x = 0)"
        using exists_least_iff [of "\<lambda>i. i < 8 \<and> byte_of i x = 0"] by auto
      have "dig i (unat (x - ?L)) = 255" using d [of i] i z by (auto simp: dig_byte_of)
      then show False using \<open>DETECTNULL x = 0\<close> iff i by (auto simp: dig_byte_of)
    qed
  next
    assume r: "\<forall>i<8. byte_of i x \<noteq> 0"
    have "128 \<le> dig i (unat x)" if "i < 8" "128 \<le> dig i (unat (x - ?L))" for i
    proof -
      have "dig i (unat (x - ?L)) = (dig i (unat x) + 255) mod 256" using that(1) r z by (intro d) auto
      moreover have "1 \<le> dig i (unat x)" using r z that(1) by auto
      ultimately have "dig i (unat (x - ?L)) = dig i (unat x) - 1" using lt [of i] by (cases "dig i (unat x)") auto
      then show ?thesis using that(2) by simp
    qed
    then show "DETECTNULL x = 0" using iff by blast
  qed
qed

end
