(* ===== verification/Text_Copy.thy ===== *)
theory Text_Copy
  imports Text_Props
begin

text \<open>\<^verbatim>\<open>string_ncpy\<close> is the byte-wise copy with padding, whatever the alignment and wherever the terminator is.\<close>

text \<open>\<open>j\<close> is the length of the string at \<open>str\<close>, if it is below \<open>n\<close>, and \<open>n\<close> otherwise.\<close>

definition len_upto :: "nat \<Rightarrow> u64 \<Rightarrow> bmem \<Rightarrow> nat \<Rightarrow> bool" where
  "len_upto n str m j \<longleftrightarrow> j \<le> n \<and> (\<forall>k<j. m (str + word_of_nat k) \<noteq> 0) \<and> (j < n \<longrightarrow> m (str + word_of_nat j) = 0)"

lemma len_upto_unique: "len_upto n str m i \<Longrightarrow> len_upto n str m j \<Longrightarrow> i = j"
  unfolding len_upto_def by (metis linorder_neqE_nat order.strict_trans1 order_less_le_trans)

lemma strnlen_loop_len:
  "(\<And>k. k < i \<Longrightarrow> m (str + word_of_nat k) \<noteq> 0) \<Longrightarrow> len_upto (i + n) str m (strnlen_loop n str i m)"
proof (induction n arbitrary: i)
  case 0
  then show ?case by (simp add: len_upto_def)
next
  case (Suc n)
  show ?case
  proof (cases "m (str + word_of_nat i) = 0")
    case True
    then show ?thesis using Suc.prems by (simp add: len_upto_def)
  next
    case False
    then have "len_upto (Suc i + n) str m (strnlen_loop n str (Suc i) m)"
      using Suc.prems by (intro Suc.IH) (auto simp: less_Suc_eq simp del: of_nat_Suc)
    then show ?thesis using False by simp
  qed
qed

lemma ncpy_words_progress:
  "fwd_ok d0 s0 N \<Longrightarrow> progress d0 s0 N m0 (d, s, n, m) \<Longrightarrow> (\<And>k. k < N - n \<Longrightarrow> m0 (s0 + word_of_nat k) \<noteq> 0) \<Longrightarrow>
   \<exists>d' s' n' m'. ncpy_words n d s m = (d', s', n', m') \<and> progress d0 s0 N m0 (d', s', n', m') \<and>
     (\<forall>k<N - n'. m0 (s0 + word_of_nat k) \<noteq> 0)"
proof (induction n d s m rule: ncpy_words.induct)
  case (1 n d s m)
  show ?case
  proof (cases "8 \<le> n \<and> DETECTNULL (load64 s m) = 0")
    case True
    have p: "progress d0 s0 N m0 (d + 8, s + 8, n - 8, copy64 d s m)" using progress_copy64 [OF "1.prems"(1,2)] True by simp
    obtain b where b: "b + n = N" "s = s0 + word_of_nat b" using "1.prems"(2) by (auto simp: progress_def)
    have "m0 (s0 + word_of_nat k) \<noteq> 0" if "k < N - (n - 8)" for k
    proof (cases "k < N - n")
      case False
      define i where "i = k - b"
      have i: "i < 8" "k = b + i" using False that b(1) True by (auto simp: i_def)
      have "m (s + word_of_nat i) \<noteq> 0" using True i(1) byte_of_load64 [OF i(1), of s m] by (auto simp: DETECTNULL_iff)
      then show ?thesis using progress_read [OF "1.prems"(1,2), of i] i True by (simp add: b(2) add.assoc)
    qed (use "1.prems"(3) in blast)
    then show ?thesis using "1.IH" [OF True "1.prems"(1) p] True by (simp add: ncpy_words.simps [of n])
  next
    case False
    then show ?thesis using "1.prems" by (auto simp: ncpy_words.simps [of n])
  qed
qed

lemma ncpy_bytes_spec:
  "fwd_ok d0 s0 N \<Longrightarrow> progress d0 s0 N m0 (d, s, n, m) \<Longrightarrow> (\<And>k. k < N - n \<Longrightarrow> m0 (s0 + word_of_nat k) \<noteq> 0) \<Longrightarrow>
   \<exists>K. ncpy_bytes n d s m = (N - K, d0 + word_of_nat K, copied d0 s0 K m0) \<and> K \<le> N \<and>
     (len_upto N s0 m0 K \<and> K = N \<or> (\<exists>j. K = Suc j \<and> len_upto N s0 m0 j))"
proof (induction n arbitrary: d s m)
  case 0
  then show ?case by (auto simp: progress_def len_upto_def)
next
  case (Suc n)
  obtain b where b: "b + Suc n = N" "s = s0 + word_of_nat b" using Suc.prems(2) by (auto simp: progress_def)
  have r: "m s = m0 (s0 + word_of_nat b)" using progress_read [OF Suc.prems(1,2), of 0] b(2) by simp
  note p = progress_byte [OF Suc.prems(1,2)]
  show ?case
  proof (cases "m s = 0")
    case True
    have "d + 1 = d0 + word_of_nat (Suc b)" "m(d := m s) = copied d0 s0 (Suc b) m0"
      using p b(1) unfolding progress_def by (auto simp del: fun_upd_apply of_nat_Suc)
    moreover have "len_upto N s0 m0 b" using Suc.prems(3) r True b(1) by (auto simp: len_upto_def)
    ultimately show ?thesis using True b(1) by (intro exI [of _ "Suc b"]) (auto simp del: fun_upd_apply of_nat_Suc)
  next
    case False
    have "m0 (s0 + word_of_nat k) \<noteq> 0" if "k < N - n" for k
      using that Suc.prems(3) [of k] r False b(1) by (cases "k = b") auto
    then show ?thesis using Suc.IH [OF Suc.prems(1) p] False by (simp del: fun_upd_apply)
  qed
qed

lemma ncpy_zeros_put:
  "K + n < 2 ^ 64 \<Longrightarrow> (\<And>k. K \<le> k \<Longrightarrow> k < K + n \<Longrightarrow> f k = 0) \<Longrightarrow>
   ncpy_zeros n (d + word_of_nat K) (put d {..<K} f m) = put d {..<K + n} f m"
proof (induction n arbitrary: K)
  case (Suc n)
  have "(put d {..<K} f m)(d + word_of_nat K := 0) = put d {..<Suc K} f m"
    using put_byte [of K d "{..<K}" f m] Suc.prems by (simp add: lessThan_Suc)
  moreover have "ncpy_zeros n (d + word_of_nat (Suc K)) (put d {..<Suc K} f m) = put d {..<Suc K + n} f m"
    using Suc.prems by (intro Suc.IH) simp_all
  ultimately show ?case by (simp add: ac_simps)
qed simp

lemma put_cong: "(\<And>k. k \<in> K \<Longrightarrow> f k = g k) \<Longrightarrow> put d K f m = put d K g m"
  by (auto simp: put_def)

lemma string_ncpy_put:
  assumes f: "fwd_ok dst src n" and l: "len_upto n src m len"
  shows "string_ncpy dst src n m = put dst {..<n} (\<lambda>k. if k < len then m (src + word_of_nat k) else 0) m"
proof -
  let ?w = "if \<not> UNALIGNED src dst \<and> \<not> n < 8 then ncpy_words n dst src m else (dst, src, n, m)"
  obtain d s n1 m1 where w: "?w = (d, s, n1, m1)" "progress dst src n m (d, s, n1, m1)"
    "\<And>k. k < n - n1 \<Longrightarrow> m (src + word_of_nat k) \<noteq> 0"
    using ncpy_words_progress [OF f progress_start, of m] progress_start [of dst src n m] by (fastforce split: if_splits)
  obtain K where K: "ncpy_bytes n1 d s m1 = (n - K, dst + word_of_nat K, copied dst src K m)" "K \<le> n"
    "len_upto n src m K \<and> K = n \<or> (\<exists>j. K = Suc j \<and> len_upto n src m j)"
    using ncpy_bytes_spec [OF f w(2,3)] by blast
  have e: "K = n \<and> len = n \<or> K = Suc len" using K(3) len_upto_unique [OF l] by blast
  have "copied dst src K m = put dst {..<K} (\<lambda>k. if k < len then m (src + word_of_nat k) else 0) m"
    unfolding copied_def using e l K(2) by (intro put_cong) (auto simp: len_upto_def less_Suc_eq)
  moreover have "ncpy_zeros (n - K) (dst + word_of_nat K) (put dst {..<K} (\<lambda>k. if k < len then m (src + word_of_nat k) else 0) m) =
      put dst {..<K + (n - K)} (\<lambda>k. if k < len then m (src + word_of_nat k) else 0) m"
    using K(2) e f by (intro ncpy_zeros_put) (auto simp: fwd_ok_def)
  ultimately show ?thesis using K(1,2) w(1) by (simp add: string_ncpy_def Let_def)
qed

end
