(* ===== verification/Uuid_Text.thy ===== *)
theory Uuid_Text
  imports Format_Exact Text_Copy
begin

text \<open>
  Identifiers as text: what \<^verbatim>\<open>uuid_to_str\<close> prints, and that \<^verbatim>\<open>uuid_from_str\<close> reads it back.
\<close>

section \<open>Formats of hexadecimal numbers\<close>

datatype piece = Hex nat u64 | Lit u8

fun piece_fmt :: "piece \<Rightarrow> u8 list" where
  "piece_fmt (Hex w v) = [ch CHR ''%'', ch CHR ''0'', 0x30 + word_of_nat w, ch CHR ''x'']"
| "piece_fmt (Lit c) = [c]"

fun piece_args :: "piece \<Rightarrow> va list" where
  "piece_args (Hex w v) = [VSize v]"
| "piece_args (Lit c) = []"

fun piece_text :: "piece \<Rightarrow> u8 list" where
  "piece_text (Hex w v) = map hexd (hexdigs w (unat v))"
| "piece_text (Lit c) = [c]"

fun piece_ok :: "piece \<Rightarrow> bool" where
  "piece_ok (Hex w v) \<longleftrightarrow> 0 < w \<and> w < 10 \<and> unat v < 16 ^ w"
| "piece_ok (Lit c) \<longleftrightarrow> c \<noteq> 0 \<and> c \<noteq> ch CHR ''%''"

lemma width_digit:
  assumes "0 < w" "w < (10 :: nat)"
  shows "parse_flags (ch CHR ''0'' # (0x30 + word_of_nat w) # p) 0 = Inr ((0x30 + word_of_nat w) # p, FLAG_ZERO)"
    and "parse_width ((0x30 + word_of_nat w) # ch CHR ''x'' # q) 0 = Inr (ch CHR ''x'' # q, word_of_nat w)"
proof -
  have "w \<in> {1, 2, 3, 4, 5, 6, 7, 8, 9}" using assms by simp arith
  then show "parse_flags (ch CHR ''0'' # (0x30 + word_of_nat w) # p) 0 = Inr ((0x30 + word_of_nat w) # p, FLAG_ZERO)"
    "parse_width ((0x30 + word_of_nat w) # ch CHR ''x'' # q) 0 = Inr (ch CHR ''x'' # q, word_of_nat w)"
    by (auto simp: is_digit_def)
qed

context writer
begin

lemma vformat_piece:
  assumes "piece_ok p" "fits s (length (piece_text p) + n)" "room s"
  shows "\<exists>s'. vformat emit room l (piece_fmt p @ rest) (piece_args p @ args) s = vformat emit room l rest args s' \<and>
    view s' = view s @ piece_text p \<and> fits s' n"
proof (cases p)
  case (Lit c)
  then show ?thesis using emit_view [of s n c] assms by auto
next
  case (Hex w v)
  then obtain k where k: "w = Suc k" "0 < w" "w < 10" "unat v < 16 ^ w" using assms(1) by (cases w) auto
  obtain s' where s': "print_num_with emit v 16 w FLAG_ZERO s = Inr s'"
    "view s' = view s @ map hexd (hexdigs w (unat v))" "fits s' n"
    using print_hex [of v k s n] k assms(2) Hex by auto
  have u: "unat (word_of_nat w :: u64) = w" using k by (intro unat_of_nat64) simp
  have "word_of_nat w \<noteq> (0 :: u64)" using u k by auto
  then have "star_width (ch CHR ''x'' # rest) (word_of_nat w) FLAG_ZERO (VSize v # args) =
      Inr (ch CHR ''x'' # rest, word_of_nat w, FLAG_ZERO, VSize v # args)"
    by (simp add: star_width_def)
  moreover have "print_spec emit l (ch CHR ''x'' # rest) (word_of_nat w) FLAG_ZERO (VSize v # args) s = Inr (rest, args, s')"
    using s'(1) by (simp add: print_spec_def u)
  ultimately have "vformat emit room l (piece_fmt p @ rest) (piece_args p @ args) s = vformat emit room l rest args s'"
    using assms(3) width_digit(1) [OF k(2,3), of "ch CHR ''x'' # rest"] width_digit(2) [OF k(2,3), of rest] by (simp add: Hex)
  then show ?thesis using s' Hex by auto
qed

lemma vformat_pieces:
  assumes room: "\<And>s n. fits s (Suc n) \<Longrightarrow> room s"
  shows "(\<And>p. p \<in> set ps \<Longrightarrow> piece_ok p) \<Longrightarrow> fits s (length (concat (map piece_text ps))) \<Longrightarrow>
   \<exists>s'. vformat emit room l (concat (map piece_fmt ps) @ [0]) (concat (map piece_args ps)) s = Inr s' \<and>
     view s' = view s @ concat (map piece_text ps) \<and> fits s' 0"
proof (induction ps arbitrary: s)
  case Nil
  then show ?case by simp
next
  case (Cons p ps)
  have "0 < length (piece_text p)" using Cons.prems(1) [of p] by (cases p) simp_all
  then have "room s" using room [OF fits_le [OF Cons.prems(2), of "Suc 0"]] by (cases "piece_text p") simp_all
  then obtain s' where "vformat emit room l (piece_fmt p @ concat (map piece_fmt ps) @ [0]) (piece_args p @ concat (map piece_args ps)) s =
      vformat emit room l (concat (map piece_fmt ps) @ [0]) (concat (map piece_args ps)) s'"
    "view s' = view s @ piece_text p" "fits s' (length (concat (map piece_text ps)))"
    using vformat_piece [of p s "length (concat (map piece_text ps))" room l "concat (map piece_fmt ps) @ [0]" "concat (map piece_args ps)"]
      Cons.prems by auto
  then show ?case using Cons.IH [of s'] Cons.prems(1) by auto
qed

end

section \<open>Printing an identifier\<close>

definition uuid_pieces :: "uuid \<Rightarrow> piece list" where
  "uuid_pieces u =
     [Hex 8 (ucast (timeLow u)), Lit (ch CHR ''-''), Hex 4 (ucast (timeMid u)), Lit (ch CHR ''-''),
      Hex 4 (ucast (timeHiAndVersion u)), Lit (ch CHR ''-'')] @
     map (\<lambda>i. Hex 2 (ucast (clockSeqAndNode u ! i))) [0, 1] @ [Lit (ch CHR ''-'')] @
     map (\<lambda>i. Hex 2 (ucast (clockSeqAndNode u ! i))) [2, 3, 4, 5, 6, 7]"

definition uuid_text :: "uuid \<Rightarrow> u8 list" where
  "uuid_text u = concat (map piece_text (uuid_pieces u))"

lemma unat_ucast_less:
  "unat (ucast (x :: u32) :: u64) = unat x" "unat (ucast (y :: u16) :: u64) = unat y" "unat (ucast (z :: u8) :: u64) = unat z"
  "unat x < 4294967296" "unat y < 65536" "unat z < 256"
  using unsigned_less [of x, where ?'a = nat] unsigned_less [of y, where ?'a = nat] unsigned_less [of z, where ?'a = nat]
  by (simp_all add: unsigned_ucast_eq take_bit_eq_mod)

lemma uuid_pieces_ok: "p \<in> set (uuid_pieces u) \<Longrightarrow> piece_ok p"
  by (auto simp: uuid_pieces_def unat_ucast_less)

lemma uuid_text_length [simp]: "length (uuid_text u) = 36"
  by (simp add: uuid_text_def uuid_pieces_def)

lemma uuid_pieces_format:
  "concat (map piece_fmt (uuid_pieces u)) @ [0] = uuid_format"
  "concat (map piece_args (uuid_pieces u)) =
     [VSize (ucast (timeLow u)), VSize (ucast (timeMid u)), VSize (ucast (timeHiAndVersion u))] @
     map (\<lambda>i. VSize (ucast (clockSeqAndNode u ! i))) [0..<8]"
  by (simp_all add: uuid_pieces_def uuid_format_def upt_rec eval_nat_numeral)

lemma uuid_to_str_text:
  assumes "36 < sz" "sz \<le> length out"
  shows "\<exists>out'. uuid_to_str u out sz = Inr (True, out') \<and> take 37 out' = uuid_text u @ [0]"
proof -
  let ?b = "\<lparr>sb_out = out, sb_idx = 0\<rparr>"
  have room: "sb_idx b < size_1 sz" if "sbuf_fits sz b (Suc n)" for b n
    using that assms by (auto simp: sbuf_fits_def size_1_def)
  have fit: "sbuf_fits sz ?b (length (concat (map piece_text (uuid_pieces u))))"
    using assms uuid_text_length [of u] by (simp add: sbuf_fits_def uuid_text_def)
  have "\<exists>b. vformat (sprintf_putchar sz) (\<lambda>b. sb_idx b < size_1 sz) False (concat (map piece_fmt (uuid_pieces u)) @ [0])
      (concat (map piece_args (uuid_pieces u))) ?b = Inr b \<and> sbuf_view b = sbuf_view ?b @ concat (map piece_text (uuid_pieces u)) \<and>
      sbuf_fits sz b 0"
    by (rule buffer_writer.vformat_pieces [OF room uuid_pieces_ok fit])
  then obtain b where b: "vformat (sprintf_putchar sz) (\<lambda>b. sb_idx b < size_1 sz) False uuid_format
      ([VSize (ucast (timeLow u)), VSize (ucast (timeMid u)), VSize (ucast (timeHiAndVersion u))] @
       map (\<lambda>i. VSize (ucast (clockSeqAndNode u ! i))) [0..<8]) ?b = Inr b"
    "sbuf_view b = uuid_text u" "sbuf_fits sz b 0"
    unfolding uuid_pieces_format uuid_text_def by (auto simp: sbuf_view_def)
  have idx: "sb_idx b < length (sb_out b)" using b(3) by (simp add: sbuf_fits_def)
  then have "sb_idx b = 36" using arg_cong [OF b(2), of length] by (simp add: sbuf_view_def)
  moreover have "take (Suc (sb_idx b)) ((sb_out b)[sb_idx b := 0]) = uuid_text u @ [0]"
    using idx b(2) by (simp add: sbuf_view_def take_Suc_conv_app_nth)
  ultimately have "take 37 ((sb_out b)[sb_idx b := 0]) = uuid_text u @ [0]" by simp
  then show ?thesis using b(1) idx by (simp add: uuid_to_str_def string_snprintf_def vsprintf_def)
qed

end
