(* ===== verification/Uuid_Parse.thy ===== *)
theory Uuid_Parse
  imports Uuid_Text
begin

text \<open>
  Reading an identifier back. The string, \<^verbatim>\<open>temp_str\<close> and \<^verbatim>\<open>temp_str_special\<close> are arrays that do not overlap.
\<close>

section \<open>Arrays in byte memory\<close>

definition text_at :: "u64 \<Rightarrow> u8 list \<Rightarrow> bmem \<Rightarrow> bool" where
  "text_at a xs m \<longleftrightarrow> (\<forall>k<length xs. m (a + word_of_nat k) = xs ! k)"

definition apart :: "u64 \<Rightarrow> nat \<Rightarrow> u64 \<Rightarrow> nat \<Rightarrow> bool" where
  "apart a n b k \<longleftrightarrow> (\<forall>i<n. \<forall>j<k. a + word_of_nat i \<noteq> b + word_of_nat j)"

lemma text_at_Nil [simp]: "text_at a [] m"
  by (simp add: text_at_def)

lemma text_at_append: "text_at a (xs @ ys) m \<longleftrightarrow> text_at a xs m \<and> text_at (a + word_of_nat (length xs)) ys m"
proof -
  have "(\<forall>k<length xs + length ys. P k) \<longleftrightarrow> (\<forall>k<length xs. P k) \<and> (\<forall>k<length ys. P (length xs + k))" for P :: "nat \<Rightarrow> bool"
    by (auto simp: trans_less_add1) (metis add_diff_inverse_nat nat_add_left_cancel_less)
  then show ?thesis by (simp add: text_at_def nth_append ac_simps)
qed

lemma text_at_Cons: "text_at a (x # xs) m \<longleftrightarrow> m a = x \<and> text_at (a + 1) xs m"
proof -
  have "text_at a [x] m \<longleftrightarrow> m a = x" by (simp add: text_at_def)
  then show ?thesis using text_at_append [of a "[x]" xs m] by simp
qed

lemma text_at_buf: "text_at a xs m \<longleftrightarrow> buf a (length xs) m = xs"
  by (simp add: text_at_def buf_def list_eq_iff_nth_eq [of _ xs])

text \<open>Memories that agree outside of \<open>n\<close> bytes at \<open>d\<close>.\<close>

definition outside :: "u64 \<Rightarrow> nat \<Rightarrow> bmem \<Rightarrow> bmem \<Rightarrow> bool" where
  "outside d n m m' \<longleftrightarrow> (\<forall>a. n \<le> unat (a - d) \<longrightarrow> m' a = m a)"

lemma outside_refl [simp]: "outside d n m m"
  by (simp add: outside_def)

lemma outside_trans: "outside d n m m' \<Longrightarrow> outside d n m' m'' \<Longrightarrow> outside d n m m''"
  by (simp add: outside_def)

lemma outside_mono: "outside d k m m' \<Longrightarrow> k \<le> n \<Longrightarrow> outside d n m m'"
  by (simp add: outside_def)

lemma outside_put [simp]: "outside d n m (put d {..<n} f m)"
  by (simp add: outside_def put_def)

lemma outside_apart:
  assumes "outside d n m m'" "apart d n a k" "i < k"
  shows "m' (a + word_of_nat i) = m (a + word_of_nat i)"
proof -
  have "\<not> unat (a + word_of_nat i - d) < n"
  proof
    assume "unat (a + word_of_nat i - d) < n"
    moreover have "a + word_of_nat i = d + word_of_nat (unat (a + word_of_nat i - d))" by simp
    ultimately show False using assms(2,3) unfolding apart_def by metis
  qed
  then show ?thesis using assms(1) by (simp add: outside_def)
qed

lemma outside_text: "outside d n m m' \<Longrightarrow> apart d n a (length xs) \<Longrightarrow> text_at a xs m' \<longleftrightarrow> text_at a xs m"
  by (simp add: text_at_def outside_apart)

lemma apart_sub:
  assumes "apart d n a k" "n' \<le> n" "i + k' \<le> k"
  shows "apart d n' (a + word_of_nat i) k'"
  unfolding apart_def
proof (intro allI impI)
  fix x y assume "x < n'" "y < k'"
  then have "x < n" "i + y < k" using assms by simp_all
  then have "d + word_of_nat x \<noteq> a + word_of_nat (i + y)" using assms(1) unfolding apart_def by blast
  then show "d + word_of_nat x \<noteq> a + word_of_nat i + word_of_nat y" by (simp add: ac_simps)
qed

lemma apart_fwd:
  assumes "apart d n s n" "n < 2 ^ 63"
  shows "fwd_ok d s n"
proof (rule fwd_okI)
  show "unat (s - d) + n \<le> 2 ^ 64"
  proof (rule ccontr)
    assume a: "\<not> unat (s - d) + n \<le> 2 ^ 64"
    define x where "x = unat (s - d)"
    have x: "x < 2 ^ 64" "word_of_nat x = s - d" unfolding x_def by simp_all
    then have k: "2 ^ 64 - x < n" "0 < n" "x + (2 ^ 64 - x) = 2 ^ 64" using a unfolding x_def [symmetric] by simp_all
    have "word_of_nat (x + (2 ^ 64 - x)) = (0 :: u64)" unfolding k(3) by simp
    then have "s + word_of_nat (2 ^ 64 - x) = d + word_of_nat 0" using x(2) unfolding of_nat_add by (simp add: algebra_simps)
    then show False using assms(1) k(1,2) unfolding apart_def by metis
  qed
qed (use assms(2) in simp)

lemma ncpy_text:
  assumes "text_at s xs m" "0 \<notin> set xs" "apart d (length xs) s (length xs)" "length xs < 2 ^ 63"
  shows "string_ncpy d s (length xs) m = put d {..<length xs} ((!) xs) m"
proof -
  have "len_upto (length xs) s m (length xs)" using assms(1,2) by (auto simp: len_upto_def text_at_def in_set_conv_nth)
  from string_ncpy_put [OF apart_fwd [OF assms(3,4)] this] show ?thesis
    using assms(1) by (auto simp: text_at_def intro: put_cong)
qed

section \<open>The fields before the last\<close>

abbreviation hex_text :: "nat \<Rightarrow> nat \<Rightarrow> u8 list" where
  "hex_text w v \<equiv> map hexd (hexdigs w v)"

lemma hex_text_chars:
  assumes "c \<in> set (hex_text w v)"
  shows "c \<noteq> 0" "c \<noteq> ch CHR ''-''"
  using assms hexdigs_less [of _ w v] hexd_values(1,4) by auto

lemma time_skip:
  "(\<And>j. j < k \<Longrightarrow> m (str + word_of_nat (i + j)) \<noteq> ch CHR ''-'') \<Longrightarrow> length tds \<le> 2 \<Longrightarrow>
   uuid_time_loop (k + n) u0 str tmp spec i b tds m = uuid_time_loop n u0 str tmp spec (i + k) b tds m"
proof (induction k arbitrary: i)
  case (Suc k)
  have "m (str + word_of_nat i) \<noteq> ch CHR ''-''" using Suc.prems(1) [of 0] by simp
  moreover have "m (str + word_of_nat (Suc i + j)) \<noteq> ch CHR ''-''" if "j < k" for j using Suc.prems(1) [of "Suc j"] that by simp
  ultimately show ?case using Suc.IH [of "Suc i"] Suc.prems(2) by simp
qed simp

lemma ends_number_zero [simp]: "ends_number 0"
  by (simp add: ends_number_def toul_digit_def)

lemma field_number:
  assumes "text_at s (hex_text w v) m" "apart spec 32 s w" "v < 16 ^ w" "2 \<le> w" "w \<le> 8"
  shows "\<exists>m'. string_ncpy spec s w (memset_peregrine spec 0 32 m) = m' \<and> outside spec 32 m m' \<and>
    string_toul (buf spec 32 m') 16 = Inr (word_of_nat v, w)"
proof -
  let ?m1 = "put spec {..<32} (\<lambda>_. 0) m" and ?g = "\<lambda>k. if k < w then hex_text w v ! k else 0"
  have m1: "memset_peregrine spec 0 32 m = ?m1" using memset_fills [of 32 spec 0 m] by simp
  have "text_at s (hex_text w v) ?m1"
    using outside_text [OF outside_put [of spec 32 m], of s "hex_text w v"] assms(1,2) by simp
  moreover have "apart spec w s w" using apart_sub [OF assms(2), of w 0 w] assms(5) by simp
  ultimately have c: "string_ncpy spec s w ?m1 = put spec {..<w} ((!) (hex_text w v)) ?m1"
    using ncpy_text [of s "hex_text w v" ?m1 spec] assms(5) hex_text_chars(1) [of 0] by auto
  have e: "put spec {..<w} ((!) (hex_text w v)) ?m1 = put spec {..<32} ?g m"
    using assms(5) by (auto simp: put_def)
  have "buf spec 32 (put spec {..<32} ?g m) = map ?g [0..<32]"
    by (simp add: buf_def put_def unat_of_nat64)
  also have "\<dots> = map ?g [0..<w] @ map ?g [w..<32]" using assms(5) upt_add_eq_append [of 0 w "32 - w"] by simp
  also have "\<dots> = hex_text w v @ replicate (32 - w) 0"
    by (rule arg_cong2 [where f = append]) (auto simp: list_eq_iff_nth_eq [of _ "hex_text w v"] list_eq_iff_nth_eq [of _ "replicate _ _"])
  also have "\<dots> = hex_text w v @ 0 # replicate (31 - w) 0"
    using assms(5) by (simp add: Suc_diff_le flip: replicate_Suc)
  finally show ?thesis using string_toul_hex [OF assms(3-5) ends_number_zero, of "replicate (31 - w) 0"] m1 c e by simp
qed

lemma time_field:
  assumes "text_at (str + word_of_nat b) (hex_text w v @ [ch CHR ''-'']) m" "apart spec 32 (str + word_of_nat b) w"
    "v < 16 ^ w" "2 \<le> w" "w \<le> 8" "length tds \<le> 2"
  shows "\<exists>m'. uuid_time_loop (w + Suc n) u0 str tmp spec b b tds m =
      uuid_time_loop n u0 str tmp spec (b + Suc w) (b + Suc w) (tds @ [word_of_nat v]) m' \<and> outside spec 32 m m'"
proof -
  have t: "text_at (str + word_of_nat b) (hex_text w v) m" "m (str + word_of_nat (b + w)) = ch CHR ''-''"
    using assms(1) by (simp_all add: text_at_append text_at_Cons ac_simps)
  have nd: "m (str + word_of_nat (b + j)) \<noteq> ch CHR ''-''" if "j < w" for j
    using t(1) that hex_text_chars(2) [of "hex_text w v ! j" w v] by (simp add: text_at_def add.assoc)
  have "uuid_time_loop (w + Suc n) u0 str tmp spec b b tds m = uuid_time_loop (Suc n) u0 str tmp spec (b + w) b tds m"
    by (rule time_skip) (use nd assms(6) in auto)
  moreover have "(ucast (word_of_nat v :: u64) :: u32) = word_of_nat v" by (simp add: unsigned_of_nat word_of_nat_eq_iff)
  ultimately show ?thesis
    using field_number [OF t(1) assms(2-5)] t(2) assms(6) by (auto simp: Let_def)
qed

section \<open>The last field\<close>

lemma seq_step:
  assumes c: "c = (if m (str + word_of_nat j) = ch CHR ''-'' then Suc j else j)"
    and t: "text_at (str + word_of_nat c) (hex_text 2 v) m" "apart tmp 3 (str + word_of_nat c) 2" "v < 256"
    and e: "ends_number (m (tmp + 2))" and l: "j < 36" "length seq < 8"
  shows "\<exists>m'. uuid_seq_loop str tmp j seq m = uuid_seq_loop str tmp (c + 2) (seq @ [word_of_nat v]) m' \<and> outside tmp 2 m m'"
proof -
  let ?m = "put tmp {..<2} ((!) (hex_text 2 v)) m"
  have "apart tmp 2 (str + word_of_nat c) 2" using apart_sub [OF t(2), of 2 0 2] by simp
  then have n: "string_ncpy tmp (str + word_of_nat c) 2 m = ?m"
    using ncpy_text [of "str + word_of_nat c" "hex_text 2 v" m tmp] t(1) hex_text_chars(1) [of 0 2 v] by (auto simp del: hexdigs.simps)
  have "hex_text 2 v = [hex_text 2 v ! 0, hex_text 2 v ! 1]"
    by (rule nth_equalityI) (auto simp: less_2_cases_iff simp del: hexdigs.simps)
  moreover have "unat (2 :: u64) = 2" by simp
  ultimately have "buf tmp 3 ?m = hex_text 2 v @ [m (tmp + 2)]"
    by (simp add: buf_def put_def upt_rec numeral_3_eq_3 numeral_2_eq_2 del: hexdigs.simps)
  moreover have "(ucast (word_of_nat v :: u64) :: u8) = word_of_nat v" by (simp add: unsigned_of_nat word_of_nat_eq_iff)
  ultimately show ?thesis
    using string_toul_hex [of v 2, OF _ _ _ e, of "[]"] t(3) l n c
    by (subst uuid_seq_loop.simps) (auto simp: UUID_STR_SIZE_def Let_def simp del: hexdigs.simps)
qed

abbreviation pairs :: "u8 list \<Rightarrow> u8 list" where
  "pairs vs \<equiv> concat (map (\<lambda>v. hex_text 2 (unat v)) vs)"

lemma pairs_length: "length (pairs vs) = 2 * length vs"
  by (induction vs) (simp_all del: hexdigs.simps)

lemma outside_tmp:
  assumes "outside tmp 2 m m'"
  shows "m' (tmp + 2) = m (tmp + 2)"
  using assms by (simp add: outside_def)

lemma seq_pairs:
  "text_at (str + word_of_nat j) (pairs vs) m \<Longrightarrow> apart tmp 3 (str + word_of_nat j) (2 * length vs) \<Longrightarrow>
   ends_number (m (tmp + 2)) \<Longrightarrow> j + 2 * length vs \<le> 36 \<Longrightarrow> length seq + length vs \<le> 8 \<Longrightarrow>
   \<exists>m'. uuid_seq_loop str tmp j seq m = uuid_seq_loop str tmp (j + 2 * length vs) (seq @ vs) m' \<and> outside tmp 2 m m'"
proof (induction vs arbitrary: j seq m)
  case Nil
  then show ?case by (auto intro: exI [of _ m])
next
  case (Cons v vs)
  have t: "text_at (str + word_of_nat j) (hex_text 2 (unat v)) m" "text_at (str + word_of_nat (j + 2)) (pairs vs) m"
    using Cons.prems(1) by (simp_all add: text_at_append ac_simps del: hexdigs.simps)
  have "hex_text 2 (unat v) ! 0 \<noteq> ch CHR ''-''" using hex_text_chars(2) [OF nth_mem, of 0 2 "unat v"] by (simp del: hexdigs.simps)
  then have "m (str + word_of_nat j) \<noteq> ch CHR ''-''" using t(1) [unfolded text_at_def, rule_format, of 0] by (simp del: hexdigs.simps)
  moreover have "apart tmp 3 (str + word_of_nat j) 2" using apart_sub [OF Cons.prems(2), of 3 0 2] by simp
  ultimately obtain m1 where m1: "uuid_seq_loop str tmp j seq m = uuid_seq_loop str tmp (j + 2) (seq @ [word_of_nat (unat v)]) m1"
    "outside tmp 2 m m1"
    using seq_step [of j m str j "unat v" tmp seq] t(1) Cons.prems unat_ucast_less(6) [of v] by (auto simp del: hexdigs.simps)
  have ap: "apart tmp 3 (str + word_of_nat (j + 2)) (2 * length vs)"
    using apart_sub [OF Cons.prems(2), of 3 2 "2 * length vs"] by (simp add: ac_simps)
  have "text_at (str + word_of_nat (j + 2)) (pairs vs) m1"
    using outside_text [OF m1(2), of "str + word_of_nat (j + 2)" "pairs vs"] t(2) apart_sub [OF ap, of 2 0 "2 * length vs"]
    by (simp add: pairs_length del: hexdigs.simps)
  from Cons.IH [OF this ap, of "seq @ [v]"] obtain m2 where
    "uuid_seq_loop str tmp (j + 2) (seq @ [v]) m1 = uuid_seq_loop str tmp (j + 2 + 2 * length vs) (seq @ [v] @ vs) m2" "outside tmp 2 m1 m2"
    using Cons.prems outside_tmp [OF m1(2)] by auto
  moreover from this(2) have "outside tmp 2 m m2" by (rule outside_trans [OF m1(2)])
  ultimately show ?case using m1(1) by (intro exI [of _ m2]) (simp add: ac_simps)
qed

section \<open>The whole string\<close>

lemma uuid_text_eq:
  assumes "length (clockSeqAndNode u) = 8"
  shows "uuid_text u =
    (hex_text 8 (unat (timeLow u)) @ [ch CHR ''-'']) @ (hex_text 4 (unat (timeMid u)) @ [ch CHR ''-'']) @
    (hex_text 4 (unat (timeHiAndVersion u)) @ [ch CHR ''-'']) @ pairs (take 2 (clockSeqAndNode u)) @
    [ch CHR ''-''] @ pairs (drop 2 (clockSeqAndNode u))"
proof -
  obtain a b c d e f g h where "clockSeqAndNode u = [a, b, c, d, e, f, g, h]"
    using assms by (auto simp: length_Suc_conv eval_nat_numeral)
  then show ?thesis by (simp add: uuid_text_def uuid_pieces_def unat_ucast_less del: hexdigs.simps)
qed

lemma uuid_text_nonzero: "0 \<notin> set (uuid_text u)"
  using hex_text_chars(1) [of 0] by (simp add: uuid_text_def uuid_pieces_def del: hexdigs.simps) blast

lemma strnlen_text:
  assumes "text_at str xs m" "0 \<notin> set xs" "str \<noteq> 0"
  shows "strnlen_s str (length xs) m = length xs"
proof -
  have "len_upto (length xs) str m (length xs)" using assms(1,2) by (auto simp: len_upto_def text_at_def in_set_conv_nth)
  then show ?thesis using strnlen_loop_len [of 0 m str "length xs"] len_upto_unique assms(3) by (simp add: strnlen_s_def)
qed

lemma uuid_seq_text:
  assumes t: "text_at (str + 19) (pairs vs @ [ch CHR ''-''] @ pairs ws) m" and l: "length vs = 2" "length ws = 6"
    and ap: "apart tmp 3 str 36" and e: "ends_number (m (tmp + 2))"
  shows "\<exists>m'. uuid_seq_loop str tmp 19 [] m = Inr (vs @ ws, m')"
proof -
  obtain w ws' where w: "ws = w # ws'" "length ws' = 5" using l(2) by (cases ws) auto
  have lp: "length (pairs vs) = 4" using l(1) by (simp add: pairs_length del: hexdigs.simps)
  have t1: "text_at (str + word_of_nat 19) (pairs vs) m" "text_at (str + word_of_nat 23) [ch CHR ''-''] m"
    "text_at (str + word_of_nat 24) (hex_text 2 (unat w)) m" "text_at (str + word_of_nat 26) (pairs ws') m"
    using t lp w(1) by (simp_all add: text_at_append text_at_Cons ac_simps del: hexdigs.simps)
  have sub: "apart tmp n (str + word_of_nat i) k" if "n \<le> 3" "i + k \<le> 36" for n i k using apart_sub [OF ap that] .
  obtain m1 where m1: "uuid_seq_loop str tmp 19 [] m = uuid_seq_loop str tmp 23 vs m1" "outside tmp 2 m m1"
    using seq_pairs [OF t1(1) sub e, of "[]"] l(1) by auto
  have k: "text_at (str + word_of_nat i) xs m1 \<longleftrightarrow> text_at (str + word_of_nat i) xs m" if "i + length xs \<le> 36" for i xs
    using outside_text [OF m1(2) sub] that by simp
  have "text_at (str + word_of_nat 23) [ch CHR ''-''] m1" using k [of 23 "[ch CHR ''-'']"] t1(2) by simp
  then have dash: "m1 (str + word_of_nat 23) = ch CHR ''-''" by (simp add: text_at_Cons)
  have "text_at (str + word_of_nat 24) (hex_text 2 (unat w)) m1" using k [of 24 "hex_text 2 (unat w)"] t1(3) by (simp del: hexdigs.simps)
  then obtain m2 where m2: "uuid_seq_loop str tmp 23 vs m1 = uuid_seq_loop str tmp 26 (vs @ [w]) m2" "outside tmp 2 m1 m2"
    using seq_step [of 24 m1 str 23 "unat w" tmp vs] dash sub [of 3 24 2] l(1) e outside_tmp [OF m1(2)] unat_ucast_less(6) [of w]
    by (auto simp del: hexdigs.simps)
  note o2 = outside_trans [OF m1(2) m2(2)]
  have lp': "length (pairs ws') = 10" using w(2) by (simp add: pairs_length del: hexdigs.simps)
  have "text_at (str + word_of_nat 26) (pairs ws') m2"
    using outside_text [OF o2, of "str + word_of_nat 26" "pairs ws'"] sub [of 2 26 10] t1(4) lp' by (simp del: hexdigs.simps)
  then obtain m3 where m3: "uuid_seq_loop str tmp 26 (vs @ [w]) m2 = uuid_seq_loop str tmp 36 (vs @ ws) m3"
    using seq_pairs [of str 26 ws' m2 tmp "vs @ [w]"] sub [of 3 26 10] e outside_tmp [OF o2] w l by (auto simp del: hexdigs.simps)
  have "uuid_seq_loop str tmp 36 (vs @ ws) m3 = Inr (vs @ ws, m3)"
    using l by (subst uuid_seq_loop.simps) simp
  then show ?thesis using m1 m2 m3 by simp
qed

lemma uuid_from_str_text:
  assumes u: "length (clockSeqAndNode u) = 8" "length (clockSeqAndNode u0) = 8"
    and t: "text_at str (uuid_text u) m" "str \<noteq> 0"
    and ap: "apart spec 32 str 36" "apart tmp 3 str 36" "apart spec 32 tmp 3" and e: "ends_number (m (tmp + 2))"
  shows "\<exists>m'. uuid_from_str u0 str 36 tmp spec m = Inr (Some u, m')"
proof -
  let ?vs = "take 2 (clockSeqAndNode u)" and ?ws = "drop 2 (clockSeqAndNode u)"
  let ?rest = "pairs ?vs @ [ch CHR ''-''] @ pairs ?ws"
  have lr: "length ?rest = 17"
    using u(1) by (simp add: pairs_length del: hexdigs.simps)
  note tt = t(1) [unfolded uuid_text_eq [OF u(1)]]
  have t1: "text_at (str + word_of_nat 0) (hex_text 8 (unat (timeLow u)) @ [ch CHR ''-'']) m"
    "text_at (str + word_of_nat 9) (hex_text 4 (unat (timeMid u)) @ [ch CHR ''-'']) m"
    "text_at (str + word_of_nat 14) (hex_text 4 (unat (timeHiAndVersion u)) @ [ch CHR ''-'']) m"
    "text_at (str + word_of_nat 19) ?rest m"
    using tt by (simp_all add: text_at_append text_at_Cons ac_simps del: hexdigs.simps)
  have sub: "apart spec 32 (str + word_of_nat i) k" if "i + k \<le> 36" for i k using apart_sub [OF ap(1) order_refl that] .
  have keep: "text_at (str + word_of_nat i) xs m' \<longleftrightarrow> text_at (str + word_of_nat i) xs m" if "outside spec 32 m m'" "i + length xs \<le> 36" for i xs m'
    using outside_text [OF that(1) sub [OF that(2)]] .
  obtain m1 where m1: "uuid_time_loop 36 u0 str tmp spec 0 0 [] m = uuid_time_loop 27 u0 str tmp spec 9 9 [timeLow u] m1" "outside spec 32 m m1"
    using time_field [OF t1(1) sub, of "[]" 27 u0 tmp] unat_ucast_less(4) [of "timeLow u"] by auto
  have "text_at (str + word_of_nat 9) (hex_text 4 (unat (timeMid u)) @ [ch CHR ''-'']) m1"
    using keep [OF m1(2), of 9 "hex_text 4 (unat (timeMid u)) @ [ch CHR ''-'']"] t1(2) by (simp del: hexdigs.simps)
  from time_field [OF this sub, of "[timeLow u]" 22 u0 tmp]
  obtain m2 where m2: "uuid_time_loop 27 u0 str tmp spec 9 9 [timeLow u] m1 =
      uuid_time_loop 22 u0 str tmp spec 14 14 [timeLow u, word_of_nat (unat (timeMid u))] m2" "outside spec 32 m m2"
    using unat_ucast_less(5) [of "timeMid u"] outside_trans [OF m1(2)] by auto
  have "text_at (str + word_of_nat 14) (hex_text 4 (unat (timeHiAndVersion u)) @ [ch CHR ''-'']) m2"
    using keep [OF m2(2), of 14 "hex_text 4 (unat (timeHiAndVersion u)) @ [ch CHR ''-'']"] t1(3) by (simp del: hexdigs.simps)
  from time_field [OF this sub, of "[timeLow u, word_of_nat (unat (timeMid u))]" 17 u0 tmp]
  obtain m3 where m3: "uuid_time_loop 22 u0 str tmp spec 14 14 [timeLow u, word_of_nat (unat (timeMid u))] m2 =
      uuid_time_loop 17 u0 str tmp spec 19 19 [timeLow u, word_of_nat (unat (timeMid u)), word_of_nat (unat (timeHiAndVersion u))] m3"
    "outside spec 32 m m3"
    using unat_ucast_less(5) [of "timeHiAndVersion u"] outside_trans [OF m2(2)] by auto
  have r: "text_at (str + 19) ?rest m3" using keep [OF m3(2), of 19 ?rest] t1(4) lr by simp
  have "m3 (tmp + 2) = m (tmp + 2)" using outside_apart [OF m3(2) ap(3), of 2] by simp
  from uuid_seq_text [OF r _ _ ap(2)] this obtain m4 where "uuid_seq_loop str tmp 19 [] m3 = Inr (clockSeqAndNode u, m4)"
    using u(1) e by auto
  moreover have "strnlen_s str 36 m = 36" using strnlen_text [OF t(1) uuid_text_nonzero t(2)] by simp
  moreover have "ucast (ucast x :: u32) = x" for x :: u16 by (rule bit_word_eqI) (simp add: bit_simps)
  ultimately show ?thesis using m1(1) m2(1) m3(1) u uuid_time_loop.simps(2) [of 16 u0 str tmp spec 19 19]
    by (simp add: uuid_from_str_def UUID_STR_SIZE_def)
qed

end
