(* ===== verification/Text_Contract.thy ===== *)
theory Text_Contract
  imports Uuid_Parse
begin

text \<open>
  The contract of the memory, string and archive functions, property by property.
\<close>

section \<open>Copying\<close>

lemma copied_bytes:
  assumes "n < 2 ^ 64"
  shows "(\<forall>k<n. copied d s n m (d + word_of_nat k) = m (s + word_of_nat k)) \<and>
    (\<forall>a. (\<forall>k<n. a \<noteq> d + word_of_nat k) \<longrightarrow> copied d s n m a = m a)"
proof (intro conjI allI impI)
  fix k assume "k < n"
  then show "copied d s n m (d + word_of_nat k) = m (s + word_of_nat k)"
    using assms by (simp add: copied_def put_def unat_of_nat64)
next
  fix a assume "\<forall>k<n. a \<noteq> d + word_of_nat k"
  then have "\<not> unat (a - d) < n" using offset_eq [of "unat (a - d)" a d] by force
  then show "copied d s n m a = m a" by (simp add: copied_def put_def)
qed

lemma sum_le_unat:
  assumes "unat (a :: u64) + n < 2 ^ 64"
  shows "unat (a + word_of_nat n) = unat a + n"
  using assms unat_of_nat64 [of n] by (simp add: unat_add64)

lemma apartI:
  assumes "unat a + n \<le> unat b \<or> unat b + k \<le> unat a" "unat a + n \<le> 2 ^ 64" "unat b + k \<le> 2 ^ 64"
  shows "apart a n b k"
  unfolding apart_def
proof (intro allI impI)
  fix i j assume "i < n" "j < k"
  then have "unat (a + word_of_nat i) = unat a + i" "unat (b + word_of_nat j) = unat b + j"
    using sum_le_unat [of a i] sum_le_unat [of b j] assms by simp_all
  then have "unat (a + word_of_nat i) \<noteq> unat (b + word_of_nat j)" using assms(1) \<open>i < n\<close> \<open>j < k\<close> by auto
  then show "a + word_of_nat i \<noteq> b + word_of_nat j" by metis
qed

lemma check_or_zero_fill: "CHECK_OR_ZERO_FILL cond dest destsz m r = (if cond then r else Inl Panic)"
  by (auto simp: CHECK_OR_ZERO_FILL_def CHECK_OR_FILL_def memset_s_def panic_def)

lemma memcpy_s_cases:
  assumes "unat dest + n < 2 ^ 64" "unat src + n < 2 ^ 64"
  shows "memcpy_s dest destsz src n m =
    (if dest \<noteq> 0 \<and> src \<noteq> 0 \<and> n \<le> destsz \<and> destsz \<le> RSIZE_MAX \<and> dest \<noteq> src \<and>
        (unat dest + n \<le> unat src \<or> unat src + n \<le> unat dest)
     then Inr (copied dest src n m) else Inl Panic)"
proof -
  have w: "(dest < src \<or> dest \<ge> src + word_of_nat n) \<and> (dest > src \<or> src \<ge> dest + word_of_nat n) \<longleftrightarrow>
      unat dest + n \<le> unat src \<or> unat src + n \<le> unat dest" if "dest \<noteq> src"
  proof -
    have "unat dest \<noteq> unat src" using that by (simp add: unat_eq_iff64)
    then show ?thesis using assms by (auto simp: word_less_nat_alt word_le_nat_alt sum_le_unat)
  qed
  have "memcpy_peregrine dest src n m = copied dest src n m"
    if "unat dest + n \<le> unat src \<or> unat src + n \<le> unat dest" "n \<le> RSIZE_MAX"
    using memcpy_copied [OF apart_fwd [OF apartI]] that assms by (simp add: RSIZE_MAX_def)
  with w show ?thesis by (cases "dest = src") (auto simp: memcpy_s_def check_or_zero_fill)
qed

text \<open>C18. The checked copy: for ranges that do not wrap around the address space, \<open>memcpy_s\<close> panics exactly if a
  pointer is null, the sizes are not \<open>n \<le> destsz \<le> RSIZE_MAX\<close>, or the ranges overlap or are the same. Otherwise every
  byte of the destination is the source's and no other byte of the memory changes, whatever the alignments.\<close>

theorem memcpy_s_copies_or_panics:
  assumes "unat dest + n < 2 ^ 64" "unat src + n < 2 ^ 64"
  shows "if dest = 0 \<or> src = 0 \<or> destsz < n \<or> RSIZE_MAX < destsz \<or> dest = src \<or>
            (unat src < unat dest + n \<and> unat dest < unat src + n)
    then memcpy_s dest destsz src n m = Inl Panic
    else \<exists>m'. memcpy_s dest destsz src n m = Inr m' \<and>
      (\<forall>k<n. m' (dest + word_of_nat k) = m (src + word_of_nat k)) \<and>
      (\<forall>a. (\<forall>k<n. a \<noteq> dest + word_of_nat k) \<longrightarrow> m' a = m a)"
  using memcpy_s_cases [OF assms, of destsz m] copied_bytes [of n dest src m] assms by auto

definition demo_bytes :: bmem where
  "demo_bytes a = (if a = 0x1000 then 7 else if a = 0x1001 then 8 else if a = 0x1002 then 9 else 0)"

theorem memcpy_s_copies_or_panics_witness:
  "(\<exists>m'. memcpy_s 0x2003 3 0x1000 3 demo_bytes = Inr m' \<and> m' 0x2005 = 9 \<and> m' 0x2006 = 0) \<and>
   memcpy_s 0x1001 3 0x1000 3 demo_bytes = Inl Panic"
proof
  from memcpy_s_copies_or_panics [of "0x2003" 3 "0x1000" 3 demo_bytes] obtain m' where
    m': "memcpy_s 0x2003 3 0x1000 3 demo_bytes = Inr m'" "\<forall>k<3. m' (0x2003 + word_of_nat k) = demo_bytes (0x1000 + word_of_nat k)"
    "\<forall>a. (\<forall>k<3. a \<noteq> 0x2003 + word_of_nat k) \<longrightarrow> m' a = demo_bytes a"
    by (auto simp: RSIZE_MAX_def)
  have "m' 0x2005 = 9" using m'(2) [rule_format, of 2] by (simp add: demo_bytes_def)
  moreover have "(0x2006 :: u64) \<noteq> 0x2003 + word_of_nat k" if "k < 3" for k :: nat
    using that by (auto simp: less_Suc_eq numeral_3_eq_3)
  then have "m' 0x2006 = 0" using m'(3) by (simp add: demo_bytes_def)
  ultimately show "\<exists>m'. memcpy_s 0x2003 3 0x1000 3 demo_bytes = Inr m' \<and> m' 0x2005 = 9 \<and> m' 0x2006 = 0" using m'(1) by blast
  show "memcpy_s 0x1001 3 0x1000 3 demo_bytes = Inl Panic"
    using memcpy_s_copies_or_panics [of "0x1001" 3 "0x1000" 3 demo_bytes] by simp
qed

text \<open>C20. The checked move: for ranges that do not wrap around the address space, \<open>memmove_s\<close> panics exactly if a
  pointer is null or the sizes are not \<open>n \<le> destsz \<le> RSIZE_MAX\<close>. Otherwise the destination has the bytes that the
  source had before the call and no other byte changes, also if the ranges overlap in either direction.\<close>

theorem memmove_s_moves_or_panics:
  assumes "unat dest + n \<le> 2 ^ 64" "unat src + n \<le> 2 ^ 64"
  shows "if dest = 0 \<or> src = 0 \<or> destsz < n \<or> RSIZE_MAX < destsz
    then memmove_s dest destsz src n m = Inl Panic
    else \<exists>m'. memmove_s dest destsz src n m = Inr m' \<and>
      (\<forall>k<n. m' (dest + word_of_nat k) = m (src + word_of_nat k)) \<and>
      (\<forall>a. (\<forall>k<n. a \<noteq> dest + word_of_nat k) \<longrightarrow> m' a = m a)"
proof (cases "dest = 0 \<or> src = 0 \<or> destsz < n \<or> RSIZE_MAX < destsz")
  case True
  then show ?thesis by (auto simp: memmove_s_def check_or_zero_fill)
next
  case False
  then have n: "n \<le> 2 ^ 63" "n < 2 ^ 64" by (auto simp: RSIZE_MAX_def)
  have "memmove_s dest destsz src n m = Inr (copied dest src n m)"
    using False memmove_copied [OF n(1) assms] by (auto simp: memmove_s_def check_or_zero_fill)
  then show ?thesis using False copied_bytes [OF n(2)] by auto
qed

theorem memmove_s_moves_or_panics_witness:
  "\<exists>m'. memmove_s 0x1001 8 0x1000 3 demo_bytes = Inr m' \<and> m' 0x1000 = 7 \<and> m' 0x1001 = 7 \<and> m' 0x1002 = 8 \<and> m' 0x1003 = 9"
proof -
  from memmove_s_moves_or_panics [of "0x1001" 3 "0x1000" 8 demo_bytes] obtain m' where
    m': "memmove_s 0x1001 8 0x1000 3 demo_bytes = Inr m'" "\<forall>k<3. m' (0x1001 + word_of_nat k) = demo_bytes (0x1000 + word_of_nat k)"
    "\<forall>a. (\<forall>k<3. a \<noteq> 0x1001 + word_of_nat k) \<longrightarrow> m' a = demo_bytes a"
    by (auto simp: RSIZE_MAX_def)
  have "m' 0x1001 = 7" "m' 0x1002 = 8" "m' 0x1003 = 9"
    using m'(2) [rule_format, of 0] m'(2) [rule_format, of 1] m'(2) [rule_format, of 2] by (simp_all add: demo_bytes_def)
  moreover have "(0x1000 :: u64) \<noteq> 0x1001 + word_of_nat k" if "k < 3" for k :: nat
    using that by (auto simp: less_Suc_eq numeral_3_eq_3)
  then have "m' 0x1000 = 7" using m'(3) by (simp add: demo_bytes_def)
  ultimately show ?thesis using m'(1) by blast
qed

section \<open>Strings\<close>

text \<open>C22. \<open>string_ncpy\<close>, which copies eight bytes at a time while none of them is zero, does what a byte-wise
  \<^verbatim>\<open>strncpy\<close> does: it copies the string up to its terminator or \<open>n\<close> bytes, fills the rest of the \<open>n\<close> bytes with zeros
  and changes no other byte.\<close>

theorem string_ncpy_is_strncpy:
  assumes "n < 2 ^ 63" "apart dst n src n"
  shows "\<exists>len\<le>n. (\<forall>k<len. m (src + word_of_nat k) \<noteq> 0) \<and> (len < n \<longrightarrow> m (src + word_of_nat len) = 0) \<and>
    (\<forall>k<n. string_ncpy dst src n m (dst + word_of_nat k) = (if k < len then m (src + word_of_nat k) else 0)) \<and>
    (\<forall>a. (\<forall>k<n. a \<noteq> dst + word_of_nat k) \<longrightarrow> string_ncpy dst src n m a = m a)"
proof -
  obtain len where l: "len_upto n src m len" using strnlen_loop_len [of 0 m src n] by auto
  note e = string_ncpy_put [OF apart_fwd [OF assms(2,1)] l]
  have "string_ncpy dst src n m a = m a" if "\<forall>k<n. a \<noteq> dst + word_of_nat k" for a
    unfolding e using that offset_eq [of "unat (a - dst)" a dst] by (intro put_read) force
  moreover have "string_ncpy dst src n m (dst + word_of_nat k) = (if k < len then m (src + word_of_nat k) else 0)" if "k < n" for k
    unfolding e using that assms(1) by (simp add: put_def unat_of_nat64)
  ultimately show ?thesis using l by (intro exI [of _ len]) (simp add: len_upto_def)
qed

theorem string_ncpy_is_strncpy_witness:
  "string_ncpy 0x2000 0x1000 20 demo_bytes 0x2002 = 9 \<and> string_ncpy 0x2000 0x1000 20 demo_bytes 0x2003 = 0"
proof -
  have "apart 0x2000 20 0x1000 20" by (rule apartI) simp_all
  from string_ncpy_is_strncpy [OF _ this, of demo_bytes] obtain len where
    l: "\<forall>k<len. demo_bytes (0x1000 + word_of_nat k) \<noteq> 0" "len < 20 \<longrightarrow> demo_bytes (0x1000 + word_of_nat len) = 0" "len \<le> 20"
    "\<forall>k<20. string_ncpy 0x2000 0x1000 20 demo_bytes (0x2000 + word_of_nat k) = (if k < len then demo_bytes (0x1000 + word_of_nat k) else 0)"
    by auto
  have "\<not> 3 < len" using l(1) [rule_format, of 3] by (auto simp: demo_bytes_def)
  moreover have "len \<noteq> 0" "len \<noteq> 1" "len \<noteq> 2" by (rule notI, use l(2) in \<open>simp add: demo_bytes_def\<close>)+
  ultimately have "len = 3" by simp
  then show ?thesis using l(4) [rule_format, of 2] l(4) [rule_format, of 3] by (simp add: demo_bytes_def)
qed

text \<open>C24. Formatted output stays in its buffer: for a size of at least 1 and at most that of the buffer and any format
  and string arguments that have a terminator, \<open>string_snprintf\<close> either lacks an argument of the type that a conversion
  asks for, or it returns a length of at most the size whose last character is the terminator, and no byte from
  the size on has changed.\<close>

theorem string_snprintf_in_bounds:
  assumes "1 \<le> sz" "sz \<le> length out" "terminated fmt" "vas_ok args"
  shows "string_snprintf out sz fmt args = Inl BadArgument \<or>
    (\<exists>r out'. string_snprintf out sz fmt args = Inr (r, out') \<and> 1 \<le> r \<and> r \<le> sz \<and> length out' = length out \<and>
      out' ! (r - 1) = 0 \<and> drop sz out' = drop sz out)"
proof -
  let ?b = "\<lparr>sb_out = out, sb_idx = 0\<rparr>"
  have "sz \<le> length out \<and> sbuf_ok sz out ?b" using assms(1,2) by (simp add: sbuf_ok_def)
  from snprintf.vformat_inv [OF assms(3,4) this, of "\<lambda>b. sb_idx b < size_1 sz"]
  show ?thesis
  proof (elim disjE exE conjE)
    fix b assume b: "vformat (sprintf_putchar sz) (\<lambda>b. sb_idx b < size_1 sz) False fmt args ?b = Inr b" "sbuf_ok sz out b"
    then have "sb_idx b < sz" "sz \<le> length (sb_out b)" "length (sb_out b) = length out" "drop sz (sb_out b) = drop sz out"
      using assms(2) by (auto simp: sbuf_ok_def)
    then show ?thesis using b(1) by (simp add: string_snprintf_def vsprintf_def)
  qed (simp add: string_snprintf_def vsprintf_def)
qed

theorem string_snprintf_in_bounds_witness:
  "\<exists>r out'. string_snprintf (replicate 8 0xAA) 6 (map of_char ''%s=%d;'' @ [0]) [VStr (map of_char ''abc'' @ [0]), VInt 1234] = Inr (r, out') \<and>
     r \<le> 6 \<and> out' ! (r - 1) = 0 \<and> drop 6 out' = [0xAA, 0xAA]"
proof -
  have "string_snprintf (replicate 8 0xAA) 6 (map of_char ''%s=%d;'' @ [0]) [VStr (map of_char ''abc'' @ [0]), VInt 1234] \<noteq> Inl BadArgument"
    by code_simp
  with string_snprintf_in_bounds [of 6 "replicate 8 0xAA" "map of_char ''%s=%d;'' @ [0]" "[VStr (map of_char ''abc'' @ [0]), VInt 1234]"]
  show ?thesis by (auto simp: terminated_def vas_ok_def numeral_eq_Suc)
qed

section \<open>Archives\<close>

lemma even_up_le: "unat sz < 2 ^ 63 \<Longrightarrow> sz \<le> (sz + 1) AND NOT 1" for sz :: u64
proof -
  assume "unat sz < 2 ^ 63"
  then have "unat (sz + 1) = unat sz + 1" by (simp add: unat_add64)
  moreover have "mask (Suc 0) = (1 :: u64)" by simp
  ultimately have "unat ((sz + 1) AND NOT 1) = (unat sz + 1) div 2 * 2"
    using unat_and_not_mask64 [of "sz + 1" "Suc 0"] by simp
  then show ?thesis by (simp add: word_le_nat_alt)
qed

lemma filesize_less: "unat (push_bit 16 (ucast a) OR ucast b :: u64) < 2 ^ 63" for a b :: u16
proof -
  define x :: u64 where "x = push_bit 16 (ucast a) OR ucast b"
  have e: "x = take_bit 32 x"
    unfolding x_def by (rule bit_word_eqI) (auto simp: bit_simps dest: bit_imp_le_length)
  have "unat x = unat x mod 2 ^ 32" by (subst e) (rule unat_take_bit64)
  also have "\<dots> < 2 ^ 32" by simp
  finally show ?thesis unfolding x_def by simp
qed

lemma add_mono_word:
  fixes a v w :: u64
  assumes "a \<le> a + w" "v \<le> w"
  shows "a \<le> a + v" "a + v \<le> a + w"
proof -
  have "unat a + unat w < 2 ^ 64" using assms(1) by (simp add: no_olen_add_nat)
  then have "unat (a + w) = unat a + unat w" "unat (a + v) = unat a + unat v"
    using assms(2) by (simp_all add: unat_add64 word_le_nat_alt)
  then show "a \<le> a + v" "a + v \<le> a + w" using assms(2) by (simp_all add: word_le_nat_alt)
qed

lemma cpio_next_inside:
  assumes "cpio_next trailer m iter = Some (f, iter')"
  shows "unat (it_next iter) + 26 \<le> unat (cf_contents f) \<and> cf_contents f \<le> cf_contents f + cf_size f \<and>
    cf_contents f + cf_size f \<le> it_limit iter"
proof -
  obtain lit lit1 v1 where a: "memiter_advance iter cpio_header_size = (True, lit)" "memiter_advance lit v1 = (True, lit1)"
    "memiter_advance lit1 ((cf_size f + 1) AND NOT 1) = (True, iter')" "cf_contents f = it_next lit1" "unat (cf_size f) < 2 ^ 63"
    using assms filesize_less by (auto simp: cpio_next_def Let_def split: if_splits prod.splits bool.splits)
  note b = memiter_advance_bounds [OF a(1)] memiter_advance_bounds [OF a(2)] memiter_advance_bounds [OF a(3)]
  have "unat (it_next lit) = unat (it_next iter) + 26"
    using b(1) unat_add64 [of "it_next iter" 26] no_olen_add_nat [of "it_next iter" 26] by (auto simp: cpio_header_size_def)
  then have h: "unat (it_next iter) + 26 \<le> unat (cf_contents f)" using b(2) a(4) by (auto simp: word_le_nat_alt)
  have e: "cf_size f \<le> (cf_size f + 1) AND NOT 1" using even_up_le [OF a(5)] .
  have "it_next lit1 \<le> it_next lit1 + ((cf_size f + 1) AND NOT 1)" using b(3) by metis
  then have "it_next lit1 \<le> it_next lit1 + cf_size f" "it_next lit1 + cf_size f \<le> it_next lit1 + ((cf_size f + 1) AND NOT 1)"
    using e add_mono_word by blast+
  then show ?thesis using h b a(4) by (metis order_trans)
qed

text \<open>C28. A file found in an archive lies in it: what \<open>cpio_get_file\<close> returns is a range after the first header and
  before the end of the archive, whatever bytes the archive has.\<close>

theorem cpio_get_file_inside:
  assumes "cpio_get_file trailer cpio name m = Some it"
  shows "unat (it_next cpio) + 26 \<le> unat (it_next it) \<and> it_next it \<le> it_limit it \<and> it_limit it \<le> it_limit cpio"
  using assms unfolding cpio_get_file_def
proof (induction trailer name m cpio rule: cpio_find.induct)
  case (1 trailer name m iter)
  obtain f iter' where n: "cpio_next trailer m iter = Some (f, iter')"
    using "1.prems" by (subst (asm) cpio_find.simps) (auto split: option.splits)
  note i = cpio_next_inside [OF n] and a = cpio_next_advances [OF n]
  show ?case
  proof (cases "strncmp (cf_name f) (string_data name) STRING_MAX_SIZE m = 0")
    case True
    then have "it = memiter_init (cf_contents f) (unat (cf_size f))" using "1.prems" n by (subst (asm) cpio_find.simps) simp
    then show ?thesis using i by (simp add: memiter_init_def)
  next
    case False
    then have "cpio_find trailer name m iter' = Some it" using "1.prems" n by (subst (asm) cpio_find.simps) simp
    from "1.IH" [OF n refl False this] show ?thesis using a by (auto simp: word_less_nat_alt)
  qed
qed

definition demo_archive :: bmem where
  "demo_archive a =
     (if a = 0x1000 then 0xC7 else if a = 0x1001 then 0x71 else if a = 0x1014 then 2 else if a = 0x1018 then 2
      else if a = 0x101A then of_char CHR ''a'' else if a = 0x2000 then of_char CHR ''a'' else if a = 0x3000 then of_char CHR ''T'' else 0)"

theorem cpio_get_file_inside_witness:
  "cpio_get_file 0x3000 (memiter_init 0x1000 30) 0x2000 demo_archive = Some (memiter_init 0x101C 2) \<and>
   (0x101C :: u64) \<le> 0x101E \<and> (0x101E :: u64) \<le> it_limit (memiter_init 0x1000 30)"
proof -
  have e: "cpio_get_file 0x3000 (memiter_init 0x1000 30) 0x2000 demo_archive = Some (memiter_init 0x101C 2)"
    by code_simp
  from cpio_get_file_inside [OF this] show ?thesis using e by (simp add: memiter_init_def)
qed

section \<open>Identifiers\<close>

text \<open>C26. Identifiers survive their textual form: what \<open>uuid_to_str\<close> prints into a buffer of more than 36 characters is
  read back by \<open>uuid_from_str\<close> as the same identifier, from any address at which the 36 characters are stored. The
  local arrays of the parser overlap neither each other nor the string, and the last byte of the first one, which
  the code does not initialise, is not a hexadecimal digit.\<close>

theorem uuid_text_roundtrip:
  assumes "length (clockSeqAndNode u) = 8" "length (clockSeqAndNode u0) = 8" "36 < sz" "sz \<le> length out"
  shows "\<exists>out'. uuid_to_str u out sz = Inr (True, out') \<and>
    (\<forall>m str tmp spec. str \<noteq> 0 \<and> (\<forall>k<36. m (str + word_of_nat k) = out' ! k) \<and>
       apart spec 32 str 36 \<and> apart tmp 3 str 36 \<and> apart spec 32 tmp 3 \<and> ends_number (m (tmp + 2)) \<longrightarrow>
       (\<exists>m'. uuid_from_str u0 str UUID_STR_SIZE tmp spec m = Inr (Some u, m')))"
proof -
  obtain out' where o: "uuid_to_str u out sz = Inr (True, out')" "take 37 out' = uuid_text u @ [0]"
    using uuid_to_str_text [OF assms(3,4)] by blast
  have "out' ! k = uuid_text u ! k" if "k < 36" for k
    using arg_cong [OF o(2), of "\<lambda>xs. xs ! k"] that by (simp add: nth_append)
  then have "text_at str (uuid_text u) m" if "\<forall>k<36. m (str + word_of_nat k) = out' ! k" for str m
    using that by (simp add: text_at_def)
  then show ?thesis using o(1) uuid_from_str_text [OF assms(1,2)] by (intro exI [of _ out']) (simp add: UUID_STR_SIZE_def)
qed

definition demo_uuid :: uuid where
  "demo_uuid = \<lparr>timeLow = 0x01234567, timeMid = 0x89AB, timeHiAndVersion = 0xCDEF, clockSeqAndNode = [0, 0x11, 0x22, 0x33, 0x44, 0x55, 0x66, 0xFF]\<rparr>"

theorem uuid_text_roundtrip_witness:
  "\<exists>out' m m'. uuid_to_str demo_uuid (replicate 40 0) 40 = Inr (True, out') \<and>
     uuid_from_str (demo_uuid\<lparr>clockSeqAndNode := replicate 8 0\<rparr>) 0x1000 UUID_STR_SIZE 0x2000 0x3000 m = Inr (Some demo_uuid, m')"
proof -
  let ?u0 = "demo_uuid\<lparr>clockSeqAndNode := replicate 8 0\<rparr>"
  obtain out' where o: "uuid_to_str demo_uuid (replicate 40 0) 40 = Inr (True, out')"
    "\<And>m str tmp spec. str \<noteq> 0 \<and> (\<forall>k<36. m (str + word_of_nat k) = out' ! k) \<and>
       apart spec 32 str 36 \<and> apart tmp 3 str 36 \<and> apart spec 32 tmp 3 \<and> ends_number (m (tmp + 2)) \<Longrightarrow>
       (\<exists>m'. uuid_from_str ?u0 str UUID_STR_SIZE tmp spec m = Inr (Some demo_uuid, m'))"
    using uuid_text_roundtrip [of demo_uuid ?u0 40 "replicate 40 0"] by (auto simp: demo_uuid_def)
  let ?m = "\<lambda>a :: u64. if unat (a - 0x1000) < 36 then out' ! unat (a - 0x1000) else 0"
  have "apart 0x3000 32 0x1000 36" "apart 0x2000 3 0x1000 36" "apart 0x3000 32 0x2000 3" by (rule apartI; simp)+
  moreover have "\<forall>k<36. ?m (0x1000 + word_of_nat k) = out' ! k" by (simp add: unat_of_nat64)
  ultimately show ?thesis using o(1) o(2) [of "0x1000" ?m "0x3000" "0x2000"] by auto
qed

end
