(* ===== verification/Sysregs.thy ===== *)
theory Sysregs
  imports Arch_Mm
begin

text \<open>
  System registers: the constants of \<^verbatim>\<open>src/arch/aarch64/sysregs.h\<close>, the fields of a syndrome, and the values
  of \<^verbatim>\<open>src/arch/aarch64/sysregs.c\<close>. The registers of a CPU are a function from their names, which \<^verbatim>\<open>read_msr\<close> reads
  and \<^verbatim>\<open>write_msr\<close> updates; \<open>vhe\<close> is the build option \<^verbatim>\<open>ENABLE_VHE\<close> and \<open>bp\<close> is \<^verbatim>\<open>BRANCH_PROTECTION\<close>.
\<close>

unbundle bit_operations_syntax

type_synonym msrs = "string \<Rightarrow> u64"

section \<open>Constants\<close>

definition RT_REG_XZR :: u64 where "RT_REG_XZR = 31"
definition MDCR_EL2_HCCD :: u64 where "MDCR_EL2_HCCD = push_bit 23 0x1"
definition MDCR_EL2_TTRF :: u64 where "MDCR_EL2_TTRF = push_bit 19 0x1"
definition MDCR_EL2_HPMD :: u64 where "MDCR_EL2_HPMD = push_bit 17 0x1"
definition MDCR_EL2_TPMS :: u64 where "MDCR_EL2_TPMS = push_bit 14 0x1"
definition MDCR_EL2_E2PB :: u64 where "MDCR_EL2_E2PB = push_bit 12 0x3"
definition MDCR_EL2_TDRA :: u64 where "MDCR_EL2_TDRA = push_bit 11 0x1"
definition MDCR_EL2_TDOSA :: u64 where "MDCR_EL2_TDOSA = push_bit 10 0x1"
definition MDCR_EL2_TDA :: u64 where "MDCR_EL2_TDA = push_bit 9 0x1"
definition MDCR_EL2_TPM :: u64 where "MDCR_EL2_TPM = push_bit 6 0x1"
definition MDCR_EL2_TPMCR :: u64 where "MDCR_EL2_TPMCR = push_bit 5 0x1"
definition MDCR_EL2_HPMN :: u64 where "MDCR_EL2_HPMN = push_bit 0 0x1f"
definition ESR_EC_OFFSET :: nat where "ESR_EC_OFFSET = 26"
definition EC_UNKNOWN :: u64 where "EC_UNKNOWN = 0x0"
definition EC_WFI_WFE :: u64 where "EC_WFI_WFE = 0x1"
definition EC_HVC :: u64 where "EC_HVC = 0x16"
definition EC_SMC :: u64 where "EC_SMC = 0x17"
definition EC_MSR :: u64 where "EC_MSR = 0x18"
definition EC_INSTRUCTION_ABORT_LOWER_EL :: u64 where "EC_INSTRUCTION_ABORT_LOWER_EL = 0x20"
definition EC_INSTRUCTION_ABORT_SAME_EL :: u64 where "EC_INSTRUCTION_ABORT_SAME_EL = 0x21"
definition EC_DATA_ABORT_LOWER_EL :: u64 where "EC_DATA_ABORT_LOWER_EL = 0x24"
definition EC_DATA_ABORT_SAME_EL :: u64 where "EC_DATA_ABORT_SAME_EL = 0x25"
definition ISS_OP0_MASK :: u64 where "ISS_OP0_MASK = 0x300000"
definition ISS_OP0_SHIFT :: nat where "ISS_OP0_SHIFT = 20"
definition ISS_OP1_MASK :: u64 where "ISS_OP1_MASK = 0x1c000"
definition ISS_OP1_SHIFT :: nat where "ISS_OP1_SHIFT = 14"
definition ISS_OP2_MASK :: u64 where "ISS_OP2_MASK = 0xe0000"
definition ISS_OP2_SHIFT :: nat where "ISS_OP2_SHIFT = 17"
definition ISS_CRN_MASK :: u64 where "ISS_CRN_MASK = 0x3c00"
definition ISS_CRN_SHIFT :: nat where "ISS_CRN_SHIFT = 10"
definition ISS_CRM_MASK :: u64 where "ISS_CRM_MASK = 0x1e"
definition ISS_CRM_SHIFT :: nat where "ISS_CRM_SHIFT = 1"
definition ISS_RT_MASK :: u64 where "ISS_RT_MASK = 0x3e0"
definition ISS_RT_SHIFT :: nat where "ISS_RT_SHIFT = 5"
definition ISS_DIRECTION_MASK :: u64 where "ISS_DIRECTION_MASK = 0x1"
definition PMCR_EL0_N_MASK :: u64 where "PMCR_EL0_N_MASK = 0xf800"
definition PMCR_EL0_N_SHIFT :: nat where "PMCR_EL0_N_SHIFT = 11"
definition HCR_EL2_API :: u64 where "HCR_EL2_API = push_bit 41 0x1"
definition HCR_EL2_APK :: u64 where "HCR_EL2_APK = push_bit 40 0x1"
definition HCR_EL2_TERR :: u64 where "HCR_EL2_TERR = push_bit 36 0x1"
definition HCR_EL2_TLOR :: u64 where "HCR_EL2_TLOR = push_bit 35 0x1"
definition HCR_EL2_RW :: u64 where "HCR_EL2_RW = push_bit 31 0x1"
definition HCR_EL2_TSW :: u64 where "HCR_EL2_TSW = push_bit 22 0x1"
definition HCR_EL2_TACR :: u64 where "HCR_EL2_TACR = push_bit 21 0x1"
definition HCR_EL2_TIDCP :: u64 where "HCR_EL2_TIDCP = push_bit 20 0x1"
definition HCR_EL2_TSC :: u64 where "HCR_EL2_TSC = push_bit 19 0x1"
definition HCR_EL2_TID3 :: u64 where "HCR_EL2_TID3 = push_bit 18 0x1"
definition HCR_EL2_TWE :: u64 where "HCR_EL2_TWE = push_bit 14 0x1"
definition HCR_EL2_TWI :: u64 where "HCR_EL2_TWI = push_bit 13 0x1"
definition HCR_EL2_BSU_INNER_SHAREABLE :: u64 where "HCR_EL2_BSU_INNER_SHAREABLE = push_bit 10 0x1"
definition HCR_EL2_FB :: u64 where "HCR_EL2_FB = push_bit 9 0x1"
definition HCR_EL2_VI :: u64 where "HCR_EL2_VI = push_bit 7 0x1"
definition HCR_EL2_VF :: u64 where "HCR_EL2_VF = push_bit 6 0x1"
definition HCR_EL2_AMO :: u64 where "HCR_EL2_AMO = push_bit 5 0x1"
definition HCR_EL2_IMO :: u64 where "HCR_EL2_IMO = push_bit 4 0x1"
definition HCR_EL2_FMO :: u64 where "HCR_EL2_FMO = push_bit 3 0x1"
definition HCR_EL2_PTW :: u64 where "HCR_EL2_PTW = push_bit 2 0x1"
definition HCR_EL2_VM :: u64 where "HCR_EL2_VM = push_bit 0 0x1"
definition CPTR_EL2_TTA :: u64 where "CPTR_EL2_TTA = push_bit 20 0x1"
definition CPTR_EL2_VHE_TTA :: u64 where "CPTR_EL2_VHE_TTA = push_bit 28 0x1"
definition CPTR_EL2_VHE_FPEN :: u64 where "CPTR_EL2_VHE_FPEN = push_bit 20 0x3"
definition PSR_D :: u64 where "PSR_D = push_bit 9 1"
definition PSR_A :: u64 where "PSR_A = push_bit 8 1"
definition PSR_I :: u64 where "PSR_I = push_bit 7 1"
definition PSR_F :: u64 where "PSR_F = push_bit 6 1"
definition PSR_ARCH_MODE_32 :: u64 where "PSR_ARCH_MODE_32 = push_bit 4 1"
definition PSR_PE_MODE_MASK :: u64 where "PSR_PE_MODE_MASK = 0xf"
definition PSR_PE_MODE_EL0T :: u64 where "PSR_PE_MODE_EL0T = 0x0"
definition PSR_PE_MODE_EL1H :: u64 where "PSR_PE_MODE_EL1H = 0x5"
definition SCTLR_EL2_BT :: u64 where "SCTLR_EL2_BT = push_bit 36 0x1"
definition SCTLR_EL2_ENIA :: u64 where "SCTLR_EL2_ENIA = push_bit 31 0x1"
definition SCTLR_EL2_B28 :: u64 where "SCTLR_EL2_B28 = push_bit 28 0x1"
definition SCTLR_EL2_EIS :: u64 where "SCTLR_EL2_EIS = push_bit 22 0x1"
definition SCTLR_EL2_IESB :: u64 where "SCTLR_EL2_IESB = push_bit 21 0x1"
definition SCTLR_EL2_WXN :: u64 where "SCTLR_EL2_WXN = push_bit 19 0x1"
definition SCTLR_EL2_B18 :: u64 where "SCTLR_EL2_B18 = push_bit 18 0x1"
definition SCTLR_EL2_B16 :: u64 where "SCTLR_EL2_B16 = push_bit 16 0x1"
definition SCTLR_EL2_I :: u64 where "SCTLR_EL2_I = push_bit 12 0x1"
definition SCTLR_EL2_EOS :: u64 where "SCTLR_EL2_EOS = push_bit 11 0x1"
definition SCTLR_EL2_B4 :: u64 where "SCTLR_EL2_B4 = push_bit 4 0x3"
definition SCTLR_EL2_SA :: u64 where "SCTLR_EL2_SA = push_bit 3 0x1"
definition SCTLR_EL2_C :: u64 where "SCTLR_EL2_C = push_bit 2 0x1"
definition SCTLR_EL2_A :: u64 where "SCTLR_EL2_A = push_bit 1 0x1"
definition SCTLR_EL2_M :: u64 where "SCTLR_EL2_M = push_bit 0 0x1"
definition ID_AA64MMFR1_EL1_VH_SHIFT :: nat where "ID_AA64MMFR1_EL1_VH_SHIFT = 8"
definition ID_AA64MMFR1_EL1_VH_MASK :: u64 where "ID_AA64MMFR1_EL1_VH_MASK = 0xf"
definition ID_AA64MMFR1_EL1_VH_SUPPORTED :: u64 where "ID_AA64MMFR1_EL1_VH_SUPPORTED = 0x1"
definition ID_AA64PFR1_EL1_BT :: u64 where "ID_AA64PFR1_EL1_BT = push_bit 0 0xf"

section \<open>Syndromes\<close>

definition GET_ESR_EC :: "u64 \<Rightarrow> u64" where
  "GET_ESR_EC esr = drop_bit ESR_EC_OFFSET esr"

definition GET_ESR_IL :: "u64 \<Rightarrow> u64" where
  "GET_ESR_IL esr = esr AND push_bit 25 1"

definition ISS_MASK :: u64 where "ISS_MASK = push_bit 22 0x1 - 0x1"

definition GET_ESR_ISS :: "u64 \<Rightarrow> u64" where
  "GET_ESR_ISS esr = ISS_MASK AND esr"

definition ISS_SYSREG_MASK :: u64 where
  "ISS_SYSREG_MASK = ISS_MASK AND NOT (push_bit 5 0x1f) AND NOT 0x1"

definition GET_ISS_SYSREG :: "u64 \<Rightarrow> u64" where
  "GET_ISS_SYSREG esr = ISS_SYSREG_MASK AND esr"

definition GET_ISS_OP0 :: "u64 \<Rightarrow> u64" where
  "GET_ISS_OP0 esr = drop_bit ISS_OP0_SHIFT (ISS_OP0_MASK AND esr)"

definition GET_ISS_OP1 :: "u64 \<Rightarrow> u64" where
  "GET_ISS_OP1 esr = drop_bit ISS_OP1_SHIFT (ISS_OP1_MASK AND esr)"

definition GET_ISS_OP2 :: "u64 \<Rightarrow> u64" where
  "GET_ISS_OP2 esr = drop_bit ISS_OP2_SHIFT (ISS_OP2_MASK AND esr)"

definition GET_ISS_CRN :: "u64 \<Rightarrow> u64" where
  "GET_ISS_CRN esr = drop_bit ISS_CRN_SHIFT (ISS_CRN_MASK AND esr)"

definition GET_ISS_CRM :: "u64 \<Rightarrow> u64" where
  "GET_ISS_CRM esr = drop_bit ISS_CRM_SHIFT (ISS_CRM_MASK AND esr)"

definition GET_ISS_RT :: "u64 \<Rightarrow> u64" where
  "GET_ISS_RT esr = drop_bit ISS_RT_SHIFT (ISS_RT_MASK AND esr)"

definition ISS_IS_READ :: "u64 \<Rightarrow> bool" where
  "ISS_IS_READ esr \<longleftrightarrow> ISS_DIRECTION_MASK AND esr \<noteq> 0"

definition GET_ISS_ENCODING :: "u64 \<Rightarrow> u64 \<Rightarrow> u64 \<Rightarrow> u64 \<Rightarrow> u64 \<Rightarrow> u64" where
  "GET_ISS_ENCODING op0 op1 crn crm op2 =
     push_bit ISS_OP0_SHIFT op0 OR push_bit ISS_OP2_SHIFT op2 OR push_bit ISS_OP1_SHIFT op1 OR
     push_bit ISS_CRN_SHIFT crn OR push_bit ISS_CRM_SHIFT crm"

definition GET_PMCR_EL0_N :: "u64 \<Rightarrow> u64" where
  "GET_PMCR_EL0_N pmcr = drop_bit PMCR_EL0_N_SHIFT (PMCR_EL0_N_MASK AND pmcr)"

section \<open>Values of registers\<close>

definition PG_PRIMARY_VM_ID :: u16 where "PG_PRIMARY_VM_ID = 1"

definition ID_AA64PFR0_EL1_RAS :: u64 where "ID_AA64PFR0_EL1_RAS = push_bit 28 0xf"

definition has_ras_support :: "msrs \<Rightarrow> bool" where
  "has_ras_support r \<longleftrightarrow> r ''ID_AA64PFR0_EL1'' AND ID_AA64PFR0_EL1_RAS \<noteq> 0"

definition has_vhe_support :: "bool \<Rightarrow> msrs \<Rightarrow> bool" where
  "has_vhe_support vhe r \<longleftrightarrow>
     vhe \<and> drop_bit ID_AA64MMFR1_EL1_VH_SHIFT (r ''ID_AA64MMFR1_EL1'') AND ID_AA64MMFR1_EL1_VH_MASK = ID_AA64MMFR1_EL1_VH_SUPPORTED"

definition get_hcr_el2_value :: "bool \<Rightarrow> msrs \<Rightarrow> u16 \<Rightarrow> u64" where
  "get_hcr_el2_value vhe r vm_id =
     (let v = HCR_EL2_TID3 OR HCR_EL2_RW OR (HCR_EL2_TACR OR HCR_EL2_TIDCP) OR HCR_EL2_TSC OR HCR_EL2_PTW OR HCR_EL2_VM OR
              HCR_EL2_TSW OR (HCR_EL2_APK OR HCR_EL2_API);
          v = (if vm_id \<noteq> PG_PRIMARY_VM_ID
               then v OR HCR_EL2_BSU_INNER_SHAREABLE OR HCR_EL2_FB OR (if \<not> has_ras_support r then HCR_EL2_AMO else 0) OR
                    (HCR_EL2_IMO OR HCR_EL2_FMO) OR (HCR_EL2_TWE OR HCR_EL2_TWI)
               else v)
      in if has_vhe_support vhe r then v OR HCR_EL2_E2H else v)"

definition get_mdcr_el2_value :: "msrs \<Rightarrow> u64" where
  "get_mdcr_el2_value r =
     r ''MDCR_EL2'' OR (MDCR_EL2_HCCD OR MDCR_EL2_HPMD) OR (GET_PMCR_EL0_N (r ''PMCR_EL0'') AND MDCR_EL2_HPMN)"

definition get_cptr_el2_value :: "bool \<Rightarrow> msrs \<Rightarrow> u64" where
  "get_cptr_el2_value vhe r =
     (if has_vhe_support vhe r then CPTR_EL2_VHE_FPEN OR CPTR_EL2_VHE_TTA else CPTR_EL2_TTA)"

definition get_sctlr_el2_value :: "bool \<Rightarrow> u64" where
  "get_sctlr_el2_value bp =
     (let v = SCTLR_EL2_IESB OR SCTLR_EL2_M OR SCTLR_EL2_A OR SCTLR_EL2_C OR SCTLR_EL2_SA OR SCTLR_EL2_I OR SCTLR_EL2_WXN;
          v = (if bp then (v OR SCTLR_EL2_ENIA) AND NOT SCTLR_EL2_BT else v)
      in v OR SCTLR_EL2_B4 OR SCTLR_EL2_B16 OR SCTLR_EL2_B18 OR SCTLR_EL2_B28 OR SCTLR_EL2_EOS OR SCTLR_EL2_EIS)"

definition is_arch_feat_bti_supported :: "msrs \<Rightarrow> bool" where
  "is_arch_feat_bti_supported r \<longleftrightarrow> r ''ID_AA64PFR1_EL1'' AND ID_AA64PFR1_EL1_BT = 1"

section \<open>Fields of a syndrome\<close>

text \<open>
  An encoding is a syndrome without direction and register: the fields of \<^verbatim>\<open>GET_ISS_ENCODING\<close> are read back, and
  \<^verbatim>\<open>GET_ISS_SYSREG\<close> compares equal to it exactly if all fields do.
\<close>

lemmas iss_defs = GET_ISS_OP0_def GET_ISS_OP1_def GET_ISS_OP2_def GET_ISS_CRN_def GET_ISS_CRM_def GET_ISS_RT_def
  GET_ISS_SYSREG_def ISS_SYSREG_MASK_def ISS_MASK_def ISS_IS_READ_def ISS_DIRECTION_MASK_def
  ISS_OP0_MASK_def ISS_OP0_SHIFT_def ISS_OP1_MASK_def ISS_OP1_SHIFT_def ISS_OP2_MASK_def ISS_OP2_SHIFT_def
  ISS_CRN_MASK_def ISS_CRN_SHIFT_def ISS_CRM_MASK_def ISS_CRM_SHIFT_def ISS_RT_MASK_def ISS_RT_SHIFT_def

lemma field_mask: "drop_bit k (push_bit k (mask n) AND x) = take_bit n (drop_bit k x)" for x :: u64
  by (rule bit_word_eqI) (auto simp: bit_simps dest: bit_imp_le_length)

lemma iss_fields:
  "GET_ISS_OP0 esr = take_bit 2 (drop_bit 20 esr)"
  "GET_ISS_OP1 esr = take_bit 3 (drop_bit 14 esr)"
  "GET_ISS_OP2 esr = take_bit 3 (drop_bit 17 esr)"
  "GET_ISS_CRN esr = take_bit 4 (drop_bit 10 esr)"
  "GET_ISS_CRM esr = take_bit 4 (drop_bit 1 esr)"
  "GET_ISS_RT esr = take_bit 5 (drop_bit 5 esr)"
proof -
  have "push_bit 20 (mask 2) = (0x300000 :: u64)" "push_bit 14 (mask 3) = (0x1c000 :: u64)" "push_bit 17 (mask 3) = (0xe0000 :: u64)"
    "push_bit 10 (mask 4) = (0x3c00 :: u64)" "push_bit 1 (mask 4) = (0x1e :: u64)" "push_bit 5 (mask 5) = (0x3e0 :: u64)"
    by (simp_all add: mask_eq_exp_minus_1)
  then show "GET_ISS_OP0 esr = take_bit 2 (drop_bit 20 esr)" "GET_ISS_OP1 esr = take_bit 3 (drop_bit 14 esr)"
    "GET_ISS_OP2 esr = take_bit 3 (drop_bit 17 esr)" "GET_ISS_CRN esr = take_bit 4 (drop_bit 10 esr)"
    "GET_ISS_CRM esr = take_bit 4 (drop_bit 1 esr)" "GET_ISS_RT esr = take_bit 5 (drop_bit 5 esr)"
    using field_mask [of 20 2 esr] field_mask [of 14 3 esr] field_mask [of 17 3 esr] field_mask [of 10 4 esr]
      field_mask [of 1 4 esr] field_mask [of 5 5 esr]
    by (simp_all add: iss_defs)
qed

end
