(* ===== verification/Vm_State.thy ===== *)
theory Vm_State
  imports Pma Format Sysregs
begin

text \<open>
  The state of the hypervisor: CPUs, VMs and their virtual CPUs, the system registers of the executing CPU and the
  memory it reaches by address. A pointer to an element of a static array is its index, a pointer to a virtual CPU
  the pair of the index of its VM and its own, and \<open>None\<close> is the null pointer. \<^verbatim>\<open>MAX_VMS\<close> and \<^verbatim>\<open>MAX_CPUS\<close> are the
  lengths of the arrays. Taking a spinlock that is held is \<open>Deadlock\<close>, since one CPU executes the code here.
\<close>

section \<open>Registers of a virtual CPU, \<^verbatim>\<open>arch/types.h\<close>\<close>

definition NUM_GP_REGS :: nat where "NUM_GP_REGS = 31"

record arch_regs =
  regs_r :: "u64 list"
  regs_pc :: u64
  regs_spsr :: u64
  regs_hcr_el2 :: u64
  regs_lazy :: msrs
  regs_fp :: "(u64 \<times> u64) list"
  regs_fpsr :: u64
  regs_fpcr :: u64
  ich_hcr_el2 :: u64
  icc_sre_el2 :: u64
  cntv_cval_el0 :: u64
  cntv_ctl_el0 :: u64
  regs_pac :: "u64 list"

definition zero_regs :: arch_regs where
  "zero_regs =
     \<lparr>regs_r = replicate NUM_GP_REGS 0, regs_pc = 0, regs_spsr = 0, regs_hcr_el2 = 0, regs_lazy = (\<lambda>_. 0),
      regs_fp = replicate 32 (0, 0), regs_fpsr = 0, regs_fpcr = 0, ich_hcr_el2 = 0, icc_sre_el2 = 0,
      cntv_cval_el0 = 0, cntv_ctl_el0 = 0, regs_pac = replicate 10 0\<rparr>"

text \<open>Access to \<^verbatim>\<open>r[n]\<close>; the array has no element 31.\<close>

definition get_reg :: "u64 \<Rightarrow> arch_regs \<Rightarrow> u64 res" where
  "get_reg n r = (if unat n < length (regs_r r) then Inr (regs_r r ! unat n) else Inl OutOfBounds)"

definition set_reg :: "u64 \<Rightarrow> u64 \<Rightarrow> arch_regs \<Rightarrow> arch_regs res" where
  "set_reg n v r =
     (if unat n < length (regs_r r) then Inr (r\<lparr>regs_r := (regs_r r)[unat n := v]\<rparr>) else Inl OutOfBounds)"

section \<open>Virtual CPUs, \<^verbatim>\<open>vcpu.h\<close>\<close>

datatype vcpu_state = VCPU_STATE_OFF | VCPU_STATE_READY | VCPU_STATE_RUNNING | VCPU_STATE_BLOCKED_MAILBOX |
  VCPU_STATE_PREEMPTED | VCPU_STATE_BLOCKED_INTERRUPT | VCPU_STATE_ABORTED

definition PG_NUM_INTIDS :: u32 where "PG_NUM_INTIDS = 64"

definition INTERRUPT_REGISTER_BITS :: u32 where "INTERRUPT_REGISTER_BITS = 32"

record interrupts =
  interrupt_enabled :: "u32 list"
  interrupt_pending :: "u32 list"
  interrupt_type :: "u32 list"
  enabled_and_pending_irq_count :: u32
  enabled_and_pending_fiq_count :: u32

definition zero_interrupts :: interrupts where
  "zero_interrupts =
     \<lparr>interrupt_enabled = [0, 0], interrupt_pending = [0, 0], interrupt_type = [0, 0],
      enabled_and_pending_irq_count = 0, enabled_and_pending_fiq_count = 0\<rparr>"

type_synonym vcpu_ptr = "nat \<times> nat"

record vcpu =
  vcpu_held :: bool
  vcpu_state :: vcpu_state
  vcpu_cpu :: "nat option"
  vcpu_vm :: "nat option"
  vcpu_regs :: arch_regs
  vcpu_interrupts :: interrupts
  regs_available :: bool
  processing_managed_exit :: bool

definition zero_vcpu :: vcpu where
  "zero_vcpu =
     \<lparr>vcpu_held = False, vcpu_state = VCPU_STATE_OFF, vcpu_cpu = None, vcpu_vm = None, vcpu_regs = zero_regs,
      vcpu_interrupts = zero_interrupts, regs_available = False, processing_managed_exit = False\<rparr>"

record vcpu_fault_info =
  fault_ipaddr :: u64
  fault_vaddr :: u64
  fault_pc :: u64
  fault_mode :: u32

section \<open>CPUs, \<^verbatim>\<open>cpu.h\<close>\<close>

record cpu =
  cpu_id :: u64
  stack_bottom :: u64
  cpu_held :: bool
  is_on :: bool
  is_assigned :: bool

section \<open>VMs, \<^verbatim>\<open>vm.h\<close>\<close>

datatype mailbox_state = MAILBOX_STATE_EMPTY | MAILBOX_STATE_RECEIVED | MAILBOX_STATE_READ

text \<open>
  The lists of waiting VMs are only initialised: \<open>waiter_list\<close> and \<open>ready_list\<close> hold the entries linked into them and
  \<open>wait_linked\<close>, \<open>ready_linked\<close> whether an entry is linked.
\<close>

record mailbox =
  mailbox_state :: mailbox_state
  mailbox_recv :: u64
  mailbox_send :: u64
  recv_sender :: u16
  recv_size :: u32
  recv_func :: u32
  waiter_list :: "vcpu_ptr list"
  ready_list :: "vcpu_ptr list"

record wait_entry =
  waiting_vm :: "nat option"
  wait_linked :: bool
  ready_linked :: bool

record smc_whitelist =
  smcs :: "u32 list"
  smc_count :: u16
  permissive :: bool

record arch_vm =
  last_vcpu_on_cpu :: "u16 list"
  trapped_features :: u64
  mask_id_aa64mmfr1_el1 :: u64
  mask_id_aa64pfr0_el1 :: u64
  mask_id_aa64dfr0_el1 :: u64
  mask_id_aa64isar1_el1 :: u64

record interrupt_descriptor =
  interrupt_id :: u32
  type_config_sec_state :: u8
  desc_priority :: u8
  desc_valid :: bool

record vm =
  vm_id :: u16
  vm_uuid :: uuid
  vm_smc_whitelist :: smc_whitelist
  vm_held :: bool
  vcpu_count :: u16
  vcpus :: "vcpu list"
  vm_ptable :: u64
  vm_mailbox :: mailbox
  log_buffer :: "u8 list"
  log_buffer_length :: u16
  vm_cpus :: "u64 list"
  wait_entries :: "wait_entry list"
  aborting :: bool
  vm_initialized :: bool
  boot_order :: u16
  supports_managed_exit :: bool
  next_boot :: "nat option"
  secondary_ep :: u64
  vm_arch :: arch_vm
  interrupt_desc :: "interrupt_descriptor list"
  vgic :: u64
  ipa_mem_begin :: u64
  ipa_mem_end :: u64

definition zero_mailbox :: mailbox where
  "zero_mailbox =
     \<lparr>mailbox_state = MAILBOX_STATE_EMPTY, mailbox_recv = 0, mailbox_send = 0, recv_sender = 0, recv_size = 0,
      recv_func = 0, waiter_list = [], ready_list = []\<rparr>"

definition zero_arch_vm :: "nat \<Rightarrow> arch_vm" where
  "zero_arch_vm c =
     \<lparr>last_vcpu_on_cpu = replicate c 0, trapped_features = 0, mask_id_aa64mmfr1_el1 = 0, mask_id_aa64pfr0_el1 = 0,
      mask_id_aa64dfr0_el1 = 0, mask_id_aa64isar1_el1 = 0\<rparr>"

text \<open>A VM filled with zeros, where \<open>c\<close> is \<^verbatim>\<open>MAX_CPUS\<close> and \<open>v\<close> is \<^verbatim>\<open>MAX_VMS\<close>.\<close>

definition zero_vm :: "nat \<Rightarrow> nat \<Rightarrow> vm" where
  "zero_vm c v =
     \<lparr>vm_id = 0, vm_uuid = \<lparr>timeLow = 0, timeMid = 0, timeHiAndVersion = 0, clockSeqAndNode = replicate 8 0\<rparr>,
      vm_smc_whitelist = \<lparr>smcs = replicate 32 0, smc_count = 0, permissive = False\<rparr>, vm_held = False,
      vcpu_count = 0, vcpus = replicate c zero_vcpu, vm_ptable = 0, vm_mailbox = zero_mailbox,
      log_buffer = replicate 256 0, log_buffer_length = 0, vm_cpus = replicate c 0,
      wait_entries = replicate v \<lparr>waiting_vm = None, wait_linked = False, ready_linked = False\<rparr>,
      aborting = False, vm_initialized = False, boot_order = 0, supports_managed_exit = False, next_boot = None,
      secondary_ep = 0, vm_arch = zero_arch_vm c,
      interrupt_desc = replicate 64 \<lparr>interrupt_id = 0, type_config_sec_state = 0, desc_priority = 0, desc_valid = False\<rparr>,
      vgic = 0, ipa_mem_begin = 0, ipa_mem_end = 0\<rparr>"

section \<open>The hypervisor\<close>

record ffa_value =
  ffa_func :: u64
  ffa_arg1 :: u64
  ffa_arg2 :: u64
  ffa_arg3 :: u64
  ffa_arg4 :: u64
  ffa_arg5 :: u64
  ffa_arg6 :: u64
  ffa_arg7 :: u64

text \<open>
  Virtual devices, \<^verbatim>\<open>virt_devs.h\<close>. The function pointer \<^verbatim>\<open>access\<close> of a device is the name of its driver. An instance of
  a driver has its spinlock, the memory of its registers and the buffer of characters to print.
\<close>

datatype dev_kind = SANCT_UART | IMX_UART | ANATOP | IOMUX | CLOCK_CTRL

record virt_dev =
  dev_name :: string
  dev_minor :: u8
  addr_start :: u64
  addr_end :: u64
  dev_access :: dev_kind

record dev_inst =
  dev_held :: bool
  dev_regs :: bmem
  tx_buff :: "u8 list"
  tx_head :: nat

text \<open>
  \<open>msr\<close> holds the system registers of the executing CPU and \<open>bytes\<close> the memory and devices it reads and writes
  by address, and \<open>smc_log\<close> the calls made to the firmware. \<open>interrupt_owners\<close> and \<open>gic_spinlock\<close> are \<^verbatim>\<open>interrupts\<close> and \<^verbatim>\<open>spinlock\<close> of \<^verbatim>\<open>emulator.c\<close>.
  \<open>devs\<close> are the active virtual devices, \<open>dev_states\<close> the instances of each driver, \<open>sanct_lpc\<close> is \<^verbatim>\<open>lpc\<close> of \<^verbatim>\<open>flush_tx_buff\<close>, and
  \<open>devs_accessed\<close>, \<open>backing_accessed\<close> are \<^verbatim>\<open>accessed\<close> of \<^verbatim>\<open>init_virt_devs\<close> and \<^verbatim>\<open>init_backing_devs\<close>.
\<close>

record hyp = pma_machine +
  vms :: "vm list"
  vm_count :: u16
  first_boot_vm :: "nat option"
  cpus :: "cpu list"
  cpu_count :: u32
  callstacks :: u64
  msr :: msrs
  vhe :: bool
  bytes :: bmem
  interrupt_owners :: "(nat option \<times> u8) list"
  gic_spinlock :: bool
  el3_psci_version :: u32
  smc_log :: "ffa_value list"
  cpu_entry :: u64
  cpus_addr :: u64
  dlog_st :: dlog_state
  devs :: "virt_dev list"
  dev_states :: "dev_kind \<Rightarrow> dev_inst list"
  sanct_lpc :: u8
  devs_accessed :: bool
  backing_accessed :: bool

definition the_vm :: "nat \<Rightarrow> hyp \<Rightarrow> vm res" where
  "the_vm v s = (if v < length (vms s) then Inr (vms s ! v) else Inl OutOfBounds)"

definition upd_vm :: "nat \<Rightarrow> (vm \<Rightarrow> vm) \<Rightarrow> hyp \<Rightarrow> hyp" where
  "upd_vm v f s = s\<lparr>vms := (vms s)[v := f (vms s ! v)]\<rparr>"

fun the_vcpu :: "vcpu_ptr \<Rightarrow> hyp \<Rightarrow> vcpu res" where
  "the_vcpu (v, i) s =
     (if v < length (vms s) \<and> i < length (vcpus (vms s ! v)) then Inr (vcpus (vms s ! v) ! i) else Inl OutOfBounds)"

fun upd_vcpu :: "vcpu_ptr \<Rightarrow> (vcpu \<Rightarrow> vcpu) \<Rightarrow> hyp \<Rightarrow> hyp" where
  "upd_vcpu (v, i) f s = upd_vm v (\<lambda>V. V\<lparr>vcpus := (vcpus V)[i := f (vcpus V ! i)]\<rparr>) s"

definition the_cpu :: "nat \<Rightarrow> hyp \<Rightarrow> cpu res" where
  "the_cpu c s = (if c < length (cpus s) then Inr (cpus s ! c) else Inl OutOfBounds)"

definition upd_cpu :: "nat \<Rightarrow> (cpu \<Rightarrow> cpu) \<Rightarrow> hyp \<Rightarrow> hyp" where
  "upd_cpu c f s = s\<lparr>cpus := (cpus s)[c := f (cpus s ! c)]\<rparr>"

text \<open>Following a pointer that may be null.\<close>

fun deref :: "'a option \<Rightarrow> 'a res" where
  "deref None = Inl NullPointer"
| "deref (Some x) = Inr x"

definition CHECK :: "bool \<Rightarrow> 'a res \<Rightarrow> 'a res" where
  "CHECK c r = (if c then r else Inl Panic)"

text \<open>\<^verbatim>\<open>vcpu->vm\<close> and what it points to.\<close>

definition vm_of_vcpu :: "vcpu_ptr \<Rightarrow> hyp \<Rightarrow> nat res" where
  "vm_of_vcpu p s = res_bind (the_vcpu p s) (\<lambda>V. deref (vcpu_vm V))"

end
