(* ===== verification/Vcpu.thy ===== *)
theory Vcpu
  imports Vm_State
begin

text \<open>
  Virtual CPUs: locks, registers and their reset (\<^verbatim>\<open>src/arch/aarch64/hypervisor/cpu.c\<close>), the features hidden from a VM
  (\<^verbatim>\<open>hypervisor/feature_id.c\<close>, \<^verbatim>\<open>hypervisor/vm.c\<close>), the virtual timer (\<^verbatim>\<open>src/arch/aarch64/timer.c\<close>) and \<^verbatim>\<open>src/vcpu.c\<close>.
  System registers are named in capitals.
\<close>

unbundle bit_operations_syntax

section \<open>Locks\<close>

definition sl_lock :: "bool \<Rightarrow> bool res" where
  "sl_lock l = (if l then Inl Deadlock else Inr True)"

definition sl_unlock :: "bool \<Rightarrow> bool" where
  "sl_unlock l = False"

definition vcpu_lock :: "vcpu_ptr \<Rightarrow> hyp \<Rightarrow> hyp res" where
  "vcpu_lock p s =
     res_bind (the_vcpu p s) (\<lambda>V. res_bind (sl_lock (vcpu_held V)) (\<lambda>l. Inr (upd_vcpu p (\<lambda>V. V\<lparr>vcpu_held := l\<rparr>) s)))"

definition vcpu_unlock :: "vcpu_ptr \<Rightarrow> hyp \<Rightarrow> hyp" where
  "vcpu_unlock p s = upd_vcpu p (\<lambda>V. V\<lparr>vcpu_held := sl_unlock (vcpu_held V)\<rparr>) s"

text \<open>Virtual CPUs are ordered by address, which is the order of the pairs.\<close>

definition vcpu_lock_both :: "vcpu_ptr \<Rightarrow> vcpu_ptr \<Rightarrow> hyp \<Rightarrow> hyp res" where
  "vcpu_lock_both a b s =
     (if fst a < fst b \<or> fst a = fst b \<and> snd a < snd b then res_bind (vcpu_lock a s) (vcpu_lock b)
      else res_bind (vcpu_lock b s) (vcpu_lock a))"

definition vm_lock :: "nat \<Rightarrow> hyp \<Rightarrow> hyp res" where
  "vm_lock v s =
     res_bind (the_vm v s) (\<lambda>V. res_bind (sl_lock (vm_held V)) (\<lambda>l. Inr (upd_vm v (\<lambda>V. V\<lparr>vm_held := l\<rparr>) s)))"

definition vm_unlock :: "nat \<Rightarrow> hyp \<Rightarrow> hyp" where
  "vm_unlock v s = upd_vm v (\<lambda>V. V\<lparr>vm_held := sl_unlock (vm_held V)\<rparr>) s"

definition vm_lock_both :: "nat \<Rightarrow> nat \<Rightarrow> hyp \<Rightarrow> hyp res" where
  "vm_lock_both a b s =
     (if a < b then res_bind (vm_lock a s) (vm_lock b) else res_bind (vm_lock b s) (vm_lock a))"

section \<open>The virtual timer\<close>

definition CNTV_CTL_EL0_ENABLE :: u64 where "CNTV_CTL_EL0_ENABLE = push_bit 0 1"

definition CNTV_CTL_EL0_IMASK :: u64 where "CNTV_CTL_EL0_IMASK = push_bit 1 1"

definition CNTV_CTL_EL0_ISTATUS :: u64 where "CNTV_CTL_EL0_ISTATUS = push_bit 2 1"

definition NANOS_PER_UNIT :: u64 where "NANOS_PER_UNIT = 1000000000"

definition arch_timer_mask :: "arch_regs \<Rightarrow> arch_regs" where
  "arch_timer_mask r = r\<lparr>cntv_ctl_el0 := cntv_ctl_el0 r OR CNTV_CTL_EL0_IMASK\<rparr>"

definition arch_timer_enabled :: "arch_regs \<Rightarrow> bool" where
  "arch_timer_enabled r \<longleftrightarrow>
     cntv_ctl_el0 r AND CNTV_CTL_EL0_ENABLE \<noteq> 0 \<and> \<not> (cntv_ctl_el0 r AND CNTV_CTL_EL0_IMASK \<noteq> 0)"

definition ticks_to_ns :: "u64 \<Rightarrow> msrs \<Rightarrow> u64 res" where
  "ticks_to_ns ticks m =
     (if m ''CNTFRQ_EL0'' = 0 then Inl DivByZero else Inr (ticks * NANOS_PER_UNIT div m ''CNTFRQ_EL0''))"

definition arch_timer_remaining_ticks :: "arch_regs \<Rightarrow> msrs \<Rightarrow> u64" where
  "arch_timer_remaining_ticks r m =
     (if cntv_cval_el0 r \<ge> m ''CNTVCT_EL0'' then cntv_cval_el0 r - m ''CNTVCT_EL0'' else 0)"

definition arch_timer_remaining_ns :: "arch_regs \<Rightarrow> msrs \<Rightarrow> u64 res" where
  "arch_timer_remaining_ns r m = ticks_to_ns (arch_timer_remaining_ticks r m) m"

definition arch_timer_pending :: "arch_regs \<Rightarrow> msrs \<Rightarrow> bool" where
  "arch_timer_pending r m \<longleftrightarrow>
     (if \<not> arch_timer_enabled r then False
      else if cntv_ctl_el0 r AND CNTV_CTL_EL0_ISTATUS \<noteq> 0 then True
      else if arch_timer_remaining_ticks r m = 0 then True else False)"

definition arch_timer_enabled_current :: "hyp \<Rightarrow> bool" where
  "arch_timer_enabled_current s \<longleftrightarrow>
     (let ctl = msr s (if has_vhe_support (vhe s) (msr s) then ''CNTV_CTL_EL02'' else ''CNTV_CTL_EL0'')
      in ctl AND CNTV_CTL_EL0_ENABLE \<noteq> 0 \<and> \<not> (ctl AND CNTV_CTL_EL0_IMASK \<noteq> 0))"

definition write_msr :: "string \<Rightarrow> u64 \<Rightarrow> hyp \<Rightarrow> hyp" where
  "write_msr n v s = s\<lparr>msr := (msr s)(n := v)\<rparr>"

definition arch_timer_disable_current :: "hyp \<Rightarrow> hyp" where
  "arch_timer_disable_current s =
     (if has_vhe_support (vhe s) (msr s) then write_msr ''CNTV_CTL_EL02'' 0 s else write_msr ''CNTV_CTL_EL0'' 0 s)"

definition arch_timer_remaining_ticks_current :: "hyp \<Rightarrow> u64" where
  "arch_timer_remaining_ticks_current s =
     (let cval = msr s (if has_vhe_support (vhe s) (msr s) then ''CNTV_CVAL_EL02'' else ''CNTV_CVAL_EL0'');
          cnt = msr s ''CNTVCT_EL0''
      in if cval \<ge> cnt then cval - cnt else 0)"

definition arch_timer_remaining_ns_current :: "hyp \<Rightarrow> u64 res" where
  "arch_timer_remaining_ns_current s = ticks_to_ns (arch_timer_remaining_ticks_current s) (msr s)"

section \<open>Features hidden from a VM\<close>

definition PG_FEATURE_RAS :: u64 where "PG_FEATURE_RAS = 1"

definition PG_FEATURE_LOR :: u64 where "PG_FEATURE_LOR = push_bit 1 1"

definition PG_FEATURE_PERFMON :: u64 where "PG_FEATURE_PERFMON = push_bit 2 1"

definition PG_FEATURE_DEBUG :: u64 where "PG_FEATURE_DEBUG = push_bit 3 1"

definition PG_FEATURE_SPE :: u64 where "PG_FEATURE_SPE = push_bit 4 1"

definition PG_FEATURE_TRACE :: u64 where "PG_FEATURE_TRACE = push_bit 5 1"

definition PG_FEATURE_PAUTH :: u64 where "PG_FEATURE_PAUTH = push_bit 6 1"

definition PG_FEATURE_ALL :: u64 where "PG_FEATURE_ALL = push_bit 1 PG_FEATURE_PAUTH - 1"

definition ID_AA64MMFR1_EL1_SPEC_SEI :: u64 where "ID_AA64MMFR1_EL1_SPEC_SEI = push_bit 24 0xf"

definition ID_AA64MMFR1_EL1_LO :: u64 where "ID_AA64MMFR1_EL1_LO = push_bit 24 0xf"

definition ID_AA64DFR0_EL1_TRACE_FILT :: u64 where "ID_AA64DFR0_EL1_TRACE_FILT = push_bit 40 0xf"

definition ID_AA64DFR0_EL1_DOUBLE_LOCK :: u64 where "ID_AA64DFR0_EL1_DOUBLE_LOCK = push_bit 36 0xf"

definition ID_AA64DFR0_EL1_PMS_VER :: u64 where "ID_AA64DFR0_EL1_PMS_VER = push_bit 32 0xf"

definition ID_AA64DFR0_EL1_PMU_VER :: u64 where "ID_AA64DFR0_EL1_PMU_VER = push_bit 8 0xf"

definition ID_AA64DFR0_EL1_TRACE_VER :: u64 where "ID_AA64DFR0_EL1_TRACE_VER = push_bit 4 0xf"

definition ID_AA64ISAR1_EL1_GPI :: u64 where "ID_AA64ISAR1_EL1_GPI = push_bit 28 0xf"

definition ID_AA64ISAR1_EL1_GPA :: u64 where "ID_AA64ISAR1_EL1_GPA = push_bit 24 0xf"

definition ID_AA64ISAR1_EL1_API :: u64 where "ID_AA64ISAR1_EL1_API = push_bit 8 0xf"

definition ID_AA64ISAR1_EL1_APA :: u64 where "ID_AA64ISAR1_EL1_APA = push_bit 24 0xf"

definition upd_lazy :: "string \<Rightarrow> (u64 \<Rightarrow> u64) \<Rightarrow> arch_regs \<Rightarrow> arch_regs" where
  "upd_lazy n f r = r\<lparr>regs_lazy := (regs_lazy r)(n := f (regs_lazy r n))\<rparr>"

text \<open>\<open>when_feature\<close> is the body of \<^verbatim>\<open>if (features & ...)\<close>.\<close>

definition when_feature ::
  "u64 \<Rightarrow> u64 \<Rightarrow> (arch_vm \<times> arch_regs \<Rightarrow> arch_vm \<times> arch_regs) \<Rightarrow> arch_vm \<times> arch_regs \<Rightarrow> arch_vm \<times> arch_regs" where
  "when_feature features x f = (if features AND x \<noteq> 0 then f else (\<lambda>y. y))"

definition trap_ras :: "arch_vm \<times> arch_regs \<Rightarrow> arch_vm \<times> arch_regs" where
  "trap_ras = (\<lambda>(a, r).
     (a\<lparr>mask_id_aa64mmfr1_el1 := mask_id_aa64mmfr1_el1 a AND NOT ID_AA64MMFR1_EL1_SPEC_SEI,
        mask_id_aa64pfr0_el1 := mask_id_aa64pfr0_el1 a AND NOT ID_AA64PFR0_EL1_RAS\<rparr>,
      r\<lparr>regs_hcr_el2 := regs_hcr_el2 r OR HCR_EL2_TERR\<rparr>))"

definition trap_spe :: "arch_vm \<times> arch_regs \<Rightarrow> arch_vm \<times> arch_regs" where
  "trap_spe = (\<lambda>(a, r).
     (a\<lparr>mask_id_aa64dfr0_el1 := mask_id_aa64dfr0_el1 a AND NOT ID_AA64DFR0_EL1_PMS_VER\<rparr>,
      upd_lazy ''mdcr_el2'' (\<lambda>x. (x OR MDCR_EL2_TPMS) AND NOT MDCR_EL2_E2PB) r))"

definition trap_debug :: "arch_vm \<times> arch_regs \<Rightarrow> arch_vm \<times> arch_regs" where
  "trap_debug = (\<lambda>(a, r).
     (a\<lparr>mask_id_aa64dfr0_el1 := mask_id_aa64dfr0_el1 a AND NOT ID_AA64DFR0_EL1_DOUBLE_LOCK\<rparr>,
      upd_lazy ''mdcr_el2'' (\<lambda>x. x OR (MDCR_EL2_TDRA OR MDCR_EL2_TDOSA OR MDCR_EL2_TDA)) r))"

definition trap_trace :: "arch_vm \<times> arch_regs \<Rightarrow> arch_vm \<times> arch_regs" where
  "trap_trace = (\<lambda>(a, r).
     (a\<lparr>mask_id_aa64dfr0_el1 :=
          mask_id_aa64dfr0_el1 a AND NOT ID_AA64DFR0_EL1_TRACE_FILT AND NOT ID_AA64DFR0_EL1_TRACE_VER\<rparr>,
      upd_lazy ''mdcr_el2'' (\<lambda>x. x OR MDCR_EL2_TTRF) r))"

definition trap_perfmon :: "arch_vm \<times> arch_regs \<Rightarrow> arch_vm \<times> arch_regs" where
  "trap_perfmon = (\<lambda>(a, r).
     (a\<lparr>mask_id_aa64dfr0_el1 := mask_id_aa64dfr0_el1 a AND NOT ID_AA64DFR0_EL1_PMU_VER\<rparr>,
      upd_lazy ''mdcr_el2'' (\<lambda>x. x OR (MDCR_EL2_TPM OR MDCR_EL2_TPMCR)) r))"

definition trap_lor :: "arch_vm \<times> arch_regs \<Rightarrow> arch_vm \<times> arch_regs" where
  "trap_lor = (\<lambda>(a, r).
     (a\<lparr>mask_id_aa64mmfr1_el1 := mask_id_aa64mmfr1_el1 a AND NOT ID_AA64MMFR1_EL1_LO\<rparr>,
      r\<lparr>regs_hcr_el2 := regs_hcr_el2 r OR HCR_EL2_TLOR\<rparr>))"

definition trap_pauth :: "arch_vm \<times> arch_regs \<Rightarrow> arch_vm \<times> arch_regs" where
  "trap_pauth = (\<lambda>(a, r).
     (a\<lparr>mask_id_aa64isar1_el1 :=
          mask_id_aa64isar1_el1 a AND NOT ID_AA64ISAR1_EL1_GPI AND NOT ID_AA64ISAR1_EL1_GPA
            AND NOT ID_AA64ISAR1_EL1_API AND NOT ID_AA64ISAR1_EL1_APA\<rparr>,
      r\<lparr>regs_hcr_el2 := regs_hcr_el2 r AND NOT (HCR_EL2_APK OR HCR_EL2_API)\<rparr>))"

definition feature_set_traps :: "arch_vm \<Rightarrow> arch_regs \<Rightarrow> (arch_vm \<times> arch_regs) res" where
  "feature_set_traps a r =
     (let features = trapped_features a in
      if features AND NOT PG_FEATURE_ALL \<noteq> 0 then Inl Panic else
      let a0 = a\<lparr>mask_id_aa64mmfr1_el1 := NOT 0 AND NOT (push_bit ID_AA64MMFR1_EL1_VH_SHIFT ID_AA64MMFR1_EL1_VH_MASK),
                 mask_id_aa64pfr0_el1 := NOT 0, mask_id_aa64dfr0_el1 := NOT 0, mask_id_aa64isar1_el1 := NOT 0\<rparr>
      in Inr (when_feature features PG_FEATURE_PAUTH trap_pauth
               (when_feature features PG_FEATURE_LOR trap_lor
                 (when_feature features PG_FEATURE_PERFMON trap_perfmon
                   (when_feature features PG_FEATURE_TRACE trap_trace
                     (when_feature features PG_FEATURE_DEBUG trap_debug
                       (when_feature features PG_FEATURE_SPE trap_spe
                         (when_feature features PG_FEATURE_RAS trap_ras (a0, r)))))))))"

definition arch_vm_features_set :: "vm \<Rightarrow> vm" where
  "arch_vm_features_set V =
     (let f = trapped_features (vm_arch V) OR PG_FEATURE_LOR OR PG_FEATURE_SPE OR PG_FEATURE_TRACE OR PG_FEATURE_DEBUG;
          f' = (if vm_id V \<noteq> PG_PRIMARY_VM_ID then f OR PG_FEATURE_PERFMON OR PG_FEATURE_RAS OR PG_FEATURE_PAUTH else f)
      in V\<lparr>vm_arch := (vm_arch V)\<lparr>trapped_features := f'\<rparr>\<rparr>)"

section \<open>Registers\<close>

definition arch_regs_set_pc_arg :: "u64 \<Rightarrow> u64 \<Rightarrow> arch_regs \<Rightarrow> arch_regs" where
  "arch_regs_set_pc_arg pc arg r = r\<lparr>regs_pc := pc, regs_r := (regs_r r)[0 := arg]\<rparr>"

definition arch_regs_set_retval :: "ffa_value \<Rightarrow> arch_regs \<Rightarrow> arch_regs" where
  "arch_regs_set_retval v r =
     r\<lparr>regs_r := (regs_r r)[0 := ffa_func v, 1 := ffa_arg1 v, 2 := ffa_arg2 v, 3 := ffa_arg3 v, 4 := ffa_arg4 v,
                            5 := ffa_arg5 v, 6 := ffa_arg6 v, 7 := ffa_arg7 v]\<rparr>"

definition arch_regs_get_args :: "arch_regs \<Rightarrow> ffa_value" where
  "arch_regs_get_args r =
     \<lparr>ffa_func = regs_r r ! 0, ffa_arg1 = regs_r r ! 1, ffa_arg2 = regs_r r ! 2, ffa_arg3 = regs_r r ! 3,
      ffa_arg4 = regs_r r ! 4, ffa_arg5 = regs_r r ! 5, ffa_arg6 = regs_r r ! 6, ffa_arg7 = regs_r r ! 7\<rparr>"

definition PMCCFILTR_EL0_P :: u64 where "PMCCFILTR_EL0_P = 0x80000000"

definition PMCCFILTR_EL0_U :: u64 where "PMCCFILTR_EL0_U = 0x40000000"

definition perfmon_get_pmccfiltr_el0_init_value :: "u16 \<Rightarrow> u64" where
  "perfmon_get_pmccfiltr_el0_init_value vmid =
     (if vmid \<noteq> PG_PRIMARY_VM_ID then PMCCFILTR_EL0_P OR PMCCFILTR_EL0_U else 0)"

definition gic_regs_reset :: "arch_regs \<Rightarrow> bool \<Rightarrow> arch_regs" where
  "gic_regs_reset r is_primary =
     (let sre = push_bit 0 1 OR push_bit 1 0x3 in
      if is_primary then r\<lparr>ich_hcr_el2 := push_bit 10 1, icc_sre_el2 := sre OR push_bit 3 1\<rparr>
      else r\<lparr>ich_hcr_el2 := push_bit 10 0x1f, icc_sre_el2 := sre\<rparr>)"

text \<open>\<^verbatim>\<open>vcpu - vcpu->vm->vcpus\<close> is defined if the virtual CPU is an element of that array.\<close>

definition vcpu_index :: "vcpu_ptr \<Rightarrow> hyp \<Rightarrow> u16 res" where
  "vcpu_index p s =
     res_bind (vm_of_vcpu p s) (\<lambda>v.
       if v \<noteq> fst p then Inl OutOfBounds else CHECK (snd p < 65535) (Inr (word_of_nat (snd p))))"

definition reset_cnthctl :: "bool \<Rightarrow> bool \<Rightarrow> u64" where
  "reset_cnthctl is_primary has_vhe =
     (if is_primary then if has_vhe then push_bit 10 1 OR push_bit 11 1 else push_bit 0 1 OR push_bit 1 1 else 0)"

definition reset_vcpu_id :: "vcpu_ptr \<Rightarrow> vcpu \<Rightarrow> bool \<Rightarrow> hyp \<Rightarrow> u64 res" where
  "reset_vcpu_id p V is_primary s =
     (if is_primary then res_bind (deref (vcpu_cpu V)) (\<lambda>c. res_bind (the_cpu c s) (\<lambda>C. Inr (cpu_id C)))
      else res_bind (vcpu_index p s) (\<lambda>i. Inr (ucast i)))"

definition reset_regs :: "arch_regs \<Rightarrow> u16 \<Rightarrow> u64 \<Rightarrow> u64 \<Rightarrow> hyp \<Rightarrow> arch_regs" where
  "reset_regs r vmid table vid s =
     (let is_primary = (vmid = PG_PRIMARY_VM_ID)
      in upd_lazy ''pmccfiltr_el0'' (\<lambda>_. perfmon_get_pmccfiltr_el0_init_value vmid)
          (upd_lazy ''mdscr_el1'' (\<lambda>_. 0 AND NOT (push_bit 15 1))
            (upd_lazy ''mdcr_el2'' (\<lambda>_. get_mdcr_el2_value (msr s))
              (upd_lazy ''vmpidr_el2'' (\<lambda>_. vid)
                (upd_lazy ''vttbr_el2'' (\<lambda>_. table OR push_bit 48 (ucast vmid))
                  (upd_lazy ''cnthctl_el2'' (\<lambda>_. reset_cnthctl is_primary (has_vhe_support (vhe s) (msr s)))
                    (zero_regs\<lparr>regs_pc := regs_pc r, regs_r := (regs_r zero_regs)[0 := regs_r r ! 0],
                       regs_hcr_el2 := get_hcr_el2_value (vhe s) (msr s) PG_PRIMARY_VM_ID,
                       regs_spsr := PSR_D OR PSR_A OR PSR_I OR PSR_F OR PSR_PE_MODE_EL1H\<rparr>)))))))"

definition arch_regs_reset :: "vcpu_ptr \<Rightarrow> hyp \<Rightarrow> hyp res" where
  "arch_regs_reset p s =
     res_bind (the_vcpu p s) (\<lambda>V.
     res_bind (deref (vcpu_vm V)) (\<lambda>v.
     res_bind (the_vm v s) (\<lambda>W.
     res_bind (reset_vcpu_id p V (vm_id W = PG_PRIMARY_VM_ID) s) (\<lambda>vid.
     res_bind (feature_set_traps (vm_arch W) (reset_regs (vcpu_regs V) (vm_id W) (vm_ptable W) vid s)) (\<lambda>(a, r).
     Inr (upd_vcpu p (\<lambda>V. V\<lparr>vcpu_regs := gic_regs_reset r True\<rparr>) (upd_vm v (\<lambda>W. W\<lparr>vm_arch := a\<rparr>) s)))))))"

section \<open>\<^verbatim>\<open>vcpu.c\<close>\<close>

definition vcpu_init :: "vcpu_ptr \<Rightarrow> nat \<Rightarrow> hyp \<Rightarrow> hyp" where
  "vcpu_init p v s =
     upd_vcpu p (\<lambda>_. zero_vcpu\<lparr>vcpu_held := False, regs_available := True, vcpu_vm := Some v, vcpu_state := VCPU_STATE_OFF\<rparr>) s"

definition vcpu_on :: "vcpu_ptr \<Rightarrow> u64 \<Rightarrow> u64 \<Rightarrow> hyp \<Rightarrow> hyp" where
  "vcpu_on p entry arg s =
     upd_vcpu p (\<lambda>V. V\<lparr>vcpu_regs := arch_regs_set_pc_arg entry arg (vcpu_regs V), vcpu_state := VCPU_STATE_READY\<rparr>) s"

definition vcpu_is_off :: "vcpu \<Rightarrow> bool" where
  "vcpu_is_off V = (case vcpu_state V of VCPU_STATE_OFF \<Rightarrow> True | _ \<Rightarrow> False)"

definition vcpu_secondary_reset_and_start :: "vcpu_ptr \<Rightarrow> u64 \<Rightarrow> u64 \<Rightarrow> hyp \<Rightarrow> (bool \<times> hyp) res" where
  "vcpu_secondary_reset_and_start p entry arg s =
     res_bind (the_vcpu p s) (\<lambda>V.
     res_bind (deref (vcpu_vm V)) (\<lambda>v.
     res_bind (the_vm v s) (\<lambda>W.
     CHECK (vm_id W \<noteq> PG_PRIMARY_VM_ID)
       (if vcpu_is_off V then res_bind (arch_regs_reset p s) (\<lambda>s'. Inr (True, vcpu_on p entry arg s'))
        else Inr (False, s)))))"

definition vcpu_handle_page_fault :: "vcpu_ptr \<Rightarrow> vcpu_fault_info \<Rightarrow> hyp \<Rightarrow> (bool \<times> hyp) res" where
  "vcpu_handle_page_fault p f s =
     res_bind (vm_of_vcpu p s) (\<lambda>v.
     res_bind (vm_lock v s) (\<lambda>s1.
     res_bind (mm_vm_get_mode (vm_ptable (vms s1 ! v)) (fault_ipaddr f) (fault_ipaddr f + 1) s1) (\<lambda>mode.
     let resume = (case mode of None \<Rightarrow> False | Some m \<Rightarrow> m AND (fault_mode f OR MM_MODE_INVALID) = fault_mode f);
         s2 = vm_unlock v s1
     in if resume then Inr (True, s2) else res_bind (vcpu_index p s2) (\<lambda>_. Inr (False, s2)))))"

section \<open>Counters of enabled and pending interrupts, \<^verbatim>\<open>vcpu.h\<close>\<close>

definition vcpu_irq_count_increment :: "interrupts \<Rightarrow> interrupts" where
  "vcpu_irq_count_increment I = I\<lparr>enabled_and_pending_irq_count := enabled_and_pending_irq_count I + 1\<rparr>"

definition vcpu_irq_count_decrement :: "interrupts \<Rightarrow> interrupts" where
  "vcpu_irq_count_decrement I = I\<lparr>enabled_and_pending_irq_count := enabled_and_pending_irq_count I - 1\<rparr>"

definition vcpu_fiq_count_increment :: "interrupts \<Rightarrow> interrupts" where
  "vcpu_fiq_count_increment I = I\<lparr>enabled_and_pending_fiq_count := enabled_and_pending_fiq_count I + 1\<rparr>"

definition vcpu_fiq_count_decrement :: "interrupts \<Rightarrow> interrupts" where
  "vcpu_fiq_count_decrement I = I\<lparr>enabled_and_pending_fiq_count := enabled_and_pending_fiq_count I - 1\<rparr>"

definition vcpu_interrupt_irq_count_get :: "interrupts \<Rightarrow> u32" where
  "vcpu_interrupt_irq_count_get I = enabled_and_pending_irq_count I"

definition vcpu_interrupt_fiq_count_get :: "interrupts \<Rightarrow> u32" where
  "vcpu_interrupt_fiq_count_get I = enabled_and_pending_fiq_count I"

definition vcpu_interrupt_count_get :: "interrupts \<Rightarrow> u32" where
  "vcpu_interrupt_count_get I = enabled_and_pending_irq_count I + enabled_and_pending_fiq_count I"

end
