(* ===== verification/Vm.thy ===== *)
theory Vm
  imports Vcpu
begin

text \<open>
  The tables of CPUs and VMs: \<^verbatim>\<open>src/cpu.c\<close> and \<^verbatim>\<open>src/vm.c\<close>, with the functions of \<^verbatim>\<open>src/mm.c\<close> that reserve what they
  map in the table of the hypervisor. \<^verbatim>\<open>plat_iommu_identity_map\<close> (\<^verbatim>\<open>src/iommu/absent.c\<close>) has no effect; the cache
  maintenance at the end of \<^verbatim>\<open>cpu_module_init\<close> has none on this state. The bounds \<^verbatim>\<open>layout_text_begin()\<close> and so
  on, which the linker fixes, are arguments.
\<close>

unbundle bit_operations_syntax

section \<open>\<^verbatim>\<open>vm.c\<close>: finding VMs\<close>

definition PG_VM_ID_OFFSET :: u16 where "PG_VM_ID_OFFSET = 1"

definition vm_get_count :: "hyp \<Rightarrow> u16" where
  "vm_get_count s = vm_count s"

definition vm_find_index :: "u16 \<Rightarrow> hyp \<Rightarrow> nat option" where
  "vm_find_index index s =
     (if index \<ge> vm_count s \<or> unat index \<ge> length (vms s) then None else Some (unat index))"

definition vm_find :: "u16 \<Rightarrow> hyp \<Rightarrow> nat option" where
  "vm_find vmid s = (if vmid < PG_VM_ID_OFFSET then None else vm_find_index (vmid - PG_VM_ID_OFFSET) s)"

definition vm_find_uuid :: "uuid \<Rightarrow> hyp \<Rightarrow> nat option" where
  "vm_find_uuid u s =
     find (\<lambda>i. uuid_is_equal u (vm_uuid (vms s ! i)))
       [0..<(if unat (vm_count s) > length (vms s) then length (vms s) else unat (vm_count s))]"

definition vm_get_vcpu :: "nat \<Rightarrow> u16 \<Rightarrow> hyp \<Rightarrow> vcpu_ptr res" where
  "vm_get_vcpu v index s =
     res_bind (the_vm v s) (\<lambda>V.
     CHECK (unat (vcpu_count V) \<le> length (cpus s)) (CHECK (index < vcpu_count V) (Inr (v, unat index))))"

definition vm_get_first_boot :: "hyp \<Rightarrow> nat option" where
  "vm_get_first_boot s = first_boot_vm s"

text \<open>The loop \<^verbatim>\<open>for (a = 0; a < vcpu_count; a++)\<close> over the CPUs of a VM: the first index whose CPU is \<open>cid\<close>.\<close>

primrec find_cpu_id :: "u64 \<Rightarrow> nat list \<Rightarrow> u64 list \<Rightarrow> nat option res" where
  "find_cpu_id cid [] xs = Inr None"
| "find_cpu_id cid (a # as) xs =
     (if a < length xs then if xs ! a = cid then Inr (Some a) else find_cpu_id cid as xs else Inl OutOfBounds)"

definition cpu_of_vm :: "u64 \<Rightarrow> vm \<Rightarrow> nat option res" where
  "cpu_of_vm cid V = find_cpu_id cid [0..<unat (vcpu_count V)] (vm_cpus V)"

primrec vm_from_cpu_loop :: "u64 \<Rightarrow> nat list \<Rightarrow> hyp \<Rightarrow> nat option res" where
  "vm_from_cpu_loop cid [] s = Inr None"
| "vm_from_cpu_loop cid (i # is) s =
     res_bind (deref (vm_find_index (word_of_nat i) s)) (\<lambda>v.
     res_bind (cpu_of_vm cid (vms s ! v)) (\<lambda>r.
     case r of Some _ \<Rightarrow> Inr (Some v) | None \<Rightarrow> vm_from_cpu_loop cid is s))"

definition vm_find_from_cpu :: "nat \<Rightarrow> hyp \<Rightarrow> nat option res" where
  "vm_find_from_cpu c s =
     res_bind (the_cpu c s) (\<lambda>C.
     if cpu_id C = 0 then Inr (vm_get_first_boot s)
     else vm_from_cpu_loop (cpu_id C) [0..<unat (vm_get_count s)] s)"

primrec local_cpu_index_loop :: "u64 \<Rightarrow> nat list \<Rightarrow> hyp \<Rightarrow> u16 res" where
  "local_cpu_index_loop cid [] s = Inr (- 1)"
| "local_cpu_index_loop cid (i # is) s =
     (case vm_find_index (word_of_nat i) s of
        None \<Rightarrow> Inr (- 1)
      | Some v \<Rightarrow>
          res_bind (cpu_of_vm cid (vms s ! v)) (\<lambda>r.
          case r of Some j \<Rightarrow> Inr (word_of_nat j) | None \<Rightarrow> local_cpu_index_loop cid is s))"

definition vm_local_cpu_index :: "nat \<Rightarrow> hyp \<Rightarrow> u16 res" where
  "vm_local_cpu_index c s =
     res_bind (the_cpu c s) (\<lambda>C. local_cpu_index_loop (cpu_id C) [0..<unat (vm_get_count s)] s)"

definition vm_get_wait_entry :: "u16 \<Rightarrow> hyp \<Rightarrow> nat res" where
  "vm_get_wait_entry for_vm s =
     CHECK (for_vm \<ge> PG_VM_ID_OFFSET)
       (CHECK (unat (for_vm - PG_VM_ID_OFFSET) < length (vms s)) (Inr (unat (for_vm - PG_VM_ID_OFFSET))))"

definition vm_id_for_wait_entry :: "nat \<Rightarrow> u16" where
  "vm_id_for_wait_entry entry = word_of_nat entry + PG_VM_ID_OFFSET"

section \<open>\<^verbatim>\<open>cpu.c\<close>\<close>

definition STACK_SIZE :: u64 where "STACK_SIZE = 8192"

text \<open>\<^verbatim>\<open>&callstacks[i][STACK_SIZE]\<close>\<close>

definition stack_of :: "nat \<Rightarrow> hyp \<Rightarrow> u64" where
  "stack_of i s = callstacks s + word_of_nat (Suc i) * STACK_SIZE"

text \<open>One round of the loop of \<^verbatim>\<open>cpu_module_init\<close>, with \<^verbatim>\<open>found_boot_cpu\<close>.\<close>

definition cpu_module_init_step :: "u64 list \<Rightarrow> u64 \<Rightarrow> nat \<Rightarrow> bool \<times> hyp \<Rightarrow> (bool \<times> hyp) res" where
  "cpu_module_init_step cpu_ids boot_cpu_id i = (\<lambda>(found, s).
     if \<not> i < length cpu_ids then Inl OutOfBounds else
     let cid = cpu_ids ! i in
     if found \<or> cid \<noteq> boot_cpu_id
     then res_bind (the_cpu i s) (\<lambda>_.
          Inr (found, upd_cpu i (\<lambda>C. C\<lparr>stack_bottom := stack_of i s, cpu_held := False, cpu_id := cid, is_assigned := False\<rparr>) s))
     else res_bind (the_cpu 0 s) (\<lambda>C.
          CHECK (stack_bottom C = stack_of 0 s)
            (Inr (True, upd_cpu 0 (\<lambda>C. C\<lparr>cpu_held := False, cpu_id := cid, is_assigned := False\<rparr>) s))))"

definition cpu_module_init :: "u64 list \<Rightarrow> u64 \<Rightarrow> hyp \<Rightarrow> hyp res" where
  "cpu_module_init cpu_ids n s =
     res_bind (the_cpu 0 s) (\<lambda>C.
     let s1 = s\<lparr>cpu_count := ucast n\<rparr>; boot = cpu_id C in
     res_bind (fold_res (cpu_module_init_step cpu_ids boot) [0..<unat (cpu_count s1)] (False, s1)) (\<lambda>(found, s2).
     Inr (if \<not> found then upd_cpu 0 (\<lambda>C. C\<lparr>cpu_id := boot\<rparr>) s2 else s2)))"

definition cpu_index :: "nat \<Rightarrow> nat" where
  "cpu_index c = c"

definition cpu_find_index :: "u64 \<Rightarrow> hyp \<Rightarrow> nat option" where
  "cpu_find_index index s = (if unat index < length (cpus s) then Some (unat index) else None)"

definition cpu_on :: "nat \<Rightarrow> u64 \<Rightarrow> u64 \<Rightarrow> hyp \<Rightarrow> (bool \<times> hyp) res" where
  "cpu_on c entry arg s =
     res_bind (the_cpu c s) (\<lambda>C.
     res_bind (sl_lock (cpu_held C)) (\<lambda>l.
     let prev = is_on C; s1 = upd_cpu c (\<lambda>C. C\<lparr>is_on := True, cpu_held := sl_unlock l\<rparr>) s in
     if prev then Inr (prev, s1) else
     res_bind (vm_find_from_cpu c s1) (\<lambda>vm.
     res_bind (vm_local_cpu_index c s1) (\<lambda>index.
     if index = - 1 then Inr (prev, s1) else
     res_bind (deref vm) (\<lambda>v.
     res_bind (vm_get_vcpu v index s1) (\<lambda>p.
     res_bind (vcpu_lock p s1) (\<lambda>s2.
     Inr (prev, vcpu_unlock p (vcpu_on p entry arg s2)))))))))"

definition cpu_off :: "nat \<Rightarrow> hyp \<Rightarrow> hyp res" where
  "cpu_off c s =
     res_bind (the_cpu c s) (\<lambda>C.
     res_bind (sl_lock (cpu_held C)) (\<lambda>l.
     Inr (upd_cpu c (\<lambda>C. C\<lparr>is_on := False, cpu_held := sl_unlock l\<rparr>) s)))"

definition cpu_find :: "u64 \<Rightarrow> hyp \<Rightarrow> nat option" where
  "cpu_find cid s =
     find (\<lambda>i. cpu_id (cpus s ! i) = cid)
       [0..<(if unat (cpu_count s) > length (cpus s) then length (cpus s) else unat (cpu_count s))]"

definition cpu_get_next :: "hyp \<Rightarrow> nat option \<times> hyp" where
  "cpu_get_next s =
     (case find (\<lambda>i. \<not> is_assigned (cpus s ! i)) [0..<length (cpus s)] of
        None \<Rightarrow> (None, s)
      | Some i \<Rightarrow> (Some i, upd_cpu i (\<lambda>C. C\<lparr>is_assigned := True\<rparr>) s))"

section \<open>\<^verbatim>\<open>vm.c\<close>: creating VMs\<close>

definition vm_init_waiters :: "nat \<Rightarrow> hyp \<Rightarrow> hyp" where
  "vm_init_waiters v s =
     upd_vm v (\<lambda>V. V\<lparr>wait_entries := replicate (length (vms s)) \<lparr>waiting_vm = Some v, wait_linked = False, ready_linked = False\<rparr>\<rparr>) s"

definition vm_init_vcpu :: "nat \<Rightarrow> nat \<Rightarrow> hyp \<Rightarrow> hyp res" where
  "vm_init_vcpu v i s = res_bind (vm_get_vcpu v (word_of_nat i) s) (\<lambda>p. Inr (vcpu_init p v s))"

text \<open>The loop that assigns physical CPUs; the result is false if a CPU is not found.\<close>

primrec vm_assign_cpus :: "nat \<Rightarrow> u32 list \<Rightarrow> nat list \<Rightarrow> hyp \<Rightarrow> (bool \<times> hyp) res" where
  "vm_assign_cpus v ids [] s = Inr (True, s)"
| "vm_assign_cpus v ids (i # is) s =
     (if \<not> i < length ids then Inl OutOfBounds else
      case cpu_find (ucast (ids ! i)) s of
        None \<Rightarrow> Inr (False, s)
      | Some c \<Rightarrow>
          vm_assign_cpus v ids is
            (upd_cpu c (\<lambda>C. C\<lparr>is_assigned := True\<rparr>)
              (upd_vm v (\<lambda>V. V\<lparr>vm_cpus := (vm_cpus V)[i := cpu_id (cpus s ! c)]\<rparr>) s)))"

definition vm_init :: "u16 \<Rightarrow> u16 \<Rightarrow> u16 \<Rightarrow> u32 list \<Rightarrow> nat \<Rightarrow> hyp \<Rightarrow> (nat option \<times> hyp) res" where
  "vm_init vmid vcpu_cnt pcpu_cnt ids ppool s =
     (if unat vcpu_cnt > length (cpus s) then Inr (None, s)
      else if vcpu_cnt > pcpu_cnt then Inr (None, s)
      else if vmid < PG_VM_ID_OFFSET then Inr (None, s)
      else
      let v = unat (vmid - PG_VM_ID_OFFSET) in
      if v > length (vms s) then Inr (None, s)
      else
      res_bind (the_vm v s) (\<lambda>_.
      let s1 = upd_vm v (\<lambda>_. (zero_vm (length (cpus s)) (length (vms s)))\<lparr>vm_id := vmid, vcpu_count := vcpu_cnt\<rparr>) s in
      res_bind (mm_vm_init ppool s1) (\<lambda>(root, s2).
      case root of
        None \<Rightarrow> Inr (None, s2)
      | Some t \<Rightarrow>
          res_bind (fold_res (vm_init_vcpu v) [0..<unat vcpu_cnt] (vm_init_waiters v (upd_vm v (\<lambda>V. V\<lparr>vm_ptable := t\<rparr>) s2))) (\<lambda>s3.
          res_bind (vm_assign_cpus v ids [0..<unat vcpu_cnt] s3) (\<lambda>(ok, s4).
          Inr (if ok then Some v else None, s4))))))"

text \<open>The second component of the result is what is stored through \<^verbatim>\<open>new_vm\<close>, if anything is.\<close>

definition vm_init_next :: "u16 \<Rightarrow> u16 \<Rightarrow> u32 list \<Rightarrow> nat \<Rightarrow> hyp \<Rightarrow> (bool \<times> nat option option \<times> hyp) res" where
  "vm_init_next vcpu_cnt pcpu_cnt ids ppool s =
     (if unat (vm_count s) \<ge> length (vms s) then Inr (False, None, s)
      else if vcpu_cnt > pcpu_cnt then Inr (False, None, s)
      else
      res_bind (vm_init (vm_count s + PG_VM_ID_OFFSET) vcpu_cnt pcpu_cnt ids ppool s) (\<lambda>(new_vm, s1).
      case new_vm of
        None \<Rightarrow> Inr (False, Some None, s1)
      | Some v \<Rightarrow> Inr (True, Some (Some v), s1\<lparr>vm_count := vm_count s1 + 1\<rparr>)))"

section \<open>\<^verbatim>\<open>vm.c\<close>: the memory of a VM\<close>

definition vm_identity_prepare :: "nat \<Rightarrow> u64 \<Rightarrow> u64 \<Rightarrow> u32 \<Rightarrow> nat \<Rightarrow> hyp \<Rightarrow> (bool \<times> hyp) res" where
  "vm_identity_prepare v b e mode ppool s =
     res_bind (the_vm v s) (\<lambda>V. mm_vm_prepare (vm_ptable V) b b e mode ppool s)"

definition vm_identity_commit :: "nat \<Rightarrow> u64 \<Rightarrow> u64 \<Rightarrow> u32 \<Rightarrow> nat \<Rightarrow> hyp \<Rightarrow> (u64 \<times> hyp) res" where
  "vm_identity_commit v b e mode ppool s =
     res_bind (the_vm v s) (\<lambda>V. mm_vm_commit (vm_ptable V) b b e mode ppool s)"

text \<open>The result also holds what is stored through \<^verbatim>\<open>ipa\<close>, if anything is.\<close>

definition vm_identity_map :: "nat \<Rightarrow> u64 \<Rightarrow> u64 \<Rightarrow> u32 \<Rightarrow> nat \<Rightarrow> hyp \<Rightarrow> (bool \<times> u64 option \<times> hyp) res" where
  "vm_identity_map v b e mode ppool s =
     res_bind (vm_identity_prepare v b e mode ppool s) (\<lambda>(ok, s1).
     if \<not> ok then Inr (False, None, s1)
     else res_bind (vm_identity_commit v b e mode ppool s1) (\<lambda>(ipa, s2). Inr (True, Some ipa, s2)))"

definition vm_identity_map_and_reserve :: "nat \<Rightarrow> u64 \<Rightarrow> u64 \<Rightarrow> u32 \<Rightarrow> nat \<Rightarrow> hyp \<Rightarrow> (bool \<times> u64 option \<times> hyp) res" where
  "vm_identity_map_and_reserve v b e mode ppool s =
     res_bind (vm_identity_prepare v b e mode ppool s) (\<lambda>(ok, s1).
     if \<not> ok then Inr (False, None, s1)
     else
     res_bind (the_vm v s1) (\<lambda>V.
     res_bind (pma_reserve_memory b e (ucast (vm_id V)) s1) (\<lambda>(reserved, s2).
     if \<not> reserved then Inr (False, None, s2)
     else res_bind (vm_identity_commit v b e mode ppool s2) (\<lambda>(ipa, s3). Inr (True, Some ipa, s3)))))"

definition vm_unmap :: "nat \<Rightarrow> u64 \<Rightarrow> u64 \<Rightarrow> nat \<Rightarrow> hyp \<Rightarrow> (bool \<times> hyp) res" where
  "vm_unmap v b e ppool s =
     res_bind (vm_identity_map v b e MM_MODE_UNMAPPED_MASK ppool s) (\<lambda>(ok, _, s1). Inr (ok, s1))"

record layout =
  text_begin :: u64
  text_end :: u64
  rodata_begin :: u64
  rodata_end :: u64
  data_begin :: u64
  data_end :: u64

definition vm_unmap_hypervisor :: "layout \<Rightarrow> nat \<Rightarrow> nat \<Rightarrow> hyp \<Rightarrow> (bool \<times> hyp) res" where
  "vm_unmap_hypervisor L v ppool s =
     res_bind (vm_unmap v (text_begin L) (text_end L) ppool s) (\<lambda>(ok, s1).
     if \<not> ok then Inr (False, s1) else
     res_bind (vm_unmap v (rodata_begin L) (rodata_end L) ppool s1) (\<lambda>(ok, s2).
     if \<not> ok then Inr (False, s2) else
     vm_unmap v (data_begin L) (data_end L) ppool s2))"

section \<open>\<^verbatim>\<open>vm.c\<close>: the order of booting\<close>

text \<open>
  The loop of \<^verbatim>\<open>vm_update_boot\<close>. It changes nothing, so a run past more VMs than there are is on a cycle and
  never ends.
\<close>

fun boot_loop :: "nat \<Rightarrow> u16 \<Rightarrow> nat option \<Rightarrow> nat option \<Rightarrow> hyp \<Rightarrow> (nat option \<times> nat option) res" where
  "boot_loop n order previous None s = Inr (previous, None)"
| "boot_loop n order previous (Some c) s =
     res_bind (the_vm c s) (\<lambda>C.
     if boot_order C \<ge> order
     then (case n of 0 \<Rightarrow> Inl Diverge | Suc n' \<Rightarrow> boot_loop n' order (Some c) (next_boot C) s)
     else Inr (previous, Some c))"

definition vm_update_boot :: "nat \<Rightarrow> hyp \<Rightarrow> hyp res" where
  "vm_update_boot v s =
     (case first_boot_vm s of
        None \<Rightarrow> Inr (s\<lparr>first_boot_vm := Some v\<rparr>)
      | Some f \<Rightarrow>
          res_bind (the_vm v s) (\<lambda>V.
          res_bind (boot_loop (length (vms s)) (boot_order V) None (Some f) s) (\<lambda>(previous, current).
          let s1 = (case previous of
                      Some p \<Rightarrow> upd_vm p (\<lambda>P. P\<lparr>next_boot := Some v\<rparr>) s
                    | None \<Rightarrow> s\<lparr>first_boot_vm := Some v\<rparr>)
          in Inr (upd_vm v (\<lambda>V. V\<lparr>next_boot := current\<rparr>) s1))))"

section \<open>\<^verbatim>\<open>mm.c\<close>: mapping in the table of the hypervisor\<close>

definition mm_identity_map_and_reserve ::
  "u64 \<Rightarrow> u64 \<Rightarrow> u64 \<Rightarrow> u32 \<Rightarrow> nat \<Rightarrow> hyp \<Rightarrow> (u64 \<times> hyp) res" where
  "mm_identity_map_and_reserve root b e mode ppool s =
     res_bind (if mm_mode_to_flags mode AND MM_FLAG_UNMAP \<noteq> 0 then pma_release_memory b e HYPERVISOR_ID s
               else pma_reserve_memory b e HYPERVISOR_ID s) (\<lambda>(_, s1).
     mm_identity_map (branch_protection s1) root b e mode ppool s1)"

definition mm_unmap :: "u64 \<Rightarrow> u64 \<Rightarrow> u64 \<Rightarrow> nat \<Rightarrow> hyp \<Rightarrow> (bool \<times> hyp) res" where
  "mm_unmap root b e ppool s =
     res_bind (mm_identity_map_and_reserve root b e MM_MODE_UNMAPPED_MASK ppool s) (\<lambda>(p, s1). Inr (p \<noteq> 0, s1))"

end
