(* ===== verification/Traps.thy ===== *)
theory Traps
  imports Vm
begin

text \<open>
  Accesses of a VM to system registers that are trapped: the feature registers (\<^verbatim>\<open>hypervisor/feature_id.c\<close>), the
  performance monitors (\<^verbatim>\<open>hypervisor/perfmon.c\<close>) and the debug registers (\<^verbatim>\<open>hypervisor/debug_el1.c\<close>). The tables of
  registers, which the sources expand by \<^verbatim>\<open>X\<close>, are lists of a name and the fields \<^verbatim>\<open>op0, op1, crn, crm, op2\<close>.
\<close>

unbundle bit_operations_syntax

section \<open>Tables of registers\<close>

type_synonym sysreg = "string \<times> u64 \<times> u64 \<times> u64 \<times> u64 \<times> u64"

definition FEATURE_ID_REGISTERS_READ :: "sysreg list" where
  "FEATURE_ID_REGISTERS_READ =
     [(''ID_PFR0_EL1'', 3, 0, 0, 1, 0), (''ID_PFR1_EL1'', 3, 0, 0, 1, 1), (''ID_DFR0_EL1'', 3, 0, 0, 1, 2),
      (''ID_AFR0_EL1'', 3, 0, 0, 1, 3), (''ID_MMFR0_EL1'', 3, 0, 0, 1, 4), (''ID_MMFR1_EL1'', 3, 0, 0, 1, 5),
      (''ID_MMFR2_EL1'', 3, 0, 0, 1, 6), (''ID_MMFR3_EL1'', 3, 0, 0, 1, 7), (''ID_ISAR0_EL1'', 3, 0, 0, 2, 0),
      (''ID_ISAR1_EL1'', 3, 0, 0, 2, 1), (''ID_ISAR2_EL1'', 3, 0, 0, 2, 2), (''ID_ISAR3_EL1'', 3, 0, 0, 2, 3),
      (''ID_ISAR4_EL1'', 3, 0, 0, 2, 4), (''ID_ISAR5_EL1'', 3, 0, 0, 2, 5), (''ID_MMFR4_EL1'', 3, 0, 0, 2, 6),
      (''MVFR0_EL1'', 3, 0, 0, 3, 0), (''MVFR1_EL1'', 3, 0, 0, 3, 1), (''MVFR2_EL1'', 3, 0, 0, 3, 2),
      (''ID_AA64PFR0_EL1'', 3, 0, 0, 4, 0), (''ID_AA64PFR1_EL1'', 3, 0, 0, 4, 1), (''ID_AA64DFR0_EL1'', 3, 0, 0, 5, 0),
      (''ID_AA64DFR1_EL1'', 3, 0, 0, 5, 1), (''ID_AA64AFR0_EL1'', 3, 0, 0, 5, 4), (''ID_AA64AFR1_EL1'', 3, 0, 0, 5, 5),
      (''ID_AA64ISAR0_EL1'', 3, 0, 0, 6, 0), (''ID_AA64ISAR1_EL1'', 3, 0, 0, 6, 1),
      (''ID_AA64MMFR0_EL1'', 3, 0, 0, 7, 0), (''ID_AA64MMFR1_EL1'', 3, 0, 0, 7, 1),
      (''ID_AA64MMFR2_EL1'', 3, 0, 0, 7, 2)]"

definition PERFMON_REGISTERS_READ :: "sysreg list" where
  "PERFMON_REGISTERS_READ =
     [(''PMCEID0_EL0'', 3, 3, 9, 12, 6), (''PMCEID1_EL0'', 3, 3, 9, 12, 7), (''PMEVCNTR0_EL0'', 3, 3, 14, 8, 0),
      (''PMEVCNTR1_EL0'', 3, 3, 14, 8, 1), (''PMEVCNTR2_EL0'', 3, 3, 14, 8, 2), (''PMEVCNTR3_EL0'', 3, 3, 14, 8, 3),
      (''PMEVCNTR4_EL0'', 3, 3, 14, 8, 4), (''PMEVCNTR5_EL0'', 3, 3, 14, 8, 5), (''PMEVCNTR6_EL0'', 3, 3, 14, 8, 6),
      (''PMEVCNTR7_EL0'', 3, 3, 14, 8, 7), (''PMEVCNTR8_EL0'', 3, 3, 14, 9, 0), (''PMEVCNTR9_EL0'', 3, 3, 14, 9, 1),
      (''PMEVCNTR10_EL0'', 3, 3, 14, 9, 2), (''PMEVCNTR11_EL0'', 3, 3, 14, 9, 3), (''PMEVCNTR12_EL0'', 3, 3, 14, 9, 4),
      (''PMEVCNTR13_EL0'', 3, 3, 14, 9, 5), (''PMEVCNTR14_EL0'', 3, 3, 14, 9, 6), (''PMEVCNTR15_EL0'', 3, 3, 14, 9, 7),
      (''PMEVCNTR16_EL0'', 3, 3, 14, 10, 0), (''PMEVCNTR17_EL0'', 3, 3, 14, 10, 1),
      (''PMEVCNTR18_EL0'', 3, 3, 14, 10, 2), (''PMEVCNTR19_EL0'', 3, 3, 14, 10, 3),
      (''PMEVCNTR20_EL0'', 3, 3, 14, 10, 4), (''PMEVCNTR21_EL0'', 3, 3, 14, 10, 5),
      (''PMEVCNTR22_EL0'', 3, 3, 14, 10, 6), (''PMEVCNTR23_EL0'', 3, 3, 14, 10, 7),
      (''PMEVCNTR24_EL0'', 3, 3, 14, 11, 0), (''PMEVCNTR25_EL0'', 3, 3, 14, 11, 1),
      (''PMEVCNTR26_EL0'', 3, 3, 14, 11, 2), (''PMEVCNTR27_EL0'', 3, 3, 14, 11, 3),
      (''PMEVCNTR28_EL0'', 3, 3, 14, 11, 4), (''PMEVCNTR29_EL0'', 3, 3, 14, 11, 5),
      (''PMEVCNTR30_EL0'', 3, 3, 14, 11, 6)]"

definition PERFMON_REGISTERS_WRITE :: "sysreg list" where
  "PERFMON_REGISTERS_WRITE =
     [(''PMSWINC_EL0'', 3, 3, 9, 12, 4)]"

definition PERFMON_REGISTERS_READ_WRITE :: "sysreg list" where
  "PERFMON_REGISTERS_READ_WRITE =
     [(''PMINTENSET_EL1'', 3, 0, 9, 14, 1), (''PMINTENCLR_EL1'', 3, 0, 9, 14, 2), (''PMCR_EL0'', 3, 3, 9, 12, 0),
      (''PMCNTENSET_EL0'', 3, 3, 9, 12, 1), (''PMCNTENCLR_EL0'', 3, 3, 9, 12, 2), (''PMOVSCLR_EL0'', 3, 3, 9, 12, 3),
      (''PMSELR_EL0'', 3, 3, 9, 12, 5), (''PMCCNTR_EL0'', 3, 3, 9, 13, 0), (''PMXEVTYPER_EL0'', 3, 3, 9, 13, 1),
      (''PMXEVCNTR_EL0'', 3, 3, 9, 13, 2), (''PMUSERENR_EL0'', 3, 3, 9, 14, 0), (''PMOVSSET_EL0'', 3, 3, 9, 14, 3),
      (''PMEVTYPER0_EL0'', 3, 3, 14, 12, 0), (''PMEVTYPER1_EL0'', 3, 3, 14, 12, 1),
      (''PMEVTYPER2_EL0'', 3, 3, 14, 12, 2), (''PMEVTYPER3_EL0'', 3, 3, 14, 12, 3),
      (''PMEVTYPER4_EL0'', 3, 3, 14, 12, 4), (''PMEVTYPER5_EL0'', 3, 3, 14, 12, 5),
      (''PMEVTYPER6_EL0'', 3, 3, 14, 12, 6), (''PMEVTYPER7_EL0'', 3, 3, 14, 12, 7),
      (''PMEVTYPER8_EL0'', 3, 3, 14, 13, 0), (''PMEVTYPER9_EL0'', 3, 3, 14, 13, 1),
      (''PMEVTYPER10_EL0'', 3, 3, 14, 13, 2), (''PMEVTYPER11_EL0'', 3, 3, 14, 13, 3),
      (''PMEVTYPER12_EL0'', 3, 3, 14, 13, 4), (''PMEVTYPER13_EL0'', 3, 3, 14, 13, 5),
      (''PMEVTYPER14_EL0'', 3, 3, 14, 13, 6), (''PMEVTYPER15_EL0'', 3, 3, 14, 13, 7),
      (''PMEVTYPER16_EL0'', 3, 3, 14, 14, 0), (''PMEVTYPER17_EL0'', 3, 3, 14, 14, 1),
      (''PMEVTYPER18_EL0'', 3, 3, 14, 14, 2), (''PMEVTYPER19_EL0'', 3, 3, 14, 14, 3),
      (''PMEVTYPER20_EL0'', 3, 3, 14, 14, 4), (''PMEVTYPER21_EL0'', 3, 3, 14, 14, 5),
      (''PMEVTYPER22_EL0'', 3, 3, 14, 14, 6), (''PMEVTYPER23_EL0'', 3, 3, 14, 14, 7),
      (''PMEVTYPER24_EL0'', 3, 3, 14, 15, 0), (''PMEVTYPER25_EL0'', 3, 3, 14, 15, 1),
      (''PMEVTYPER26_EL0'', 3, 3, 14, 15, 2), (''PMEVTYPER27_EL0'', 3, 3, 14, 15, 3),
      (''PMEVTYPER28_EL0'', 3, 3, 14, 15, 4), (''PMEVTYPER29_EL0'', 3, 3, 14, 15, 5),
      (''PMEVTYPER30_EL0'', 3, 3, 14, 15, 6), (''PMCCFILTR_EL0'', 3, 3, 14, 15, 7)]"

definition EL1_DEBUG_REGISTERS_READ :: "sysreg list" where
  "EL1_DEBUG_REGISTERS_READ =
     [(''MDRAR_EL1'', 2, 0, 1, 0, 0), (''OSLSR_EL1'', 2, 0, 1, 1, 4), (''DBGAUTHSTATUS_EL1'', 2, 0, 7, 14, 6)]"

definition EL1_DEBUG_REGISTERS_WRITE :: "sysreg list" where
  "EL1_DEBUG_REGISTERS_WRITE =
     [(''OSLAR_EL1'', 2, 0, 1, 0, 4)]"

definition EL1_DEBUG_REGISTERS_READ_WRITE :: "sysreg list" where
  "EL1_DEBUG_REGISTERS_READ_WRITE =
     [(''OSDTRRX_EL1'', 2, 0, 0, 0, 2), (''MDCCINT_EL1'', 2, 0, 0, 2, 0), (''MDSCR_EL1'', 2, 0, 0, 2, 2),
      (''OSDTRTX_EL1'', 2, 0, 0, 3, 2), (''OSECCR_EL1'', 2, 0, 0, 6, 2), (''DBGBVR0_EL1'', 2, 0, 0, 0, 4),
      (''DBGBVR1_EL1'', 2, 0, 0, 1, 4), (''DBGBVR2_EL1'', 2, 0, 0, 2, 4), (''DBGBVR3_EL1'', 2, 0, 0, 3, 4),
      (''DBGBVR4_EL1'', 2, 0, 0, 4, 4), (''DBGBVR5_EL1'', 2, 0, 0, 5, 4), (''DBGBVR6_EL1'', 2, 0, 0, 6, 4),
      (''DBGBVR7_EL1'', 2, 0, 0, 7, 4), (''DBGBVR8_EL1'', 2, 0, 0, 8, 4), (''DBGBVR9_EL1'', 2, 0, 0, 9, 4),
      (''DBGBVR10_EL1'', 2, 0, 0, 10, 4), (''DBGBVR11_EL1'', 2, 0, 0, 11, 4), (''DBGBVR12_EL1'', 2, 0, 0, 12, 4),
      (''DBGBVR13_EL1'', 2, 0, 0, 13, 4), (''DBGBVR14_EL1'', 2, 0, 0, 14, 4), (''DBGBVR15_EL1'', 2, 0, 0, 15, 4),
      (''DBGBCR0_EL1'', 2, 0, 0, 0, 5), (''DBGBCR1_EL1'', 2, 0, 0, 1, 5), (''DBGBCR2_EL1'', 2, 0, 0, 2, 5),
      (''DBGBCR3_EL1'', 2, 0, 0, 3, 5), (''DBGBCR4_EL1'', 2, 0, 0, 4, 5), (''DBGBCR5_EL1'', 2, 0, 0, 5, 5),
      (''DBGBCR6_EL1'', 2, 0, 0, 6, 5), (''DBGBCR7_EL1'', 2, 0, 0, 7, 5), (''DBGBCR8_EL1'', 2, 0, 0, 8, 5),
      (''DBGBCR9_EL1'', 2, 0, 0, 9, 5), (''DBGBCR10_EL1'', 2, 0, 0, 10, 5), (''DBGBCR11_EL1'', 2, 0, 0, 11, 5),
      (''DBGBCR12_EL1'', 2, 0, 0, 12, 5), (''DBGBCR13_EL1'', 2, 0, 0, 13, 5), (''DBGBCR14_EL1'', 2, 0, 0, 14, 5),
      (''DBGBCR15_EL1'', 2, 0, 0, 15, 5), (''DBGWVR0_EL1'', 2, 0, 0, 0, 6), (''DBGWVR1_EL1'', 2, 0, 0, 1, 6),
      (''DBGWVR2_EL1'', 2, 0, 0, 2, 6), (''DBGWVR3_EL1'', 2, 0, 0, 3, 6), (''DBGWVR4_EL1'', 2, 0, 0, 4, 6),
      (''DBGWVR5_EL1'', 2, 0, 0, 5, 6), (''DBGWVR6_EL1'', 2, 0, 0, 6, 6), (''DBGWVR7_EL1'', 2, 0, 0, 7, 6),
      (''DBGWVR8_EL1'', 2, 0, 0, 8, 6), (''DBGWVR9_EL1'', 2, 0, 0, 9, 6), (''DBGWVR10_EL1'', 2, 0, 0, 10, 6),
      (''DBGWVR11_EL1'', 2, 0, 0, 11, 6), (''DBGWVR12_EL1'', 2, 0, 0, 12, 6), (''DBGWVR13_EL1'', 2, 0, 0, 13, 6),
      (''DBGWVR14_EL1'', 2, 0, 0, 14, 6), (''DBGWVR15_EL1'', 2, 0, 0, 15, 6), (''DBGWCR0_EL1'', 2, 0, 0, 0, 7),
      (''DBGWCR1_EL1'', 2, 0, 0, 1, 7), (''DBGWCR2_EL1'', 2, 0, 0, 2, 7), (''DBGWCR3_EL1'', 2, 0, 0, 3, 7),
      (''DBGWCR4_EL1'', 2, 0, 0, 4, 7), (''DBGWCR5_EL1'', 2, 0, 0, 5, 7), (''DBGWCR6_EL1'', 2, 0, 0, 6, 7),
      (''DBGWCR7_EL1'', 2, 0, 0, 7, 7), (''DBGWCR8_EL1'', 2, 0, 0, 8, 7), (''DBGWCR9_EL1'', 2, 0, 0, 9, 7),
      (''DBGWCR10_EL1'', 2, 0, 0, 10, 7), (''DBGWCR11_EL1'', 2, 0, 0, 11, 7), (''DBGWCR12_EL1'', 2, 0, 0, 12, 7),
      (''DBGWCR13_EL1'', 2, 0, 0, 13, 7), (''DBGWCR14_EL1'', 2, 0, 0, 14, 7), (''DBGWCR15_EL1'', 2, 0, 0, 15, 7),
      (''OSDLR_EL1'', 2, 0, 1, 3, 4), (''DBGPRCR_EL1'', 2, 0, 1, 4, 4), (''DBGCLAIMSET_EL1'', 2, 0, 7, 8, 6),
      (''DBGCLAIMCLR_EL1'', 2, 0, 7, 9, 6)]"

text \<open>The \<^verbatim>\<open>switch\<close> on an encoding over such a table.\<close>

fun sysreg_enc :: "sysreg \<Rightarrow> u64" where
  "sysreg_enc (_, op0, op1, crn, crm, op2) = GET_ISS_ENCODING op0 op1 crn crm op2"

definition find_sysreg :: "u64 \<Rightarrow> sysreg list \<Rightarrow> string option" where
  "find_sysreg enc tbl = map_option fst (find (\<lambda>x. sysreg_enc x = enc) tbl)"

section \<open>Feature registers\<close>

definition feature_id_is_register_access :: "u64 \<Rightarrow> bool" where
  "feature_id_is_register_access esr \<longleftrightarrow>
     GET_ISS_OP0 esr = 3 \<and> GET_ISS_OP1 esr = 0 \<and> GET_ISS_CRN esr = 0 \<and> GET_ISS_CRM esr \<ge> 1 \<and> GET_ISS_CRM esr \<le> 7"

definition feature_mask :: "u64 \<Rightarrow> arch_vm \<Rightarrow> u64 \<Rightarrow> u64" where
  "feature_mask enc a x =
     (if enc = GET_ISS_ENCODING 3 0 0 7 1 then x AND mask_id_aa64mmfr1_el1 a
      else if enc = GET_ISS_ENCODING 3 0 0 4 0 then x AND mask_id_aa64pfr0_el1 a
      else if enc = GET_ISS_ENCODING 3 0 0 5 0 then x AND mask_id_aa64dfr0_el1 a
      else if enc = GET_ISS_ENCODING 3 0 0 6 1 then x AND mask_id_aa64isar1_el1 a
      else x)"

text \<open>\<^verbatim>\<open>vcpu->regs.r[rt] = value\<close>, unless \<^verbatim>\<open>rt\<close> is the zero register.\<close>

definition write_rt :: "vcpu_ptr \<Rightarrow> u64 \<Rightarrow> u64 \<Rightarrow> hyp \<Rightarrow> hyp res" where
  "write_rt p rt x s =
     (if rt \<noteq> RT_REG_XZR
      then res_bind (the_vcpu p s) (\<lambda>V.
           res_bind (set_reg rt x (vcpu_regs V)) (\<lambda>r. Inr (upd_vcpu p (\<lambda>V. V\<lparr>vcpu_regs := r\<rparr>) s)))
      else Inr s)"

definition read_rt :: "vcpu_ptr \<Rightarrow> u64 \<Rightarrow> hyp \<Rightarrow> u64 res" where
  "read_rt p rt s =
     (if rt \<noteq> RT_REG_XZR then res_bind (the_vcpu p s) (\<lambda>V. get_reg rt (vcpu_regs V)) else Inr 0)"

definition feature_id_process_access :: "vcpu_ptr \<Rightarrow> u64 \<Rightarrow> hyp \<Rightarrow> (bool \<times> hyp) res" where
  "feature_id_process_access p esr s =
     (let enc = GET_ISS_SYSREG esr; rt = GET_ISS_RT esr in
      CHECK (unat rt < NUM_GP_REGS + 1)
        (if \<not> ISS_IS_READ esr then Inr (True, s)
         else
         let x = (case find_sysreg enc FEATURE_ID_REGISTERS_READ of Some n \<Rightarrow> msr s n | None \<Rightarrow> 0) in
         res_bind (vm_of_vcpu p s) (\<lambda>v.
         res_bind (the_vm v s) (\<lambda>V.
         res_bind (write_rt p rt (feature_mask enc (vm_arch V) x) s) (\<lambda>s1. Inr (True, s1))))))"

section \<open>Performance monitors and debug registers\<close>

text \<open>
  The two handlers have the same body. Reading a register that is not in the tables takes the value of \<^verbatim>\<open>r[rt]\<close>,
  also if \<^verbatim>\<open>rt\<close> is 31.
\<close>

definition sysreg_access :: "sysreg list \<Rightarrow> sysreg list \<Rightarrow> vcpu_ptr \<Rightarrow> u64 \<Rightarrow> hyp \<Rightarrow> (bool \<times> hyp) res" where
  "sysreg_access rtbl wtbl p esr s =
     (let enc = GET_ISS_SYSREG esr; rt = GET_ISS_RT esr in
      CHECK (unat rt < NUM_GP_REGS + 1)
        (if ISS_IS_READ esr
         then res_bind (case find_sysreg enc rtbl of
                          Some n \<Rightarrow> Inr (msr s n)
                        | None \<Rightarrow> res_bind (the_vcpu p s) (\<lambda>V. get_reg rt (vcpu_regs V))) (\<lambda>x.
              res_bind (write_rt p rt x s) (\<lambda>s1. Inr (True, s1)))
         else res_bind (read_rt p rt s) (\<lambda>x.
              Inr (True, case find_sysreg enc wtbl of Some n \<Rightarrow> write_msr n x s | None \<Rightarrow> s))))"

definition perfmon_is_register_access :: "u64 \<Rightarrow> bool" where
  "perfmon_is_register_access esr \<longleftrightarrow>
     (let op0 = GET_ISS_OP0 esr; op1 = GET_ISS_OP1 esr; crn = GET_ISS_CRN esr; crm = GET_ISS_CRM esr in
      if op0 = 3 \<and> op1 = 0 \<and> crn = 9 \<and> crm = 14 then True
      else if op0 = 3 \<and> op1 = 3 \<and> crn = 14 \<and> crm \<ge> 8 \<and> crm \<le> 15 then True
      else op0 = 3 \<and> op1 = 3 \<and> crn = 9 \<and> crm \<ge> 12 \<and> crm \<le> 14)"

definition perfmon_process_access :: "vcpu_ptr \<Rightarrow> u16 \<Rightarrow> u64 \<Rightarrow> hyp \<Rightarrow> (bool \<times> hyp) res" where
  "perfmon_process_access p vmid esr s =
     (if vmid \<noteq> PG_PRIMARY_VM_ID then Inr (False, s)
      else sysreg_access (PERFMON_REGISTERS_READ @ PERFMON_REGISTERS_READ_WRITE)
             (PERFMON_REGISTERS_WRITE @ PERFMON_REGISTERS_READ_WRITE) p esr s)"

definition debug_el1_is_register_access :: "u64 \<Rightarrow> bool" where
  "debug_el1_is_register_access esr \<longleftrightarrow> GET_ISS_OP0 esr = 2 \<and> GET_ISS_OP1 esr \<noteq> 1"

definition debug_el1_process_access :: "vcpu_ptr \<Rightarrow> u16 \<Rightarrow> u64 \<Rightarrow> hyp \<Rightarrow> (bool \<times> hyp) res" where
  "debug_el1_process_access p vmid esr s =
     sysreg_access (EL1_DEBUG_REGISTERS_READ @ EL1_DEBUG_REGISTERS_READ_WRITE)
       (EL1_DEBUG_REGISTERS_WRITE @ EL1_DEBUG_REGISTERS_READ_WRITE) p esr s"

end
