(* ===== verification/Api.thy ===== *)
theory Api
  imports Vm
begin

text \<open>
  \<^verbatim>\<open>src/api.c\<close>: switching between virtual CPUs, virtual interrupts, and the configuration of the buffers for messages.
  A call that may store through \<^verbatim>\<open>next\<close> returns what it stores.
\<close>

unbundle bit_operations_syntax

section \<open>Constants, \<^verbatim>\<open>inc/vmapi/pg\<close>\<close>

definition FFA_ERROR_32 :: u64 where "FFA_ERROR_32 = 0x84000060"

definition FFA_SUCCESS_32 :: u64 where "FFA_SUCCESS_32 = 0x84000061"

definition FFA_INTERRUPT_32 :: u64 where "FFA_INTERRUPT_32 = 0x84000062"

definition FFA_MSG_WAIT_32 :: u64 where "FFA_MSG_WAIT_32 = 0x8400006B"

definition FFA_YIELD_32 :: u64 where "FFA_YIELD_32 = 0x8400006C"

definition FFA_INVALID_PARAMETERS :: u32 where "FFA_INVALID_PARAMETERS = - 2"

definition FFA_NO_MEMORY :: u32 where "FFA_NO_MEMORY = - 3"

definition FFA_DENIED :: u32 where "FFA_DENIED = - 6"

definition FFA_SLEEP_INDEFINITE :: u64 where "FFA_SLEEP_INDEFINITE = 0"

definition FFA_PAGE_SIZE :: u64 where "FFA_PAGE_SIZE = 4096"

definition PG_MAILBOX_SIZE :: u64 where "PG_MAILBOX_SIZE = 4096"

definition PG_FFA_RUN_WAIT_FOR_INTERRUPT :: u64 where "PG_FFA_RUN_WAIT_FOR_INTERRUPT = 0xff06"

definition PG_FFA_RUN_WAKE_UP :: u64 where "PG_FFA_RUN_WAKE_UP = 0xff07"

definition PG_INVALID_INTID :: u32 where "PG_INVALID_INTID = 0xffffffff"

definition INTERRUPT_TYPE_IRQ :: u32 where "INTERRUPT_TYPE_IRQ = 0"

definition INTERRUPT_TYPE_FIQ :: u32 where "INTERRUPT_TYPE_FIQ = 1"

definition ffa_call :: "u64 \<Rightarrow> u64 \<Rightarrow> u64 \<Rightarrow> ffa_value" where
  "ffa_call f a1 a2 =
     \<lparr>ffa_func = f, ffa_arg1 = a1, ffa_arg2 = a2, ffa_arg3 = 0, ffa_arg4 = 0, ffa_arg5 = 0, ffa_arg6 = 0, ffa_arg7 = 0\<rparr>"

definition ffa_error :: "u32 \<Rightarrow> ffa_value" where
  "ffa_error code = ffa_call FFA_ERROR_32 0 (ucast code)"

definition ffa_vm_vcpu :: "u16 \<Rightarrow> u16 \<Rightarrow> u64" where
  "ffa_vm_vcpu vmid index = ucast (push_bit 16 (ucast vmid) OR ucast index :: u32)"

section \<open>Switching\<close>

definition api_get_vm_vcpu :: "nat option \<Rightarrow> vcpu_ptr \<Rightarrow> hyp \<Rightarrow> vcpu_ptr option res" where
  "api_get_vm_vcpu vm current s =
     res_bind (the_vcpu current s) (\<lambda>C.
     res_bind (deref (vcpu_cpu C)) (\<lambda>c.
     res_bind (deref vm) (\<lambda>v.
     res_bind (the_vm v s) (\<lambda>V.
     if vcpu_count V = 1 then res_bind (vm_get_vcpu v 0 s) (\<lambda>p. Inr (Some p))
     else if word_of_nat (cpu_index c) < vcpu_count V then res_bind (vm_get_vcpu v (word_of_nat (cpu_index c)) s) (\<lambda>p. Inr (Some p))
     else Inr None))))"

definition set_vcpu_state :: "vcpu_ptr \<Rightarrow> vcpu_state \<Rightarrow> hyp \<Rightarrow> hyp res" where
  "set_vcpu_state p st s =
     res_bind (vcpu_lock p s) (\<lambda>s1. Inr (vcpu_unlock p (upd_vcpu p (\<lambda>V. V\<lparr>vcpu_state := st\<rparr>) s1)))"

definition api_switch_to_vm :: "vcpu_ptr \<Rightarrow> ffa_value \<Rightarrow> vcpu_state \<Rightarrow> u16 \<Rightarrow> hyp \<Rightarrow> (vcpu_ptr \<times> hyp) res" where
  "api_switch_to_vm current to_ret st to_id s =
     res_bind (api_get_vm_vcpu (vm_find to_id s) current s) (\<lambda>next.
     case next of
       None \<Rightarrow> Inl Panic
     | Some n \<Rightarrow>
         res_bind (the_vcpu n s) (\<lambda>_.
         res_bind (set_vcpu_state current st (upd_vcpu n (\<lambda>N. N\<lparr>vcpu_regs := arch_regs_set_retval to_ret (vcpu_regs N)\<rparr>) s)) (\<lambda>s1.
         Inr (n, s1))))"

definition sleep_ret :: "ffa_value \<Rightarrow> hyp \<Rightarrow> ffa_value res" where
  "sleep_ret ret s =
     (if ffa_func ret = PG_FFA_RUN_WAIT_FOR_INTERRUPT \<or> ffa_func ret = FFA_MSG_WAIT_32
      then if arch_timer_enabled_current s
           then res_bind (arch_timer_remaining_ns_current s) (\<lambda>ns.
                Inr (if ns = 0 then ret\<lparr>ffa_func := FFA_INTERRUPT_32, ffa_arg2 := 0\<rparr> else ret\<lparr>ffa_arg2 := ns\<rparr>))
           else Inr (ret\<lparr>ffa_arg2 := FFA_SLEEP_INDEFINITE\<rparr>)
      else Inr ret)"

definition api_switch_to_primary :: "vcpu_ptr \<Rightarrow> ffa_value \<Rightarrow> vcpu_state \<Rightarrow> hyp \<Rightarrow> (vcpu_ptr \<times> hyp) res" where
  "api_switch_to_primary current primary_ret st s =
     res_bind (sleep_ret primary_ret s) (\<lambda>ret. api_switch_to_vm current ret st PG_PRIMARY_VM_ID s)"

text \<open>\<^verbatim>\<open>ffa_vm_vcpu(vcpu->vm->id, vcpu_index(vcpu))\<close>\<close>

definition vcpu_name :: "vcpu_ptr \<Rightarrow> hyp \<Rightarrow> u64 res" where
  "vcpu_name p s =
     res_bind (vm_of_vcpu p s) (\<lambda>v.
     res_bind (the_vm v s) (\<lambda>V.
     res_bind (vcpu_index p s) (\<lambda>i. Inr (ffa_vm_vcpu (vm_id V) i))))"

definition api_wait_for_interrupt :: "vcpu_ptr \<Rightarrow> hyp \<Rightarrow> (vcpu_ptr \<times> hyp) res" where
  "api_wait_for_interrupt current s =
     res_bind (vcpu_name current s) (\<lambda>n.
     api_switch_to_primary current (ffa_call PG_FFA_RUN_WAIT_FOR_INTERRUPT n 0) VCPU_STATE_BLOCKED_INTERRUPT s)"

definition api_vcpu_off :: "vcpu_ptr \<Rightarrow> hyp \<Rightarrow> (vcpu_ptr \<times> hyp) res" where
  "api_vcpu_off current s =
     res_bind (vcpu_name current s) (\<lambda>n.
     api_switch_to_primary current (ffa_call PG_FFA_RUN_WAIT_FOR_INTERRUPT n 0) VCPU_STATE_OFF (arch_timer_disable_current s))"

definition api_yield :: "vcpu_ptr \<Rightarrow> hyp \<Rightarrow> (ffa_value \<times> vcpu_ptr option \<times> hyp) res" where
  "api_yield current s =
     res_bind (vm_of_vcpu current s) (\<lambda>v.
     res_bind (the_vm v s) (\<lambda>V.
     if vm_id V = PG_PRIMARY_VM_ID then Inr (ffa_call FFA_SUCCESS_32 0 0, None, s)
     else
     res_bind (vcpu_name current s) (\<lambda>n.
     res_bind (api_switch_to_primary current (ffa_call FFA_YIELD_32 n 0) VCPU_STATE_READY s) (\<lambda>(next, s1).
     Inr (ffa_call FFA_SUCCESS_32 0 0, Some next, s1)))))"

definition api_wake_up :: "vcpu_ptr \<Rightarrow> vcpu_ptr \<Rightarrow> hyp \<Rightarrow> (vcpu_ptr \<times> hyp) res" where
  "api_wake_up current target s =
     res_bind (vcpu_name target s) (\<lambda>n.
     api_switch_to_primary current (ffa_call PG_FFA_RUN_WAKE_UP n 0) VCPU_STATE_READY s)"

definition api_regs_state_saved :: "vcpu_ptr \<Rightarrow> hyp \<Rightarrow> hyp res" where
  "api_regs_state_saved p s =
     res_bind (vcpu_lock p s) (\<lambda>s1. Inr (vcpu_unlock p (upd_vcpu p (\<lambda>V. V\<lparr>regs_available := True\<rparr>) s1)))"

section \<open>Virtual interrupts\<close>

definition intid_index :: "u32 \<Rightarrow> nat" where
  "intid_index intid = unat (intid div INTERRUPT_REGISTER_BITS)"

definition intid_shift :: "u32 \<Rightarrow> nat" where
  "intid_shift intid = unat (intid mod INTERRUPT_REGISTER_BITS)"

definition intid_mask :: "u32 \<Rightarrow> u32" where
  "intid_mask intid = push_bit (intid_shift intid) 1"

text \<open>The type of an interrupt is \<^verbatim>\<open>INTERRUPT_TYPE_IRQ << intid_shift\<close>.\<close>

definition type_is_irq :: "nat \<Rightarrow> nat \<Rightarrow> interrupts \<Rightarrow> bool" where
  "type_is_irq index shift I \<longleftrightarrow> interrupt_type I ! index AND push_bit shift 1 = push_bit shift INTERRUPT_TYPE_IRQ"

definition count_increment :: "nat \<Rightarrow> nat \<Rightarrow> interrupts \<Rightarrow> interrupts" where
  "count_increment index shift I =
     (if type_is_irq index shift I then vcpu_irq_count_increment I else vcpu_fiq_count_increment I)"

definition count_decrement :: "nat \<Rightarrow> nat \<Rightarrow> interrupts \<Rightarrow> interrupts" where
  "count_decrement index shift I =
     (if type_is_irq index shift I then vcpu_irq_count_decrement I else vcpu_fiq_count_decrement I)"

definition upd_interrupts :: "vcpu_ptr \<Rightarrow> (interrupts \<Rightarrow> interrupts) \<Rightarrow> hyp \<Rightarrow> hyp" where
  "upd_interrupts p f s = upd_vcpu p (\<lambda>V. V\<lparr>vcpu_interrupts := f (vcpu_interrupts V)\<rparr>) s"

text \<open>The label \<^verbatim>\<open>out\<close> of \<^verbatim>\<open>api_interrupt_inject_locked\<close>.\<close>

definition make_pending :: "u32 \<Rightarrow> interrupts \<Rightarrow> interrupts" where
  "make_pending intid I =
     I\<lparr>interrupt_pending :=
         (interrupt_pending I)[intid_index intid := interrupt_pending I ! intid_index intid OR intid_mask intid]\<rparr>"

text \<open>\<open>want\<close> says whether \<^verbatim>\<open>next\<close> is not null.\<close>

definition api_interrupt_inject_locked ::
  "vcpu_ptr \<Rightarrow> u32 \<Rightarrow> vcpu_ptr \<Rightarrow> bool \<Rightarrow> hyp \<Rightarrow> (int \<times> vcpu_ptr option \<times> hyp) res" where
  "api_interrupt_inject_locked target intid current want s =
     res_bind (the_vcpu target s) (\<lambda>T.
     let I = vcpu_interrupts T; i = intid_index intid in
     if \<not> i < length (interrupt_enabled I) then Inl OutOfBounds
     else if interrupt_enabled I ! i AND NOT (interrupt_pending I ! i) AND intid_mask intid = 0
     then Inr (0, None, upd_interrupts target (make_pending intid) s)
     else
     let I1 = count_increment i (intid_shift intid) I; s1 = upd_interrupts target (\<lambda>_. I1) s in
     if vcpu_interrupt_count_get I1 \<noteq> 1 then Inr (0, None, upd_interrupts target (make_pending intid) s1)
     else
     res_bind (vm_of_vcpu current s1) (\<lambda>v.
     res_bind (the_vm v s1) (\<lambda>V.
     if vm_id V = PG_PRIMARY_VM_ID then Inr (1, None, upd_interrupts target (make_pending intid) s1)
     else if current \<noteq> target \<and> want
     then res_bind (api_wake_up current target s1) (\<lambda>(next, s2).
          Inr (0, Some next, upd_interrupts target (make_pending intid) s2))
     else Inr (0, None, upd_interrupts target (make_pending intid) s1))))"

definition internal_interrupt_inject ::
  "vcpu_ptr \<Rightarrow> u32 \<Rightarrow> vcpu_ptr \<Rightarrow> bool \<Rightarrow> hyp \<Rightarrow> (int \<times> vcpu_ptr option \<times> hyp) res" where
  "internal_interrupt_inject target intid current want s =
     res_bind (vcpu_lock target s) (\<lambda>s1.
     res_bind (api_interrupt_inject_locked target intid current want s1) (\<lambda>(ret, next, s2).
     Inr (ret, next, vcpu_unlock target s2)))"

definition enable_interrupt :: "u32 \<Rightarrow> u32 \<Rightarrow> interrupts \<Rightarrow> interrupts" where
  "enable_interrupt intid type I =
     (let i = intid_index intid; m = intid_mask intid;
          I1 = (if interrupt_pending I ! i AND NOT (interrupt_enabled I ! i) AND m \<noteq> 0
                then count_increment i (intid_shift intid) I else I);
          I2 = I1\<lparr>interrupt_enabled := (interrupt_enabled I1)[i := interrupt_enabled I1 ! i OR m]\<rparr>
      in if type = INTERRUPT_TYPE_IRQ then I2\<lparr>interrupt_type := (interrupt_type I2)[i := interrupt_type I2 ! i AND NOT m]\<rparr>
         else if type = INTERRUPT_TYPE_FIQ then I2\<lparr>interrupt_type := (interrupt_type I2)[i := interrupt_type I2 ! i OR m]\<rparr>
         else I2)"

definition disable_interrupt :: "u32 \<Rightarrow> interrupts \<Rightarrow> interrupts" where
  "disable_interrupt intid I =
     (let i = intid_index intid; m = intid_mask intid;
          I1 = (if interrupt_pending I ! i AND interrupt_enabled I ! i AND m \<noteq> 0
                then count_decrement i (intid_shift intid) I else I)
      in I1\<lparr>interrupt_enabled := (interrupt_enabled I1)[i := interrupt_enabled I1 ! i AND NOT m],
            interrupt_type := (interrupt_type I1)[i := interrupt_type I1 ! i AND NOT m]\<rparr>)"

definition api_interrupt_enable :: "u32 \<Rightarrow> bool \<Rightarrow> u32 \<Rightarrow> vcpu_ptr \<Rightarrow> hyp \<Rightarrow> (int \<times> hyp) res" where
  "api_interrupt_enable intid enable type current s =
     (if intid \<ge> PG_NUM_INTIDS then Inr (- 1, s) else
      res_bind (vcpu_lock current s) (\<lambda>s1.
      Inr (0, vcpu_unlock current
                (upd_interrupts current (if enable then enable_interrupt intid type else disable_interrupt intid) s1))))"

definition ctz :: "u32 \<Rightarrow> nat" where
  "ctz x = length (takeWhile (\<lambda>i. \<not> bit x i) [0..<32])"

text \<open>The loop of \<^verbatim>\<open>api_interrupt_get\<close> over the registers of the bitfields.\<close>

primrec take_interrupt :: "nat list \<Rightarrow> interrupts \<Rightarrow> u32 \<times> interrupts" where
  "take_interrupt [] I = (PG_INVALID_INTID, I)"
| "take_interrupt (i # is) I =
     (let ep = interrupt_enabled I ! i AND interrupt_pending I ! i in
      if ep \<noteq> 0
      then let b = ctz ep;
               I1 = I\<lparr>interrupt_pending := (interrupt_pending I)[i := interrupt_pending I ! i AND NOT (push_bit b 1)]\<rparr>
           in (word_of_nat i * INTERRUPT_REGISTER_BITS + word_of_nat b, count_decrement i b I1)
      else take_interrupt is I)"

definition api_interrupt_get :: "vcpu_ptr \<Rightarrow> hyp \<Rightarrow> (u32 \<times> hyp) res" where
  "api_interrupt_get current s =
     res_bind (vcpu_lock current s) (\<lambda>s1.
     res_bind (the_vcpu current s1) (\<lambda>C.
     case take_interrupt [0..<unat (PG_NUM_INTIDS div INTERRUPT_REGISTER_BITS)] (vcpu_interrupts C) of
       (intid, I) \<Rightarrow> Inr (intid, vcpu_unlock current (upd_interrupts current (\<lambda>_. I) s1))))"

definition is_injection_allowed :: "u32 \<Rightarrow> vcpu_ptr \<Rightarrow> hyp \<Rightarrow> bool res" where
  "is_injection_allowed target_vm_id current s =
     res_bind (vm_of_vcpu current s) (\<lambda>v.
     res_bind (the_vm v s) (\<lambda>V. Inr (ucast (vm_id V) = (ucast PG_PRIMARY_VM_ID :: u32) \<or> ucast (vm_id V) = target_vm_id)))"

definition api_interrupt_inject ::
  "u16 \<Rightarrow> u16 \<Rightarrow> u32 \<Rightarrow> vcpu_ptr \<Rightarrow> bool \<Rightarrow> hyp \<Rightarrow> (int \<times> vcpu_ptr option \<times> hyp) res" where
  "api_interrupt_inject target_vm_id target_vcpu_idx intid current want s =
     (if intid \<ge> PG_NUM_INTIDS then Inr (- 1, None, s) else
      case vm_find target_vm_id s of
        None \<Rightarrow> Inr (- 1, None, s)
      | Some t \<Rightarrow>
          res_bind (the_vm t s) (\<lambda>T.
          if target_vcpu_idx \<ge> vcpu_count T then Inr (- 1, None, s) else
          res_bind (is_injection_allowed (ucast target_vm_id) current s) (\<lambda>allowed.
          if \<not> allowed then Inr (- 1, None, s) else
          res_bind (vm_get_vcpu t target_vcpu_idx s) (\<lambda>p.
          res_bind (vcpu_index current s) (\<lambda>_.
          internal_interrupt_inject p intid current want s)))))"

section \<open>Buffers for messages\<close>

definition api_mode_valid_owned_and_exclusive :: "u32 \<Rightarrow> bool" where
  "api_mode_valid_owned_and_exclusive mode \<longleftrightarrow>
     mode AND (MM_MODE_D OR MM_MODE_INVALID OR MM_MODE_UNOWNED OR MM_MODE_SHARED) = 0"

definition set_send :: "nat \<Rightarrow> u64 \<Rightarrow> hyp \<Rightarrow> hyp" where
  "set_send v p s = upd_vm v (\<lambda>V. V\<lparr>vm_mailbox := (vm_mailbox V)\<lparr>mailbox_send := p\<rparr>\<rparr>) s"

definition set_recv :: "nat \<Rightarrow> u64 \<Rightarrow> hyp \<Rightarrow> hyp" where
  "set_recv v p s = upd_vm v (\<lambda>V. V\<lparr>vm_mailbox := (vm_mailbox V)\<lparr>mailbox_recv := p\<rparr>\<rparr>) s"

definition api_vm_configure_stage1 ::
  "u64 \<Rightarrow> nat \<Rightarrow> u64 \<Rightarrow> u64 \<Rightarrow> u64 \<Rightarrow> u64 \<Rightarrow> u32 \<Rightarrow> nat \<Rightarrow> hyp \<Rightarrow> (bool \<times> hyp) res" where
  "api_vm_configure_stage1 root v sb se rb re extra pool s =
     res_bind (mm_identity_map_and_reserve root sb se (MM_MODE_R OR extra) pool s) (\<lambda>(send, s1).
     let s2 = set_send v send s1 in
     if send = 0 then Inr (False, s2) else
     res_bind (mm_identity_map_and_reserve root rb re (MM_MODE_W OR extra) pool s2) (\<lambda>(recv, s3).
     let s4 = set_recv v recv s3 in
     if recv \<noteq> 0 then Inr (True, s4) else
     res_bind (mm_unmap root sb se pool (set_send v 0 s4)) (\<lambda>(ok, s5). CHECK ok (Inr (False, s5)))))"

text \<open>\<^verbatim>\<open>CHECK(vm_identity_map(vm_locked, b, e, mode, pool, NULL))\<close>\<close>

definition vm_remap :: "nat \<Rightarrow> u64 \<Rightarrow> u64 \<Rightarrow> u32 \<Rightarrow> nat \<Rightarrow> hyp \<Rightarrow> hyp res" where
  "vm_remap v b e mode pool s = res_bind (vm_identity_map v b e mode pool s) (\<lambda>(ok, _, s1). CHECK ok (Inr s1))"

definition api_vm_configure_pages ::
  "u64 \<Rightarrow> nat \<Rightarrow> u64 \<Rightarrow> u64 \<Rightarrow> u32 \<Rightarrow> nat \<Rightarrow> hyp \<Rightarrow> (ffa_value \<times> hyp) res" where
  "api_vm_configure_pages root v send recv page_count pool s =
     res_bind (the_vm v s) (\<lambda>V.
     let se = send + PG_MAILBOX_SIZE; re = recv + PG_MAILBOX_SIZE in
     if mailbox_send (vm_mailbox V) \<noteq> 0 \<or> mailbox_recv (vm_mailbox V) \<noteq> 0 then Inr (ffa_error FFA_DENIED, s)
     else if page_count \<noteq> ucast (PG_MAILBOX_SIZE div FFA_PAGE_SIZE) then Inr (ffa_error FFA_INVALID_PARAMETERS, s)
     else if \<not> (send AND (PAGE_SIZE - 1) = 0) \<or> \<not> (recv AND (PAGE_SIZE - 1) = 0)
     then Inr (ffa_error FFA_INVALID_PARAMETERS, s)
     else if send = recv then Inr (ffa_error FFA_INVALID_PARAMETERS, s)
     else
     res_bind (mm_vm_get_mode (vm_ptable V) send (send + PAGE_SIZE) s) (\<lambda>sm.
     if (case sm of None \<Rightarrow> True
         | Some m \<Rightarrow> \<not> api_mode_valid_owned_and_exclusive m \<or> m AND MM_MODE_R = 0 \<or> m AND MM_MODE_W = 0)
     then Inr (ffa_error FFA_DENIED, s)
     else
     res_bind (mm_vm_get_mode (vm_ptable V) recv (recv + PAGE_SIZE) s) (\<lambda>rm.
     if (case rm of None \<Rightarrow> True | Some m \<Rightarrow> \<not> api_mode_valid_owned_and_exclusive m \<or> m AND MM_MODE_R = 0)
     then Inr (ffa_error FFA_DENIED, s)
     else
     res_bind (vm_identity_map v send se (MM_MODE_UNOWNED OR MM_MODE_SHARED OR MM_MODE_R OR MM_MODE_W) pool s) (\<lambda>(ok1, _, s1).
     if \<not> ok1 then Inr (ffa_error FFA_NO_MEMORY, s1)
     else
     res_bind (vm_identity_map v recv re (MM_MODE_UNOWNED OR MM_MODE_SHARED OR MM_MODE_R) pool s1) (\<lambda>(ok2, _, s2).
     if \<not> ok2
     then res_bind (mm_vm_defrag (vm_ptable V) pool s2) (\<lambda>s3.
          res_bind (vm_remap v send se (the sm) pool s3) (\<lambda>s4. Inr (ffa_error FFA_NO_MEMORY, s4)))
     else
     res_bind (api_vm_configure_stage1 root v send se recv re (arch_mm_extra_attributes_from_vm (vm_id V)) pool s2) (\<lambda>(ok3, s3).
     if ok3 then Inr (ffa_call FFA_SUCCESS_32 0 0, s3)
     else
     res_bind (vm_remap v recv re (the sm) pool s3) (\<lambda>s4.
     res_bind (vm_remap v send se (the sm) pool s4) (\<lambda>s5. Inr (ffa_error FFA_NO_MEMORY, s5)))))))))"

end
