(* ===== verification/Psci.thy ===== *)
theory Psci
  imports Api
begin

text \<open>
  Power management: \<^verbatim>\<open>src/arch/aarch64/hypervisor/psci_handler.c\<close> with \<^verbatim>\<open>src/arch/aarch64/plat/psci/hypervisor.c\<close>, the calls
  to the firmware of \<^verbatim>\<open>src/arch/aarch64/smc.c\<close> and the CPU numbers of \<^verbatim>\<open>src/arch/aarch64/emulator.c\<close>. The firmware is not
  part of the sources: it is the argument \<open>fw\<close>, which gives its answer to the last of the calls made so far.
\<close>

unbundle bit_operations_syntax

section \<open>Calls to the firmware\<close>

type_synonym firmware = "ffa_value list \<Rightarrow> ffa_value"

definition SMCCC_CONVENTION_MASK :: u32 where "SMCCC_CONVENTION_MASK = 0x40000000"

definition SMCCC_32_BIT :: u32 where "SMCCC_32_BIT = 0"

definition SMCCC_64_BIT :: u32 where "SMCCC_64_BIT = 0x40000000"

definition SMCCC_SERVICE_CALL_MASK :: u32 where "SMCCC_SERVICE_CALL_MASK = 0x3f000000"

definition SMCCC_STANDARD_SECURE_SERVICE_CALL :: u32 where "SMCCC_STANDARD_SECURE_SERVICE_CALL = 0x04000000"

definition SMCCC_CALLER_HYPERVISOR :: u32 where "SMCCC_CALLER_HYPERVISOR = 0"

definition SMCCC_ERROR_UNKNOWN :: u64 where "SMCCC_ERROR_UNKNOWN = - 1"

definition smc_internal ::
  "firmware \<Rightarrow> u32 \<Rightarrow> u64 \<Rightarrow> u64 \<Rightarrow> u64 \<Rightarrow> u64 \<Rightarrow> u64 \<Rightarrow> u64 \<Rightarrow> u32 \<Rightarrow> hyp \<Rightarrow> ffa_value \<times> hyp" where
  "smc_internal fw func a0 a1 a2 a3 a4 a5 caller s =
     (let call = \<lparr>ffa_func = ucast func, ffa_arg1 = a0, ffa_arg2 = a1, ffa_arg3 = a2, ffa_arg4 = a3, ffa_arg5 = a4,
                  ffa_arg6 = a5, ffa_arg7 = ucast caller\<rparr>
      in (fw (smc_log s @ [call]), s\<lparr>smc_log := smc_log s @ [call]\<rparr>))"

definition smc32 ::
  "firmware \<Rightarrow> u32 \<Rightarrow> u32 \<Rightarrow> u32 \<Rightarrow> u32 \<Rightarrow> u32 \<Rightarrow> u32 \<Rightarrow> u32 \<Rightarrow> u32 \<Rightarrow> hyp \<Rightarrow> ffa_value \<times> hyp" where
  "smc32 fw func a0 a1 a2 a3 a4 a5 caller s =
     smc_internal fw (func OR SMCCC_32_BIT) (ucast a0) (ucast a1) (ucast a2) (ucast a3) (ucast a4) (ucast a5) caller s"

definition smc64 ::
  "firmware \<Rightarrow> u32 \<Rightarrow> u64 \<Rightarrow> u64 \<Rightarrow> u64 \<Rightarrow> u64 \<Rightarrow> u64 \<Rightarrow> u64 \<Rightarrow> u32 \<Rightarrow> hyp \<Rightarrow> ffa_value \<times> hyp" where
  "smc64 fw func a0 a1 a2 a3 a4 a5 caller s = smc_internal fw (func OR SMCCC_64_BIT) a0 a1 a2 a3 a4 a5 caller s"

definition smc_forward ::
  "firmware \<Rightarrow> u32 \<Rightarrow> u64 \<Rightarrow> u64 \<Rightarrow> u64 \<Rightarrow> u64 \<Rightarrow> u64 \<Rightarrow> u64 \<Rightarrow> u32 \<Rightarrow> hyp \<Rightarrow> ffa_value \<times> hyp" where
  "smc_forward fw func a0 a1 a2 a3 a4 a5 caller s = smc_internal fw func a0 a1 a2 a3 a4 a5 caller s"

definition smc_ffa_call :: "firmware \<Rightarrow> ffa_value \<Rightarrow> hyp \<Rightarrow> ffa_value \<times> hyp" where
  "smc_ffa_call fw v s =
     smc_internal fw (ucast (ffa_func v)) (ffa_arg1 v) (ffa_arg2 v) (ffa_arg3 v) (ffa_arg4 v) (ffa_arg5 v) (ffa_arg6 v)
       (ucast (ffa_arg7 v)) s"

section \<open>CPU numbers\<close>

definition CPUS_PER_CLUSTER :: u64 where "CPUS_PER_CLUSTER = 4"

text \<open>Fields of \<^verbatim>\<open>mpidr_t\<close>: \<^verbatim>\<open>MPEA\<close> is bit 31, \<^verbatim>\<open>U\<close> bit 30, \<^verbatim>\<open>MT\<close> bit 24, and the affinities take 8 bits each.\<close>

definition mpidr_aff :: "nat \<Rightarrow> u64 \<Rightarrow> u64" where
  "mpidr_aff n d = drop_bit (8 * n) d AND 0xff"

definition mpidr_to_no :: "u64 \<Rightarrow> u64" where
  "mpidr_to_no d =
     (if bit d 31 \<and> bit d 30 then 0
      else if bit d 31 \<and> bit d 24 then mpidr_aff 2 d * CPUS_PER_CLUSTER + mpidr_aff 1 d
      else mpidr_aff 1 d * CPUS_PER_CLUSTER + mpidr_aff 0 d)"

definition aff_to_no :: "u64 \<Rightarrow> hyp \<Rightarrow> u64" where
  "aff_to_no d s = mpidr_to_no (d OR (msr s ''MPIDR_EL1'' AND 0xc1000000))"

definition no_to_aff :: "u32 \<Rightarrow> u32" where
  "no_to_aff n =
     (let aff2 = n div ucast CPUS_PER_CLUSTER; aff1 = n - aff2 * ucast CPUS_PER_CLUSTER
      in push_bit 16 aff2 OR push_bit 8 aff1)"

section \<open>Constants, \<^verbatim>\<open>psci.h\<close>\<close>

definition PSCI_VERSION_0_2 :: u32 where "PSCI_VERSION_0_2 = 0x00000002"

definition PSCI_VERSION_1_0 :: u32 where "PSCI_VERSION_1_0 = 0x00010000"

definition PSCI_VERSION_1_1 :: u32 where "PSCI_VERSION_1_1 = 0x00010001"

definition PSCI_VERSION :: u32 where "PSCI_VERSION = 0x84000000"

definition PSCI_CPU_SUSPEND :: u32 where "PSCI_CPU_SUSPEND = 0x84000001"

definition PSCI_CPU_OFF :: u32 where "PSCI_CPU_OFF = 0x84000002"

definition PSCI_CPU_ON :: u32 where "PSCI_CPU_ON = 0x84000003"

definition PSCI_AFFINITY_INFO :: u32 where "PSCI_AFFINITY_INFO = 0x84000004"

definition PSCI_MIGRATE :: u32 where "PSCI_MIGRATE = 0x84000005"

definition PSCI_MIGRATE_INFO_TYPE :: u32 where "PSCI_MIGRATE_INFO_TYPE = 0x84000006"

definition PSCI_MIGRATE_INFO_UP_CPU :: u32 where "PSCI_MIGRATE_INFO_UP_CPU = 0x84000007"

definition PSCI_SYSTEM_OFF :: u32 where "PSCI_SYSTEM_OFF = 0x84000008"

definition PSCI_SYSTEM_RESET :: u32 where "PSCI_SYSTEM_RESET = 0x84000009"

definition PSCI_FEATURES :: u32 where "PSCI_FEATURES = 0x8400000a"

definition PSCI_CPU_FREEZE :: u32 where "PSCI_CPU_FREEZE = 0x8400000b"

definition PSCI_CPU_DEFAULT_SUSPEND :: u32 where "PSCI_CPU_DEFAULT_SUSPEND = 0x8400000c"

definition PSCI_NODE_HW_STATE :: u32 where "PSCI_NODE_HW_STATE = 0x8400000d"

definition PSCI_SYSTEM_SUSPEND :: u32 where "PSCI_SYSTEM_SUSPEND = 0x8400000e"

definition PSCI_SET_SYSPEND_MODE :: u32 where "PSCI_SET_SYSPEND_MODE = 0x8400000f"

definition PSCI_STAT_RESIDENCY :: u32 where "PSCI_STAT_RESIDENCY = 0x84000010"

definition PSCI_STAT_COUNT :: u32 where "PSCI_STAT_COUNT = 0x84000011"

definition PSCI_SYSTEM_RESET2 :: u32 where "PSCI_SYSTEM_RESET2 = 0x84000012"

definition PSCI_MEM_PROTECT :: u32 where "PSCI_MEM_PROTECT = 0x84000013"

definition PSCI_MEM_PROTECT_CHECK_RANGE :: u32 where "PSCI_MEM_PROTECT_CHECK_RANGE = 0x84000014"

definition PSCI_RETURN_OFF :: u64 where "PSCI_RETURN_OFF = 1"

definition PSCI_RETURN_ON :: u64 where "PSCI_RETURN_ON = 0"

definition PSCI_RETURN_SUCCESS :: u64 where "PSCI_RETURN_SUCCESS = 0"

definition PSCI_ERROR_NOT_SUPPORTED :: u64 where "PSCI_ERROR_NOT_SUPPORTED = SMCCC_ERROR_UNKNOWN"

definition PSCI_ERROR_INVALID_PARAMETERS :: u64 where "PSCI_ERROR_INVALID_PARAMETERS = - 2"

definition PSCI_ERROR_DENIED :: u64 where "PSCI_ERROR_DENIED = - 3"

definition PSCI_ERROR_ALREADY_ON :: u64 where "PSCI_ERROR_ALREADY_ON = - 4"

definition PSCI_ERROR_NO_PERMISSION :: u64 where "PSCI_ERROR_NO_PERMISSION = - 10"

definition CPU_ERROR_INVALID_ID :: u64 where "CPU_ERROR_INVALID_ID = 0xFFFFFFFFFFFFFFFF"

section \<open>\<^verbatim>\<open>plat/psci/hypervisor.c\<close>\<close>

definition plat_psci_version_get :: "hyp \<Rightarrow> u32" where
  "plat_psci_version_get s = el3_psci_version s"

definition plat_psci_init :: "firmware \<Rightarrow> hyp \<Rightarrow> hyp" where
  "plat_psci_init fw s =
     (case smc32 fw PSCI_VERSION 0 0 0 0 0 0 SMCCC_CALLER_HYPERVISOR s of
        (r, s1) \<Rightarrow>
          let v = ucast (ffa_func r) in
          s1\<lparr>el3_psci_version := if v \<in> {PSCI_VERSION_0_2, PSCI_VERSION_1_0, PSCI_VERSION_1_1} then v else 0\<rparr>)"

section \<open>\<^verbatim>\<open>psci_handler.c\<close>\<close>

definition psci_check_permission :: "nat \<Rightarrow> u64 \<Rightarrow> hyp \<Rightarrow> u64 res" where
  "psci_check_permission v cid s =
     res_bind (the_vm v s) (\<lambda>V.
     let cpu_no = ucast (aff_to_no cid s) :: u32 in
     if cpu_no < ucast (vcpu_count V)
     then if unat cpu_no < length (vm_cpus V) then Inr (vm_cpus V ! unat cpu_no) else Inl OutOfBounds
     else Inr CPU_ERROR_INVALID_ID)"

text \<open>\<^verbatim>\<open>psci_check_permission(vcpu->vm, arg0)\<close>\<close>

definition psci_permitted :: "vcpu_ptr \<Rightarrow> u64 \<Rightarrow> hyp \<Rightarrow> u64 res" where
  "psci_permitted p arg0 s = res_bind (vm_of_vcpu p s) (\<lambda>v. psci_check_permission v arg0 s)"

text \<open>The address of an element of \<^verbatim>\<open>cpus\<close>, of 24 bytes each.\<close>

definition cpu_addr :: "nat option \<Rightarrow> hyp \<Rightarrow> u64" where
  "cpu_addr c s = (case c of None \<Rightarrow> 0 | Some i \<Rightarrow> cpus_addr s + word_of_nat i * 24)"

text \<open>The loop of \<^verbatim>\<open>PSCI_CPU_ON\<close>, which ends when the firmware stops answering that the CPU is on.\<close>

partial_function (option) cpu_on_loop :: "firmware \<Rightarrow> u64 \<Rightarrow> nat \<Rightarrow> hyp \<Rightarrow> (u64 \<times> hyp) option" where
  "cpu_on_loop fw cid c s =
     (case smc64 fw PSCI_CPU_ON cid (cpu_entry s) (cpu_addr (Some c) s) 0 0 0 SMCCC_CALLER_HYPERVISOR s of
        (r, s1) \<Rightarrow> if ffa_func r = PSCI_ERROR_ALREADY_ON then cpu_on_loop fw cid c s1 else Some (ffa_func r, s1))"

definition psci_affinity_info :: "vcpu_ptr \<Rightarrow> u64 \<Rightarrow> u64 \<Rightarrow> hyp \<Rightarrow> (u64 \<times> hyp) res" where
  "psci_affinity_info p arg0 arg1 s =
     res_bind (psci_permitted p arg0 s) (\<lambda>cid.
     if cid = CPU_ERROR_INVALID_ID then Inr (PSCI_ERROR_NO_PERMISSION, s) else
     case cpu_find cid s of
       None \<Rightarrow> Inr (PSCI_ERROR_INVALID_PARAMETERS, s)
     | Some c \<Rightarrow>
         if arg1 \<noteq> 0 then Inr (PSCI_ERROR_NOT_SUPPORTED, s) else
         res_bind (the_cpu c s) (\<lambda>C.
         res_bind (sl_lock (cpu_held C)) (\<lambda>l.
         Inr (if is_on C then PSCI_RETURN_ON else PSCI_RETURN_OFF, upd_cpu c (\<lambda>C. C\<lparr>cpu_held := sl_unlock l\<rparr>) s))))"

definition psci_cpu_suspend :: "firmware \<Rightarrow> vcpu_ptr \<Rightarrow> u64 \<Rightarrow> u64 \<Rightarrow> u64 \<Rightarrow> hyp \<Rightarrow> (u64 \<times> hyp) res" where
  "psci_cpu_suspend fw p arg0 arg1 arg2 s =
     res_bind (psci_permitted p arg0 s) (\<lambda>cid.
     if cid = CPU_ERROR_INVALID_ID then Inr (PSCI_ERROR_NO_PERMISSION, s) else
     res_bind (the_vcpu p s) (\<lambda>V.
     let s1 = upd_vcpu p (\<lambda>V. V\<lparr>vcpu_regs := arch_regs_set_pc_arg arg1 arg2 (vcpu_regs V)\<rparr>) s in
     case smc64 fw PSCI_CPU_SUSPEND cid (cpu_entry s1) (cpu_addr (vcpu_cpu V) s1) 0 0 0 SMCCC_CALLER_HYPERVISOR s1 of
       (r, s2) \<Rightarrow> Inr (ffa_func r, s2)))"

definition psci_cpu_off :: "firmware \<Rightarrow> vcpu_ptr \<Rightarrow> u64 \<Rightarrow> hyp \<Rightarrow> (u64 \<times> hyp) res" where
  "psci_cpu_off fw p arg0 s =
     res_bind (psci_permitted p arg0 s) (\<lambda>cid.
     if cid = CPU_ERROR_INVALID_ID then Inr (PSCI_ERROR_NO_PERMISSION, s) else
     res_bind (the_vcpu p s) (\<lambda>V.
     res_bind (deref (vcpu_cpu V)) (\<lambda>c.
     res_bind (cpu_off c s) (\<lambda>s1.
     case smc32 fw PSCI_CPU_OFF 0 0 0 0 0 0 SMCCC_CALLER_HYPERVISOR s1 of (_, s2) \<Rightarrow> Inl Panic))))"

definition psci_cpu_on :: "firmware \<Rightarrow> vcpu_ptr \<Rightarrow> u64 \<Rightarrow> u64 \<Rightarrow> u64 \<Rightarrow> hyp \<Rightarrow> (u64 \<times> hyp) res" where
  "psci_cpu_on fw p arg0 arg1 arg2 s =
     res_bind (psci_permitted p arg0 s) (\<lambda>cid.
     if cid = CPU_ERROR_INVALID_ID then Inr (PSCI_ERROR_NO_PERMISSION, s) else
     case cpu_find cid s of
       None \<Rightarrow> Inr (PSCI_ERROR_INVALID_PARAMETERS, s)
     | Some c \<Rightarrow>
         res_bind (cpu_on c arg1 arg2 s) (\<lambda>(prev, s1).
         if prev then Inr (PSCI_ERROR_ALREADY_ON, s1) else
         res_bind (res_of_option (map_option Inr (cpu_on_loop fw cid c s1))) (\<lambda>(ret, s2).
         if ret \<noteq> PSCI_RETURN_SUCCESS then res_bind (cpu_off c s2) (\<lambda>s3. Inr (ret, s3)) else Inr (ret, s2))))"

definition psci_primary_features :: "firmware \<Rightarrow> u32 \<Rightarrow> u64 \<Rightarrow> hyp \<Rightarrow> u64 \<times> hyp" where
  "psci_primary_features fw func arg0 s =
     (let f = arg0 AND NOT (ucast SMCCC_CONVENTION_MASK) in
      if f = ucast PSCI_CPU_SUSPEND
      then if plat_psci_version_get s = PSCI_VERSION_0_2 then (0, s)
           else case smc32 fw func (ucast arg0) 0 0 0 0 0 SMCCC_CALLER_HYPERVISOR s of (r, s1) \<Rightarrow> (ffa_func r AND 0x3, s1)
      else if f \<in> set (map ucast [PSCI_VERSION, PSCI_FEATURES, PSCI_SYSTEM_OFF, PSCI_SYSTEM_RESET, PSCI_AFFINITY_INFO,
                                  PSCI_CPU_OFF, PSCI_CPU_ON]) then (0, s)
      else (PSCI_ERROR_NOT_SUPPORTED, s))"

definition psci_blocked :: "u32 list" where
  "psci_blocked = [PSCI_MIGRATE, PSCI_MIGRATE_INFO_TYPE, PSCI_MIGRATE_INFO_UP_CPU, PSCI_CPU_FREEZE,
     PSCI_CPU_DEFAULT_SUSPEND, PSCI_NODE_HW_STATE, PSCI_SYSTEM_SUSPEND, PSCI_SET_SYSPEND_MODE, PSCI_STAT_RESIDENCY,
     PSCI_STAT_COUNT, PSCI_SYSTEM_RESET2, PSCI_MEM_PROTECT, PSCI_MEM_PROTECT_CHECK_RANGE]"

text \<open>The result is what the function returns and what it stores through \<^verbatim>\<open>ret\<close>, if anything.\<close>

definition handled :: "(u64 \<times> hyp) res \<Rightarrow> (bool \<times> u64 option \<times> hyp) res" where
  "handled r = res_bind r (\<lambda>(x, s). Inr (True, Some x, s))"

definition psci_primary_vm_handler ::
  "firmware \<Rightarrow> vcpu_ptr \<Rightarrow> u32 \<Rightarrow> u64 \<Rightarrow> u64 \<Rightarrow> u64 \<Rightarrow> hyp \<Rightarrow> (bool \<times> u64 option \<times> hyp) res" where
  "psci_primary_vm_handler fw p func arg0 arg1 arg2 s =
     (let f = func AND NOT SMCCC_CONVENTION_MASK in
     if plat_psci_version_get s = 0
     then Inr (func AND SMCCC_SERVICE_CALL_MASK = SMCCC_STANDARD_SECURE_SERVICE_CALL, Some SMCCC_ERROR_UNKNOWN, s)
     else if f = PSCI_VERSION then handled (Inr (ucast PSCI_VERSION_1_1, s))
     else if f = PSCI_FEATURES then handled (Inr (psci_primary_features fw func arg0 s))
     else if f = PSCI_SYSTEM_OFF \<or> f = PSCI_SYSTEM_RESET
     then case smc32 fw f 0 0 0 0 0 0 SMCCC_CALLER_HYPERVISOR s of (_, _) \<Rightarrow> Inl Panic
     else if f = PSCI_AFFINITY_INFO then handled (psci_affinity_info p arg0 arg1 s)
     else if f = PSCI_CPU_SUSPEND then handled (psci_cpu_suspend fw p arg0 arg1 arg2 s)
     else if f = PSCI_CPU_OFF then handled (psci_cpu_off fw p arg0 s)
     else if f = PSCI_CPU_ON then handled (psci_cpu_on fw p arg0 arg1 arg2 s)
     else if f \<in> set psci_blocked then handled (Inr (PSCI_ERROR_NOT_SUPPORTED, s))
     else Inr (False, None, s))"

definition vcpu_id_to_index :: "u64 \<Rightarrow> u16" where
  "vcpu_id_to_index vid = ucast vid"

definition psci_secondary_features :: "u64 \<Rightarrow> u64" where
  "psci_secondary_features arg0 =
     (let f = arg0 AND NOT (ucast SMCCC_CONVENTION_MASK) in
      if f = ucast PSCI_CPU_SUSPEND then 0x2
      else if f \<in> set (map ucast [PSCI_VERSION, PSCI_FEATURES, PSCI_AFFINITY_INFO, PSCI_CPU_OFF, PSCI_CPU_ON]) then 0
      else PSCI_ERROR_NOT_SUPPORTED)"

definition psci_secondary_affinity_info :: "vcpu_ptr \<Rightarrow> u64 \<Rightarrow> u64 \<Rightarrow> hyp \<Rightarrow> (u64 \<times> hyp) res" where
  "psci_secondary_affinity_info p arg0 arg1 s =
     res_bind (vm_of_vcpu p s) (\<lambda>v.
     res_bind (the_vm v s) (\<lambda>V.
     let target = vcpu_id_to_index arg0; level = ucast arg1 :: u32 in
     if level \<noteq> 0 then Inr (PSCI_ERROR_INVALID_PARAMETERS, s)
     else if target \<ge> vcpu_count V then Inr (PSCI_ERROR_INVALID_PARAMETERS, s)
     else res_bind (vm_get_vcpu v target s) (\<lambda>t.
          res_bind (vcpu_lock t s) (\<lambda>s1.
          res_bind (the_vcpu t s1) (\<lambda>T.
          Inr (if vcpu_is_off T then PSCI_RETURN_OFF else PSCI_RETURN_ON, vcpu_unlock t s1))))))"

definition psci_secondary_cpu_on ::
  "vcpu_ptr \<Rightarrow> u64 \<Rightarrow> u64 \<Rightarrow> u64 \<Rightarrow> hyp \<Rightarrow> (u64 \<times> vcpu_ptr option \<times> hyp) res" where
  "psci_secondary_cpu_on p arg0 arg1 arg2 s =
     res_bind (vm_of_vcpu p s) (\<lambda>v.
     res_bind (the_vm v s) (\<lambda>V.
     let target = vcpu_id_to_index arg0 in
     if target \<ge> vcpu_count V then Inr (PSCI_ERROR_INVALID_PARAMETERS, None, s)
     else res_bind (vm_get_vcpu v target s) (\<lambda>t.
          res_bind (vcpu_lock t s) (\<lambda>s1.
          res_bind (vcpu_secondary_reset_and_start t arg1 arg2 s1) (\<lambda>(was_off, s2).
          let s3 = vcpu_unlock t s2 in
          if was_off then res_bind (api_wake_up p t s3) (\<lambda>(next, s4). Inr (PSCI_RETURN_SUCCESS, Some next, s4))
          else Inr (PSCI_ERROR_ALREADY_ON, None, s3))))))"

definition psci_secondary_vm_handler ::
  "vcpu_ptr \<Rightarrow> u32 \<Rightarrow> u64 \<Rightarrow> u64 \<Rightarrow> u64 \<Rightarrow> hyp \<Rightarrow> (bool \<times> u64 option \<times> vcpu_ptr option \<times> hyp) res" where
  "psci_secondary_vm_handler p func arg0 arg1 arg2 s =
     (let f = func AND NOT SMCCC_CONVENTION_MASK in
     if f = PSCI_VERSION then Inr (True, Some (ucast PSCI_VERSION_1_1), None, s)
     else if f = PSCI_FEATURES then Inr (True, Some (psci_secondary_features arg0), None, s)
     else if f = PSCI_AFFINITY_INFO
     then res_bind (psci_secondary_affinity_info p arg0 arg1 s) (\<lambda>(ret, s1). Inr (True, Some ret, None, s1))
     else if f = PSCI_CPU_SUSPEND
     then res_bind (api_wait_for_interrupt p s) (\<lambda>(next, s1). Inr (True, Some PSCI_RETURN_SUCCESS, Some next, s1))
     else if f = PSCI_CPU_OFF
     then res_bind (api_vcpu_off p s) (\<lambda>(next, s1). Inr (True, Some PSCI_ERROR_DENIED, Some next, s1))
     else if f = PSCI_CPU_ON
     then res_bind (psci_secondary_cpu_on p arg0 arg1 arg2 s) (\<lambda>(ret, next, s1). Inr (True, Some ret, next, s1))
     else if f \<in> set ([PSCI_SYSTEM_OFF, PSCI_SYSTEM_RESET] @ psci_blocked)
     then Inr (True, Some PSCI_ERROR_NOT_SUPPORTED, None, s)
     else Inr (False, None, None, s))"

definition psci_handler ::
  "firmware \<Rightarrow> vcpu_ptr \<Rightarrow> u32 \<Rightarrow> u64 \<Rightarrow> u64 \<Rightarrow> u64 \<Rightarrow> hyp \<Rightarrow> (bool \<times> u64 option \<times> vcpu_ptr option \<times> hyp) res" where
  "psci_handler fw p func arg0 arg1 arg2 s =
     res_bind (vm_of_vcpu p s) (\<lambda>v.
     res_bind (the_vm v s) (\<lambda>V.
     if vm_id V = PG_PRIMARY_VM_ID \<or> vm_id V = 0x2
     then res_bind (psci_primary_vm_handler fw p func arg0 arg1 arg2 s) (\<lambda>(b, ret, s1). Inr (b, ret, None, s1))
     else psci_secondary_vm_handler p func arg0 arg1 arg2 s))"

end
