(* ===== verification/Vgic.thy ===== *)
theory Vgic
  imports Traps Psci
begin

text \<open>
  The interrupt controller a VM sees: \<^verbatim>\<open>src/arch/aarch64/emulator.c\<close>, and the translation of addresses of
  \<^verbatim>\<open>src/arch/aarch64/addr_translator.c\<close>. Registers of the controller and the copy of them that a VM reads are in \<open>bytes\<close>.
  \<open>gic_config\<close> holds the addresses and sizes that the build fixes, with \<open>None\<close> for a part that is not there, and \<open>hw\<close>
  what the instruction \<^verbatim>\<open>at\<close> leaves in \<^verbatim>\<open>PAR_EL1\<close>. \<^verbatim>\<open>rwp_wait\<close> only reads, at most \<open>2 ^ 20\<close> times, and the cache
  maintenance instructions have no effect on this state; nor has the log, so \<^verbatim>\<open>print_reg_name\<close> is left out.
\<close>

unbundle bit_operations_syntax

section \<open>Configuration\<close>

record gic_config =
  FB_GICD :: u64
  FB_GICD_SIZE :: u64
  FB_GICR :: u64
  FB_GICR_SIZE :: u64
  FB_GITS :: "(u64 \<times> u64) option"
  FB_GICC :: "(u64 \<times> u64) option"
  FB_GICV :: "(u64 \<times> u64) option"
  FB_GICH :: "(u64 \<times> u64) option"
  GIC_VERSION :: nat

record hw =
  at_s1e1r :: "u64 \<Rightarrow> u64"
  at_s12e1r :: "u64 \<Rightarrow> u64"

definition FB_GICD_CTLR_OFFSET :: u64 where "FB_GICD_CTLR_OFFSET = 0x0000"

definition FB_GICD_TYPER_OFFSET :: u64 where "FB_GICD_TYPER_OFFSET = 0x0004"

definition FB_GICD_PIDR2_OFFSET :: u64 where "FB_GICD_PIDR2_OFFSET = 0xffe8"

definition FB_GICD_ISENABLER0_OFFSET :: u64 where "FB_GICD_ISENABLER0_OFFSET = 0x0100"

definition FB_GICD_IROUTER0_OFFSET :: u64 where "FB_GICD_IROUTER0_OFFSET = 0x6000"

definition FB_GICD_IROUTER0E_OFFSET :: u64 where "FB_GICD_IROUTER0E_OFFSET = 0x8000"

definition FB_GITS_CTLR_OFFSET :: u64 where "FB_GITS_CTLR_OFFSET = 0x0000"

definition FB_GITS_TYPER_OFFSET :: u64 where "FB_GITS_TYPER_OFFSET = 0x0008"

definition FB_GITS_BASER0_OFFSET :: u64 where "FB_GITS_BASER0_OFFSET = 0x0100"

definition FB_GITS_BASER2_OFFSET :: u64 where "FB_GITS_BASER2_OFFSET = 0x0110"

definition FB_GITS_BASER6_OFFSET :: u64 where "FB_GITS_BASER6_OFFSET = 0x0130"

definition FB_GICR_TYPER_OFFSET :: u64 where "FB_GICR_TYPER_OFFSET = 0x0008"

definition FB_GICR_PIDR2_OFFSET :: u64 where "FB_GICR_PIDR2_OFFSET = 0xffe8"

definition FB_GICD_CTLR_EnableGrp1 :: u32 where "FB_GICD_CTLR_EnableGrp1 = push_bit 0 1"

definition FB_GICD_CTLR_EnableGrp1A :: u32 where "FB_GICD_CTLR_EnableGrp1A = push_bit 1 1"

definition FB_GICD_CTLR_ARE_NS :: u32 where "FB_GICD_CTLR_ARE_NS = push_bit 4 1"

definition FB_GICR_FRAME_SIZE :: "gic_config \<Rightarrow> u64" where
  "FB_GICR_FRAME_SIZE G = (if GIC_VERSION G = 3 then 0x20000 else 0x40000)"

definition MAX_FB_GICR :: "gic_config \<Rightarrow> u64" where
  "MAX_FB_GICR G = FB_GICR_SIZE G div FB_GICR_FRAME_SIZE G"

text \<open>Layout of \<^verbatim>\<open>struct virt_gic\<close>: the offsets of the parts are those of the parts of the real controller.\<close>

definition vgic_gicd_size :: "gic_config \<Rightarrow> u64" where
  "vgic_gicd_size G = FB_GICD_SIZE G div 4 * 4"

definition vgic_gits_offset :: "gic_config \<Rightarrow> u64" where
  "vgic_gits_offset G =
     (case FB_GITS G of None \<Rightarrow> 0 | Some (b, _) \<Rightarrow> vgic_gicd_size G + (b - FB_GICD G - FB_GICD_SIZE G) div 4 * 4)"

definition vgic_gits_size :: "gic_config \<Rightarrow> u64" where
  "vgic_gits_size G = (case FB_GITS G of None \<Rightarrow> 0 | Some (_, n) \<Rightarrow> n div 4 * 4)"

definition vgic_gicr_offset :: "gic_config \<Rightarrow> u64" where
  "vgic_gicr_offset G =
     (case FB_GITS G of
        None \<Rightarrow> vgic_gicd_size G + (FB_GICR G - FB_GICD G - FB_GICD_SIZE G) div 4 * 4
      | Some (b, n) \<Rightarrow> vgic_gits_offset G + vgic_gits_size G + (FB_GICR G - b - n) div 4 * 4)"

definition vgic_gicr_frame :: "gic_config \<Rightarrow> u64" where
  "vgic_gicr_frame G = FB_GICR_SIZE G div MAX_FB_GICR G div 4 * 4"

definition vgic_gicr_size :: "gic_config \<Rightarrow> u64" where
  "vgic_gicr_size G = MAX_FB_GICR G * vgic_gicr_frame G"

definition vgic_size :: "gic_config \<Rightarrow> u64" where
  "vgic_size G = vgic_gicr_offset G + vgic_gicr_size G"

section \<open>Memory\<close>

definition store16 :: "u64 \<Rightarrow> u16 \<Rightarrow> bmem \<Rightarrow> bmem" where
  "store16 a v m = m(a := byte_of 0 v, a + 1 := byte_of 1 v)"

definition io_read32 :: "u64 \<Rightarrow> hyp \<Rightarrow> u32" where
  "io_read32 a s = load32 a (bytes s)"

definition io_write32 :: "u64 \<Rightarrow> u32 \<Rightarrow> hyp \<Rightarrow> hyp" where
  "io_write32 a v s = s\<lparr>bytes := store32 a v (bytes s)\<rparr>"

definition IROUTER :: "gic_config \<Rightarrow> u32 \<Rightarrow> u64" where
  "IROUTER G intid = FB_GICD G + FB_GICD_IROUTER0_OFFSET + ucast intid * 8"

definition set_router :: "gic_config \<Rightarrow> u32 \<Rightarrow> u64 \<Rightarrow> hyp \<Rightarrow> hyp" where
  "set_router G intid v s = s\<lparr>bytes := store64 (IROUTER G intid) v (bytes s)\<rparr>"

definition rwp_wait :: "hyp \<Rightarrow> hyp" where
  "rwp_wait s = s"

section \<open>Routing\<close>

definition vcpu_is_at :: "u64 \<Rightarrow> vcpu \<Rightarrow> hyp \<Rightarrow> bool" where
  "vcpu_is_at target V s \<longleftrightarrow>
     (case vcpu_cpu V of None \<Rightarrow> False | Some c \<Rightarrow> vcpu_state V \<noteq> VCPU_STATE_OFF \<and> cpu_id (cpus s ! c) = target)"

definition routed_to_vm :: "gic_config \<Rightarrow> u32 \<Rightarrow> nat \<Rightarrow> hyp \<Rightarrow> bool res" where
  "routed_to_vm G intid v s =
     (let r = load64 (IROUTER G intid) (bytes s) in
      if r AND 0x80000000 = 0 then Inr False
      else res_bind (the_vm v s) (\<lambda>V. Inr (list_ex (\<lambda>i. vcpu_is_at (r AND 0x7FFFFFFF) (vcpus V ! i) s) [0..<length (cpus s)])))"

text \<open>The loop of \<^verbatim>\<open>reroute_intid_to_vm\<close>: the CPU of the first virtual CPU that is on and not on \<open>cpuid\<close>.\<close>

primrec other_cpu :: "u32 \<Rightarrow> nat list \<Rightarrow> vm \<Rightarrow> hyp \<Rightarrow> u32 res" where
  "other_cpu cpuid [] V s = Inr cpuid"
| "other_cpu cpuid (i # is) V s =
     (if \<not> i < length (vcpus V) then Inl OutOfBounds
      else if vcpu_state (vcpus V ! i) = VCPU_STATE_OFF then other_cpu cpuid is V s
      else res_bind (deref (vcpu_cpu (vcpus V ! i))) (\<lambda>c.
           res_bind (the_cpu c s) (\<lambda>C.
           if cpu_id C \<noteq> ucast cpuid then Inr (ucast (cpu_id C)) else other_cpu cpuid is V s)))"

definition MAX_INTERRUPTS :: nat where "MAX_INTERRUPTS = 1024"

definition owner_of :: "u32 \<Rightarrow> hyp \<Rightarrow> nat option" where
  "owner_of intid s = (if unat intid < MAX_INTERRUPTS then fst (interrupt_owners s ! unat intid) else None)"

definition reroute_intid_to_vm :: "gic_config \<Rightarrow> u32 \<Rightarrow> u32 \<Rightarrow> hyp \<Rightarrow> hyp res" where
  "reroute_intid_to_vm G intid cpuid s =
     (if intid \<ge> 32 \<and> intid \<le> 988
      then res_bind (deref (owner_of intid s)) (\<lambda>v.
           res_bind (the_vm v s) (\<lambda>V.
           res_bind (other_cpu cpuid [0..<unat (vcpu_count V)] V s) (\<lambda>cpuid_next.
           Inr (set_router G intid (if cpuid_next = cpuid then 0 else ucast cpuid_next) s))))
      else Inr s)"

definition reroute_all_interrupts :: "gic_config \<Rightarrow> nat \<Rightarrow> u32 \<Rightarrow> hyp \<Rightarrow> hyp res" where
  "reroute_all_interrupts G v cpuid s =
     fold_res (\<lambda>i s. if fst (interrupt_owners s ! i) = Some v then reroute_intid_to_vm G (word_of_nat i) cpuid s else Inr s)
       [0..<MAX_INTERRUPTS] s"

definition route_intid_to_cpu :: "gic_config \<Rightarrow> u32 \<Rightarrow> u32 \<Rightarrow> nat \<Rightarrow> hyp \<Rightarrow> hyp res" where
  "route_intid_to_cpu G intid cpuid v s =
     (if intid \<ge> 32 \<and> intid \<le> 988
      then res_bind (if load64 (IROUTER G intid) (bytes s) \<noteq> 0 \<and> Some v \<noteq> owner_of intid s
                     then reroute_intid_to_vm G intid cpuid s
                     else Inr (set_router G intid (ucast cpuid) s)) (\<lambda>s1. Inr (rwp_wait s1))
      else Inr s)"

section \<open>Writing a register\<close>

text \<open>\<^verbatim>\<open>*((uintN_t* )addr) = value\<close> for the access size \<open>sas\<close>.\<close>

definition store_sas :: "u64 \<Rightarrow> u64 \<Rightarrow> u64 \<Rightarrow> bmem \<Rightarrow> bmem" where
  "store_sas sas a v m =
     (if sas = 0 then m(a := ucast v) else if sas = 1 then store16 a (ucast v) m
      else if sas = 2 then store32 a (ucast v) m else if sas = 3 then store64 a v m else m)"

text \<open>The CPU to which a write to \<^verbatim>\<open>GICD_IROUTER\<close> routes.\<close>

definition router_host :: "vcpu_ptr \<Rightarrow> vm \<Rightarrow> u64 \<Rightarrow> hyp \<Rightarrow> u32 res" where
  "router_host p V v_value s =
     (let target = ucast (aff_to_no v_value s) :: u32 in
      res_bind
        (if unat target < length (cpus s) \<and> vcpu_cpu (vcpus V ! unat target) \<noteq> None \<and>
            vcpu_state (vcpus V ! unat target) \<noteq> VCPU_STATE_OFF
         then deref (vcpu_cpu (vcpus V ! unat target))
         else res_bind (the_vcpu p s) (\<lambda>P. deref (vcpu_cpu P))) (\<lambda>c.
      res_bind (the_cpu c s) (\<lambda>C. Inr (ucast (cpu_id C)))))"

text \<open>One round of the loop over the bits of a write to \<^verbatim>\<open>GICD_ISENABLER\<close>.\<close>

definition enable_intid :: "gic_config \<Rightarrow> nat \<Rightarrow> u32 \<Rightarrow> u64 \<Rightarrow> nat \<Rightarrow> hyp \<Rightarrow> hyp res" where
  "enable_intid G v intid v_value i s =
     (let k = intid + word_of_nat i in
      if bit v_value i \<and> unat k < MAX_INTERRUPTS
      then res_bind (routed_to_vm G k v s) (\<lambda>routed.
           res_bind (if routed then Inr s else route_intid_to_cpu G k (ucast (msr s ''MPIDR_EL1'' AND 0x700)) v s) (\<lambda>s1.
           Inr (s1\<lparr>interrupt_owners := (interrupt_owners s1)[unat k := (Some v, snd (interrupt_owners s1 ! unat k))]\<rparr>)))
      else Inr s)"

definition write_to_reg :: "gic_config \<Rightarrow> vcpu_ptr \<Rightarrow> u64 \<Rightarrow> u64 \<Rightarrow> u64 \<Rightarrow> u64 \<Rightarrow> hyp \<Rightarrow> hyp res" where
  "write_to_reg G p addr v_addr sas v_value s =
     res_bind (vm_of_vcpu p s) (\<lambda>v.
     res_bind (the_vm v s) (\<lambda>V.
     res_bind (if addr \<ge> FB_GICD G + FB_GICD_IROUTER0_OFFSET \<and> addr \<le> FB_GICD G + FB_GICD_IROUTER0E_OFFSET
               then res_bind (router_host p V v_value s) (\<lambda>host. Inr (v_value AND push_bit 31 1 OR ucast host))
               else Inr v_value) (\<lambda>value0.
     let ctlr = (addr = FB_GICD G + FB_GICD_CTLR_OFFSET);
         value1 = (if ctlr then ucast (io_read32 (FB_GICD G + FB_GICD_CTLR_OFFSET) s) else value0);
         w = (if ctlr then v_value OR 0x10 else v_value);
         s1 = rwp_wait (s\<lparr>bytes := store_sas sas v_addr w (store_sas sas addr value1 (bytes s))\<rparr>);
         isenabler = FB_GICD G + FB_GICD_ISENABLER0_OFFSET
     in if addr \<ge> isenabler \<and> addr \<le> isenabler + 31 * 4
        then fold_res (enable_intid G v (ucast ((addr - isenabler) * 8)) w) [0..<32] s1
        else Inr s1)))"

section \<open>Addresses\<close>

definition gicr_adjust_cpu_offset :: "gic_config \<Rightarrow> u64 \<Rightarrow> nat \<Rightarrow> hyp \<Rightarrow> u64 res" where
  "gicr_adjust_cpu_offset G addr v s =
     res_bind (the_vm v s) (\<lambda>V.
     let vcpu_no = ucast ((addr - FB_GICR G) div FB_GICR_FRAME_SIZE G) :: u32 in
     res_bind (if vcpu_no \<le> ucast (vcpu_count V)
               then if unat vcpu_no < length (vm_cpus V) then Inr (ucast (aff_to_no (vm_cpus V ! unat vcpu_no) s))
                    else Inl OutOfBounds
               else Inr (ucast (drop_bit 8 (msr s ''MPIDR_EL1'') AND 0x7))) (\<lambda>pcpu_no :: u32.
     Inr (addr + ucast (pcpu_no - vcpu_no) * FB_GICR_FRAME_SIZE G)))"

definition vgic_to_gic :: "gic_config \<Rightarrow> u64 \<Rightarrow> nat \<Rightarrow> hyp \<Rightarrow> u64 res" where
  "vgic_to_gic G ipa v s =
     res_bind (the_vm v s) (\<lambda>V.
     let gicd = vgic V; gits = vgic V + vgic_gits_offset G; gicr = vgic V + vgic_gicr_offset G in
     if ipa \<ge> gicd \<and> ipa < gicd + vgic_gicd_size G then Inr (ipa - gicd + FB_GICD G)
     else if FB_GITS G \<noteq> None \<and> ipa \<ge> gits \<and> ipa < gits + vgic_gits_size G then Inr (ipa - gits + fst (the (FB_GITS G)))
     else if ipa \<ge> gicr \<and> ipa < gicr + vgic_gicr_size G then gicr_adjust_cpu_offset G (ipa - gicr + FB_GICR G) v s
     else Inr 0)"

definition PAR_FAIL_MASK :: u64 where "PAR_FAIL_MASK = push_bit 0 1"

definition PAR_STAGE_MASK :: u64 where "PAR_STAGE_MASK = push_bit 9 1"

definition PAR_FST_MASK :: u64 where "PAR_FST_MASK = 0x7E"

definition PAR_PERMISSION_FAULT_NO_LVL :: u64 where "PAR_PERMISSION_FAULT_NO_LVL = 0x3"

definition ADDR_NOT_MAPPED :: u64 where "ADDR_NOT_MAPPED = 0xFFFFFFFFFFFF"

definition PAGE_BITS_MASK :: u64 where "PAGE_BITS_MASK = push_bit PAGE_BITS 1 - 1"

definition arch_translate_va_to_ipa :: "hw \<Rightarrow> u64 \<Rightarrow> u64" where
  "arch_translate_va_to_ipa H va =
     (let par = at_s1e1r H va in
      if par AND PAR_FAIL_MASK \<noteq> 0 then ADDR_NOT_MAPPED else (par AND PA_BITS_MASK) + (PAGE_BITS_MASK AND va))"

definition arch_translate_ipa_to_pa :: "u64 \<Rightarrow> u64 \<Rightarrow> hyp \<Rightarrow> u64" where
  "arch_translate_ipa_to_pa ipa root s =
     (if ipa = ADDR_NOT_MAPPED then ADDR_NOT_MAPPED
      else case mm_vm_page_table_walk root ipa s of None \<Rightarrow> ADDR_NOT_MAPPED | Some pa \<Rightarrow> pa)"

definition arch_translate_va_to_pa :: "hw \<Rightarrow> u64 \<Rightarrow> u64 \<Rightarrow> hyp \<Rightarrow> u64" where
  "arch_translate_va_to_pa H va root s =
     (let par = at_s12e1r H va in
      if par AND PAR_FAIL_MASK \<noteq> 0
      then if par AND PAR_STAGE_MASK \<noteq> 0 \<and> drop_bit 3 (par AND PAR_FST_MASK) = PAR_PERMISSION_FAULT_NO_LVL
           then arch_translate_ipa_to_pa (arch_translate_va_to_ipa H va) root s
           else ADDR_NOT_MAPPED
      else (par AND PA_BITS_MASK) + (PAGE_BITS_MASK AND va))"

definition arch_translate_addr_args :: "vm \<Rightarrow> ffa_value \<Rightarrow> hyp \<Rightarrow> ffa_value" where
  "arch_translate_addr_args V args s =
     (let a = push_bit 32 (ffa_arg1 args) OR ffa_arg2 args in
      if a \<ge> ipa_mem_begin V \<and> a < ipa_mem_end V
      then let pa = arch_translate_ipa_to_pa a (vm_ptable V) s
           in args\<lparr>ffa_arg1 := drop_bit 32 pa, ffa_arg2 := pa AND 0xFFFFFFFF\<rparr>
      else args)"

section \<open>Accesses of a VM\<close>

definition in_region :: "u64 \<Rightarrow> (u64 \<times> u64) option \<Rightarrow> bool" where
  "in_region a r = (case r of None \<Rightarrow> False | Some (b, n) \<Rightarrow> a \<ge> b \<and> a < b + n)"

text \<open>The register an access is about: the address of the real register and that of its copy.\<close>

definition gic_target :: "gic_config \<Rightarrow> nat \<Rightarrow> u64 \<Rightarrow> u64 \<Rightarrow> hyp \<Rightarrow> (u64 \<times> u64) option res" where
  "gic_target G v ipa far_pa s =
     res_bind (the_vm v s) (\<lambda>V.
     if ipa \<ge> vgic V \<and> ipa \<le> vgic V + vgic_size G then res_bind (vgic_to_gic G ipa v s) (\<lambda>a. Inr (Some (a, ipa)))
     else if far_pa \<ge> vgic V \<and> far_pa \<le> vgic V + vgic_size G
     then res_bind (vgic_to_gic G far_pa v s) (\<lambda>a. Inr (Some (a, far_pa)))
     else if in_region ipa (FB_GICC G) \<or> in_region ipa (FB_GICV G) \<or> in_region ipa (FB_GICH G) then Inr (Some (ipa, ipa))
     else Inr None)"

definition SRT :: "u64 \<Rightarrow> u64" where
  "SRT esr = drop_bit 16 esr AND 0x1F"

definition SAS :: "u64 \<Rightarrow> u64" where
  "SAS esr = drop_bit 22 esr AND 0x3"

text \<open>Reads of less than a word leave the register alone.\<close>

definition gic_read :: "u64 \<Rightarrow> vcpu_ptr \<Rightarrow> u64 \<Rightarrow> hyp \<Rightarrow> hyp res" where
  "gic_read esr p vgic_pa s =
     (if SAS esr = 2 \<or> SAS esr = 3
      then res_bind (the_vcpu p s) (\<lambda>P.
           res_bind (get_reg (SRT esr) (vcpu_regs P)) (\<lambda>old.
           let x = (if SAS esr = 2 then ucast (load32 vgic_pa (bytes s)) else load64 vgic_pa (bytes s));
               new = (if esr AND 0x8000 \<noteq> 0 then x else old AND 0xFFFFFFFF00000000 OR x AND 0x00000000FFFFFFFF)
           in res_bind (set_reg (SRT esr) new (vcpu_regs P)) (\<lambda>r. Inr (upd_vcpu p (\<lambda>P. P\<lparr>vcpu_regs := r\<rparr>) s))))
      else Inr s)"

text \<open>The label \<^verbatim>\<open>out\<close>: the instruction is skipped and the lock is released, whether it is held or not.\<close>

definition gic_out :: "vcpu_ptr \<Rightarrow> u8 \<Rightarrow> hyp \<Rightarrow> hyp" where
  "gic_out p pc_inc s =
     (upd_vcpu p (\<lambda>P. P\<lparr>vcpu_regs := (vcpu_regs P)\<lparr>regs_pc := regs_pc (vcpu_regs P) + ucast pc_inc\<rparr>\<rparr>) s)
       \<lparr>gic_spinlock := sl_unlock (gic_spinlock s)\<rparr>"

definition gic_locked :: "gic_config \<Rightarrow> u64 \<Rightarrow> vcpu_ptr \<Rightarrow> u32 \<Rightarrow> u64 \<Rightarrow> u64 \<Rightarrow> hyp \<Rightarrow> (bool \<times> hyp) res" where
  "gic_locked G esr p mode addr vgic_pa s =
     (if mode = MM_MODE_R then res_bind (gic_read esr p vgic_pa s) (\<lambda>s1. Inr (True, s1))
      else if mode = MM_MODE_W
      then res_bind (if SRT esr \<noteq> 0x1F then res_bind (the_vcpu p s) (\<lambda>P. get_reg (SRT esr) (vcpu_regs P)) else Inr 0) (\<lambda>x.
           res_bind (write_to_reg G p addr vgic_pa (SAS esr) x s) (\<lambda>s1. Inr (True, s1)))
      else Inr (False, s))"

definition access_gicv3 ::
  "gic_config \<Rightarrow> hw \<Rightarrow> u64 \<Rightarrow> u64 \<Rightarrow> u8 \<Rightarrow> vcpu_ptr \<Rightarrow> vcpu_fault_info \<Rightarrow> hyp \<Rightarrow> (bool \<times> hyp) res" where
  "access_gicv3 G H esr far pc_inc p info s =
     res_bind (vm_of_vcpu p s) (\<lambda>v.
     res_bind (the_vm v s) (\<lambda>V.
     res_bind (gic_target G v (fault_ipaddr info) (arch_translate_va_to_pa H far (vm_ptable V) s) s) (\<lambda>target.
     case target of
       None \<Rightarrow> Inr (True, gic_out p pc_inc s)
     | Some (addr, vgic_pa) \<Rightarrow>
         if esr AND 0x1000000 = 0 then Inr (False, gic_out p pc_inc s)
         else if addr = 0 then Inr (False, gic_out p pc_inc s)
         else
         res_bind (sl_lock (gic_spinlock s)) (\<lambda>l.
         res_bind (gic_locked G esr p (fault_mode info) addr vgic_pa (s\<lparr>gic_spinlock := l\<rparr>)) (\<lambda>(ret, s1).
         Inr (ret, gic_out p pc_inc s1))))))"

section \<open>Registers of the CPU interface\<close>

definition icc_icv_is_register_access :: "u64 \<Rightarrow> bool" where
  "icc_icv_is_register_access esr \<longleftrightarrow>
     (let op0 = GET_ISS_OP0 esr; op1 = GET_ISS_OP1 esr; crn = GET_ISS_CRN esr; crm = GET_ISS_CRM esr in
      op0 = 0x3 \<and> op1 = 0 \<and> (crn = 0xC \<and> crm \<ge> 0x8 \<and> crm \<le> 0xC \<or> crn = 0x4 \<and> crm = 0x6))"

definition ICC_READ :: "sysreg list" where
  "ICC_READ =
     [(''ICC_PMR_EL1'', 0x3, 0x0, 0x4, 0x6, 0x0), (''ICC_IAR0_EL1'', 0x3, 0x0, 0xC, 0x8, 0x0),
      (''ICC_HPPIR0_EL1'', 0x3, 0x0, 0xC, 0x8, 0x2), (''ICC_BPR0_EL1'', 0x3, 0x0, 0xC, 0x8, 0x3),
      (''ICC_AP0R0_EL1'', 0x3, 0x0, 0xC, 0x8, 0x4), (''ICC_AP0R1_EL1'', 0x3, 0x0, 0xC, 0x8, 0x5),
      (''ICC_AP0R2_EL1'', 0x3, 0x0, 0xC, 0x8, 0x6), (''ICC_AP0R3_EL1'', 0x3, 0x0, 0xC, 0x8, 0x7),
      (''ICC_AP1R0_EL1'', 0x3, 0x0, 0xC, 0x9, 0x0), (''ICC_AP1R1_EL1'', 0x3, 0x0, 0xC, 0x9, 0x1),
      (''ICC_AP1R2_EL1'', 0x3, 0x0, 0xC, 0x9, 0x2), (''ICC_AP1R3_EL1'', 0x3, 0x0, 0xC, 0x9, 0x3),
      (''ICC_RPR_EL1'', 0x3, 0x0, 0xC, 0xB, 0x3), (''ICC_IAR1_EL1'', 0x3, 0x0, 0xC, 0xC, 0x0),
      (''ICC_HPPIR1_EL1'', 0x3, 0x0, 0xC, 0xC, 0x2), (''ICC_BPR1_EL1'', 0x3, 0x0, 0xC, 0xC, 0x3),
      (''ICC_CTLR_EL1'', 0x3, 0x0, 0xC, 0xC, 0x4), (''ICC_SRE_EL1'', 0x3, 0x0, 0xC, 0xC, 0x5),
      (''ICC_IGRPEN0_EL1'', 0x3, 0x0, 0xC, 0xC, 0x6), (''ICC_IGRPEN1_EL1'', 0x3, 0x0, 0xC, 0xC, 0x7)]"

definition ICC_WRITE :: "sysreg list" where
  "ICC_WRITE =
     [(''ICC_PMR_EL1'', 0x3, 0x0, 0x4, 0x6, 0x0), (''ICC_EOIR0_EL1'', 0x3, 0x0, 0xC, 0x8, 0x1),
      (''ICC_BPR0_EL1'', 0x3, 0x0, 0xC, 0x8, 0x3), (''ICC_AP0R0_EL1'', 0x3, 0x0, 0xC, 0x8, 0x4),
      (''ICC_AP0R1_EL1'', 0x3, 0x0, 0xC, 0x8, 0x5), (''ICC_AP0R2_EL1'', 0x3, 0x0, 0xC, 0x8, 0x6),
      (''ICC_AP0R3_EL1'', 0x3, 0x0, 0xC, 0x8, 0x7), (''ICC_AP1R0_EL1'', 0x3, 0x0, 0xC, 0x9, 0x0),
      (''ICC_AP1R1_EL1'', 0x3, 0x0, 0xC, 0x9, 0x1), (''ICC_AP1R2_EL1'', 0x3, 0x0, 0xC, 0x9, 0x2),
      (''ICC_AP1R3_EL1'', 0x3, 0x0, 0xC, 0x9, 0x3), (''ICC_DIR_EL1'', 0x3, 0x0, 0xC, 0xB, 0x1),
      (''ICC_SGI1R_EL1'', 0x3, 0x0, 0xC, 0xB, 0x5), (''ICC_ASGI1R_EL1'', 0x3, 0x0, 0xC, 0xB, 0x6),
      (''ICC_SGI0R_EL1'', 0x3, 0x0, 0xC, 0xB, 0x7), (''ICC_EOIR1_EL1'', 0x3, 0x0, 0xC, 0xC, 0x1),
      (''ICC_BPR1_EL1'', 0x3, 0x0, 0xC, 0xC, 0x3), (''ICC_CTLR_EL1'', 0x3, 0x0, 0xC, 0xC, 0x4),
      (''ICC_SRE_EL1'', 0x3, 0x0, 0xC, 0xC, 0x5), (''ICC_IGRPEN0_EL1'', 0x3, 0x0, 0xC, 0xC, 0x6),
      (''ICC_IGRPEN1_EL1'', 0x3, 0x0, 0xC, 0xC, 0x7)]"

text \<open>The value written to \<^verbatim>\<open>ICC_SGI1R_EL1\<close>, an interrupt for the CPU whose number is in the affinity fields.\<close>

definition sgi_value :: "vm \<Rightarrow> u64 \<Rightarrow> hyp \<Rightarrow> u64 res" where
  "sgi_value V x s =
     (let aff2 = ucast (drop_bit 32 x AND 0xf) :: u32; aff1 = ucast (drop_bit 16 x AND 0xf) :: u32;
          cpu_no = aff_to_no (ucast (push_bit 16 aff2 OR push_bit 8 aff1)) s
      in if cpu_no < ucast (vcpu_count V)
         then if unat cpu_no < length (vm_cpus V)
              then let pcpu = ucast (vm_cpus V ! unat cpu_no) :: u32
                   in Inr (x AND 0x81000F000000 OR ucast (push_bit 16 (pcpu AND 0xFF0000)) OR ucast (push_bit 8 (pcpu AND 0xFF00)) OR 0x1)
              else Inl OutOfBounds
         else Inr x)"

definition icc_icv_process_access :: "vcpu_ptr \<Rightarrow> u64 \<Rightarrow> hyp \<Rightarrow> (bool \<times> hyp) res" where
  "icc_icv_process_access p esr s =
     (let enc = GET_ISS_SYSREG esr; rt = GET_ISS_RT esr in
      CHECK (unat rt < NUM_GP_REGS + 1)
        (if ISS_IS_READ esr
         then case find_sysreg enc ICC_READ of
                None \<Rightarrow> Inr (False, s)
              | Some n \<Rightarrow> res_bind (write_rt p rt (msr s n) s) (\<lambda>s1. Inr (True, s1))
         else res_bind (read_rt p rt s) (\<lambda>x.
              case find_sysreg enc ICC_WRITE of
                None \<Rightarrow> Inr (False, s)
              | Some n \<Rightarrow>
                  res_bind (if n = ''ICC_SGI1R_EL1''
                            then res_bind (vm_of_vcpu p s) (\<lambda>v. res_bind (the_vm v s) (\<lambda>V. sgi_value V x s))
                            else Inr x) (\<lambda>y. Inr (True, write_msr n y s)))))"

section \<open>Cache maintenance\<close>

definition is_cache_maintenance :: "u64 \<Rightarrow> bool" where
  "is_cache_maintenance esr \<longleftrightarrow>
     GET_ISS_OP0 esr = 0x1 \<and> GET_ISS_OP1 esr = 0x0 \<and> GET_ISS_CRN esr = 0x7 \<and>
     (GET_ISS_CRM esr = 0x6 \<or> GET_ISS_CRM esr = 0xA \<or> GET_ISS_CRM esr = 0xE)"

definition DC_OPS :: "sysreg list" where
  "DC_OPS = [(''IVAC'', 0x1, 0x0, 0x7, 0x6, 0x1), (''ISW'', 0x1, 0x0, 0x7, 0x6, 0x2), (''CSW'', 0x1, 0x0, 0x7, 0xA, 0x2),
             (''CISW'', 0x1, 0x0, 0x7, 0xE, 0x2)]"

definition process_cache_maintenance :: "vcpu_ptr \<Rightarrow> u64 \<Rightarrow> hyp \<Rightarrow> (bool \<times> hyp) res" where
  "process_cache_maintenance p esr s =
     res_bind (read_rt p (GET_ISS_RT esr) s) (\<lambda>_. Inr (find_sysreg (GET_ISS_SYSREG esr) DC_OPS \<noteq> None, s))"

section \<open>Initialisation\<close>

definition init_interrupt_owners :: "hyp \<Rightarrow> hyp" where
  "init_interrupt_owners s = s\<lparr>interrupt_owners := replicate MAX_INTERRUPTS (None, 0)\<rparr>"

definition init_gic :: "gic_config \<Rightarrow> hyp \<Rightarrow> hyp" where
  "init_gic G s =
     (let ctlr = FB_GICD G + FB_GICD_CTLR_OFFSET;
          s1 = io_write32 ctlr 0 s;
          s2 = rwp_wait (io_write32 ctlr (io_read32 ctlr s1 OR FB_GICD_CTLR_ARE_NS) s1);
          s3 = (if io_read32 ctlr s2 AND FB_GICD_CTLR_ARE_NS \<noteq> 0
                then io_write32 ctlr (io_read32 ctlr s2 OR FB_GICD_CTLR_EnableGrp1A) s2
                else io_write32 ctlr (io_read32 ctlr s2 OR FB_GICD_CTLR_EnableGrp1) s2)
      in init_interrupt_owners (rwp_wait s3))"

definition put32 :: "u64 \<Rightarrow> u32 \<Rightarrow> hyp \<Rightarrow> hyp" where
  "put32 a v s = s\<lparr>bytes := store32 a v (bytes s)\<rparr>"

definition zero_region :: "u64 \<Rightarrow> u64 \<Rightarrow> u64 \<Rightarrow> hyp \<Rightarrow> hyp res" where
  "zero_region a sz n s = res_bind (memset_s a (unat sz) 0 (unat n) (bytes s)) (\<lambda>m. Inr (s\<lparr>bytes := m\<rparr>))"

text \<open>The address of \<^verbatim>\<open>gicr[i][offset / sizeof(uint32_t) + k]\<close>.\<close>

definition gicr_reg :: "gic_config \<Rightarrow> u64 \<Rightarrow> nat \<Rightarrow> u64 \<Rightarrow> u64 res" where
  "gicr_reg G gicr i offset =
     (if word_of_nat i < MAX_FB_GICR G then Inr (gicr + word_of_nat i * vgic_gicr_frame G + offset) else Inl OutOfBounds)"

definition init_vgicr :: "gic_config \<Rightarrow> u64 \<Rightarrow> nat \<Rightarrow> hyp \<Rightarrow> hyp res" where
  "init_vgicr G gicr i s =
     res_bind (gicr_reg G gicr i FB_GICR_PIDR2_OFFSET) (\<lambda>pidr.
     res_bind (gicr_reg G gicr i FB_GICR_TYPER_OFFSET) (\<lambda>typer.
     let n = word_of_nat i :: u32 in
     Inr (put32 (typer + 4) (push_bit 16 (n div 4) OR push_bit 8 (n mod 4))
           (put32 typer (push_bit 8 n OR 0x01) (put32 pidr 0x3b s)))))"

definition init_vgits :: "gic_config \<Rightarrow> u64 \<Rightarrow> hyp \<Rightarrow> hyp res" where
  "init_vgits G gits s =
     (case FB_GITS G of
        None \<Rightarrow> Inr s
      | Some (_, n) \<Rightarrow>
          res_bind (zero_region gits (vgic_gits_size G) n s) (\<lambda>s1.
          Inr (put32 (gits + FB_GITS_BASER6_OFFSET + 4) 0x04070000
                (put32 (gits + FB_GITS_BASER2_OFFSET + 4) 0x02070000
                  (put32 (gits + FB_GITS_BASER0_OFFSET + 4) 0x01070000
                    (put32 (gits + FB_GITS_TYPER_OFFSET) 0x000A0F7D (put32 (gits + FB_GITS_CTLR_OFFSET) 0x80000000 s1)))))))"

definition init_vgic :: "gic_config \<Rightarrow> nat \<Rightarrow> hyp \<Rightarrow> hyp res" where
  "init_vgic G v s =
     res_bind (the_vm v s) (\<lambda>V.
     let gicd = vgic V; gits = vgic V + vgic_gits_offset G; gicr = vgic V + vgic_gicr_offset G in
     res_bind (zero_region gicd (vgic_gicd_size G) (FB_GICD_SIZE G) s) (\<lambda>s1.
     let s2 = put32 (gicd + FB_GICD_PIDR2_OFFSET) 0x0000003B
                (put32 (gicd + FB_GICD_TYPER_OFFSET) 0x00780420 (put32 (gicd + FB_GICD_CTLR_OFFSET) 0x00000010 s1)) in
     res_bind (init_vgits G gits s2) (\<lambda>s3.
     res_bind (zero_region gicr (vgic_gicr_size G) (FB_GICR_SIZE G) s3) (\<lambda>s4.
     res_bind (fold_res (init_vgicr G gicr) [0..<unat (vcpu_count V)] s4) (\<lambda>s5.
     if vcpu_count V = 0 then Inl OutOfBounds
     else res_bind (gicr_reg G gicr (unat (vcpu_count V) - 1) FB_GICR_TYPER_OFFSET) (\<lambda>a.
          Inr (put32 a (load32 a (bytes s5) OR 0x10) s5)))))))"

end
