(* ===== verification/Virt_Devs.thy ===== *)
theory Virt_Devs
  imports Vgic
begin

text \<open>
  Virtual devices: \<^verbatim>\<open>src/arch/aarch64/virt_devs.c\<close> and the drivers under \<^verbatim>\<open>virt_devs/\<close>. The constants a build defines for a
  driver (\<^verbatim>\<open>V_ANATOP_BASE\<close> and the others) are a record, an argument here. Characters go to the console of \<open>dlog_st\<close>. The
  messages of \<^verbatim>\<open>dlog_debug\<close>, \<^verbatim>\<open>dlog_error\<close> and \<^verbatim>\<open>dlog_warning\<close> are left out.
\<close>

unbundle bit_operations_syntax

record dev_config =
  V_BASE :: u64
  V_SIZE :: u64
  V_DEVS :: nat
  V_ENABLED :: bool
  V_DIRMAP :: bool

definition V_PASSTHR :: "dev_config \<Rightarrow> bool" where
  "V_PASSTHR c \<longleftrightarrow> V_ENABLED c \<and> V_DEVS c = 0"

definition upd_regs :: "vcpu_ptr \<Rightarrow> (arch_regs \<Rightarrow> arch_regs) \<Rightarrow> hyp \<Rightarrow> hyp" where
  "upd_regs p f s = upd_vcpu p (\<lambda>V. V\<lparr>vcpu_regs := f (vcpu_regs V)\<rparr>) s"

definition skip_pc :: "vcpu_ptr \<Rightarrow> u8 \<Rightarrow> hyp \<Rightarrow> hyp" where
  "skip_pc p inc s = upd_regs p (\<lambda>r. r\<lparr>regs_pc := regs_pc r + ucast inc\<rparr>) s"

definition load_size :: "u64 \<Rightarrow> u64 \<Rightarrow> bmem \<Rightarrow> u64" where
  "load_size sz a m =
     (if sz = 0 then ucast (m a) else if sz = 1 then ucast (load16 a m)
      else if sz = 2 then ucast (load32 a m) else load64 a m)"

section \<open>Instances\<close>

definition the_dev :: "dev_kind \<Rightarrow> u8 \<Rightarrow> hyp \<Rightarrow> dev_inst res" where
  "the_dev k i s = (if unat i < length (dev_states s k) then Inr (dev_states s k ! unat i) else Inl OutOfBounds)"

definition upd_dev :: "dev_kind \<Rightarrow> u8 \<Rightarrow> (dev_inst \<Rightarrow> dev_inst) \<Rightarrow> hyp \<Rightarrow> hyp" where
  "upd_dev k i f s =
     s\<lparr>dev_states := (dev_states s)(k := (dev_states s k)[unat i := f (dev_states s k ! unat i)])\<rparr>"

definition dev_lock :: "dev_kind \<Rightarrow> u8 \<Rightarrow> hyp \<Rightarrow> hyp res" where
  "dev_lock k i s =
     res_bind (the_dev k i s) (\<lambda>D. if dev_held D then Inl Deadlock else Inr (upd_dev k i (\<lambda>D. D\<lparr>dev_held := True\<rparr>) s))"

definition dev_unlock :: "dev_kind \<Rightarrow> u8 \<Rightarrow> hyp \<Rightarrow> hyp" where
  "dev_unlock k i s = upd_dev k i (\<lambda>D. D\<lparr>dev_held := False\<rparr>) s"

section \<open>The register of the trapped instruction\<close>

definition ISV :: "u64 \<Rightarrow> u64" where "ISV esr = drop_bit 24 esr AND 0x1"

definition SF :: "u64 \<Rightarrow> u64" where "SF esr = drop_bit 15 esr AND 0x1"

text \<open>A read clears the register, all of it or its lower half, and joins the value.\<close>

definition load_dst :: "vcpu_ptr \<Rightarrow> u64 \<Rightarrow> u64 \<Rightarrow> hyp \<Rightarrow> hyp res" where
  "load_dst p esr x s =
     res_bind (the_vcpu p s) (\<lambda>P.
     res_bind (get_reg (SRT esr) (vcpu_regs P)) (\<lambda>old.
     res_bind (set_reg (SRT esr) ((if SF esr = 0 then old AND NOT (push_bit 32 1 - 1) else 0) OR x) (vcpu_regs P)) (\<lambda>r.
     Inr (upd_regs p (\<lambda>_. r) s))))"

definition src_value :: "vcpu_ptr \<Rightarrow> u64 \<Rightarrow> hyp \<Rightarrow> u64 res" where
  "src_value p esr s =
     (if SRT esr = 0x1f then Inr 0 else res_bind (the_vcpu p s) (\<lambda>P. get_reg (SRT esr) (vcpu_regs P)))"

text \<open>The same as a product, which reads \<^verbatim>\<open>r[31]\<close>.\<close>

definition src_product :: "vcpu_ptr \<Rightarrow> u64 \<Rightarrow> hyp \<Rightarrow> u64 res" where
  "src_product p esr s =
     res_bind (the_vcpu p s) (\<lambda>P.
     res_bind (get_reg (SRT esr) (vcpu_regs P)) (\<lambda>x. Inr ((if SRT esr \<noteq> 0x1f then 1 else 0) * x)))"

section \<open>Devices passed through\<close>

definition virt_dirmap :: "nat \<Rightarrow> u8 \<Rightarrow> vcpu_ptr \<Rightarrow> virt_dev \<Rightarrow> hyp \<Rightarrow> (bool \<times> hyp) res" where
  "virt_dirmap ppool inc p d s =
     res_bind (the_vcpu p s) (\<lambda>P.
     case vcpu_vm P of
       None \<Rightarrow> Inr (False, skip_pc p inc s)
     | Some v \<Rightarrow>
         res_bind (vm_lock v s) (\<lambda>s1.
         res_bind (vm_identity_map v (addr_start d) (addr_end d) (MM_MODE_R OR MM_MODE_W) ppool s1) (\<lambda>(ok, _, s2).
         Inr (if ok then (True, vm_unlock v s2) else (False, skip_pc p inc (vm_unlock v s2))))))"

text \<open>The operation on the memory of the device, for the three values of \<^verbatim>\<open>info->mode\<close>.\<close>

definition passthr_op :: "(vcpu_ptr \<Rightarrow> u64 \<Rightarrow> hyp \<Rightarrow> u64 res) \<Rightarrow> u64 \<Rightarrow> vcpu_ptr \<Rightarrow> vcpu_fault_info \<Rightarrow> hyp \<Rightarrow> (bool \<times> hyp) res" where
  "passthr_op src esr p info s =
     (if fault_mode info = MM_MODE_R
      then res_bind (load_dst p esr (load_size (SAS esr) (fault_ipaddr info) (bytes s)) s) (\<lambda>s1. Inr (True, s1))
      else if fault_mode info = MM_MODE_W
      then res_bind (src p esr s) (\<lambda>x. Inr (True, s\<lparr>bytes := store_sas (SAS esr) (fault_ipaddr info) x (bytes s)\<rparr>))
      else Inr (False, s))"

definition with_dev_lock :: "dev_kind \<Rightarrow> u8 \<Rightarrow> u8 \<Rightarrow> vcpu_ptr \<Rightarrow> (hyp \<Rightarrow> (bool \<times> hyp) res) \<Rightarrow> hyp \<Rightarrow> (bool \<times> hyp) res" where
  "with_dev_lock k i inc p f s =
     res_bind (dev_lock k i s) (\<lambda>s1. res_bind (f s1) (\<lambda>(ret, s2). Inr (ret, skip_pc p inc (dev_unlock k i s2))))"

definition passthr_access ::
  "(u64 \<Rightarrow> u32 \<Rightarrow> bool) \<Rightarrow> dev_kind \<Rightarrow> dev_config \<Rightarrow> nat \<Rightarrow> u64 \<Rightarrow> u8 \<Rightarrow> vcpu_ptr \<Rightarrow> vcpu_fault_info \<Rightarrow> virt_dev \<Rightarrow> hyp \<Rightarrow>
   (bool \<times> hyp) res" where
  "passthr_access blocked k c ppool esr inc p info d s =
     (if ISV esr = 0 then Inr (False, skip_pc p inc s)
      else if V_PASSTHR c \<and> V_DIRMAP c then virt_dirmap ppool inc p d s
      else if \<not> V_PASSTHR c then Inr (False, skip_pc p inc s)
      else if blocked (fault_ipaddr info - addr_start d) (fault_mode info) then Inr (True, skip_pc p inc s)
      else with_dev_lock k (dev_minor d) inc p (passthr_op src_value esr p info) s)"

definition anatop_access ::
  "dev_config \<Rightarrow> nat \<Rightarrow> u64 \<Rightarrow> u8 \<Rightarrow> vcpu_ptr \<Rightarrow> vcpu_fault_info \<Rightarrow> virt_dev \<Rightarrow> hyp \<Rightarrow> (bool \<times> hyp) res" where
  "anatop_access c ppool esr inc p info d s = passthr_access (\<lambda>_ _. False) ANATOP c ppool esr inc p info d s"

definition iomux_access ::
  "dev_config \<Rightarrow> nat \<Rightarrow> u64 \<Rightarrow> u8 \<Rightarrow> vcpu_ptr \<Rightarrow> vcpu_fault_info \<Rightarrow> virt_dev \<Rightarrow> hyp \<Rightarrow> (bool \<times> hyp) res" where
  "iomux_access c ppool esr inc p info d s = passthr_access (\<lambda>_ _. False) IOMUX c ppool esr inc p info d s"

text \<open>Writes to two registers of the clock controller are dropped.\<close>

definition ccm_blocked :: "u64 \<Rightarrow> u32 \<Rightarrow> bool" where
  "ccm_blocked off mode \<longleftrightarrow> mode = MM_MODE_W \<and> (off = 0x44b0 \<or> off = 0xb000)"

definition clock_ctrl_access ::
  "dev_config \<Rightarrow> nat \<Rightarrow> u64 \<Rightarrow> u8 \<Rightarrow> vcpu_ptr \<Rightarrow> vcpu_fault_info \<Rightarrow> virt_dev \<Rightarrow> hyp \<Rightarrow> (bool \<times> hyp) res" where
  "clock_ctrl_access c ppool esr inc p info d s = passthr_access ccm_blocked CLOCK_CTRL c ppool esr inc p info d s"

section \<open>The console \<^verbatim>\<open>imx_uart\<close>\<close>

definition TX_BUF_SZ :: nat where "TX_BUF_SZ = 2048"

definition URTX0 :: u64 where "URTX0 = 0x40"

definition IMX21_UTS :: u64 where "IMX21_UTS = 0xb4"

definition UTS_TXEMPTY :: u8 where "UTS_TXEMPTY = 0x40"

definition UTS_TXFULL :: u8 where "UTS_TXFULL = 0x10"

definition reg_offset_to_name :: "u64 \<Rightarrow> string" where
  "reg_offset_to_name off =
     (case map_of [(0x00, ''URXD0''), (URTX0, ''URTX0''), (0x80, ''UCR1''), (0x84, ''UCR2''), (0x88, ''UCR3''),
                   (0x8c, ''UCR4''), (0x90, ''UFCR''), (0x94, ''USR1''), (0x98, ''USR2''), (0x9c, ''UESC''),
                   (0xa0, ''UTIM''), (0xa4, ''UBIR''), (0xa8, ''UBMR''), (0xac, ''UBRC''), (0xb0, ''IMX21_ONEMS''),
                   (0xd0, ''IMX1_UTS''), (IMX21_UTS, ''IMX21_UTS'')] off of
        Some n \<Rightarrow> n | None \<Rightarrow> ''unknown'')"

text \<open>Storing a character; \<open>flush\<close> prints the buffer and empties it.\<close>

definition tx_store :: "nat \<Rightarrow> u8 \<Rightarrow> dev_inst \<Rightarrow> dev_inst res" where
  "tx_store sz chr D =
     (if tx_head D < sz then Inr (D\<lparr>tx_buff := (tx_buff D)[tx_head D := chr], tx_head := tx_head D + 1\<rparr>) else Inl OutOfBounds)"

definition emu_state_reset :: "u64 \<Rightarrow> dev_inst \<Rightarrow> dev_inst" where
  "emu_state_reset sz D =
     (let m = (\<lambda>a. if a < sz then 0 else dev_regs D a) in
      D\<lparr>dev_regs := m(IMX21_UTS := (m IMX21_UTS OR UTS_TXEMPTY) AND NOT UTS_TXFULL), tx_head := 0\<rparr>)"

definition imx_flush :: "u8 \<Rightarrow> dev_inst \<Rightarrow> dlog_state \<Rightarrow> (dev_inst \<times> dlog_state) res" where
  "imx_flush i D w =
     res_bind (dlog (map of_char ''virt-uart[%u]: '' @ [0]) [VInt (ucast i)] w) (\<lambda>w1.
     res_bind (put_chars dlog_putchar (tx_head D) (tx_buff D) w1) (\<lambda>w2. Inr (D\<lparr>tx_head := 0\<rparr>, w2)))"

definition emu_state_update :: "u32 \<Rightarrow> u64 \<Rightarrow> u8 \<Rightarrow> dev_inst \<Rightarrow> dlog_state \<Rightarrow> (dev_inst \<times> dlog_state) res" where
  "emu_state_update mode off i D w =
     (if mode = MM_MODE_R then Inr (D, w)
      else if off = URTX0
      then let chr = dev_regs D URTX0 in
           res_bind (tx_store TX_BUF_SZ chr D) (\<lambda>D1.
           if chr = 0x0A \<or> tx_head D1 = TX_BUF_SZ then imx_flush i D1 w else Inr (D1, w))
      else Inr (D, w))"

text \<open>The emulated registers: only \<^verbatim>\<open>IMX21_UTS\<close> is read and only \<^verbatim>\<open>URTX0\<close> is written.\<close>

definition imx_emulated_op :: "dev_config \<Rightarrow> u64 \<Rightarrow> vcpu_ptr \<Rightarrow> vcpu_fault_info \<Rightarrow> virt_dev \<Rightarrow> hyp \<Rightarrow> (bool \<times> hyp) res" where
  "imx_emulated_op c esr p info d s =
     (let off = fault_ipaddr info - addr_start d; i = dev_minor d; n = 2 ^ unat (SAS esr) in
      res_bind (the_dev IMX_UART i s) (\<lambda>D.
      if fault_mode info = MM_MODE_R
      then if off \<noteq> IMX21_UTS then res_bind (load_dst p esr 0 s) (\<lambda>s1. Inr (True, s1))
           else if unat off + n > unat (V_SIZE c) then Inl OutOfBounds
           else res_bind (load_dst p esr (load_size (SAS esr) off (dev_regs D)) s) (\<lambda>s1.
                res_bind (emu_state_update MM_MODE_R off i D (dlog_st s1)) (\<lambda>(D1, w).
                Inr (True, upd_dev IMX_UART i (\<lambda>_. D1) (s1\<lparr>dlog_st := w\<rparr>))))
      else if fault_mode info = MM_MODE_W
      then if off \<noteq> URTX0 then Inr (True, s)
           else if unat off + n > unat (V_SIZE c) then Inl OutOfBounds
           else res_bind (src_product p esr s) (\<lambda>x.
                let D0 = D\<lparr>dev_regs := store_sas (SAS esr) off x (dev_regs D)\<rparr> in
                res_bind (emu_state_update MM_MODE_W off i D0 (dlog_st s)) (\<lambda>(D1, w).
                Inr (True, upd_dev IMX_UART i (\<lambda>_. D1) (s\<lparr>dlog_st := w\<rparr>))))
      else Inr (False, s)))"

definition imx_uart_access ::
  "dev_config \<Rightarrow> nat \<Rightarrow> u64 \<Rightarrow> u8 \<Rightarrow> vcpu_ptr \<Rightarrow> vcpu_fault_info \<Rightarrow> virt_dev \<Rightarrow> hyp \<Rightarrow> (bool \<times> hyp) res" where
  "imx_uart_access c ppool esr inc p info d s =
     (if ISV esr = 0 then Inr (False, skip_pc p inc s)
      else if V_PASSTHR c \<and> V_DIRMAP c then virt_dirmap ppool inc p d s
      else with_dev_lock IMX_UART (dev_minor d) inc p
             (if V_PASSTHR c then passthr_op src_product esr p info else imx_emulated_op c esr p info d) s)"

section \<open>The console \<^verbatim>\<open>sanct_uart\<close>\<close>

definition URX :: u64 where "URX = 0x00"

definition UTX :: u64 where "UTX = 0x04"

definition UCR :: u64 where "UCR = 0x08"

definition TX_BUFF_SZ :: nat where "TX_BUFF_SZ = 2048"

definition sanct_reg_offset_to_name :: "u64 \<Rightarrow> string" where
  "sanct_reg_offset_to_name off =
     (if off = URX then ''URX'' else if off = UTX then ''UTX'' else if off = UCR then ''UCR'' else ''unknown'')"

definition stdout_puts :: "u8 list \<Rightarrow> nat \<Rightarrow> dlog_state \<Rightarrow> (nat \<times> dlog_state) res" where
  "stdout_puts str n w =
     (if n \<noteq> 0 then res_bind (put_chars dlog_putchar n str w) (\<lambda>w1. Inr (n, w1)) else raw_string dlog_putchar str 0 w)"

definition print_tag :: "u8 \<Rightarrow> dlog_state \<Rightarrow> dlog_state res" where
  "print_tag i w =
     res_bind (stdout_puts (map of_char ''sanct-uart['' @ [0]) 0 w) (\<lambda>(_, w1).
     res_bind (dlog_putchar (0x30 + i) w1) (\<lambda>w2.
     res_bind (stdout_puts (map of_char '']: '' @ [0]) 0 w2) (\<lambda>(_, w3). Inr w3)))"

definition flush_tx_buff :: "u8 \<Rightarrow> dev_inst \<Rightarrow> u8 \<times> dlog_state \<Rightarrow> (dev_inst \<times> u8 \<times> dlog_state) res" where
  "flush_tx_buff i D = (\<lambda>(lpc, w).
     if tx_head D = 0 then Inr (D, lpc, w)
     else
     res_bind (dlog_lock w) (\<lambda>w1.
     res_bind (if lpc = 0x0A then print_tag i w1 else Inr w1) (\<lambda>w2.
     res_bind (stdout_puts (tx_buff D) (tx_head D) w2) (\<lambda>(_, w3).
     Inr (D\<lparr>tx_head := 0\<rparr>, tx_buff D ! (tx_head D - 1), dlog_unlock w3)))))"

definition dev_reset :: "dev_inst \<Rightarrow> dev_inst" where
  "dev_reset D = D\<lparr>dev_regs := store32 UCR 0 (store32 UTX 0 (store32 URX 0 (dev_regs D))), tx_head := 0\<rparr>"

definition dev_read :: "u64 \<Rightarrow> u64 \<Rightarrow> dev_inst \<Rightarrow> u64" where
  "dev_read off sas D =
     (if off = URX then ucast (load32 off (dev_regs D)) else 0) AND drop_bit (64 - 2 ^ (3 + unat sas)) (- 1)"

definition dev_write :: "u64 \<Rightarrow> u64 \<Rightarrow> u8 \<Rightarrow> dev_inst \<Rightarrow> u8 \<times> dlog_state \<Rightarrow> (dev_inst \<times> u8 \<times> dlog_state) res" where
  "dev_write x off i D lw =
     (if off = UTX
      then let chr = ucast x in
           res_bind (tx_store TX_BUFF_SZ chr D) (\<lambda>D1.
           if tx_head D1 = TX_BUFF_SZ \<or> chr = 0x0A then flush_tx_buff i D1 lw else Inr (D1, lw))
      else if off = UCR \<and> x AND 1 \<noteq> 0 then flush_tx_buff i D lw
      else Inr (D, lw))"

definition sanct_uart_op :: "u64 \<Rightarrow> vcpu_ptr \<Rightarrow> vcpu_fault_info \<Rightarrow> virt_dev \<Rightarrow> hyp \<Rightarrow> (bool \<times> hyp) res" where
  "sanct_uart_op esr p info d s =
     (let off = fault_ipaddr info - addr_start d; i = dev_minor d in
      res_bind (the_dev SANCT_UART i s) (\<lambda>D.
      if fault_mode info = MM_MODE_R
      then res_bind (load_dst p esr (dev_read off (SAS esr) D) s) (\<lambda>s1. Inr (True, s1))
      else if fault_mode info = MM_MODE_W
      then res_bind (src_product p esr s) (\<lambda>x.
           res_bind (dev_write x off i D (sanct_lpc s, dlog_st s)) (\<lambda>(D1, lpc, w).
           Inr (True, upd_dev SANCT_UART i (\<lambda>_. D1) (s\<lparr>sanct_lpc := lpc, dlog_st := w\<rparr>))))
      else Inr (False, s)))"

definition sanct_uart_access ::
  "u64 \<Rightarrow> u8 \<Rightarrow> vcpu_ptr \<Rightarrow> vcpu_fault_info \<Rightarrow> virt_dev \<Rightarrow> hyp \<Rightarrow> (bool \<times> hyp) res" where
  "sanct_uart_access esr inc p info d s =
     (if ISV esr = 0 then Inr (False, skip_pc p inc s)
      else with_dev_lock SANCT_UART (dev_minor d) inc p (sanct_uart_op esr p info d) s)"

section \<open>Registering the devices\<close>

definition MAX_DEVS :: nat where "MAX_DEVS = 128"

definition new_dev :: "dev_kind \<Rightarrow> string \<Rightarrow> dev_config \<Rightarrow> nat \<Rightarrow> virt_dev" where
  "new_dev k name c i =
     \<lparr>dev_name = name, dev_minor = word_of_nat i, addr_start = V_BASE c + word_of_nat i * V_SIZE c,
      addr_end = V_BASE c + (word_of_nat i + 1) * V_SIZE c, dev_access = k\<rparr>"

definition init_insts :: "dev_kind \<Rightarrow> (dev_inst \<Rightarrow> dev_inst) \<Rightarrow> nat \<Rightarrow> hyp \<Rightarrow> hyp" where
  "init_insts k reset n s =
     fold (\<lambda>i. upd_dev k (word_of_nat i) (\<lambda>D. (reset D)\<lparr>dev_held := False\<rparr>)) [0..<n] s"

text \<open>The result is the number of devices, or \<open>None\<close> for \<open>-1\<close>.\<close>

definition virt_passthr_init ::
  "string \<Rightarrow> dev_kind \<Rightarrow> (dev_inst \<Rightarrow> dev_inst) \<Rightarrow> dev_config \<Rightarrow> nat \<Rightarrow> hyp \<Rightarrow> virt_dev list option \<times> hyp" where
  "virt_passthr_init name k reset c slots_left s =
     (if V_DEVS c > slots_left \<or> slots_left = 0 then (None, s)
      else let s1 = init_insts k reset (V_DEVS c) s in
           if V_PASSTHR c
           then (Some [new_dev k (name @ (if V_DIRMAP c then ''[DM]'' else ''[PT]'')) c 0],
                 upd_dev k 0 (\<lambda>D. D\<lparr>dev_held := False\<rparr>) s1)
           else (Some (map (new_dev k name c) [0..<V_DEVS c]), s1))"

definition clear_regs :: "dev_config \<Rightarrow> dev_inst \<Rightarrow> dev_inst" where
  "clear_regs c D = D\<lparr>dev_regs := (\<lambda>a. if a < V_SIZE c then 0 else dev_regs D a)\<rparr>"

definition virt_anatop_init :: "dev_config \<Rightarrow> nat \<Rightarrow> hyp \<Rightarrow> virt_dev list option \<times> hyp" where
  "virt_anatop_init c slots_left s = virt_passthr_init ''virt-anatop'' ANATOP (clear_regs c) c slots_left s"

definition virt_iomux_init :: "dev_config \<Rightarrow> nat \<Rightarrow> hyp \<Rightarrow> virt_dev list option \<times> hyp" where
  "virt_iomux_init c slots_left s = virt_passthr_init ''virt-iomux'' IOMUX (clear_regs c) c slots_left s"

definition virt_clock_ctrl_init :: "dev_config \<Rightarrow> nat \<Rightarrow> hyp \<Rightarrow> virt_dev list option \<times> hyp" where
  "virt_clock_ctrl_init c slots_left s = virt_passthr_init ''virt-clock_ctrl'' CLOCK_CTRL (clear_regs c) c slots_left s"

definition virt_imx_uart_init :: "dev_config \<Rightarrow> nat \<Rightarrow> hyp \<Rightarrow> virt_dev list option \<times> hyp" where
  "virt_imx_uart_init c slots_left s =
     virt_passthr_init ''virt-imx_uart'' IMX_UART (emu_state_reset (V_SIZE c)) c slots_left s"

definition virt_sanct_uart_init :: "dev_config \<Rightarrow> nat \<Rightarrow> hyp \<Rightarrow> virt_dev list option \<times> hyp" where
  "virt_sanct_uart_init c slots_left s =
     (if V_DEVS c > slots_left then (None, s)
      else let s1 = init_insts SANCT_UART dev_reset (V_DEVS c) s in
           (Some (map (new_dev SANCT_UART ''virt-sanct_uart'' c) [0..<V_DEVS c]),
            s1\<lparr>dlog_st := dlog_enable_lock (dlog_st s1)\<rparr>))"

text \<open>The drivers are initialised in turn until one fails.\<close>

fun init_drivers :: "(bool \<times> (nat \<Rightarrow> hyp \<Rightarrow> virt_dev list option \<times> hyp)) list \<Rightarrow> hyp \<Rightarrow> bool \<times> hyp" where
  "init_drivers [] s = (True, s)"
| "init_drivers ((enabled, f) # fs) s =
     (if \<not> enabled then init_drivers fs s
      else case f (MAX_DEVS - length (devs s)) s of
             (None, s1) \<Rightarrow> (False, s1)
           | (Some ds, s1) \<Rightarrow> init_drivers fs (s1\<lparr>devs := devs s1 @ ds\<rparr>))"

definition init_virt_devs :: "(dev_kind \<Rightarrow> dev_config) \<Rightarrow> hyp \<Rightarrow> bool \<times> hyp" where
  "init_virt_devs C s =
     (if devs_accessed s then (True, s)
      else init_drivers
             [(V_ENABLED (C SANCT_UART), virt_sanct_uart_init (C SANCT_UART)),
              (V_ENABLED (C IMX_UART), virt_imx_uart_init (C IMX_UART)),
              (V_ENABLED (C ANATOP), virt_anatop_init (C ANATOP)),
              (V_ENABLED (C IOMUX), virt_iomux_init (C IOMUX)),
              (V_ENABLED (C CLOCK_CTRL), virt_clock_ctrl_init (C CLOCK_CTRL))] (s\<lparr>devs_accessed := True\<rparr>))"

definition virt_identity_map :: "u64 \<Rightarrow> u64 \<Rightarrow> u64 \<Rightarrow> nat \<Rightarrow> hyp \<Rightarrow> (bool \<times> hyp) res" where
  "virt_identity_map base sz root ppool s =
     res_bind (mm_identity_map (branch_protection s) root base (base + sz) (MM_MODE_R OR MM_MODE_W OR MM_MODE_D) ppool s)
       (\<lambda>(va, s1). Inr (va \<noteq> 0, s1))"

primrec map_backing :: "(dev_kind \<Rightarrow> dev_config) \<Rightarrow> u64 \<Rightarrow> nat \<Rightarrow> dev_kind list \<Rightarrow> hyp \<Rightarrow> (bool \<times> hyp) res" where
  "map_backing C root ppool [] s = Inr (True, s)"
| "map_backing C root ppool (k # ks) s =
     (if V_ENABLED (C k) \<and> \<not> (V_DIRMAP (C k) \<and> V_PASSTHR (C k))
      then res_bind (virt_identity_map (V_BASE (C k)) (V_SIZE (C k)) root ppool s) (\<lambda>(ok, s1).
           if ok then map_backing C root ppool ks s1 else Inr (False, s1))
      else map_backing C root ppool ks s)"

definition init_backing_devs :: "(dev_kind \<Rightarrow> dev_config) \<Rightarrow> u64 \<Rightarrow> nat \<Rightarrow> hyp \<Rightarrow> (bool \<times> hyp) res" where
  "init_backing_devs C root ppool s =
     (if backing_accessed s then Inr (True, s)
      else map_backing C root ppool [ANATOP, IOMUX, CLOCK_CTRL] (s\<lparr>backing_accessed := True\<rparr>))"

section \<open>Finding the device of an access\<close>

definition access_dev ::
  "(dev_kind \<Rightarrow> dev_config) \<Rightarrow> nat \<Rightarrow> u64 \<Rightarrow> u8 \<Rightarrow> vcpu_ptr \<Rightarrow> vcpu_fault_info \<Rightarrow> virt_dev \<Rightarrow> hyp \<Rightarrow> (bool \<times> hyp) res" where
  "access_dev C ppool esr inc p info d s =
     (case dev_access d of
        SANCT_UART \<Rightarrow> sanct_uart_access esr inc p info d s
      | IMX_UART \<Rightarrow> imx_uart_access (C IMX_UART) ppool esr inc p info d s
      | ANATOP \<Rightarrow> anatop_access (C ANATOP) ppool esr inc p info d s
      | IOMUX \<Rightarrow> iomux_access (C IOMUX) ppool esr inc p info d s
      | CLOCK_CTRL \<Rightarrow> clock_ctrl_access (C CLOCK_CTRL) ppool esr inc p info d s)"

definition access_virt_dev ::
  "(dev_kind \<Rightarrow> dev_config) \<Rightarrow> nat \<Rightarrow> u64 \<Rightarrow> u8 \<Rightarrow> vcpu_ptr \<Rightarrow> vcpu_fault_info \<Rightarrow> hyp \<Rightarrow> (bool \<times> hyp) res" where
  "access_virt_dev C ppool esr inc p info s =
     (case find (\<lambda>d. fault_ipaddr info \<ge> addr_start d \<and> fault_ipaddr info < addr_end d) (devs s) of
        Some d \<Rightarrow> access_dev C ppool esr inc p info d s
      | None \<Rightarrow> Inr (False, s))"

end
