(* ===== verification/Handler.thy ===== *)
theory Handler
  imports Virt_Devs
begin

text \<open>
  Exceptions from a VM: \<^verbatim>\<open>src/arch/aarch64/hypervisor/handler.c\<close> with the default mediator of calls to the firmware
  (\<^verbatim>\<open>hypervisor/default_mediator.c\<close>) and the region of virtio devices (\<^verbatim>\<open>virtioac.c\<close>). \<open>p\<close> is the running virtual CPU, \<^verbatim>\<open>current()\<close>; a result \<open>None\<close> for the next one is \<^verbatim>\<open>NULL\<close>.
  The registers \<^verbatim>\<open>x19\<close> to \<^verbatim>\<open>x28\<close>, which stay in the CPU, are among the system registers. The handlers of exceptions in
  the hypervisor itself only panic.
\<close>

unbundle bit_operations_syntax

definition set_r0 :: "vcpu_ptr \<Rightarrow> u64 \<Rightarrow> hyp \<Rightarrow> hyp" where
  "set_r0 p x s = upd_regs p (\<lambda>r. r\<lparr>regs_r := (regs_r r)[0 := x]\<rparr>) s"

definition GET_NEXT_PC_INC :: "u64 \<Rightarrow> u8" where
  "GET_NEXT_PC_INC esr = (if GET_ESR_IL esr \<noteq> 0 then 4 else 2)"

section \<open>Saving and restoring\<close>

definition complete_saving_state :: "vcpu_ptr \<Rightarrow> hyp \<Rightarrow> hyp res" where
  "complete_saving_state p s =
     (let h = has_vhe_support (vhe s) (msr s);
          cval = (if h then ''CNTV_CVAL_EL02'' else ''CNTV_CVAL_EL0''); ctl = (if h then ''CNTV_CTL_EL02'' else ''CNTV_CTL_EL0'')
      in res_bind (api_regs_state_saved p (upd_regs p (\<lambda>r. r\<lparr>cntv_cval_el0 := msr s cval, cntv_ctl_el0 := msr s ctl\<rparr>) s)) (\<lambda>s1.
         res_bind (vm_of_vcpu p s1) (\<lambda>v.
         res_bind (the_vm v s1) (\<lambda>V.
         Inr (if vm_id V = PG_PRIMARY_VM_ID
              then write_msr ''CNTHP_CTL_EL2'' (msr s1 ctl)
                     (write_msr ''CNTHP_CVAL_EL2'' (msr s1 cval) (write_msr ''CNTHP_CTL_EL2'' 0 s1))
              else s1)))))"

definition begin_restoring_state :: "vcpu_ptr \<Rightarrow> hyp \<Rightarrow> hyp res" where
  "begin_restoring_state p s =
     (let h = has_vhe_support (vhe s) (msr s);
          cval = (if h then ''CNTV_CVAL_EL02'' else ''CNTV_CVAL_EL0''); ctl = (if h then ''CNTV_CTL_EL02'' else ''CNTV_CTL_EL0'')
      in res_bind (the_vcpu p s) (\<lambda>P.
         let s1 = write_msr ctl (cntv_ctl_el0 (vcpu_regs P)) (write_msr cval (cntv_cval_el0 (vcpu_regs P)) (write_msr ctl 0 s)) in
         res_bind (vm_of_vcpu p s1) (\<lambda>v.
         res_bind (the_vm v s1) (\<lambda>V.
         Inr (if vm_id V = PG_PRIMARY_VM_ID then write_msr ''CNTHP_CVAL_EL2'' 0 (write_msr ''CNTHP_CTL_EL2'' 0 s1) else s1)))))"

text \<open>The result also says whether the TLB is invalidated.\<close>

definition maybe_invalidate_tlb :: "vcpu_ptr \<Rightarrow> hyp \<Rightarrow> (bool \<times> hyp) res" where
  "maybe_invalidate_tlb p s =
     res_bind (the_vcpu p s) (\<lambda>P.
     res_bind (deref (vcpu_cpu P)) (\<lambda>c.
     res_bind (vcpu_index p s) (\<lambda>i.
     res_bind (vm_of_vcpu p s) (\<lambda>v.
     res_bind (the_vm v s) (\<lambda>V.
     if \<not> cpu_index c < length (last_vcpu_on_cpu (vm_arch V)) then Inl OutOfBounds
     else if last_vcpu_on_cpu (vm_arch V) ! cpu_index c \<noteq> i
     then Inr (True, upd_vm v (\<lambda>V. V\<lparr>vm_arch := (vm_arch V)\<lparr>last_vcpu_on_cpu := (last_vcpu_on_cpu (vm_arch V))[cpu_index c := i]\<rparr>\<rparr>) s)
     else Inr (False, s))))))"

section \<open>Virtual interrupts\<close>

definition set_virtual_irq :: "bool \<Rightarrow> arch_regs \<Rightarrow> arch_regs" where
  "set_virtual_irq enable r =
     r\<lparr>regs_hcr_el2 := if enable then regs_hcr_el2 r OR HCR_EL2_VI else regs_hcr_el2 r AND NOT HCR_EL2_VI\<rparr>"

definition set_virtual_fiq :: "bool \<Rightarrow> arch_regs \<Rightarrow> arch_regs" where
  "set_virtual_fiq enable r =
     r\<lparr>regs_hcr_el2 := if enable then regs_hcr_el2 r OR HCR_EL2_VF else regs_hcr_el2 r AND NOT HCR_EL2_VF\<rparr>"

definition vcpu_update_virtual_interrupts :: "vcpu_ptr \<Rightarrow> vcpu_ptr option \<Rightarrow> hyp \<Rightarrow> hyp res" where
  "vcpu_update_virtual_interrupts p next s =
     (let q = (case next of None \<Rightarrow> p | Some n \<Rightarrow> n) in
      res_bind (vcpu_lock q s) (\<lambda>s1.
      res_bind (the_vcpu q s1) (\<lambda>Q.
      let I = vcpu_interrupts Q in
      Inr (vcpu_unlock q
            (upd_regs q (set_virtual_fiq (vcpu_interrupt_fiq_count_get I > 0))
              (upd_regs q (set_virtual_irq (vcpu_interrupt_irq_count_get I > 0)) s1))))))"

section \<open>Interrupts of the machine\<close>

definition IAR1_EL1_INTID_MASK :: u32 where "IAR1_EL1_INTID_MASK = 0xffffff"

definition DEFERRED_INT_ID :: u64 where "DEFERRED_INT_ID = 0xFFFF"

definition gicv3_get_pending_interrupt_id :: "hyp \<Rightarrow> u32" where
  "gicv3_get_pending_interrupt_id s = ucast (msr s ''ICC_IAR1_EL1'') AND IAR1_EL1_INTID_MASK"

definition plat_interrupts_set_priority_mask :: "u8 \<Rightarrow> hyp \<Rightarrow> hyp" where
  "plat_interrupts_set_priority_mask prio s = write_msr ''ICC_PMR_EL1'' (ucast prio) s"

text \<open>Descriptors are valid up to the first that is not.\<close>

definition vm_has_interrupt :: "u32 \<Rightarrow> vm \<Rightarrow> bool" where
  "vm_has_interrupt intid V \<longleftrightarrow>
     list_ex (\<lambda>d. interrupt_id d = intid) (takeWhile desc_valid (take (unat PG_NUM_INTIDS) (interrupt_desc V)))"

primrec find_interrupt_vm :: "u32 \<Rightarrow> nat list \<Rightarrow> hyp \<Rightarrow> nat option res" where
  "find_interrupt_vm intid [] s = Inr None"
| "find_interrupt_vm intid (i # is) s =
     res_bind (deref (vm_find_index (word_of_nat i) s)) (\<lambda>v.
     if vm_has_interrupt intid (vms s ! v) then Inr (Some v) else find_interrupt_vm intid is s)"

definition find_target_vcpu :: "vcpu_ptr \<Rightarrow> u32 \<Rightarrow> hyp \<Rightarrow> vcpu_ptr res" where
  "find_target_vcpu p intid s =
     res_bind (find_interrupt_vm intid [0..<unat (vm_get_count s)] s) (\<lambda>found.
     case found of
       None \<Rightarrow> Inl Panic
     | Some v \<Rightarrow>
         res_bind (api_get_vm_vcpu (vm_find (vm_id (vms s ! v)) s) p s) (\<lambda>t.
         case t of None \<Rightarrow> Inl Panic | Some q \<Rightarrow> Inr q))"

text \<open>The branch for a target that is not the running virtual CPU, with its lock held.\<close>

definition signal_target :: "vcpu_ptr \<Rightarrow> u32 \<Rightarrow> hyp \<Rightarrow> (vcpu_ptr option \<times> hyp) res" where
  "signal_target t intid s =
     res_bind (the_vcpu t s) (\<lambda>T.
     let go = (\<lambda>arg1. CHECK (regs_available T)
                 (Inr (Some t, upd_vcpu t (\<lambda>T. T\<lparr>vcpu_regs := arch_regs_set_retval (ffa_call FFA_INTERRUPT_32 arg1 0) (vcpu_regs T),
                                                  vcpu_state := VCPU_STATE_RUNNING, regs_available := False\<rparr>) s)))
     in case vcpu_state T of
          VCPU_STATE_READY \<Rightarrow> go (ucast intid)
        | VCPU_STATE_BLOCKED_MAILBOX \<Rightarrow> go DEFERRED_INT_ID
        | VCPU_STATE_PREEMPTED \<Rightarrow> Inr (None, s)
        | VCPU_STATE_BLOCKED_INTERRUPT \<Rightarrow> Inr (None, s)
        | _ \<Rightarrow> Inl Panic)"

definition delegate_interrupt :: "vcpu_ptr \<Rightarrow> hyp \<Rightarrow> (vcpu_ptr option \<times> hyp) res" where
  "delegate_interrupt p s =
     (let intid = gicv3_get_pending_interrupt_id s in
      res_bind (find_target_vcpu p intid s) (\<lambda>t.
      res_bind (set_vcpu_state p VCPU_STATE_PREEMPTED s) (\<lambda>s1.
      res_bind (vcpu_lock t (plat_interrupts_set_priority_mask 0 s1)) (\<lambda>s2.
      res_bind (api_interrupt_inject_locked t intid p False s2) (\<lambda>(ret, _, s3).
      if ret = 1 then Inl Panic
      else if p = t then Inr (None, vcpu_unlock t (upd_vcpu p (\<lambda>P. P\<lparr>vcpu_state := VCPU_STATE_RUNNING\<rparr>) s3))
      else res_bind (signal_target t intid s3) (\<lambda>(next, s4). Inr (next, vcpu_unlock t s4)))))))"

definition irq_lower :: "vcpu_ptr \<Rightarrow> hyp \<Rightarrow> (vcpu_ptr option \<times> hyp) res" where
  "irq_lower p s =
     res_bind (delegate_interrupt p s) (\<lambda>(next, s1).
     res_bind (vcpu_update_virtual_interrupts p next s1) (\<lambda>s2. Inr (next, s2)))"

definition fiq_lower :: "vcpu_ptr \<Rightarrow> hyp \<Rightarrow> (vcpu_ptr option \<times> hyp) res" where
  "fiq_lower p s = irq_lower p s"

section \<open>Calls of a VM\<close>

definition CLIENT_ID_MASK :: u64 where "CLIENT_ID_MASK = 0xffff"

primrec smc_listed :: "u32 \<Rightarrow> nat list \<Rightarrow> u32 list \<Rightarrow> bool res" where
  "smc_listed func [] xs = Inr False"
| "smc_listed func (i # is) xs =
     (if i < length xs then if func = xs ! i then Inr True else smc_listed func is xs else Inl OutOfBounds)"

definition smc_is_blocked :: "vm \<Rightarrow> u32 \<Rightarrow> bool res" where
  "smc_is_blocked V func =
     res_bind (smc_listed func [0..<unat (smc_count (vm_smc_whitelist V))] (smcs (vm_smc_whitelist V))) (\<lambda>listed.
     Inr (if listed then False else \<not> permissive (vm_smc_whitelist V)))"

definition default_mediator_handle_smccc :: "firmware \<Rightarrow> ffa_value \<Rightarrow> hyp \<Rightarrow> ffa_value \<times> hyp" where
  "default_mediator_handle_smccc fw args s =
     smc_forward fw (ucast (ffa_func args)) (ffa_arg1 args) (ffa_arg2 args) (ffa_arg3 args) (ffa_arg4 args)
       (ffa_arg5 args) (ffa_arg6 args) (ucast (ffa_arg7 args)) s"

definition smc_forwarder :: "firmware \<Rightarrow> vm \<Rightarrow> ffa_value \<Rightarrow> hyp \<Rightarrow> (ffa_value \<times> hyp) res" where
  "smc_forwarder fw V args s =
     res_bind (smc_is_blocked V (ucast (ffa_func args))) (\<lambda>blocked.
     if blocked then Inr (args\<lparr>ffa_func := SMCCC_ERROR_UNKNOWN\<rparr>, s)
     else case default_mediator_handle_smccc fw (args\<lparr>ffa_arg7 := ucast (vm_id V) OR (ffa_arg7 args AND NOT CLIENT_ID_MASK)\<rparr>) s of
            (ret, s1) \<Rightarrow> Inr (ret\<lparr>ffa_arg7 := ffa_arg7 args\<rparr>, s1))"

text \<open>\<^verbatim>\<open>psci_handler\<close> stores its answer in \<^verbatim>\<open>regs.r[0]\<close>.\<close>

definition hvc_smc_handler :: "firmware \<Rightarrow> ffa_value \<Rightarrow> vcpu_ptr \<Rightarrow> hyp \<Rightarrow> (bool \<times> vcpu_ptr option \<times> hyp) res" where
  "hvc_smc_handler fw args p s =
     res_bind (psci_handler fw p (ucast (ffa_func args)) (ffa_arg1 args) (ffa_arg2 args) (ffa_arg3 args) s)
       (\<lambda>(handled, ret, next, s1). Inr (handled, next, case ret of None \<Rightarrow> s1 | Some x \<Rightarrow> set_r0 p x s1))"

definition smc_handler :: "firmware \<Rightarrow> vcpu_ptr \<Rightarrow> hyp \<Rightarrow> (vcpu_ptr option \<times> hyp) res" where
  "smc_handler fw p s =
     res_bind (the_vcpu p s) (\<lambda>P.
     let args = arch_regs_get_args (vcpu_regs P) in
     res_bind (hvc_smc_handler fw args p s) (\<lambda>(handled, next, s1).
     if handled then Inr (next, s1)
     else
     res_bind (vm_of_vcpu p s1) (\<lambda>v.
     res_bind (the_vm v s1) (\<lambda>V.
     res_bind (smc_forwarder fw V args s1) (\<lambda>(ret, s2).
     Inr (None, upd_regs p (arch_regs_set_retval ret) s2))))))"

definition PG_INTERRUPT_ENABLE :: u64 where "PG_INTERRUPT_ENABLE = 0xff03"

definition PG_INTERRUPT_GET :: u64 where "PG_INTERRUPT_GET = 0xff04"

definition PG_INTERRUPT_INJECT :: u64 where "PG_INTERRUPT_INJECT = 0xff05"

definition hvc_call :: "ffa_value \<Rightarrow> vcpu_ptr \<Rightarrow> hyp \<Rightarrow> (u64 \<times> vcpu_ptr option \<times> hyp) res" where
  "hvc_call args p s =
     (if ffa_func args = PG_INTERRUPT_ENABLE
      then res_bind (api_interrupt_enable (ucast (ffa_arg1 args)) (ffa_arg2 args \<noteq> 0) (ucast (ffa_arg3 args)) p s) (\<lambda>(r, s1).
           Inr (word_of_int r, None, s1))
      else if ffa_func args = PG_INTERRUPT_GET
      then res_bind (api_interrupt_get p s) (\<lambda>(n, s1). Inr (ucast n, None, s1))
      else if ffa_func args = PG_INTERRUPT_INJECT
      then res_bind (api_interrupt_inject (ucast (ffa_arg1 args)) (ucast (ffa_arg2 args)) (ucast (ffa_arg3 args)) p True s)
             (\<lambda>(r, next, s1). Inr (word_of_int r, next, s1))
      else Inr (SMCCC_ERROR_UNKNOWN, None, s))"

definition hvc_handler :: "firmware \<Rightarrow> vcpu_ptr \<Rightarrow> hyp \<Rightarrow> (vcpu_ptr option \<times> hyp) res" where
  "hvc_handler fw p s =
     res_bind (the_vcpu p s) (\<lambda>P.
     let args = arch_regs_get_args (vcpu_regs P) in
     res_bind (hvc_smc_handler fw args p s) (\<lambda>(handled, next, s1).
     if handled then Inr (next, s1)
     else
     res_bind (hvc_call args p s1) (\<lambda>(r0, next1, s2).
     let n = (case next1 of None \<Rightarrow> next | Some q \<Rightarrow> Some q) in
     res_bind (vcpu_update_virtual_interrupts p n (set_r0 p r0 s2)) (\<lambda>s3. Inr (n, s3)))))"

section \<open>Exceptions injected into a VM\<close>

definition OFFSET_CURRENT_SPX :: u64 where "OFFSET_CURRENT_SPX = 0x200"

definition OFFSET_LOWER_EL_64 :: u64 where "OFFSET_LOWER_EL_64 = 0x400"

definition OFFSET_LOWER_EL_32 :: u64 where "OFFSET_LOWER_EL_32 = 0x600"

definition get_el1_exception_handler_addr :: "vcpu \<Rightarrow> hyp \<Rightarrow> u64 res" where
  "get_el1_exception_handler_addr V s =
     (let base = msr s (if has_vhe_support (vhe s) (msr s) then ''VBAR_EL12'' else ''VBAR_EL1'');
          spsr = regs_spsr (vcpu_regs V);
          is_arch32 = (spsr AND PSR_ARCH_MODE_32 \<noteq> 0)
      in if spsr AND PSR_PE_MODE_MASK = PSR_PE_MODE_EL0T
         then Inr (base + (if is_arch32 then OFFSET_LOWER_EL_32 else OFFSET_LOWER_EL_64))
         else CHECK (\<not> is_arch32) (Inr (base + OFFSET_CURRENT_SPX)))"

definition inject_el1_exception :: "vcpu_ptr \<Rightarrow> u64 \<Rightarrow> u64 \<Rightarrow> hyp \<Rightarrow> hyp res" where
  "inject_el1_exception p esr_el1 far_el1 s =
     res_bind (the_vcpu p s) (\<lambda>V.
     res_bind (get_el1_exception_handler_addr V s) (\<lambda>handler.
     let h = has_vhe_support (vhe s) (msr s); r = vcpu_regs V;
         s1 = write_msr (if h then ''SPSR_EL12'' else ''SPSR_EL1'') (regs_spsr r)
                (write_msr (if h then ''ELR_EL12'' else ''ELR_EL1'') (regs_pc r)
                  (write_msr (if h then ''FAR_EL12'' else ''FAR_EL1'') far_el1
                    (write_msr (if h then ''ESR_EL12'' else ''ESR_EL1'') esr_el1 s)))
     in Inr (upd_regs p (\<lambda>r. r\<lparr>regs_spsr := PSR_D OR PSR_A OR PSR_I OR PSR_F OR PSR_PE_MODE_EL1H, regs_pc := handler\<rparr>) s1)))"

definition inject_el1_data_abort_exception :: "vcpu_ptr \<Rightarrow> u64 \<Rightarrow> u64 \<Rightarrow> hyp \<Rightarrow> hyp res" where
  "inject_el1_data_abort_exception p esr far s =
     inject_el1_exception p (GET_ESR_ISS esr OR GET_ESR_IL esr OR push_bit ESR_EC_OFFSET EC_DATA_ABORT_SAME_EL) far s"

definition inject_el1_instruction_abort_exception :: "vcpu_ptr \<Rightarrow> u64 \<Rightarrow> u64 \<Rightarrow> hyp \<Rightarrow> hyp res" where
  "inject_el1_instruction_abort_exception p esr far s =
     inject_el1_exception p (GET_ESR_ISS esr OR GET_ESR_IL esr OR push_bit ESR_EC_OFFSET EC_INSTRUCTION_ABORT_SAME_EL) far s"

definition inject_el1_unknown_exception :: "vcpu_ptr \<Rightarrow> u64 \<Rightarrow> hyp \<Rightarrow> hyp res" where
  "inject_el1_unknown_exception p esr s =
     inject_el1_exception p (GET_ESR_IL esr OR push_bit ESR_EC_OFFSET EC_UNKNOWN) 0 s"

section \<open>Devices\<close>

definition VIRTIO_START :: u64 where "VIRTIO_START = 0x1C130000"

definition VIRTIO_END :: u64 where "VIRTIO_END = 0x1C13FFFF"

definition EM :: "u64 \<Rightarrow> nat \<Rightarrow> nat \<Rightarrow> u64" where
  "EM esr start len = drop_bit start esr AND (push_bit len 1 - 1)"

definition trunc_size :: "u64 \<Rightarrow> u64 \<Rightarrow> u64" where
  "trunc_size sz x =
     (if sz = 0 then ucast (ucast x :: u8) else if sz = 1 then ucast (ucast x :: u16)
      else if sz = 2 then ucast (ucast x :: u32) else x)"

text \<open>The names of the registers that the hypervisor does not save on an exception.\<close>

definition unsaved_name :: "nat \<Rightarrow> string" where
  "unsaved_name n = ''X'' @ [char_of (48 + n div 10), char_of (48 + n mod 10)]"

definition writereg :: "vcpu_ptr \<Rightarrow> u64 \<Rightarrow> u64 \<Rightarrow> u64 \<Rightarrow> hyp \<Rightarrow> hyp res" where
  "writereg p srt sz x s =
     (let d = trunc_size sz x in
      if srt = 31 then Inr s
      else if srt \<le> 18 \<or> srt = 29 \<or> srt = 30
      then res_bind (the_vcpu p s) (\<lambda>V.
           res_bind (set_reg srt d (vcpu_regs V)) (\<lambda>r. Inr (upd_regs p (\<lambda>_. r) s)))
      else if srt \<le> 28 then Inr (write_msr (unsaved_name (unat srt)) d s)
      else Inl Panic)"

definition readreg :: "vcpu_ptr \<Rightarrow> u64 \<Rightarrow> u64 \<Rightarrow> hyp \<Rightarrow> u64 res" where
  "readreg p srt sz s =
     res_bind (if srt = 31 then Inr 0
               else if srt \<le> 18 \<or> srt = 29 \<or> srt = 30
               then res_bind (the_vcpu p s) (\<lambda>V. get_reg srt (vcpu_regs V))
               else if srt \<le> 28 then Inr (msr s (unsaved_name (unat srt)))
               else Inl Panic) (\<lambda>d. Inr (trunc_size sz d))"

definition virtio_syndrome_ok :: "u64 \<Rightarrow> bool" where
  "virtio_syndrome_ok esr \<longleftrightarrow>
     EM esr 26 6 = 0x24 \<and> EM esr 25 1 = 1 \<and> EM esr 24 1 = 1 \<and> EM esr 21 1 = 0 \<and> EM esr 15 1 = 0 \<and> EM esr 14 1 = 0 \<and>
     EM esr 13 1 = 0 \<and> EM esr 12 2 = 0 \<and> EM esr 10 1 = 0 \<and> EM esr 9 1 = 0 \<and> EM esr 8 1 = 0 \<and> EM esr 7 1 = 0 \<and>
     EM esr 0 5 = 7"

definition virtioac_handle :: "u64 \<Rightarrow> u64 \<Rightarrow> u8 \<Rightarrow> vcpu_ptr \<Rightarrow> vcpu_fault_info \<Rightarrow> hyp \<Rightarrow> (bool \<times> hyp) res" where
  "virtioac_handle esr far pc_inc p info s =
     (let a = fault_ipaddr info; srt = EM esr 16 5; sz = EM esr 22 2 in
      if a \<ge> VIRTIO_START \<and> a \<le> VIRTIO_END \<and> virtio_syndrome_ok esr
      then res_bind (if EM esr 6 1 = 0 then writereg p srt sz (load_size sz a (bytes s)) s
                     else res_bind (readreg p srt sz s) (\<lambda>d. Inr (s\<lparr>bytes := store_sas sz a d (bytes s)\<rparr>))) (\<lambda>s1.
           Inr (True, skip_pc p pc_inc s1))
      else Inr (False, s))"

section \<open>Synchronous exceptions\<close>

definition HPFAR_EL2_FIPA :: u64 where "HPFAR_EL2_FIPA = 0xFFFFFFFFFF0"

definition fault_info_init :: "u64 \<Rightarrow> vcpu \<Rightarrow> u32 \<Rightarrow> hyp \<Rightarrow> vcpu_fault_info" where
  "fault_info_init esr V mode s =
     (let fipa = push_bit 8 (msr s ''HPFAR_EL2'' AND HPFAR_EL2_FIPA) in
      if esr AND 0x3f = 0x10 \<and> esr AND push_bit 10 1 \<noteq> 0
      then \<lparr>fault_ipaddr = fipa, fault_vaddr = 0, fault_pc = regs_pc (vcpu_regs V), fault_mode = mode\<rparr>
      else \<lparr>fault_ipaddr = fipa OR (msr s ''FAR_EL2'' AND (PAGE_SIZE - 1)), fault_vaddr = msr s ''FAR_EL2'',
            fault_pc = regs_pc (vcpu_regs V), fault_mode = mode\<rparr>)"

record platform =
  plat_gic :: gic_config
  plat_hw :: hw
  plat_devs :: "dev_kind \<Rightarrow> dev_config"
  plat_ppool :: nat
  plat_fw :: firmware

text \<open>The device that handles a data abort, if one does.\<close>

definition abort_device :: "platform \<Rightarrow> u64 \<Rightarrow> u64 \<Rightarrow> vcpu_ptr \<Rightarrow> vcpu_fault_info \<Rightarrow> hyp \<Rightarrow> (bool \<times> hyp) res" where
  "abort_device D esr far p info s =
     (let inc = GET_NEXT_PC_INC esr in
      if fault_ipaddr info \<ge> VIRTIO_START \<and> fault_ipaddr info \<le> VIRTIO_END then virtioac_handle esr far inc p info s
      else res_bind (access_virt_dev (plat_devs D) (plat_ppool D) esr inc p info s) (\<lambda>(done, s1).
           if done then Inr (True, s1) else access_gicv3 (plat_gic D) (plat_hw D) esr far inc p info s1))"

definition sync_data_abort :: "platform \<Rightarrow> u64 \<Rightarrow> u64 \<Rightarrow> vcpu_ptr \<Rightarrow> hyp \<Rightarrow> hyp res" where
  "sync_data_abort D esr far p s =
     res_bind (the_vcpu p s) (\<lambda>P.
     let info = fault_info_init esr P (if esr AND push_bit 6 1 \<noteq> 0 then MM_MODE_W else MM_MODE_R) s in
     res_bind (abort_device D esr far p info s) (\<lambda>(done, s1).
     if done then Inr s1
     else res_bind (vcpu_handle_page_fault p info s1) (\<lambda>(resume, s2).
          if resume then Inr s2 else inject_el1_data_abort_exception p esr far s2)))"

definition sync_instruction_abort :: "u64 \<Rightarrow> u64 \<Rightarrow> vcpu_ptr \<Rightarrow> hyp \<Rightarrow> hyp res" where
  "sync_instruction_abort esr far p s =
     res_bind (the_vcpu p s) (\<lambda>P.
     res_bind (vcpu_handle_page_fault p (fault_info_init esr P MM_MODE_X s) s) (\<lambda>(resume, s1).
     if resume then Inr s1 else inject_el1_instruction_abort_exception p esr far s1))"

definition sync_lower_exception :: "platform \<Rightarrow> u64 \<Rightarrow> u64 \<Rightarrow> vcpu_ptr \<Rightarrow> hyp \<Rightarrow> (vcpu_ptr option \<times> hyp) res" where
  "sync_lower_exception D esr far p s =
     (let ec = GET_ESR_EC esr; inc = GET_NEXT_PC_INC esr; same = (\<lambda>r. res_bind r (\<lambda>s1. Inr (None, s1))) in
      if ec = EC_WFI_WFE
      then let s1 = skip_pc p inc s in
           if esr AND 1 \<noteq> 0
           then res_bind (api_yield p s1) (\<lambda>(_, next, s2). Inr (Some (case next of None \<Rightarrow> p | Some n \<Rightarrow> n), s2))
           else res_bind (api_wait_for_interrupt p s1) (\<lambda>(n, s2). Inr (Some n, s2))
      else if ec = EC_DATA_ABORT_LOWER_EL then same (sync_data_abort D esr far p s)
      else if ec = EC_INSTRUCTION_ABORT_LOWER_EL then same (sync_instruction_abort esr far p s)
      else if ec = EC_HVC then hvc_handler (plat_fw D) p s
      else if ec = EC_SMC
      then res_bind (the_vcpu p s) (\<lambda>P.
           res_bind (smc_handler (plat_fw D) p s) (\<lambda>(next, s1).
           Inr (next, upd_regs p (\<lambda>r. r\<lparr>regs_pc := regs_pc (vcpu_regs P) + ucast inc\<rparr>) s1)))
      else if ec = EC_MSR then Inl Panic
      else same (inject_el1_unknown_exception p esr s))"

definition handle_system_register_access :: "u64 \<Rightarrow> vcpu_ptr \<Rightarrow> hyp \<Rightarrow> hyp res" where
  "handle_system_register_access esr p s =
     res_bind (vm_of_vcpu p s) (\<lambda>v.
     res_bind (the_vm v s) (\<lambda>V.
     CHECK (GET_ESR_EC esr = EC_MSR)
       (res_bind
         (if debug_el1_is_register_access esr then debug_el1_process_access p (vm_id V) esr s
          else if perfmon_is_register_access esr then perfmon_process_access p (vm_id V) esr s
          else if feature_id_is_register_access esr then feature_id_process_access p esr s
          else if icc_icv_is_register_access esr then icc_icv_process_access p esr s
          else if is_cache_maintenance esr then process_cache_maintenance p esr s
          else Inr (False, s)) (\<lambda>(ok, s1).
       if ok then Inr (skip_pc p (GET_NEXT_PC_INC esr) s1) else inject_el1_unknown_exception p esr s1))))"

end
