(* ===== verification/Api_Interrupts.thy ===== *)
theory Api_Interrupts
  imports Api
begin

text \<open>
  Virtual interrupts of one virtual CPU as sets of interrupt numbers: the operations on the bitfields are the
  operations on the sets, and the two counters sum up to the number of interrupts that are enabled and pending.
\<close>

unbundle bit_operations_syntax

section \<open>Bits\<close>

lemma and_bit_eq_0: "x AND push_bit k 1 = 0 \<longleftrightarrow> \<not> bit x k" for x :: u32
  using and_exp_eq_0_iff_not_bit [of x k] by (simp add: push_bit_eq_mult)

lemma bit_or_bit: "k < 32 \<Longrightarrow> bit (x OR push_bit k 1) j \<longleftrightarrow> bit x j \<or> j = k" for x :: u32
  by (auto simp: bit_simps)

lemma bit_and_not_bit: "bit (x AND NOT (push_bit k 1)) j \<longleftrightarrow> bit x j \<and> j \<noteq> k" for x :: u32
  by (auto simp: bit_simps dest: bit_imp_le_length)

lemma ctz_props:
  assumes "x \<noteq> 0"
  shows "ctz x < 32" "bit x (ctz x)" "\<And>j. j < ctz x \<Longrightarrow> \<not> bit x j"
proof -
  have "\<exists>i<32. bit x i"
  proof (rule ccontr)
    assume "\<not> ?thesis"
    then have "x = 0" by (intro bit_word_eqI) auto
    then show False using assms by simp
  qed
  then have "dropWhile (\<lambda>i. \<not> bit x i) [0..<32] \<noteq> []" by (auto simp: dropWhile_eq_Nil_conv)
  then have l: "length (takeWhile (\<lambda>i. \<not> bit x i) [0..<32]) < length [0..<(32::nat)]"
    by (metis takeWhile_dropWhile_id length_append length_greater_0_conv less_add_same_cancel1)
  then show c: "ctz x < 32" by (simp add: ctz_def)
  show "bit x (ctz x)"
    using nth_length_takeWhile [OF l] c by (simp add: ctz_def)
  show "\<not> bit x j" if "j < ctz x" for j
  proof -
    have "takeWhile (\<lambda>i. \<not> bit x i) [0..<32] ! j = [0..<32] ! j"
      using that by (simp add: ctz_def takeWhile_nth)
    moreover have "takeWhile (\<lambda>i. \<not> bit x i) [0..<32] ! j \<in> set (takeWhile (\<lambda>i. \<not> bit x i) [0..<32])"
      using that by (simp add: ctz_def)
    ultimately have "\<not> bit x ([0..<32] ! j)" by (metis set_takeWhileD)
    then show ?thesis using that c by simp
  qed
qed

section \<open>Sets of interrupts\<close>

definition bits_of :: "u32 list \<Rightarrow> nat set" where
  "bits_of xs = {n. n < 64 \<and> bit (xs ! (n div 32)) (n mod 32)}"

abbreviation "enabled_set I \<equiv> bits_of (interrupt_enabled I)"

abbreviation "pending_set I \<equiv> bits_of (interrupt_pending I)"

definition fields_ok :: "interrupts \<Rightarrow> bool" where
  "fields_ok I \<longleftrightarrow>
     length (interrupt_enabled I) = 2 \<and> length (interrupt_pending I) = 2 \<and> length (interrupt_type I) = 2"

definition counts_ok :: "interrupts \<Rightarrow> bool" where
  "counts_ok I \<longleftrightarrow>
     fields_ok I \<and> vcpu_interrupt_count_get I = word_of_nat (card (enabled_set I \<inter> pending_set I))"

lemma finite_bits_of [simp]: "finite (bits_of xs)"
  by (simp add: bits_of_def)

lemma intid_simps:
  "intid_index intid = unat intid div 32" "intid_shift intid = unat intid mod 32"
  by (simp_all add: intid_index_def intid_shift_def INTERRUPT_REGISTER_BITS_def unat_div unat_mod)

lemma intid_lt: "\<not> intid \<ge> PG_NUM_INTIDS \<longleftrightarrow> unat intid < 64"
  by (simp add: PG_NUM_INTIDS_def word_le_nat_alt not_le)

lemma mod32_lt: "n mod 32 < (32 :: nat)" by simp

lemma mod32_not_ge [simp]: "\<not> 32 \<le> n mod (32 :: nat)" by (simp add: not_le)

lemma div_mod_32_eq: "m div 32 = n div 32 \<and> m mod 32 = n mod 32 \<longleftrightarrow> m = (n :: nat)"
  by (metis div_mult_mod_eq)

lemma mem_bits_of_upd:
  assumes "length xs = 2" "n < 64"
  shows "m \<in> bits_of (xs[n div 32 := y]) \<longleftrightarrow>
     m < 64 \<and> (if m div 32 = n div 32 then bit y (m mod 32) else bit (xs ! (m div 32)) (m mod 32))"
proof -
  have "n div 32 < length xs" using assms by simp
  then show ?thesis unfolding bits_of_def by (cases "m div 32 = n div 32") simp_all
qed

lemma bits_of_insert:
  assumes "length xs = 2" "n < 64"
  shows "bits_of (xs[n div 32 := xs ! (n div 32) OR push_bit (n mod 32) 1]) = insert n (bits_of xs)"
proof (rule set_eqI)
  fix m
  show "m \<in> bits_of (xs[n div 32 := xs ! (n div 32) OR push_bit (n mod 32) 1]) \<longleftrightarrow> m \<in> insert n (bits_of xs)"
    unfolding mem_bits_of_upd [OF assms] bit_or_bit [OF mod32_lt] unfolding bits_of_def
    using assms(2) div_mod_32_eq [of m n] by (cases "m div 32 = n div 32") auto
qed

lemma bits_of_remove:
  assumes "length xs = 2" "n < 64"
  shows "bits_of (xs[n div 32 := xs ! (n div 32) AND NOT (push_bit (n mod 32) 1)]) = bits_of xs - {n}"
proof (rule set_eqI)
  fix m
  show "m \<in> bits_of (xs[n div 32 := xs ! (n div 32) AND NOT (push_bit (n mod 32) 1)]) \<longleftrightarrow> m \<in> bits_of xs - {n}"
    unfolding mem_bits_of_upd [OF assms] bit_and_not_bit unfolding bits_of_def
    using assms(2) div_mod_32_eq [of m n] by (cases "m div 32 = n div 32") auto
qed

lemma test_bits:
  assumes "n < 64"
  shows "xs ! (n div 32) AND NOT (ys ! (n div 32)) AND push_bit (n mod 32) 1 = 0 \<longleftrightarrow> \<not> (n \<in> bits_of xs \<and> n \<notin> bits_of ys)"
    "xs ! (n div 32) AND ys ! (n div 32) AND push_bit (n mod 32) 1 = 0 \<longleftrightarrow> \<not> (n \<in> bits_of xs \<and> n \<in> bits_of ys)"
  unfolding and.assoc [symmetric] and_bit_eq_0 bits_of_def using assms
  by (simp_all only: bit_and_iff bit_not_iff_eq mem_Collect_eq) (simp_all add: bit_simps)

section \<open>Operations\<close>

lemmas count_defs = count_increment_def count_decrement_def vcpu_irq_count_increment_def vcpu_fiq_count_increment_def
  vcpu_irq_count_decrement_def vcpu_fiq_count_decrement_def vcpu_interrupt_count_get_def

lemma count_fields [simp]:
  "interrupt_enabled (count_increment i k I) = interrupt_enabled I"
  "interrupt_pending (count_increment i k I) = interrupt_pending I"
  "interrupt_type (count_increment i k I) = interrupt_type I"
  "interrupt_enabled (count_decrement i k I) = interrupt_enabled I"
  "interrupt_pending (count_decrement i k I) = interrupt_pending I"
  "interrupt_type (count_decrement i k I) = interrupt_type I"
  by (simp_all add: count_defs)

lemma count_get [simp]:
  "vcpu_interrupt_count_get (count_increment i k I) = vcpu_interrupt_count_get I + 1"
  "vcpu_interrupt_count_get (count_decrement i k I) = vcpu_interrupt_count_get I - 1"
  by (simp_all add: count_defs)

lemma count_get_upd [simp]:
  "vcpu_interrupt_count_get (I\<lparr>interrupt_pending := xs\<rparr>) = vcpu_interrupt_count_get I"
  "vcpu_interrupt_count_get (I\<lparr>interrupt_enabled := xs\<rparr>) = vcpu_interrupt_count_get I"
  "vcpu_interrupt_count_get (I\<lparr>interrupt_type := xs\<rparr>) = vcpu_interrupt_count_get I"
  by (simp_all add: count_defs)

lemma card_insert_ep: "n \<in> E \<Longrightarrow> n \<notin> P \<Longrightarrow> finite E \<Longrightarrow> card (E \<inter> insert n P) = Suc (card (E \<inter> P))"
  by simp

lemma card_remove_ep: "n \<in> E \<Longrightarrow> n \<in> P \<Longrightarrow> finite E \<Longrightarrow> card (E \<inter> P) = Suc (card (E \<inter> (P - {n})))"
  by (metis IntI Int_Diff card.remove finite_Int)

lemma make_pending_ok:
  assumes "fields_ok I" "unat intid < 64"
  shows "fields_ok (make_pending intid I)" "enabled_set (make_pending intid I) = enabled_set I"
    "pending_set (make_pending intid I) = insert (unat intid) (pending_set I)"
    "vcpu_interrupt_count_get (make_pending intid I) = vcpu_interrupt_count_get I"
  using assms bits_of_insert [of "interrupt_pending I" "unat intid"]
  by (simp_all add: make_pending_def fields_ok_def intid_mask_def intid_simps)

lemma inject_counts:
  assumes "counts_ok I" "unat intid < 64"
  shows "interrupt_enabled I ! intid_index intid AND NOT (interrupt_pending I ! intid_index intid) AND intid_mask intid = 0 \<Longrightarrow>
      counts_ok (make_pending intid I)"
    "interrupt_enabled I ! intid_index intid AND NOT (interrupt_pending I ! intid_index intid) AND intid_mask intid \<noteq> 0 \<Longrightarrow>
      counts_ok (make_pending intid (count_increment (intid_index intid) (intid_shift intid) I))"
proof -
  note T = test_bits(1) [OF assms(2), of "interrupt_enabled I" "interrupt_pending I"]
  have f: "fields_ok I" and c: "vcpu_interrupt_count_get I = word_of_nat (card (enabled_set I \<inter> pending_set I))"
    using assms(1) by (simp_all add: counts_ok_def)
  show "counts_ok (make_pending intid I)"
    if "interrupt_enabled I ! intid_index intid AND NOT (interrupt_pending I ! intid_index intid) AND intid_mask intid = 0"
  proof -
    have "enabled_set I \<inter> insert (unat intid) (pending_set I) = enabled_set I \<inter> pending_set I"
      using that T by (auto simp: intid_simps intid_mask_def)
    then show ?thesis using make_pending_ok [OF f assms(2)] c by (simp add: counts_ok_def)
  qed
  show "counts_ok (make_pending intid (count_increment (intid_index intid) (intid_shift intid) I))"
    if "interrupt_enabled I ! intid_index intid AND NOT (interrupt_pending I ! intid_index intid) AND intid_mask intid \<noteq> 0"
  proof -
    have "card (enabled_set I \<inter> insert (unat intid) (pending_set I)) = Suc (card (enabled_set I \<inter> pending_set I))"
      by (rule card_insert_ep) (use that T in \<open>auto simp: intid_simps intid_mask_def\<close>)
    moreover have "fields_ok (count_increment (intid_index intid) (intid_shift intid) I)"
      using f by (simp add: fields_ok_def)
    ultimately show ?thesis using make_pending_ok [OF _ assms(2)] c by (simp add: counts_ok_def)
  qed
qed

lemma enable_sets:
  assumes "fields_ok I" "unat intid < 64"
  shows "fields_ok (enable_interrupt intid type I)" "pending_set (enable_interrupt intid type I) = pending_set I"
    "enabled_set (enable_interrupt intid type I) = insert (unat intid) (enabled_set I)"
    "vcpu_interrupt_count_get (enable_interrupt intid type I) =
       vcpu_interrupt_count_get I + (if unat intid \<in> pending_set I \<and> unat intid \<notin> enabled_set I then 1 else 0)"
  using assms bits_of_insert [of "interrupt_enabled I" "unat intid"]
    test_bits(1) [OF assms(2), of "interrupt_pending I" "interrupt_enabled I"]
  by (auto simp: enable_interrupt_def fields_ok_def intid_mask_def intid_simps Let_def)

lemma disable_sets:
  assumes "fields_ok I" "unat intid < 64"
  shows "fields_ok (disable_interrupt intid I)" "pending_set (disable_interrupt intid I) = pending_set I"
    "enabled_set (disable_interrupt intid I) = enabled_set I - {unat intid}"
    "vcpu_interrupt_count_get (disable_interrupt intid I) =
       vcpu_interrupt_count_get I - (if unat intid \<in> pending_set I \<and> unat intid \<in> enabled_set I then 1 else 0)"
  using assms bits_of_remove [of "interrupt_enabled I" "unat intid"]
    test_bits(2) [OF assms(2), of "interrupt_pending I" "interrupt_enabled I"]
  by (auto simp: disable_interrupt_def fields_ok_def intid_mask_def intid_simps Let_def)

lemma enable_counts: "counts_ok I \<Longrightarrow> unat intid < 64 \<Longrightarrow> counts_ok (enable_interrupt intid type I)"
  using enable_sets [of I intid type] card_insert_ep [of "unat intid" "pending_set I" "enabled_set I"]
  by (auto simp: counts_ok_def Int_commute insert_absorb)

lemma disable_counts:
  assumes "counts_ok I" "unat intid < 64"
  shows "counts_ok (disable_interrupt intid I)"
proof -
  let ?A = "enabled_set I \<inter> pending_set I"
  have f: "fields_ok I" using assms(1) by (simp add: counts_ok_def)
  have "(enabled_set I - {unat intid}) \<inter> pending_set I = ?A - {unat intid}" by blast
  moreover have "word_of_nat (card (?A - {unat intid})) = (word_of_nat (card ?A) :: u32) - (if unat intid \<in> ?A then 1 else 0)"
    using card_remove_ep [of "unat intid" ?A ?A] by simp
  ultimately show ?thesis
    using disable_sets [OF f assms(2)] assms(1) by (simp add: counts_ok_def conj_commute)
qed

text \<open>\<^verbatim>\<open>api_interrupt_get\<close> takes the smallest interrupt that is enabled and pending.\<close>

lemma take_none:
  assumes "interrupt_enabled I ! 0 AND interrupt_pending I ! 0 = 0" "interrupt_enabled I ! 1 AND interrupt_pending I ! 1 = 0"
  shows "enabled_set I \<inter> pending_set I = {}"
proof -
  have "\<not> bit (interrupt_enabled I ! k AND interrupt_pending I ! k) j" if "k < 2" for k j
    using assms that by (cases "k = 0") (simp_all add: less_2_cases_iff)
  then show ?thesis by (auto simp: bits_of_def bit_and_iff)
qed

lemma take_first:
  assumes "k < 2" "ep = interrupt_enabled I ! k AND interrupt_pending I ! k" "ep \<noteq> 0"
    "\<And>j. j < k \<Longrightarrow> interrupt_enabled I ! j AND interrupt_pending I ! j = 0"
  shows "Min (enabled_set I \<inter> pending_set I) = 32 * k + ctz ep" "32 * k + ctz ep \<in> enabled_set I \<inter> pending_set I"
proof -
  note C = ctz_props [OF assms(3)]
  have d: "(32 * k + ctz ep) div 32 = k" "(32 * k + ctz ep) mod 32 = ctz ep" using C(1) by simp_all
  have "32 * k + ctz ep < 64" using assms(1) C(1) by linarith
  then show m: "32 * k + ctz ep \<in> enabled_set I \<inter> pending_set I"
    using bit_and_iff [of "interrupt_enabled I ! k" "interrupt_pending I ! k" "ctz ep"] C(2)
    unfolding assms(2) [symmetric] bits_of_def Int_iff mem_Collect_eq d by blast
  have "32 * k + ctz ep \<le> n" if "n \<in> enabled_set I \<inter> pending_set I" for n
  proof (rule ccontr)
    assume l: "\<not> 32 * k + ctz ep \<le> n"
    have b: "bit (interrupt_enabled I ! (n div 32) AND interrupt_pending I ! (n div 32)) (n mod 32)"
      using that by (simp add: bits_of_def bit_and_iff)
    then have "\<not> n div 32 < k" using assms(4) by fastforce
    then have k: "n div 32 = k" using l C(1) by linarith
    have "n mod 32 < ctz ep" using l k div_mult_mod_eq [of n 32] by linarith
    then show False using b C(3) k assms(2) by simp
  qed
  then show "Min (enabled_set I \<inter> pending_set I) = 32 * k + ctz ep" by (intro Min_eqI) (use m in auto)
qed

lemma take_interrupt_spec:
  assumes "fields_ok I" "take_interrupt [0..<2] I = (n, I')"
  shows "enabled_set I \<inter> pending_set I = {} \<Longrightarrow> n = PG_INVALID_INTID \<and> I' = I"
    "enabled_set I \<inter> pending_set I \<noteq> {} \<Longrightarrow>
       unat n = Min (enabled_set I \<inter> pending_set I) \<and> fields_ok I' \<and> interrupt_enabled I' = interrupt_enabled I \<and>
       pending_set I' = pending_set I - {unat n} \<and> vcpu_interrupt_count_get I' = vcpu_interrupt_count_get I - 1"
proof -
  have two: "[0..<2] = [0, 1 :: nat]" by (simp add: upt_rec)
  define ep where "ep k = interrupt_enabled I ! k AND interrupt_pending I ! k" for k
  have step: "unat n = Min (enabled_set I \<inter> pending_set I) \<and> fields_ok I' \<and> interrupt_enabled I' = interrupt_enabled I \<and>
       pending_set I' = pending_set I - {unat n} \<and> vcpu_interrupt_count_get I' = vcpu_interrupt_count_get I - 1 \<and>
       enabled_set I \<inter> pending_set I \<noteq> {}"
    if "k < 2" "ep k \<noteq> 0" "\<And>j. j < k \<Longrightarrow> ep j = 0"
      "n = word_of_nat k * INTERRUPT_REGISTER_BITS + word_of_nat (ctz (ep k))"
      "I' = count_decrement k (ctz (ep k))
         (I\<lparr>interrupt_pending := (interrupt_pending I)[k := interrupt_pending I ! k AND NOT (push_bit (ctz (ep k)) 1)]\<rparr>)"
    for k
  proof -
    note C = ctz_props(1) [OF that(2)] and F = take_first [OF that(1) ep_def that(2)]
    have lt: "32 * k + ctz (ep k) < 64" using that(1) C by linarith
    have n: "n = word_of_nat (32 * k + ctz (ep k))" unfolding that(4) INTERRUPT_REGISTER_BITS_def by (simp add: mult.commute)
    have un: "unat n = 32 * k + ctz (ep k)" unfolding n using lt by (simp add: unat_of_nat del: of_nat_add of_nat_mult)
    have d: "unat n div 32 = k" "unat n mod 32 = ctz (ep k)" unfolding un using C by simp_all
    have "pending_set I' = pending_set I - {unat n}"
      using bits_of_remove [of "interrupt_pending I" "unat n"] assms(1) lt unfolding that(5) d un [symmetric] fields_ok_def by simp
    then show ?thesis using F that(3) assms(1) un by (auto simp: that(5) ep_def fields_ok_def)
  qed
  have none: "n = PG_INVALID_INTID \<and> I' = I \<and> enabled_set I \<inter> pending_set I = {}" if "ep 0 = 0" "ep 1 = 0"
    using assms(2) that take_none [of I] unfolding two ep_def by simp
  have cases: "ep 0 \<noteq> 0 \<or> ep 0 = 0 \<and> ep 1 \<noteq> 0 \<or> ep 0 = 0 \<and> ep 1 = 0" by blast
  have main: "(n = PG_INVALID_INTID \<and> I' = I \<and> enabled_set I \<inter> pending_set I = {}) \<or>
      (unat n = Min (enabled_set I \<inter> pending_set I) \<and> fields_ok I' \<and> interrupt_enabled I' = interrupt_enabled I \<and>
       pending_set I' = pending_set I - {unat n} \<and> vcpu_interrupt_count_get I' = vcpu_interrupt_count_get I - 1 \<and>
       enabled_set I \<inter> pending_set I \<noteq> {})"
    using cases
  proof (elim disjE conjE)
    assume e: "ep 0 \<noteq> 0"
    have "n = word_of_nat 0 * INTERRUPT_REGISTER_BITS + word_of_nat (ctz (ep 0))"
      "I' = count_decrement 0 (ctz (ep 0))
         (I\<lparr>interrupt_pending := (interrupt_pending I)[0 := interrupt_pending I ! 0 AND NOT (push_bit (ctz (ep 0)) 1)]\<rparr>)"
      using assms(2) e unfolding two by (simp_all add: ep_def Let_def)
    then show ?thesis by (intro disjI2 step [of 0]) (use e in \<open>simp_all add: less_Suc_eq\<close>)
  next
    assume e: "ep 0 = 0" "ep 1 \<noteq> 0"
    have "n = word_of_nat 1 * INTERRUPT_REGISTER_BITS + word_of_nat (ctz (ep 1))"
      "I' = count_decrement 1 (ctz (ep 1))
         (I\<lparr>interrupt_pending := (interrupt_pending I)[1 := interrupt_pending I ! 1 AND NOT (push_bit (ctz (ep 1)) 1)]\<rparr>)"
      using assms(2) e unfolding two by (simp_all add: ep_def Let_def)
    then show ?thesis by (intro disjI2 step [of 1]) (use e in \<open>simp_all add: less_Suc_eq\<close>)
  qed (use none in blast)
  show "enabled_set I \<inter> pending_set I = {} \<Longrightarrow> n = PG_INVALID_INTID \<and> I' = I" using main by blast
  show "enabled_set I \<inter> pending_set I \<noteq> {} \<Longrightarrow>
       unat n = Min (enabled_set I \<inter> pending_set I) \<and> fields_ok I' \<and> interrupt_enabled I' = interrupt_enabled I \<and>
       pending_set I' = pending_set I - {unat n} \<and> vcpu_interrupt_count_get I' = vcpu_interrupt_count_get I - 1"
    using main by blast
qed

lemma take_counts:
  assumes "counts_ok I" "take_interrupt [0..<2] I = (n, I')"
  shows "counts_ok I'"
proof (cases "enabled_set I \<inter> pending_set I = {}")
  case True
  then show ?thesis using take_interrupt_spec(1) [of I n I'] assms by (simp add: counts_ok_def)
next
  case False
  have f: "fields_ok I" using assms(1) by (simp add: counts_ok_def)
  note T = take_interrupt_spec(2) [OF f assms(2) False]
  have "unat n \<in> enabled_set I \<inter> pending_set I" using T False Min_in [of "enabled_set I \<inter> pending_set I"] by simp
  then have "card (enabled_set I \<inter> pending_set I) = Suc (card (enabled_set I \<inter> (pending_set I - {unat n})))"
    by (intro card_remove_ep) auto
  then show ?thesis using T assms(1) by (simp add: counts_ok_def)
qed

end
