(* ===== verification/Api_State.thy ===== *)
theory Api_State
  imports Api_Interrupts
begin

text \<open>
  What the calls of \<^verbatim>\<open>api.c\<close> keep: a property of the interrupts of every virtual CPU, which is the contract \<open>interrupt_contract\<close>,
  and that no lock of a virtual CPU is left held. \<open>api_step\<close> is one call that returns.
\<close>

unbundle bit_operations_syntax

section \<open>All virtual CPUs\<close>

definition all_interrupts :: "(vcpu_ptr \<Rightarrow> interrupts \<Rightarrow> bool) \<Rightarrow> hyp \<Rightarrow> bool" where
  "all_interrupts Q s \<longleftrightarrow> (\<forall>p V. the_vcpu p s = Inr V \<longrightarrow> Q p (vcpu_interrupts V))"

text \<open>Only virtual CPUs in \<open>A\<close> are locked.\<close>

definition locks :: "vcpu_ptr set \<Rightarrow> hyp \<Rightarrow> bool" where
  "locks A s \<longleftrightarrow> (\<forall>p V. the_vcpu p s = Inr V \<longrightarrow> vcpu_held V \<longrightarrow> p \<in> A)"

lemma the_vcpu_upd:
  "the_vcpu q (upd_vcpu p f s) = (if q = p then map_sum id f (the_vcpu p s) else the_vcpu q s)"
  by (cases p; cases q) (auto simp: upd_vm_def nth_list_update)

declare the_vcpu.simps [simp del] upd_vcpu.simps [simp del]

lemma the_vcpu_upd_same [simp]: "the_vcpu p s = Inr V \<Longrightarrow> the_vcpu p (upd_vcpu p f s) = Inr (f V)"
  by (simp add: the_vcpu_upd)

lemma all_interrupts_upd:
  "all_interrupts Q s \<Longrightarrow> (\<And>V. the_vcpu p s = Inr V \<Longrightarrow> Q p (vcpu_interrupts V) \<Longrightarrow> Q p (vcpu_interrupts (f V))) \<Longrightarrow>
   all_interrupts Q (upd_vcpu p f s)"
  unfolding all_interrupts_def the_vcpu_upd
  by (cases "the_vcpu p s") (auto split: if_splits)

lemma locks_upd:
  "locks A s \<Longrightarrow> (\<And>V. vcpu_held (f V) = vcpu_held V) \<Longrightarrow> locks A (upd_vcpu p f s)"
  unfolding locks_def the_vcpu_upd by (cases "the_vcpu p s") (auto split: if_splits)

lemma locks_lock: "vcpu_lock p s = Inr s' \<Longrightarrow> locks A s \<Longrightarrow> locks (insert p A) s'"
  unfolding locks_def vcpu_lock_def
  by (cases "the_vcpu p s") (auto simp: the_vcpu_upd res_bind_eq_Inr split: if_splits)

lemma locks_unlock: "locks A s \<Longrightarrow> locks (A - {p}) (vcpu_unlock p s)"
  unfolding locks_def vcpu_unlock_def the_vcpu_upd
  by (cases "the_vcpu p s") (auto simp: sl_unlock_def split: if_splits)

lemma lock_interrupts: "vcpu_lock p s = Inr s' \<Longrightarrow> all_interrupts Q s \<Longrightarrow> all_interrupts Q s'"
  by (auto simp: vcpu_lock_def res_bind_eq_Inr intro!: all_interrupts_upd)

lemma unlock_interrupts: "all_interrupts Q s \<Longrightarrow> all_interrupts Q (vcpu_unlock p s)"
  by (auto simp: vcpu_unlock_def intro!: all_interrupts_upd)

lemma lock_others: "vcpu_lock p s = Inr s' \<Longrightarrow> q \<noteq> p \<Longrightarrow> the_vcpu q s' = the_vcpu q s"
  by (auto simp: vcpu_lock_def res_bind_eq_Inr the_vcpu_upd)

lemma lock_same: "vcpu_lock p s = Inr s' \<Longrightarrow> \<exists>V. the_vcpu p s = Inr V \<and> \<not> vcpu_held V \<and> the_vcpu p s' = Inr (V\<lparr>vcpu_held := True\<rparr>)"
  by (auto simp: vcpu_lock_def res_bind_eq_Inr the_vcpu_upd sl_lock_def split: if_splits)

section \<open>Switching\<close>

text \<open>A call keeps \<open>Q\<close> and the locks.\<close>

definition keeps :: "(vcpu_ptr \<Rightarrow> interrupts \<Rightarrow> bool) \<Rightarrow> vcpu_ptr set \<Rightarrow> hyp \<Rightarrow> hyp \<Rightarrow> bool" where
  "keeps Q A s s' \<longleftrightarrow> (all_interrupts Q s \<longrightarrow> all_interrupts Q s') \<and> (locks A s \<longrightarrow> locks A s')"

lemma keeps_refl [simp]: "keeps Q A s s"
  by (simp add: keeps_def)

lemma keeps_trans: "keeps Q A s s' \<Longrightarrow> keeps Q A s' s'' \<Longrightarrow> keeps Q A s s''"
  by (simp add: keeps_def)

lemma keeps_upd:
  "(\<And>V. vcpu_held (f V) = vcpu_held V) \<Longrightarrow> (\<And>V. vcpu_interrupts (f V) = vcpu_interrupts V) \<Longrightarrow>
   keeps Q A s (upd_vcpu p f s)"
  by (simp add: keeps_def all_interrupts_upd locks_upd)

lemma keeps_same_vms: "vms s' = vms s \<Longrightarrow> keeps Q A s s'"
  by (simp add: keeps_def all_interrupts_def locks_def the_vcpu.simps)

text \<open>A critical section on \<open>p\<close> whose body changes the interrupts of \<open>p\<close> only to values with \<open>Q\<close>.\<close>

lemma keeps_locked:
  assumes "vcpu_lock p s = Inr s1" "keeps Q (insert p A) s1 s2" "p \<notin> A"
  shows "keeps Q A s (vcpu_unlock p s2)"
  using assms lock_interrupts [OF assms(1)] locks_lock [OF assms(1), of A] locks_unlock [of "insert p A" s2 p]
  by (simp add: keeps_def unlock_interrupts)

lemma set_vcpu_state_keeps: "set_vcpu_state p st s = Inr s' \<Longrightarrow> p \<notin> A \<Longrightarrow> keeps Q A s s'"
  by (auto simp: set_vcpu_state_def res_bind_eq_Inr intro!: keeps_locked keeps_upd)

lemma api_switch_to_vm_keeps:
  assumes "api_switch_to_vm current ret st to_id s = Inr (n, s')" "current \<notin> A"
  shows "keeps Q A s s'"
proof -
  have "set_vcpu_state current st (upd_vcpu n (\<lambda>N. N\<lparr>vcpu_regs := arch_regs_set_retval ret (vcpu_regs N)\<rparr>) s) = Inr s'"
    using assms(1) by (auto simp: api_switch_to_vm_def res_bind_eq_Inr split: option.splits)
  from keeps_trans [OF keeps_upd set_vcpu_state_keeps [OF this assms(2)]] show ?thesis by simp
qed

lemma api_switch_to_primary_keeps:
  "api_switch_to_primary current ret st s = Inr (n, s') \<Longrightarrow> current \<notin> A \<Longrightarrow> keeps Q A s s'"
  by (auto simp: api_switch_to_primary_def res_bind_eq_Inr intro: api_switch_to_vm_keeps)

lemma api_wake_up_keeps: "api_wake_up current target s = Inr (n, s') \<Longrightarrow> current \<notin> A \<Longrightarrow> keeps Q A s s'"
  by (auto simp: api_wake_up_def res_bind_eq_Inr intro: api_switch_to_primary_keeps)

lemma api_wait_for_interrupt_keeps: "api_wait_for_interrupt current s = Inr (n, s') \<Longrightarrow> current \<notin> A \<Longrightarrow> keeps Q A s s'"
  by (auto simp: api_wait_for_interrupt_def res_bind_eq_Inr intro: api_switch_to_primary_keeps)

lemma api_yield_keeps: "api_yield current s = Inr (r, n, s') \<Longrightarrow> current \<notin> A \<Longrightarrow> keeps Q A s s'"
  by (auto simp: api_yield_def res_bind_eq_Inr split: if_splits intro: api_switch_to_primary_keeps)

lemma timer_disable_vms: "vms (arch_timer_disable_current s) = vms s"
  by (simp add: arch_timer_disable_current_def write_msr_def)

lemma api_vcpu_off_keeps:
  assumes "api_vcpu_off current s = Inr (n, s')" "current \<notin> A"
  shows "keeps Q A s s'"
proof -
  obtain x where "api_switch_to_primary current (ffa_call PG_FFA_RUN_WAIT_FOR_INTERRUPT x 0) VCPU_STATE_OFF
      (arch_timer_disable_current s) = Inr (n, s')"
    using assms(1) by (auto simp: api_vcpu_off_def res_bind_eq_Inr)
  from keeps_trans [OF keeps_same_vms [OF timer_disable_vms] api_switch_to_primary_keeps [OF this assms(2)]] show ?thesis .
qed

lemma api_regs_state_saved_keeps: "api_regs_state_saved p s = Inr s' \<Longrightarrow> p \<notin> A \<Longrightarrow> keeps Q A s s'"
  by (auto simp: api_regs_state_saved_def res_bind_eq_Inr intro!: keeps_locked keeps_upd)

section \<open>Interrupts\<close>

text \<open>What the operations on the interrupts of the virtual CPU \<open>t\<close> promise about \<open>Q\<close>, a property of all virtual CPUs.\<close>

locale interrupt_contract =
  fixes Q :: "vcpu_ptr \<Rightarrow> interrupts \<Rightarrow> bool" and t :: vcpu_ptr
  assumes Q_inject: "Q t I \<Longrightarrow> unat intid < 64 \<Longrightarrow>
      interrupt_enabled I ! intid_index intid AND NOT (interrupt_pending I ! intid_index intid) AND intid_mask intid = 0 \<Longrightarrow>
      Q t (make_pending intid I)"
    and Q_inject_count: "Q t I \<Longrightarrow> unat intid < 64 \<Longrightarrow>
      interrupt_enabled I ! intid_index intid AND NOT (interrupt_pending I ! intid_index intid) AND intid_mask intid \<noteq> 0 \<Longrightarrow>
      Q t (make_pending intid (count_increment (intid_index intid) (intid_shift intid) I))"
    and Q_enable: "Q t I \<Longrightarrow> unat intid < 64 \<Longrightarrow> Q t (enable_interrupt intid type I)"
    and Q_disable: "Q t I \<Longrightarrow> unat intid < 64 \<Longrightarrow> Q t (disable_interrupt intid I)"
    and Q_take: "Q t I \<Longrightarrow> take_interrupt [0..<2] I = (n, I') \<Longrightarrow> Q t I'"
begin

lemma keeps_interrupts:
  "(\<And>V. the_vcpu t s = Inr V \<Longrightarrow> Q t (vcpu_interrupts V) \<Longrightarrow> Q t (f (vcpu_interrupts V))) \<Longrightarrow> keeps Q A s (upd_interrupts t f s)"
  by (auto simp: keeps_def upd_interrupts_def intro!: all_interrupts_upd locks_upd)

lemma enable_keeps:
  "api_interrupt_enable intid e type t s = Inr (r, s') \<Longrightarrow> t \<notin> A \<Longrightarrow> keeps Q A s s'"
  using intid_lt [of intid]
  by (auto simp: api_interrupt_enable_def res_bind_eq_Inr Q_enable Q_disable split: if_splits
      intro!: keeps_locked keeps_interrupts)

lemma get_keeps:
  assumes "api_interrupt_get t s = Inr (n, s')" "t \<notin> A"
  shows "keeps Q A s s'"
proof -
  have two: "unat (PG_NUM_INTIDS div INTERRUPT_REGISTER_BITS) = 2"
    by (simp add: PG_NUM_INTIDS_def INTERRUPT_REGISTER_BITS_def unat_div)
  obtain s1 C where s1: "vcpu_lock t s = Inr s1" "the_vcpu t s1 = Inr C"
    using assms(1) by (auto simp: api_interrupt_get_def res_bind_eq_Inr)
  obtain m I where I: "take_interrupt [0..<2] (vcpu_interrupts C) = (m, I)" by (cases "take_interrupt [0..<2] (vcpu_interrupts C)")
  have s': "s' = vcpu_unlock t (upd_interrupts t (\<lambda>_. I) s1)"
    using assms(1) I by (simp add: api_interrupt_get_def two s1)
  show ?thesis
    unfolding s' by (rule keeps_locked [OF s1(1) keeps_interrupts assms(2)]) (use s1(2) Q_take [OF _ I] in auto)
qed

lemma inject_locked_keeps:
  assumes "api_interrupt_inject_locked t intid current want s = Inr (r, n, s')" "unat intid < 64"
    "current \<noteq> t \<Longrightarrow> current \<notin> A"
  shows "keeps Q A s s'"
proof -
  obtain T where T: "the_vcpu t s = Inr T" using assms(1) by (auto simp: api_interrupt_inject_locked_def res_bind_eq_Inr)
  define I where "I = vcpu_interrupts T"
  let ?inc = "count_increment (intid_index intid) (intid_shift intid) I"
  define s1 where "s1 = upd_interrupts t (\<lambda>_. ?inc) s"
  let ?c = "interrupt_enabled I ! intid_index intid AND NOT (interrupt_pending I ! intid_index intid) AND intid_mask intid"
  have plain: "keeps Q A s (upd_interrupts t (make_pending intid) s)" if "?c = 0"
    by (rule keeps_interrupts) (use that T Q_inject [OF _ assms(2)] in \<open>auto simp: I_def\<close>)
  have counted: "keeps Q A s (upd_interrupts t (make_pending intid) s1)" if "?c \<noteq> 0"
  proof -
    have "upd_interrupts t (make_pending intid) s1 = upd_interrupts t (\<lambda>_. make_pending intid ?inc) s"
      using T by (cases t) (auto simp: s1_def upd_interrupts_def upd_vcpu.simps upd_vm_def the_vcpu.simps nth_list_update split: if_splits)
    moreover have "keeps Q A s (upd_interrupts t (\<lambda>_. make_pending intid ?inc) s)"
      by (rule keeps_interrupts) (use that T Q_inject_count [OF _ assms(2)] in \<open>auto simp: I_def\<close>)
    ultimately show ?thesis by simp
  qed
  have woken: "keeps Q A s (upd_interrupts t (make_pending intid) s2)"
    if "?c \<noteq> 0" "current \<noteq> t" "api_wake_up current t s1 = Inr (m, s2)" for m s2
  proof -
    let ?P = "\<lambda>p J. if p = t then J = ?inc \<and> Q t I else Q p J"
    have w: "keeps ?P A s1 s2" using api_wake_up_keeps [OF that(3)] that(2) assms(3) by blast
    have "all_interrupts ?P s1" if "all_interrupts Q s"
      using that T by (auto simp: all_interrupts_def s1_def upd_interrupts_def the_vcpu_upd I_def split: if_splits)
    moreover have "all_interrupts Q (upd_interrupts t (make_pending intid) s2)" if "all_interrupts ?P s2"
      using that Q_inject_count [OF _ assms(2)] \<open>?c \<noteq> 0\<close>
      by (cases "the_vcpu t s2") (auto simp: all_interrupts_def upd_interrupts_def the_vcpu_upd split: if_splits)
    moreover have "locks A s1" if "locks A s" using that by (auto simp: s1_def upd_interrupts_def intro!: locks_upd)
    moreover have "locks A (upd_interrupts t (make_pending intid) s2)" if "locks A s2"
      using that by (auto simp: upd_interrupts_def intro!: locks_upd)
    ultimately show ?thesis using w by (simp add: keeps_def)
  qed
  show ?thesis
    using assms(1) T plain counted woken
    by (auto simp: api_interrupt_inject_locked_def res_bind_eq_Inr Let_def I_def [symmetric] s1_def [symmetric] split: if_splits)
qed

lemma inject_keeps:
  assumes "api_interrupt_inject vmid i intid current want s = Inr (r, n, s')"
    "\<And>v. vm_find vmid s = Some v \<Longrightarrow> t = (v, unat i)"
  shows "keeps Q {} s s'"
proof -
  have lt: "unat intid < 64" if "\<not> intid \<ge> PG_NUM_INTIDS" using that intid_lt by blast
  have inj: "keeps Q {} s s'" if j: "internal_interrupt_inject t intid current want s = Inr (r, n, s')" "unat intid < 64"
  proof -
    obtain s1 s2 where "vcpu_lock t s = Inr s1" "api_interrupt_inject_locked t intid current want s1 = Inr (r, n, s2)"
      "s' = vcpu_unlock t s2"
      using j(1) by (auto simp: internal_interrupt_inject_def res_bind_eq_Inr)
    then show ?thesis using keeps_locked [of t s s1 Q "{}" s2] inject_locked_keeps [OF _ j(2), of current want s1 r n s2 "{t}"] by simp
  qed
  show ?thesis
    using assms inj lt
    by (auto simp: api_interrupt_inject_def vm_get_vcpu_def CHECK_def res_bind_eq_Inr split: if_splits option.splits)
qed

end

section \<open>Calls\<close>

inductive api_step :: "hyp \<Rightarrow> hyp \<Rightarrow> bool" where
  inject: "api_interrupt_inject vmid i intid current want s = Inr (r, next, s') \<Longrightarrow> api_step s s'"
| enable: "api_interrupt_enable intid e type current s = Inr (r, s') \<Longrightarrow> api_step s s'"
| get: "api_interrupt_get current s = Inr (n, s') \<Longrightarrow> api_step s s'"
| wait: "api_wait_for_interrupt current s = Inr (next, s') \<Longrightarrow> api_step s s'"
| off: "api_vcpu_off current s = Inr (next, s') \<Longrightarrow> api_step s s'"
| yield: "api_yield current s = Inr (ret, next', s') \<Longrightarrow> api_step s s'"
| wake: "api_wake_up current target s = Inr (next, s') \<Longrightarrow> api_step s s'"
| saved: "api_regs_state_saved current s = Inr s' \<Longrightarrow> api_step s s'"

inductive_cases api_stepE: "api_step s s'"

text \<open>A property that the operations on any virtual CPU keep.\<close>

locale interrupt_invariant =
  fixes Q :: "vcpu_ptr \<Rightarrow> interrupts \<Rightarrow> bool"
  assumes contract: "interrupt_contract Q t"
begin

lemma api_step_keeps: "api_step s s' \<Longrightarrow> keeps Q {} s s'"
proof (induction rule: api_step.induct)
  case (inject vmid i intid current want s r "next" s')
  show ?case by (rule interrupt_contract.inject_keeps [OF contract inject(1), of "(the (vm_find vmid s), unat i)"]) simp
qed (auto intro: interrupt_contract.enable_keeps [OF contract] interrupt_contract.get_keeps [OF contract]
      api_wait_for_interrupt_keeps api_vcpu_off_keeps api_yield_keeps api_wake_up_keeps api_regs_state_saved_keeps)

lemma api_steps_keep: "api_step\<^sup>*\<^sup>* s s' \<Longrightarrow> keeps Q {} s s'"
  by (induction rule: rtranclp_induct) (auto intro: keeps_trans api_step_keeps)

end

text \<open>The counters of every virtual CPU, and the interrupts of the virtual CPUs a call is not about.\<close>

interpretation counted: interrupt_invariant "\<lambda>_. counts_ok"
  by unfold_locales (blast intro: inject_counts enable_counts disable_counts take_counts)+

interpretation others: interrupt_contract "\<lambda>p J. p \<noteq> t \<longrightarrow> J = J0 p" t for t J0
  by unfold_locales simp_all

end
