(* ===== verification/Mm_Frame.thy ===== *)
theory Mm_Frame
  imports Mm
begin

text \<open>
  Mapping memory changes the pools, the memory of the tables and the log, and nothing of a state that extends the
  one of the page tables. No invariant is assumed.
\<close>

lemma fold_res_rel:
  assumes "fold_res f xs s = Inr s'" "\<And>s. R s s" "\<And>s t u. R s t \<Longrightarrow> R t u \<Longrightarrow> R s u"
    "\<And>x s s'. x \<in> set xs \<Longrightarrow> f x s = Inr s' \<Longrightarrow> R s s'"
  shows "R s s'"
  using assms(1,4)
proof (induction xs arbitrary: s)
  case (Cons a xs)
  then obtain t where t: "f a s = Inr t" "fold_res f xs t = Inr s'" by (auto simp: res_bind_eq_Inr)
  have "R t s'" by (rule Cons.IH [OF t(2)]) (use Cons.prems(2) in auto)
  with Cons.prems(2) [OF _ t(1)] show ?case by (auto intro: assms(3))
qed (auto intro: assms(2))

section \<open>Pools\<close>

lemma machine_more [simp]:
  "machine.more (write64 a v s) = machine.more s" "machine.more (upd_pool p f s) = machine.more s"
  "machine.more (mpool_unlock p s) = machine.more s"
  by (simp_all add: write64_def upd_pool_def mpool_unlock_def)

lemma mpool_lock_more: "mpool_lock p s = Inr s' \<Longrightarrow> machine.more s' = machine.more s"
  by (auto simp: mpool_lock_def split: if_splits)

lemma mpool_alloc_no_fallback_more: "mpool_alloc_no_fallback p s = Inr (r, s') \<Longrightarrow> machine.more s' = machine.more s"
  by (auto simp: mpool_alloc_no_fallback_def res_bind_eq_Inr Let_def dest!: mpool_lock_more split: if_splits)

lemma mpool_alloc_loop_more: "mpool_alloc_loop p s = Some r \<Longrightarrow> \<forall>x s'. r = Inr (x, s') \<longrightarrow> machine.more s' = machine.more s"
proof (erule mpool_alloc_loop.raw_induct [rotated], intro allI impI)
  fix f p s r x s'
  assume ih: "\<And>p s r. f p s = Some r \<Longrightarrow> \<forall>x s'. r = Inr (x, s') \<longrightarrow> machine.more s' = machine.more s"
    and r: "r = Inr (x, s')"
    and body: "(case mpool_alloc_no_fallback p s of Inl e \<Rightarrow> Some (Inl e)
      | Inr (ret, s1) \<Rightarrow> if ret \<noteq> 0 then Some (Inr (ret, s1))
          else (case fallback (pools s1 p) of None \<Rightarrow> Some (Inr (0, s1)) | Some q \<Rightarrow> f q s1)) = Some r"
  show "machine.more s' = machine.more s"
    using body r by (auto split: sum.splits prod.splits option.splits if_splits dest!: ih mpool_alloc_no_fallback_more)
qed

lemma mpool_alloc_more: "mpool_alloc p s = Inr (x, s') \<Longrightarrow> machine.more s' = machine.more s"
  by (auto simp: mpool_alloc_def res_of_option_def split: option.splits dest: mpool_alloc_loop_more)

lemma mpool_free_more: "mpool_free p ptr s = Inr s' \<Longrightarrow> machine.more s' = machine.more s"
  by (auto simp: mpool_free_def res_bind_eq_Inr Let_def dest: mpool_lock_more)

lemma mm_free_page_pte_more: "mm_free_page_pte l pte ppool s = Inr s' \<Longrightarrow> machine.more s' = machine.more s"
proof (induction l arbitrary: pte s s')
  case (Suc l)
  show ?case
  proof (cases "arch_mm_pte_is_table pte (Suc l)")
    case True
    then obtain s1 where s1: "fold_res (\<lambda>i s. mm_free_page_pte l (mem s (entry_at (arch_mm_table_from_pte pte (Suc l)) i)) ppool s)
        [0..<MM_PTE_PER_PAGE] s = Inr s1" "mpool_free ppool (arch_mm_table_from_pte pte (Suc l)) s1 = Inr s'"
      using Suc.prems by (auto simp: res_bind_eq_Inr Let_def)
    have "machine.more s1 = machine.more s"
      by (rule fold_res_rel [OF s1(1), where R = "\<lambda>s s'. machine.more s' = machine.more s"]) (auto dest: Suc.IH)
    then show ?thesis using mpool_free_more [OF s1(2)] by simp
  qed (use Suc.prems in simp)
qed (auto split: if_splits)

lemma write_entries_more [simp]: "machine.more (write_entries n a v inc s) = machine.more s"
  by (induction n arbitrary: a v s) simp_all

section \<open>Tables\<close>

abbreviation rest :: "'a mm_machine_scheme \<Rightarrow> 'a" where
  "rest s \<equiv> mm_machine.more s"

lemma rest_cong: "machine.more s' = machine.more s \<Longrightarrow> rest s' = rest s"
  by (cases s; cases s') simp

lemma rest_simps [simp]:
  "rest (write64 a v s) = rest s" "rest (mm_record ev s) = rest s" "rest (pte_store b l p v s) = rest s"
  "rest (mm_invalidate_tlb b e flags s) = rest s"
  by (simp_all add: write64_def mm_record_def pte_store_def mm_invalidate_tlb_def)

lemma rest_write_entries [simp]: "rest (write_entries n a v inc s) = rest s"
  by (rule rest_cong) simp

lemma mm_replace_entry_rest: "mm_replace_entry b pte new l flags ppool s = Inr s' \<Longrightarrow> rest s' = rest s"
  by (auto simp: mm_replace_entry_def Let_def dest!: mm_free_page_pte_more [THEN rest_cong] split: if_splits)

lemma mm_populate_table_pte_rest: "mm_populate_table_pte b pte l flags ppool s = Inr (x, s') \<Longrightarrow> rest s' = rest s"
  by (auto simp: mm_populate_table_pte_def mm_alloc_page_tables_def Let_def res_bind_eq_Inr
      dest!: mm_replace_entry_rest mpool_alloc_more [THEN rest_cong] split: if_splits prod.splits)

lemma mm_map_entry_rest:
  assumes "mm_map_entry below l attrs flags ppool b e pa pte s = Inr (x, s')"
    "\<And>b e pa t s x s'. below b e pa t s = Inr (x, s') \<Longrightarrow> rest s' = rest s"
  shows "rest s' = rest s"
  using assms(1) unfolding mm_map_entry_def Let_def
  by (auto simp: res_bind_eq_Inr dest!: mm_replace_entry_rest mm_populate_table_pte_rest assms(2) split: if_splits)

lemma mm_map_loop_rest:
  assumes "mm_map_loop n below l attrs flags ppool b e pa pte s = Inr (x, s')"
    "\<And>b e pa t s x s'. below b e pa t s = Inr (x, s') \<Longrightarrow> rest s' = rest s"
  shows "rest s' = rest s"
  using assms(1)
proof (induction n arbitrary: b pa pte s)
  case (Suc n)
  show ?case
  proof (cases "b < e")
    case True
    then obtain ok s1 where s1: "mm_map_entry below l attrs flags ppool b e pa pte s = Inr (ok, s1)"
      using Suc.prems by (auto simp: res_bind_eq_Inr)
    have "rest s' = rest s1" using Suc.prems True s1 Suc.IH by (cases ok) (auto simp: Let_def)
    then show ?thesis using mm_map_entry_rest [OF s1 assms(2)] by simp
  qed (use Suc.prems in simp)
qed (auto split: if_splits)

lemma mm_map_level_rest: "mm_map_level l attrs flags ppool b e pa t s = Inr (x, s') \<Longrightarrow> rest s' = rest s"
proof (induction l arbitrary: b e pa t s x s')
  case 0
  then show ?case unfolding mm_map_level.simps Let_def by (rule mm_map_loop_rest) simp
next
  case (Suc l)
  from Suc.prems show ?case unfolding mm_map_level.simps Let_def by (rule mm_map_loop_rest) (rule Suc.IH)
qed

lemma mm_map_root_loop_rest:
  "mm_map_root_loop n rl attrs flags ppool b e pa t s = Inr (x, s') \<Longrightarrow> rest s' = rest s"
proof (induction n arbitrary: b pa t s)
  case (Suc n)
  show ?case
  proof (cases "b < e")
    case True
    then obtain ok s1 where s1: "mm_map_level (rl - 1) attrs flags ppool b e pa t s = Inr (ok, s1)"
      using Suc.prems by (auto simp: res_bind_eq_Inr)
    have "rest s' = rest s1" using Suc.prems True s1 Suc.IH by (cases ok) (auto simp: Let_def)
    then show ?thesis using mm_map_level_rest [OF s1] by simp
  qed (use Suc.prems in simp)
qed (auto split: if_splits)

lemma mm_ptable_map_rest: "mm_ptable_map root pb pe ib attrs flags ppool s = Inr (x, s') \<Longrightarrow> rest s' = rest s"
  by (auto simp: mm_ptable_map_def mm_map_root_def Let_def res_bind_eq_Inr dest!: mm_map_root_loop_rest split: if_splits)

lemma mm_ptable_update_rest: "mm_ptable_update root pb pe ib attrs flags ppool s = Inr (x, s') \<Longrightarrow> rest s' = rest s"
  by (auto simp: mm_ptable_update_def mm_ptable_prepare_def mm_ptable_commit_def res_bind_eq_Inr
      dest!: mm_ptable_map_rest split: if_splits)

lemma mm_vm_prepare_rest: "mm_vm_prepare root ib b e mode ppool s = Inr (x, s') \<Longrightarrow> rest s' = rest s"
  by (auto simp: mm_vm_prepare_def mm_ptable_prepare_def dest!: mm_ptable_map_rest)

lemma mm_vm_commit_rest: "mm_vm_commit root ib b e mode ppool s = Inr (x, s') \<Longrightarrow> rest s' = rest s"
  by (auto simp: mm_vm_commit_def mm_ptable_commit_def res_bind_eq_Inr dest!: mm_ptable_map_rest split: if_splits)

end
