(* ===== verification/Exc_Frame.thy ===== *)
theory Exc_Frame
  imports Handler Api_State Mm_Frame
begin

text \<open>
  What the handlers of exceptions leave alone. \<open>conf\<close> is the configuration of the VMs, which no handler changes, and \<open>view\<close>
  adds the interrupts and the lock of every virtual CPU, which only the calls for virtual interrupts change. A handler
  that returns has released the locks it took, so \<open>view\<close> is the same before and after it.
\<close>

unbundle bit_operations_syntax

declare the_vcpu.simps [simp del] upd_vcpu.simps [simp del]

section \<open>The view\<close>

definition vm_static :: "vm \<Rightarrow> u16 \<times> u16 \<times> u64 \<times> smc_whitelist \<times> u64 list \<times> interrupt_descriptor list \<times> u64" where
  "vm_static V = (vm_id V, vcpu_count V, vm_ptable V, vm_smc_whitelist V, vm_cpus V, interrupt_desc V, vgic V)"

definition conf where
  "conf s = (map (\<lambda>V. (vm_static V, map vcpu_vm (vcpus V))) (vms s), vm_count s, first_boot_vm s)"

definition vcpu_view :: "vcpu_ptr \<Rightarrow> hyp \<Rightarrow> (bool \<times> interrupts) res" where
  "vcpu_view p s = map_sum id (\<lambda>V. (vcpu_held V, vcpu_interrupts V)) (the_vcpu p s)"

definition view where
  "view s = ((\<lambda>p. vcpu_view p s), conf s)"

named_theorems framed \<open>an operation that returns keeps the view\<close>

lemma map_upd_same: "(\<And>x. g (f x) = g x) \<Longrightarrow> map g (xs[i := f (xs ! i)]) = map g xs"
  by (cases "i < length xs") (simp_all add: map_update list_update_same_conv list_update_beyond)

lemma nth_upd: "j < length xs \<Longrightarrow> xs[i := x] ! j = (if i = j then x else xs ! j)"
  by (cases "i = j") simp_all

lemma conf_upd_vm [simp]: "(\<And>V. vm_static (f V) = vm_static V) \<Longrightarrow> (\<And>V. map vcpu_vm (vcpus (f V)) = map vcpu_vm (vcpus V)) \<Longrightarrow>
    conf (upd_vm v f s) = conf s"
  by (simp add: conf_def upd_vm_def map_upd_same)

lemma conf_upd_vcpu [simp]:
  assumes "\<And>V. vcpu_vm (f V) = vcpu_vm V"
  shows "conf (upd_vcpu p f s) = conf s"
  by (cases p) (simp add: upd_vcpu.simps vm_static_def map_upd_same [where f = f and g = vcpu_vm, OF assms])

lemma view_eqI: "(\<And>p. vcpu_view p s' = vcpu_view p s) \<Longrightarrow> conf s' = conf s \<Longrightarrow> view s' = view s"
  by (simp add: view_def)

lemma view_same: "vms s' = vms s \<Longrightarrow> vm_count s' = vm_count s \<Longrightarrow> first_boot_vm s' = first_boot_vm s \<Longrightarrow> view s' = view s"
  by (rule view_eqI) (auto simp: vcpu_view_def the_vcpu.simps conf_def)

lemma view_conf: "view s' = view s \<Longrightarrow> conf s' = conf s"
  by (simp add: view_def)

lemma view_keeps: "view s' = view s \<Longrightarrow> keeps Q A s s'"
proof -
  assume "view s' = view s"
  then have v: "vcpu_view p s' = vcpu_view p s" for p by (simp add: view_def) metis
  have "\<exists>V. the_vcpu p s = Inr V \<and> vcpu_held V = vcpu_held V' \<and> vcpu_interrupts V = vcpu_interrupts V'"
    if "the_vcpu p s' = Inr V'" for p V'
    using v [of p] that by (cases "the_vcpu p s") (auto simp: vcpu_view_def)
  then show ?thesis unfolding keeps_def all_interrupts_def locks_def by metis
qed

lemma view_updates [simp]:
  "view (s\<lparr>bytes := b\<rparr>) = view s" "view (s\<lparr>msr := m\<rparr>) = view s" "view (s\<lparr>interrupt_owners := l\<rparr>) = view s"
  "view (s\<lparr>gic_spinlock := g\<rparr>) = view s" "view (s\<lparr>cpus := cs\<rparr>) = view s" "view (s\<lparr>dlog_st := w\<rparr>) = view s"
  "view (s\<lparr>dev_states := ds\<rparr>) = view s" "view (s\<lparr>smc_log := cl\<rparr>) = view s" "view (s\<lparr>sanct_lpc := lp\<rparr>) = view s"
  by (rule view_same; simp)+

lemma view_upd_vcpu [simp]:
  "(\<And>V. vcpu_held (f V) = vcpu_held V) \<Longrightarrow> (\<And>V. vcpu_interrupts (f V) = vcpu_interrupts V) \<Longrightarrow>
   (\<And>V. vcpu_vm (f V) = vcpu_vm V) \<Longrightarrow> view (upd_vcpu p f s) = view s"
  by (rule view_eqI; cases "the_vcpu p s") (auto simp: vcpu_view_def the_vcpu_upd)

lemma view_upd_vm [simp]:
  assumes "\<And>V. vm_static (f V) = vm_static V" "\<And>V. vcpus (f V) = vcpus V"
  shows "view (upd_vm v f s) = view s"
proof (rule view_eqI)
  fix p
  show "vcpu_view p (upd_vm v f s) = vcpu_view p s"
    by (cases p) (auto simp: vcpu_view_def the_vcpu.simps upd_vm_def nth_upd assms(2))
qed (simp add: assms)

lemma view_rest: "rest s' = rest s \<Longrightarrow> view s' = view (s :: hyp)"
  by (rule view_same) (cases s; cases s'; simp)+

lemma view_locked:
  assumes "vcpu_lock p s = Inr s1" "view s2 = view s1"
  shows "view (vcpu_unlock p s2) = view s"
proof -
  obtain V where V: "the_vcpu p s = Inr V" "\<not> vcpu_held V" "the_vcpu p s1 = Inr (V\<lparr>vcpu_held := True\<rparr>)"
    using lock_same [OF assms(1)] by blast
  have v: "vcpu_view q s2 = vcpu_view q s1" for q using assms(2) by (simp add: view_def) metis
  have c: "conf s1 = conf s" using assms(1) by (auto simp: vcpu_lock_def res_bind_eq_Inr)
  show ?thesis
  proof (rule view_eqI)
    fix q
    show "vcpu_view q (vcpu_unlock p s2) = vcpu_view q s"
    proof (cases "q = p")
      case True
      then show ?thesis using v [of p] V
        by (cases "the_vcpu p s2") (auto simp: vcpu_view_def vcpu_unlock_def the_vcpu_upd sl_unlock_def)
    next
      case False
      then show ?thesis using v [of q] lock_others [OF assms(1) False]
        by (simp add: vcpu_view_def vcpu_unlock_def the_vcpu_upd)
    qed
  next
    show "conf (vcpu_unlock p s2) = conf s" using view_conf [OF assms(2)] c by (simp add: vcpu_unlock_def)
  qed
qed

lemma view_write_msr [simp]: "view (write_msr n x s) = view s"
  by (simp add: write_msr_def)

lemma view_upd_cpu [simp]: "view (upd_cpu c f s) = view s"
  by (simp add: upd_cpu_def)

lemma view_upd_regs [simp]: "view (upd_regs p f s) = view s" "view (skip_pc p inc s) = view s" "view (set_r0 p x s) = view s"
  by (simp_all add: upd_regs_def skip_pc_def set_r0_def)


section \<open>Memory of the VMs\<close>

lemma vm_lock_view [framed]: "vm_lock v s = Inr s' \<Longrightarrow> view s' = view s"
  by (auto simp: vm_lock_def res_bind_eq_Inr vm_static_def)

lemma vm_unlock_view [simp]: "view (vm_unlock v s) = view s"
  by (simp add: vm_unlock_def vm_static_def)

lemma vm_identity_map_view [framed]:
  "vm_identity_map v b e mode ppool s = Inr (ok, ipa, s') \<Longrightarrow> view s' = view s"
  by (auto simp: vm_identity_map_def vm_identity_prepare_def vm_identity_commit_def res_bind_eq_Inr Let_def
      dest!: mm_vm_prepare_rest [THEN view_rest] mm_vm_commit_rest [THEN view_rest] split: if_splits)

lemma vcpu_handle_page_fault_view [framed]: "vcpu_handle_page_fault p info s = Inr (r, s') \<Longrightarrow> view s' = view s"
  by (auto simp: vcpu_handle_page_fault_def res_bind_eq_Inr Let_def dest!: framed split: if_splits)

section \<open>Switching\<close>

lemma set_vcpu_state_view [framed]: "set_vcpu_state p st s = Inr s' \<Longrightarrow> view s' = view s"
  by (auto simp: set_vcpu_state_def res_bind_eq_Inr intro!: view_locked)

lemma api_switch_to_primary_view [framed]: "api_switch_to_primary p ret st s = Inr (n, s') \<Longrightarrow> view s' = view s"
  by (auto simp: api_switch_to_primary_def api_switch_to_vm_def res_bind_eq_Inr dest!: framed split: option.splits)

lemma api_calls_view [framed]:
  "api_wake_up p t s = Inr (n, s') \<Longrightarrow> view s' = view s"
  "api_wait_for_interrupt p s = Inr (n, s') \<Longrightarrow> view s' = view s"
  "api_vcpu_off p s = Inr (n, s') \<Longrightarrow> view s' = view s"
  "api_yield p s = Inr (r, n', s') \<Longrightarrow> view s' = view s"
  by (auto simp: api_wake_up_def api_wait_for_interrupt_def api_vcpu_off_def api_yield_def res_bind_eq_Inr
      arch_timer_disable_current_def dest!: framed split: if_splits)

lemma api_regs_state_saved_view [framed]: "api_regs_state_saved p s = Inr s' \<Longrightarrow> view s' = view s"
  by (auto simp: api_regs_state_saved_def res_bind_eq_Inr intro!: view_locked)

section \<open>Power calls\<close>

lemma smc_view [simp]:
  "view (snd (smc_internal fw f a0 a1 a2 a3 a4 a5 c s)) = view s" "view (snd (smc64 fw f a0 a1 a2 a3 a4 a5 c s)) = view s"
  "view (snd (smc32 fw f b0 b1 b2 b3 b4 b5 c s)) = view s" "view (snd (smc_forward fw f a0 a1 a2 a3 a4 a5 c s)) = view s"
  by (simp_all add: smc_internal_def smc64_def smc32_def smc_forward_def Let_def)

lemma smc_view_eq [framed]:
  "smc_internal fw f a0 a1 a2 a3 a4 a5 c s = (r, s') \<Longrightarrow> view s' = view s"
  "smc64 fw f a0 a1 a2 a3 a4 a5 c s = (r, s') \<Longrightarrow> view s' = view s"
  "smc32 fw f b0 b1 b2 b3 b4 b5 c s = (r, s') \<Longrightarrow> view s' = view s"
  "smc_forward fw f a0 a1 a2 a3 a4 a5 c s = (r, s') \<Longrightarrow> view s' = view s"
  by (metis smc_view snd_conv)+

lemma cpu_on_loop_view [framed]: "cpu_on_loop fw cid c s = Some (r, s') \<Longrightarrow> view s' = view s"
proof -
  assume "cpu_on_loop fw cid c s = Some (r, s')"
  moreover have "\<forall>r s'. y = (r, s') \<longrightarrow> view s' = view s" if "cpu_on_loop fw cid c s = Some y" for y
    using that
    by (rule cpu_on_loop.raw_induct [rotated]) (auto dest!: framed split: prod.splits if_splits)
  ultimately show ?thesis by blast
qed

lemma vcpu_on_view [simp]: "view (vcpu_on p entry arg s) = view s"
  by (simp add: vcpu_on_def)

lemma cpu_off_view [framed]: "cpu_off c s = Inr s' \<Longrightarrow> view s' = view s"
  by (auto simp: cpu_off_def res_bind_eq_Inr)

lemma cpu_on_view [framed]:
  assumes "cpu_on c entry arg s = Inr (prev, s')"
  shows "view s' = view s"
proof -
  obtain f where f: "s' = upd_cpu c f s \<or> (\<exists>p s2. vcpu_lock p (upd_cpu c f s) = Inr s2 \<and> s' = vcpu_unlock p (vcpu_on p entry arg s2))"
    using assms by (auto simp: cpu_on_def res_bind_eq_Inr Let_def split: if_splits)
  then show ?thesis using view_locked [of _ "upd_cpu c f s"] by auto
qed

lemma arch_regs_reset_view [framed]: "arch_regs_reset p s = Inr s' \<Longrightarrow> view s' = view s"
  by (auto simp: arch_regs_reset_def res_bind_eq_Inr Let_def vm_static_def)

lemma vcpu_secondary_reset_and_start_view [framed]:
  "vcpu_secondary_reset_and_start p entry arg s = Inr (b, s') \<Longrightarrow> view s' = view s"
  by (auto simp: vcpu_secondary_reset_and_start_def res_bind_eq_Inr CHECK_def dest!: framed split: if_splits)

lemma psci_calls_view [framed]:
  "psci_affinity_info p a0 a1 s = Inr (r, s') \<Longrightarrow> view s' = view s"
  "psci_cpu_off fw p a0 s = Inr (r, s') \<Longrightarrow> view s' = view s"
  "psci_cpu_on fw p a0 a1 a2 s = Inr (r, s') \<Longrightarrow> view s' = view s"
  "psci_primary_features fw func a0 s = (r, s') \<Longrightarrow> view s' = view s"
  by (auto simp: psci_affinity_info_def psci_cpu_off_def psci_cpu_on_def psci_primary_features_def
      res_bind_eq_Inr res_of_option_def Let_def dest!: framed split: if_splits option.splits prod.splits)

lemma psci_cpu_suspend_view [framed]: "psci_cpu_suspend fw p a0 a1 a2 s = Inr (r, s') \<Longrightarrow> view s' = view s"
  by (auto simp: psci_cpu_suspend_def res_bind_eq_Inr Let_def case_prod_unfold split: if_splits)

lemma psci_primary_vm_handler_view [framed]:
  "psci_primary_vm_handler fw p func a0 a1 a2 s = Inr (b, ret, s') \<Longrightarrow> view s' = view s"
  by (auto simp: psci_primary_vm_handler_def handled_def res_bind_eq_Inr Let_def dest!: framed split: if_splits prod.splits)

lemma psci_secondary_affinity_info_view [framed]:
  "psci_secondary_affinity_info p a0 a1 s = Inr (r, s') \<Longrightarrow> view s' = view s"
  by (auto simp: psci_secondary_affinity_info_def res_bind_eq_Inr Let_def intro!: view_locked split: if_splits)

lemma psci_secondary_cpu_on_view [framed]:
  "psci_secondary_cpu_on p a0 a1 a2 s = Inr (r, next, s') \<Longrightarrow> view s' = view s"
  by (auto simp: psci_secondary_cpu_on_def res_bind_eq_Inr Let_def view_locked dest!: framed split: if_splits)

lemma psci_secondary_vm_handler_view [framed]:
  "psci_secondary_vm_handler p func a0 a1 a2 s = Inr (b, ret, next, s') \<Longrightarrow> view s' = view s"
  unfolding psci_secondary_vm_handler_def Let_def
  by (auto simp: res_bind_eq_Inr dest!: framed split: if_splits)

lemma psci_handler_view [framed]: "psci_handler fw p func a0 a1 a2 s = Inr (b, ret, next, s') \<Longrightarrow> view s' = view s"
  by (auto simp: psci_handler_def res_bind_eq_Inr dest!: framed split: if_splits)

section \<open>System registers\<close>

lemma write_rt_view [framed]: "write_rt p rt x s = Inr s' \<Longrightarrow> view s' = view s"
  by (auto simp: write_rt_def res_bind_eq_Inr split: if_splits)

lemma sysreg_access_view [framed]: "sysreg_access rtbl wtbl p esr s = Inr (b, s') \<Longrightarrow> view s' = view s"
  by (auto simp: sysreg_access_def Let_def CHECK_def res_bind_eq_Inr dest!: framed split: if_splits option.splits)

lemma process_access_view [framed]:
  "feature_id_process_access p esr s = Inr (b, s') \<Longrightarrow> view s' = view s"
  "perfmon_process_access p vmid esr s = Inr (b, s') \<Longrightarrow> view s' = view s"
  "debug_el1_process_access p vmid esr s = Inr (b, s') \<Longrightarrow> view s' = view s"
  "icc_icv_process_access p esr s = Inr (b, s') \<Longrightarrow> view s' = view s"
  "process_cache_maintenance p esr s = Inr (b, s') \<Longrightarrow> view s' = view s"
  by (auto simp: feature_id_process_access_def perfmon_process_access_def debug_el1_process_access_def
      icc_icv_process_access_def process_cache_maintenance_def Let_def CHECK_def res_bind_eq_Inr dest!: framed
      split: if_splits option.splits)

lemma inject_el1_exception_view [framed]: "inject_el1_exception p esr far s = Inr s' \<Longrightarrow> view s' = view s"
  by (auto simp: inject_el1_exception_def res_bind_eq_Inr Let_def)

lemma inject_view [framed]:
  "inject_el1_data_abort_exception p esr far s = Inr s' \<Longrightarrow> view s' = view s"
  "inject_el1_instruction_abort_exception p esr far s = Inr s' \<Longrightarrow> view s' = view s"
  "inject_el1_unknown_exception p esr s = Inr s' \<Longrightarrow> view s' = view s"
  by (auto simp: inject_el1_data_abort_exception_def inject_el1_instruction_abort_exception_def
      inject_el1_unknown_exception_def dest!: framed)

lemma handle_system_register_access_view [framed]: "handle_system_register_access esr p s = Inr s' \<Longrightarrow> view s' = view s"
  unfolding handle_system_register_access_def CHECK_def
  by (auto simp: res_bind_eq_Inr dest!: framed split: if_splits)

section \<open>The virtual GIC\<close>

lemma reroute_intid_to_vm_view [framed]: "reroute_intid_to_vm G intid cpuid s = Inr s' \<Longrightarrow> view s' = view s"
  by (auto simp: reroute_intid_to_vm_def set_router_def res_bind_eq_Inr split: if_splits)

lemma route_intid_to_cpu_view [framed]: "route_intid_to_cpu G intid cpuid v s = Inr s' \<Longrightarrow> view s' = view s"
  by (auto simp: route_intid_to_cpu_def set_router_def rwp_wait_def res_bind_eq_Inr dest!: framed split: if_splits)

lemma enable_intid_view [framed]: "enable_intid G v intid x i s = Inr s' \<Longrightarrow> view s' = view s"
  by (auto simp: enable_intid_def Let_def res_bind_eq_Inr dest!: framed split: if_splits)

lemma fold_res_view: "fold_res f xs s = Inr s' \<Longrightarrow> (\<And>x s s'. f x s = Inr s' \<Longrightarrow> view s' = view s) \<Longrightarrow> view s' = view s"
  by (rule fold_res_rel [where R = "\<lambda>s s'. view s' = view s"]) auto

lemma if_eq_Inr: "((if c then r else Inr a) = Inr b) \<longleftrightarrow> c \<and> r = Inr b \<or> \<not> c \<and> a = b"
  by simp

lemma write_to_reg_view [framed]:
  assumes "write_to_reg G p addr v_addr sas x s = Inr s'"
  shows "view s' = view s"
proof -
  obtain b v i w where "fold_res (enable_intid G v i w) [0..<32] (s\<lparr>bytes := b\<rparr>) = Inr s' \<or> s' = s\<lparr>bytes := b\<rparr>"
    using assms unfolding write_to_reg_def Let_def res_bind_eq_Inr rwp_wait_def
    by - (simp only: if_eq_Inr, elim exE conjE disjE, blast+)
  then show ?thesis using fold_res_view [of "enable_intid G v i w" _ "s\<lparr>bytes := b\<rparr>" s', OF _ enable_intid_view] by auto
qed

lemma gic_out_view [simp]: "view (gic_out p inc s) = view s"
  by (simp add: gic_out_def)

lemma gic_locked_view [framed]: "gic_locked G esr p mode addr a s = Inr (b, s') \<Longrightarrow> view s' = view s"
  by (auto simp: gic_locked_def gic_read_def Let_def res_bind_eq_Inr dest!: framed split: if_splits)

lemma access_gicv3_view [framed]:
  assumes "access_gicv3 G H esr far inc p info s = Inr (b, s')"
  shows "view s' = view s"
proof -
  obtain v V t where t: "vm_of_vcpu p s = Inr v" "the_vm v s = Inr V"
      "gic_target G v (fault_ipaddr info) (arch_translate_va_to_pa H far (vm_ptable V) s) s = Inr t"
    using assms unfolding access_gicv3_def res_bind_eq_Inr by blast
  show ?thesis
    using assms by (cases t) (auto simp: access_gicv3_def t res_bind_eq_Inr dest!: framed split: if_splits)
qed

section \<open>Devices\<close>

lemma view_upd_dev [simp]: "view (upd_dev k i f s) = view s" "view (dev_unlock k i s) = view s"
  by (simp_all add: upd_dev_def dev_unlock_def)

lemma dev_lock_view [framed]: "dev_lock k i s = Inr s' \<Longrightarrow> view s' = view s"
  by (auto simp: dev_lock_def res_bind_eq_Inr split: if_splits)

lemma load_dst_view [framed]: "load_dst p esr x s = Inr s' \<Longrightarrow> view s' = view s"
  by (auto simp: load_dst_def res_bind_eq_Inr)

lemma virt_dirmap_view [framed]: "virt_dirmap ppool inc p d s = Inr (b, s') \<Longrightarrow> view s' = view s"
  by (auto simp: virt_dirmap_def res_bind_eq_Inr dest!: framed split: if_splits option.splits)

lemma with_dev_lock_view:
  assumes "with_dev_lock k i inc p f s = Inr (b, s')" "\<And>s b s'. f s = Inr (b, s') \<Longrightarrow> view s' = view s"
  shows "view s' = view s"
  using assms(1) by (auto simp: with_dev_lock_def res_bind_eq_Inr dest!: framed assms(2))

lemma dev_ops_view [framed]:
  "passthr_op src esr p info s = Inr (b, s') \<Longrightarrow> view s' = view s"
  "imx_emulated_op c esr p info d s = Inr (b, s') \<Longrightarrow> view s' = view s"
  "sanct_uart_op esr p info d s = Inr (b, s') \<Longrightarrow> view s' = view s"
  by (auto simp: passthr_op_def imx_emulated_op_def sanct_uart_op_def Let_def res_bind_eq_Inr dest!: framed split: if_splits)

lemma locked_ops_view [framed]:
  "with_dev_lock k i inc p (passthr_op src esr q info) s = Inr (b, s') \<Longrightarrow> view s' = view s"
  "with_dev_lock k i inc p (imx_emulated_op c esr q info d) s = Inr (b, s') \<Longrightarrow> view s' = view s"
  "with_dev_lock k i inc p (sanct_uart_op esr q info d) s = Inr (b, s') \<Longrightarrow> view s' = view s"
  by (erule with_dev_lock_view, erule dev_ops_view)+

lemma passthr_access_view [framed]: "passthr_access blocked k c ppool esr inc p info d s = Inr (b, s') \<Longrightarrow> view s' = view s"
  by (auto simp: passthr_access_def dest!: framed split: if_splits)

lemma uart_access_view [framed]:
  "imx_uart_access c ppool esr inc p info d s = Inr (b, s') \<Longrightarrow> view s' = view s"
  "sanct_uart_access esr inc p info d s = Inr (b, s') \<Longrightarrow> view s' = view s"
  by (auto simp: imx_uart_access_def sanct_uart_access_def dest!: framed split: if_splits)

lemma access_virt_dev_view [framed]: "access_virt_dev C ppool esr inc p info s = Inr (b, s') \<Longrightarrow> view s' = view s"
  by (auto simp: access_virt_dev_def access_dev_def anatop_access_def iomux_access_def clock_ctrl_access_def
      dest!: framed split: option.splits dev_kind.splits)

lemma virtioac_handle_view [framed]: "virtioac_handle esr far inc p info s = Inr (b, s') \<Longrightarrow> view s' = view s"
  by (auto simp: virtioac_handle_def writereg_def Let_def res_bind_eq_Inr split: if_splits)

section \<open>Exceptions\<close>

lemma sync_data_abort_view [framed]: "sync_data_abort D esr far p s = Inr s' \<Longrightarrow> view s' = view s"
  unfolding sync_data_abort_def abort_device_def Let_def
  by (auto simp: res_bind_eq_Inr dest!: framed split: if_splits)

lemma sync_instruction_abort_view [framed]: "sync_instruction_abort esr far p s = Inr s' \<Longrightarrow> view s' = view s"
  by (auto simp: sync_instruction_abort_def res_bind_eq_Inr dest!: framed split: if_splits)

lemma hvc_smc_handler_view [framed]: "hvc_smc_handler fw args p s = Inr (h, next, s') \<Longrightarrow> view s' = view s"
  by (auto simp: hvc_smc_handler_def res_bind_eq_Inr dest!: framed split: option.splits)

lemma smc_forwarder_view [framed]: "smc_forwarder fw V args s = Inr (ret, s') \<Longrightarrow> view s' = view s"
  by (auto simp: smc_forwarder_def default_mediator_handle_smccc_def case_prod_unfold res_bind_eq_Inr split: if_splits)

lemma smc_handler_view [framed]: "smc_handler fw p s = Inr (next, s') \<Longrightarrow> view s' = view s"
  by (auto simp: smc_handler_def Let_def res_bind_eq_Inr dest!: framed split: if_splits)

lemma vcpu_update_virtual_interrupts_view [framed]:
  "vcpu_update_virtual_interrupts p next s = Inr s' \<Longrightarrow> view s' = view s"
  by (auto simp: vcpu_update_virtual_interrupts_def Let_def res_bind_eq_Inr intro!: view_locked split: option.splits)

lemma saving_view [framed]:
  "complete_saving_state p s = Inr s' \<Longrightarrow> view s' = view s"
  "begin_restoring_state p s = Inr s' \<Longrightarrow> view s' = view s"
  "maybe_invalidate_tlb p s = Inr (b, s') \<Longrightarrow> view s' = view s"
  by (auto simp: complete_saving_state_def begin_restoring_state_def maybe_invalidate_tlb_def vm_static_def Let_def
      res_bind_eq_Inr dest!: framed split: if_splits)

end
