(* ===== verification/Exc_State.thy ===== *)
theory Exc_State
  imports Exc_Frame
begin

text \<open>
  Sequences of exceptions. \<open>exc_step\<close> is a handler of \<^verbatim>\<open>handler.c\<close> that returns, or the VM running in between, which changes
  memory and registers. A property of the interrupts of every virtual CPU that the calls of \<^verbatim>\<open>api.c\<close> keep
  (\<open>interrupt_invariant\<close>) is kept by every sequence of exceptions, with no lock of a virtual CPU left held and the
  configuration of the VMs unchanged.
\<close>

unbundle bit_operations_syntax

declare the_vcpu.simps [simp del] upd_vcpu.simps [simp del]

section \<open>The configuration\<close>

lemma conf_lock [simp]: "vcpu_lock p s = Inr s' \<Longrightarrow> conf s' = conf s"
  by (auto simp: vcpu_lock_def res_bind_eq_Inr)

lemma conf_simps [simp]: "conf (vcpu_unlock p s) = conf s" "conf (upd_interrupts p f s) = conf s"
  by (simp_all add: vcpu_unlock_def upd_interrupts_def)

lemma enable_conf: "api_interrupt_enable intid e type p s = Inr (r, s') \<Longrightarrow> conf s' = conf s"
  by (auto simp: api_interrupt_enable_def res_bind_eq_Inr split: if_splits)

lemma get_conf: "api_interrupt_get p s = Inr (n, s') \<Longrightarrow> conf s' = conf s"
  by (auto simp: api_interrupt_get_def res_bind_eq_Inr case_prod_unfold)

lemma inject_locked_conf: "api_interrupt_inject_locked t intid p want s = Inr (r, n, s') \<Longrightarrow> conf s' = conf s"
  by (auto simp: api_interrupt_inject_locked_def res_bind_eq_Inr Let_def dest!: api_calls_view(1) [THEN view_conf] split: if_splits)

lemma inject_conf: "api_interrupt_inject vmid i intid p want s = Inr (r, n, s') \<Longrightarrow> conf s' = conf s"
  by (auto simp: api_interrupt_inject_def internal_interrupt_inject_def res_bind_eq_Inr dest!: inject_locked_conf
      split: if_splits option.splits)

section \<open>Interrupts of the machine\<close>

lemma signal_target_view: "signal_target t intid s = Inr (n, s') \<Longrightarrow> view s' = view s"
proof -
  assume a: "signal_target t intid s = Inr (n, s')"
  then obtain T where "the_vcpu t s = Inr T" by (auto simp: signal_target_def res_bind_eq_Inr)
  with a show ?thesis by (cases "vcpu_state T") (auto simp: signal_target_def Let_def CHECK_def split: if_splits)
qed

lemma delegate_steps:
  assumes "delegate_interrupt p s = Inr (n, s')"
  obtains t s1 s2 ret m s3 s4 where "view s1 = view s" "vcpu_lock t s1 = Inr s2"
    "api_interrupt_inject_locked t (gicv3_get_pending_interrupt_id s) p False s2 = Inr (ret, m, s3)"
    "view s4 = view s3" "s' = vcpu_unlock t s4"
proof -
  obtain t s1 where t: "set_vcpu_state p VCPU_STATE_PREEMPTED s = Inr s1" and
    r: "res_bind (vcpu_lock t (plat_interrupts_set_priority_mask 0 s1)) (\<lambda>s2.
      res_bind (api_interrupt_inject_locked t (gicv3_get_pending_interrupt_id s) p False s2) (\<lambda>(ret, _, s3).
      if ret = 1 then Inl Panic
      else if p = t then Inr (None, vcpu_unlock t (upd_vcpu p (\<lambda>P. P\<lparr>vcpu_state := VCPU_STATE_RUNNING\<rparr>) s3))
      else res_bind (signal_target t (gicv3_get_pending_interrupt_id s) s3) (\<lambda>(next, s4). Inr (next, vcpu_unlock t s4)))) = Inr (n, s')"
    using assms unfolding delegate_interrupt_def Let_def res_bind_eq_Inr by blast
  let ?s1 = "plat_interrupts_set_priority_mask 0 s1"
  obtain s2 ret m s3 where s3: "vcpu_lock t ?s1 = Inr s2"
    "api_interrupt_inject_locked t (gicv3_get_pending_interrupt_id s) p False s2 = Inr (ret, m, s3)"
    using r by (auto simp: res_bind_eq_Inr)
  have "\<exists>s4. view s4 = view s3 \<and> s' = vcpu_unlock t s4"
  proof (cases "p = t")
    case True
    then show ?thesis
      using r s3 by (intro exI [of _ "upd_vcpu p (\<lambda>P. P\<lparr>vcpu_state := VCPU_STATE_RUNNING\<rparr>) s3"]) (auto split: if_splits)
  next
    case False
    then obtain s4 where "signal_target t (gicv3_get_pending_interrupt_id s) s3 = Inr (n, s4)" "s' = vcpu_unlock t s4"
      using r s3 by (auto simp: res_bind_eq_Inr split: if_splits)
    then show ?thesis using signal_target_view by blast
  qed
  moreover have "view ?s1 = view s" using set_vcpu_state_view [OF t] by (simp add: plat_interrupts_set_priority_mask_def)
  ultimately show ?thesis using that s3 by blast
qed

lemma sync_lower_exception_view:
  assumes "GET_ESR_EC esr \<noteq> EC_HVC" "sync_lower_exception D esr far p s = Inr (n, s')"
  shows "view s' = view s"
proof -
  note d = sync_lower_exception_def Let_def res_bind_eq_Inr
  consider "GET_ESR_EC esr = EC_WFI_WFE" | "GET_ESR_EC esr = EC_SMC" "GET_ESR_EC esr \<noteq> EC_WFI_WFE"
    | "GET_ESR_EC esr \<noteq> EC_SMC" "GET_ESR_EC esr \<noteq> EC_WFI_WFE" by blast
  then show ?thesis
  proof cases
    case 1
    then show ?thesis using assms by (cases "esr AND 1 = 0") (auto simp: d dest!: api_calls_view)
  next
    case 2
    then show ?thesis using assms by (auto simp: d dest!: framed split: if_splits)
  next
    case 3
    then show ?thesis
      using assms by (auto simp: d intro: sync_data_abort_view sync_instruction_abort_view inject_view(3) split: if_splits)
  qed
qed

definition exc_inv :: "(vcpu_ptr \<Rightarrow> interrupts \<Rightarrow> bool) \<Rightarrow> hyp \<Rightarrow> bool" where
  "exc_inv Q s \<longleftrightarrow> all_interrupts Q s \<and> locks {} s"

lemma exc_inv_keeps: "keeps Q {} s s' \<Longrightarrow> exc_inv Q s \<Longrightarrow> exc_inv Q s'"
  by (simp add: keeps_def exc_inv_def)

section \<open>Steps\<close>

inductive exc_step :: "platform \<Rightarrow> hyp \<Rightarrow> hyp \<Rightarrow> bool" for D where
  sync: "sync_lower_exception D esr far p s = Inr (n, s') \<Longrightarrow> exc_step D s s'"
| sysreg: "handle_system_register_access esr p s = Inr s' \<Longrightarrow> exc_step D s s'"
| irq: "irq_lower p s = Inr (n, s') \<Longrightarrow> exc_step D s s'"
| fiq: "fiq_lower p s = Inr (n, s') \<Longrightarrow> exc_step D s s'"
| saving: "complete_saving_state p s = Inr s' \<Longrightarrow> exc_step D s s'"
| restoring: "begin_restoring_state p s = Inr s' \<Longrightarrow> exc_step D s s'"
| tlb: "maybe_invalidate_tlb p s = Inr (inv', s') \<Longrightarrow> exc_step D s s'"
| guest: "exc_step D s (upd_regs p (\<lambda>_. r) (s\<lparr>msr := m, bytes := b\<rparr>))"

inductive_cases exc_stepE: "exc_step D s s'"

locale exception_invariant = interrupt_invariant +
  assumes Q_length: "Q p I \<Longrightarrow> length (interrupt_enabled I) = 2"
begin

lemma delegate_keeps:
  assumes "delegate_interrupt p s = Inr (n, s')" "all_interrupts Q s"
  shows "keeps Q {} s s' \<and> conf s' = conf s"
proof -
  obtain t s1 s2 ret m s3 s4 where d: "view s1 = view s" "vcpu_lock t s1 = Inr s2"
    "api_interrupt_inject_locked t (gicv3_get_pending_interrupt_id s) p False s2 = Inr (ret, m, s3)"
    "view s4 = view s3" "s' = vcpu_unlock t s4"
    using assms(1) by (rule delegate_steps)
  let ?i = "gicv3_get_pending_interrupt_id s"
  have Q2: "all_interrupts Q s2"
    using assms(2) view_keeps [OF d(1), of Q "{}"] lock_interrupts [OF d(2)] by (simp add: keeps_def)
  obtain T where T: "the_vcpu t s2 = Inr T" "intid_index ?i < length (interrupt_enabled (vcpu_interrupts T))"
    using d(3) by (auto simp: api_interrupt_inject_locked_def res_bind_eq_Inr Let_def split: if_splits)
  have "unat ?i < 64"
    using T Q_length [of t "vcpu_interrupts T"] Q2 unfolding all_interrupts_def intid_simps by fastforce
  then have "keeps Q {t} s2 s3"
    using interrupt_contract.inject_locked_keeps [OF contract d(3), of "{t}"] by simp
  then have "keeps Q {} s1 s'"
    unfolding d(5) using keeps_locked [OF d(2)] keeps_trans view_keeps [OF d(4)] by blast
  moreover have "conf s' = conf s"
    using d inject_locked_conf [OF d(3)] view_conf [OF d(4)] view_conf [OF d(1)] by simp
  ultimately show ?thesis using view_keeps [OF d(1), of Q "{}"] keeps_trans by blast
qed

lemma irq_lower_keeps:
  assumes "irq_lower p s = Inr (n, s')" "all_interrupts Q s"
  shows "keeps Q {} s s' \<and> conf s' = conf s"
proof -
  obtain s1 where s1: "delegate_interrupt p s = Inr (n, s1)" "vcpu_update_virtual_interrupts p n s1 = Inr s'"
    using assms(1) by (auto simp: irq_lower_def res_bind_eq_Inr)
  have v: "view s' = view s1" using vcpu_update_virtual_interrupts_view [OF s1(2)] .
  show ?thesis
    using delegate_keeps [OF s1(1) assms(2)] keeps_trans [OF _ view_keeps [OF v]] view_conf [OF v] by auto
qed

lemma hvc_call_keeps:
  assumes "hvc_call args p s = Inr (r, n, s')"
  shows "keeps Q {} s s' \<and> conf s' = conf s"
  using assms
  by (auto simp: hvc_call_def res_bind_eq_Inr intro: api_step_keeps api_step.intros enable_conf get_conf inject_conf split: if_splits)

lemma hvc_handler_keeps:
  assumes "hvc_handler fw p s = Inr (n, s')"
  shows "keeps Q {} s s' \<and> conf s' = conf s"
proof -
  obtain P where P: "the_vcpu p s = Inr P" using assms by (auto simp: hvc_handler_def res_bind_eq_Inr)
  define args where "args = arch_regs_get_args (vcpu_regs P)"
  obtain h m s1 where s1: "hvc_smc_handler fw args p s = Inr (h, m, s1)"
    using assms by (auto simp: hvc_handler_def P args_def Let_def res_bind_eq_Inr)
  have s2: "h \<and> s' = s1 \<or> (\<exists>r m' s2 n'. hvc_call args p s1 = Inr (r, m', s2) \<and> vcpu_update_virtual_interrupts p n' (set_r0 p r s2) = Inr s')"
    using assms by (auto simp: hvc_handler_def P s1 args_def [symmetric] Let_def res_bind_eq_Inr split: if_splits)
  have a: "view s1 = view s" using hvc_smc_handler_view [OF s1] .
  show ?thesis
    using s2
  proof (elim disjE exE conjE)
    fix r m' s2 n'
    assume c: "hvc_call args p s1 = Inr (r, m', s2)" "vcpu_update_virtual_interrupts p n' (set_r0 p r s2) = Inr s'"
    have b: "view s' = view s2" using vcpu_update_virtual_interrupts_view [OF c(2)] by simp
    have "keeps Q {} s s2" using keeps_trans [OF view_keeps [OF a]] hvc_call_keeps [OF c(1)] by blast
    then show ?thesis
      using keeps_trans [OF _ view_keeps [OF b]] hvc_call_keeps [OF c(1)] view_conf [OF a] view_conf [OF b] by simp
  qed (simp add: view_keeps [OF a] view_conf [OF a])
qed

lemma sync_keeps:
  assumes "sync_lower_exception D esr far p s = Inr (n, s')"
  shows "keeps Q {} s s' \<and> conf s' = conf s"
proof (cases "GET_ESR_EC esr = EC_HVC")
  case True
  then have "hvc_handler (plat_fw D) p s = Inr (n, s')"
    using assms
    by (simp add: sync_lower_exception_def EC_HVC_def EC_WFI_WFE_def EC_DATA_ABORT_LOWER_EL_def EC_INSTRUCTION_ABORT_LOWER_EL_def)
  then show ?thesis by (rule hvc_handler_keeps)
next
  case False
  then have "view s' = view s" using assms by (rule sync_lower_exception_view)
  then show ?thesis using view_keeps view_conf by blast
qed

lemma exc_step_keeps: "exc_step D s s' \<Longrightarrow> exc_inv Q s \<Longrightarrow> exc_inv Q s' \<and> conf s' = conf s"
proof (induction rule: exc_step.induct)
  case (guest s p r b m)
  have "view (upd_regs p (\<lambda>_. r) (s\<lparr>msr := m, bytes := b\<rparr>)) = view s" by simp
  then show ?case using guest exc_inv_keeps [OF view_keeps] view_conf by blast
next
  case (sync esr far p s n s')
  then show ?case using sync_keeps exc_inv_keeps by blast
next
  case (irq p s n s')
  then show ?case using irq_lower_keeps [of p s n s'] exc_inv_keeps [of Q s s'] by (simp add: exc_inv_def)
next
  case (fiq p s n s')
  then show ?case using irq_lower_keeps [of p s n s'] exc_inv_keeps [of Q s s'] by (simp add: exc_inv_def fiq_lower_def)
qed (metis framed view_keeps exc_inv_keeps view_conf)+

lemma exc_steps_keep: "(exc_step D)\<^sup>*\<^sup>* s s' \<Longrightarrow> exc_inv Q s \<Longrightarrow> exc_inv Q s' \<and> conf s' = conf s"
  by (induction rule: rtranclp_induct) (auto dest: exc_step_keeps)

end

interpretation exc_counted: exception_invariant "\<lambda>_. counts_ok"
  by unfold_locales (simp add: counts_ok_def fields_ok_def)

end
