(* ===== verification/Boot_Order.thy ===== *)
theory Boot_Order
  imports Vm
begin

text \<open>
  The order of booting: \<^verbatim>\<open>vm_update_boot\<close> keeps the VMs in a list that starts at \<^verbatim>\<open>first_boot_vm\<close> and is linked by
  \<^verbatim>\<open>next_boot\<close>. \<open>boot_path\<close> says which VMs are on it, and the call is insertion behind the VMs of the same or a higher order.
\<close>

primrec boot_seg :: "nat option \<Rightarrow> nat list \<Rightarrow> nat option \<Rightarrow> hyp \<Rightarrow> bool" where
  "boot_seg c [] e s \<longleftrightarrow> c = e"
| "boot_seg c (x # xs) e s \<longleftrightarrow> c = Some x \<and> x < length (vms s) \<and> boot_seg (next_boot (vms s ! x)) xs e s"

definition boot_path :: "nat list \<Rightarrow> hyp \<Rightarrow> bool" where
  "boot_path xs s \<longleftrightarrow> boot_seg (first_boot_vm s) xs None s"

abbreviation order_of :: "hyp \<Rightarrow> nat \<Rightarrow> u16" where
  "order_of s v \<equiv> boot_order (vms s ! v)"

abbreviation before :: "hyp \<Rightarrow> u16 \<Rightarrow> nat list \<Rightarrow> nat list" where
  "before s b xs \<equiv> takeWhile (\<lambda>x. b \<le> order_of s x) xs"

abbreviation behind :: "hyp \<Rightarrow> u16 \<Rightarrow> nat list \<Rightarrow> nat list" where
  "behind s b xs \<equiv> dropWhile (\<lambda>x. b \<le> order_of s x) xs"

definition last_opt :: "'a option \<Rightarrow> 'a list \<Rightarrow> 'a option" where
  "last_opt p xs = (if xs = [] then p else Some (last xs))"

definition head_opt :: "'a list \<Rightarrow> 'a option" where
  "head_opt xs = (case xs of [] \<Rightarrow> None | x # _ \<Rightarrow> Some x)"

lemma head_opt_simps [simp]: "head_opt [] = None" "head_opt (x # xs) = Some x"
  by (simp_all add: head_opt_def)

lemma boot_seg_in: "boot_seg c xs e s \<Longrightarrow> set xs \<subseteq> {..<length (vms s)}"
  by (induction xs arbitrary: c) auto

lemma boot_seg_head: "boot_seg c xs None s \<Longrightarrow> c = head_opt xs"
  by (cases xs) auto

lemma boot_seg_length: "boot_seg c xs e s \<Longrightarrow> distinct xs \<Longrightarrow> length xs \<le> length (vms s)"
  using boot_seg_in [of c xs e s] card_mono [of "{..<length (vms s)}" "set xs"] by (simp add: distinct_card)

text \<open>The loop stops at the first VM of a lower order.\<close>

lemma boot_loop_spec:
  "boot_seg c xs None s \<Longrightarrow> length xs \<le> n \<Longrightarrow>
   boot_loop n b prev c s = Inr (last_opt prev (before s b xs), head_opt (behind s b xs))"
proof (induction xs arbitrary: n prev c)
  case (Cons x xs)
  then show ?case by (cases n) (auto simp: the_vm_def last_opt_def)
qed (simp add: last_opt_def)

text \<open>What happens to other VMs does not matter to a segment, and changing the last VM changes where it ends.\<close>

lemma boot_seg_cong:
  "boot_seg c xs e s \<Longrightarrow> length (vms s') = length (vms s) \<Longrightarrow> (\<And>x. x \<in> set xs \<Longrightarrow> next_boot (vms s' ! x) = next_boot (vms s ! x)) \<Longrightarrow>
   boot_seg c xs e s'"
  by (induction xs arbitrary: c) auto

lemma boot_seg_append: "boot_seg c (xs @ ys) e s \<longleftrightarrow> (\<exists>d. boot_seg c xs d s \<and> boot_seg d ys e s)"
  by (induction xs arbitrary: c) auto

lemma boot_seg_relink:
  "boot_seg c xs d s \<Longrightarrow> xs \<noteq> [] \<Longrightarrow> distinct xs \<Longrightarrow> length (vms s') = length (vms s) \<Longrightarrow>
   (\<And>x. x \<in> set xs \<Longrightarrow> next_boot (vms s' ! x) = (if x = last xs then e else next_boot (vms s ! x))) \<Longrightarrow> boot_seg c xs e s'"
proof (induction xs arbitrary: c)
  case (Cons x xs)
  show ?case
  proof (cases "xs = []")
    case False
    then have "last xs \<noteq> x" using Cons.prems(3) last_in_set by auto
    then show ?thesis using Cons False by auto
  qed (use Cons.prems in auto)
qed simp

lemma next_boot_upd:
  "v < length (vms s) \<Longrightarrow> next_boot (vms (upd_vm v (\<lambda>V. V\<lparr>next_boot := e\<rparr>) s) ! x) = (if x = v then e else next_boot (vms s ! x))"
  by (simp add: upd_vm_def nth_list_update)

lemma upd_vm_simps [simp]: "length (vms (upd_vm v f s)) = length (vms s)" "first_boot_vm (upd_vm v f s) = first_boot_vm s"
  by (simp_all add: upd_vm_def)

lemma boot_order_upd [simp]: "boot_order (vms (upd_vm v (\<lambda>V. V\<lparr>next_boot := e\<rparr>) s) ! x) = boot_order (vms s ! x)"
  by (cases "v < length (vms s)") (auto simp: upd_vm_def nth_list_update list_update_beyond)

lemma vm_update_boot_inserts:
  assumes "boot_path xs s" "distinct xs" "v \<notin> set xs" "v < length (vms s)" "next_boot (vms s ! v) = None"
  shows "\<exists>s'. vm_update_boot v s = Inr s' \<and>
    boot_path (before s (order_of s v) xs @ v # behind s (order_of s v) xs) s' \<and>
    (\<forall>x. boot_order (vms s' ! x) = boot_order (vms s ! x)) \<and> length (vms s') = length (vms s)"
proof (cases "first_boot_vm s")
  case None
  then have "xs = []" using boot_seg_head [of _ xs] assms(1) by (cases xs) (auto simp: boot_path_def)
  then show ?thesis using None assms(4,5) by (simp add: vm_update_boot_def boot_path_def)
next
  case (Some f)
  let ?b = "order_of s v"
  let ?xs = "before s ?b xs" and ?ys = "behind s ?b xs"
  have seg: "boot_seg (first_boot_vm s) xs None s" using assms(1) by (simp add: boot_path_def)
  then obtain d where d: "boot_seg (first_boot_vm s) ?xs d s" "boot_seg d ?ys None s"
    using boot_seg_append [of "first_boot_vm s" ?xs ?ys] by auto
  have dy: "d = head_opt ?ys" using boot_seg_head [OF d(2)] .
  have loop: "boot_loop (length (vms s)) ?b None (Some f) s = Inr (last_opt None ?xs, head_opt ?ys)"
    using boot_loop_spec [OF seg boot_seg_length [OF seg assms(2)]] by (simp add: Some)
  have mem: "x \<noteq> v" if "x \<in> set ?xs \<or> x \<in> set ?ys" for x
    using that assms(3) set_takeWhileD set_dropWhileD by metis
  show ?thesis
  proof (cases "?xs = []")
    case True
    let ?s = "upd_vm v (\<lambda>V. V\<lparr>next_boot := head_opt ?ys\<rparr>) (s\<lparr>first_boot_vm := Some v\<rparr>)"
    have "boot_seg d ?ys None ?s" by (rule boot_seg_cong [OF d(2)]) (use mem assms(4) in \<open>auto simp: next_boot_upd\<close>)
    then have "boot_path (v # ?ys) ?s" using assms(4) dy by (simp add: boot_path_def next_boot_upd)
    then show ?thesis using True assms(4) by (simp add: vm_update_boot_def Some the_vm_def loop last_opt_def del: boot_loop.simps)
  next
    case False
    let ?l = "last ?xs"
    let ?s = "upd_vm v (\<lambda>V. V\<lparr>next_boot := head_opt ?ys\<rparr>) (upd_vm ?l (\<lambda>V. V\<lparr>next_boot := Some v\<rparr>) s)"
    have l: "?l \<in> set ?xs" "?l < length (vms s)" using False boot_seg_in [OF d(1)] by (auto simp: subset_iff)
    have disj: "x \<noteq> ?l" if "x \<in> set ?ys" for x
      using that l(1) assms(2) takeWhile_dropWhile_id [of "\<lambda>x. ?b \<le> order_of s x" xs] distinct_append by (metis IntI empty_iff)
    have "boot_seg d ?ys None ?s"
      by (rule boot_seg_cong [OF d(2)]) (use mem disj l(2) assms(4) in \<open>auto simp: next_boot_upd\<close>)
    moreover have "boot_seg (first_boot_vm s) ?xs (Some v) ?s"
      by (rule boot_seg_relink [OF d(1) False]) (use mem l assms in \<open>auto simp: next_boot_upd\<close>)
    ultimately have "boot_path (?xs @ v # ?ys) ?s"
      using assms(4) dy by (simp add: boot_path_def boot_seg_append next_boot_upd) 
    then show ?thesis using False assms(4) by (simp add: vm_update_boot_def Some the_vm_def loop last_opt_def del: boot_loop.simps)
  qed
qed

end
