(* ===== verification/Vm_Table.thy ===== *)
theory Vm_Table
  imports Api_Interrupts Mm_Frame
begin

text \<open>
  The table of VMs, \<^verbatim>\<open>src/vm.c\<close>: its type, \<open>hyp_wf\<close>, says that the VMs in use have the ids of their places, as many virtual CPUs
  as the arrays hold, and virtual CPUs that point back to their VM. Creating a VM keeps it, whether it succeeds or not.
\<close>

unbundle bit_operations_syntax

section \<open>Allocating tables\<close>

lemma res_of_option_eq_Inr: "res_of_option r = Inr y \<longleftrightarrow> r = Some (Inr y)"
  by (cases r) auto

lemma write_link_more [simp]: "machine.more (write_link l v s) = machine.more s"
  by (cases l) simp_all

lemma contiguous_take_more [simp]: "machine.more (contiguous_take esz chunk start new prev s) = machine.more s"
  by (simp add: contiguous_take_def Let_def)

lemma contiguous_loop_more:
  "contiguous_loop esz cnt align prev s = Some r \<Longrightarrow> \<forall>x s'. r = Inr (x, s') \<longrightarrow> machine.more s' = machine.more s"
  by (erule contiguous_loop.raw_induct [rotated]) (auto simp: Let_def split: if_splits)

lemma mpool_alloc_contiguous_no_fallback_more:
  "mpool_alloc_contiguous_no_fallback p cnt align s = Inr (x, s') \<Longrightarrow> machine.more s' = machine.more s"
  by (auto simp: mpool_alloc_contiguous_no_fallback_def Let_def res_bind_eq_Inr res_of_option_eq_Inr
      dest!: mpool_lock_more contiguous_loop_more)

lemma mpool_alloc_contiguous_loop_more:
  "mpool_alloc_contiguous_loop p cnt align s = Some r \<Longrightarrow> \<forall>x s'. r = Inr (x, s') \<longrightarrow> machine.more s' = machine.more s"
proof (erule mpool_alloc_contiguous_loop.raw_induct [rotated], intro allI impI)
  fix f p cnt align s r x s'
  assume ih: "\<And>p cnt align s r. f p cnt align s = Some r \<Longrightarrow> \<forall>x s'. r = Inr (x, s') \<longrightarrow> machine.more s' = machine.more s"
    and r: "r = Inr (x, s')"
    and body: "(case mpool_alloc_contiguous_no_fallback p cnt align s of Inl e \<Rightarrow> Some (Inl e)
      | Inr (ret, s1) \<Rightarrow> if ret \<noteq> 0 then Some (Inr (ret, s1))
          else (case fallback (pools s1 p) of None \<Rightarrow> Some (Inr (0, s1)) | Some q \<Rightarrow> f q cnt align s1)) = Some r"
  show "machine.more s' = machine.more s"
    using body r by (auto split: sum.splits prod.splits option.splits if_splits dest!: ih mpool_alloc_contiguous_no_fallback_more)
qed

lemma mm_alloc_page_tables_rest:
  assumes "mm_alloc_page_tables cnt ppool s = Inr (x, s')"
  shows "machine.more s' = machine.more s"
  using assms
  by (auto simp: mm_alloc_page_tables_def mpool_alloc_contiguous_def res_of_option_eq_Inr
      dest: mpool_alloc_more mpool_alloc_contiguous_loop_more split: if_splits)

lemma mm_vm_init_rest: "mm_vm_init ppool s = Inr (root, s') \<Longrightarrow> rest s' = rest s"
  by (auto simp: mm_vm_init_def mm_ptable_init_def res_bind_eq_Inr dest!: mm_alloc_page_tables_rest split: if_splits intro!: rest_cong)

section \<open>The type of the table\<close>

definition vcpu_wf :: "vcpu \<Rightarrow> bool" where
  "vcpu_wf C \<longleftrightarrow> length (regs_r (vcpu_regs C)) = NUM_GP_REGS \<and> fields_ok (vcpu_interrupts C)"

definition vm_wf :: "nat \<Rightarrow> nat \<Rightarrow> vm \<Rightarrow> bool" where
  "vm_wf c v V \<longleftrightarrow>
     vm_id V = word_of_nat v + PG_VM_ID_OFFSET \<and> unat (vcpu_count V) \<le> c \<and> length (vcpus V) = c \<and> length (vm_cpus V) = c \<and>
     length (last_vcpu_on_cpu (vm_arch V)) = c \<and> list_all vcpu_wf (vcpus V) \<and>
     list_all (\<lambda>C. vcpu_vm C = Some v) (take (unat (vcpu_count V)) (vcpus V))"

definition hyp_wf :: "hyp \<Rightarrow> bool" where
  "hyp_wf s \<longleftrightarrow>
     length (vms s) < 2 ^ 16 \<and> unat (vm_count s) \<le> length (vms s) \<and>
     list_all (\<lambda>v. vm_wf (length (cpus s)) v (vms s ! v)) [0..<unat (vm_count s)]"

text \<open>Only the VM \<open>v\<close> and the flags of CPUs differ.\<close>

definition only_vm :: "nat \<Rightarrow> hyp \<Rightarrow> hyp \<Rightarrow> bool" where
  "only_vm v s s' \<longleftrightarrow>
     vm_count s' = vm_count s \<and> length (vms s') = length (vms s) \<and> map cpu_id (cpus s') = map cpu_id (cpus s) \<and>
     (\<forall>w. w \<noteq> v \<longrightarrow> vms s' ! w = vms s ! w)"

lemma only_vm_trans: "only_vm v s t \<Longrightarrow> only_vm v t u \<Longrightarrow> only_vm v s u"
  by (simp add: only_vm_def)

lemma only_vm_upd [simp]: "only_vm v s (upd_vm v f s)" "only_vm v s (upd_vm v f (s\<lparr>cpus := (cpus s)[c := C]\<rparr>)) \<longleftrightarrow> map cpu_id ((cpus s)[c := C]) = map cpu_id (cpus s)"
  by (auto simp: only_vm_def upd_vm_def)

lemma only_vm_rest: "rest s' = rest s \<Longrightarrow> only_vm v s s'"
  by (cases s; cases s') (simp add: only_vm_def)

lemma rest_vms: "rest s' = rest s \<Longrightarrow> vms s' = vms (s :: hyp)"
  by (cases s; cases s') simp

lemma only_vm_cpus: "only_vm v s s' \<Longrightarrow> length (cpus s') = length (cpus s)"
  by (metis length_map only_vm_def)

section \<open>Creating a VM\<close>

abbreviation new_vcpu :: "nat \<Rightarrow> vcpu" where
  "new_vcpu v \<equiv> zero_vcpu\<lparr>vcpu_held := False, regs_available := True, vcpu_vm := Some v, vcpu_state := VCPU_STATE_OFF\<rparr>"

lemma fold_res_snoc: "fold_res f (xs @ [x]) s = res_bind (fold_res f xs s) (f x)"
proof (induction xs arbitrary: s)
  case (Cons a xs)
  then show ?case by (cases "f a s") auto
next
  case Nil
  show ?case by (cases "f x s") auto
qed

lemma upd_vm_twice: "v < length (vms s) \<Longrightarrow> upd_vm v g (upd_vm v f s) = upd_vm v (\<lambda>V. g (f V)) s"
  by (simp add: upd_vm_def)

lemma upd_vm_at [simp]: "v < length (vms s) \<Longrightarrow> vms (upd_vm v f s) ! v = f (vms s ! v)" "length (vms (upd_vm v f s)) = length (vms s)"
  "cpus (upd_vm v f s) = cpus s"
  by (simp_all add: upd_vm_def)

lemma init_vcpus:
  assumes "v < length (vms s)" "n \<le> length (vcpus (vms s ! v))" "n < 2 ^ 16" "fold_res (vm_init_vcpu v) [0..<n] s = Inr s'"
  shows "s' = upd_vm v (\<lambda>V. V\<lparr>vcpus := replicate n (new_vcpu v) @ drop n (vcpus V)\<rparr>) s"
  using assms(2-4)
proof (induction n arbitrary: s')
  case 0
  then show ?case using assms(1) by (cases s) (simp add: upd_vm_def list_update_same_conv)
next
  case (Suc n)
  obtain t where t: "fold_res (vm_init_vcpu v) [0..<n] s = Inr t" "vm_init_vcpu v n t = Inr s'"
    using Suc.prems(3) by (auto simp: fold_res_snoc res_bind_eq_Inr)
  have t': "t = upd_vm v (\<lambda>V. V\<lparr>vcpus := replicate n (new_vcpu v) @ drop n (vcpus V)\<rparr>) s" using Suc t(1) by simp
  have "unat (word_of_nat n :: u16) = n" using Suc.prems(2) by (simp add: unat_of_nat)
  then have "s' = upd_vcpu (v, n) (\<lambda>_. new_vcpu v) t"
    using t(2) by (auto simp: vm_init_vcpu_def vm_get_vcpu_def vcpu_init_def CHECK_def res_bind_eq_Inr split: if_splits)
  moreover have "(replicate n C @ drop n xs)[n := C] = replicate (Suc n) C @ drop (Suc n) xs" if "Suc n \<le> length xs" for C and xs :: "vcpu list"
    using that by (simp add: list_update_append replicate_append_same [symmetric] Cons_nth_drop_Suc [symmetric])
  ultimately show ?case
    using Suc.prems(1) assms(1) by (simp add: t' upd_vcpu.simps upd_vm_twice) (simp add: upd_vm_def)
qed

lemma assign_cpus:
  assumes "vm_assign_cpus v ids is s = Inr (ok, s')" "v < length (vms s)"
  shows "only_vm v s s' \<and> (\<exists>xs. vms s' ! v = (vms s ! v)\<lparr>vm_cpus := xs\<rparr> \<and> length xs = length (vm_cpus (vms s ! v)) \<and>
    (ok \<longrightarrow> (\<forall>i < length xs. xs ! i = (if i \<in> set is then ucast (ids ! i) else vm_cpus (vms s ! v) ! i))))"
  using assms
proof (induction "is" arbitrary: s)
  case Nil
  then show ?case by (auto simp: only_vm_def intro!: exI [of _ "vm_cpus (vms s ! v)"])
next
  case (Cons i "is")
  show ?case
  proof (cases "cpu_find (ucast (ids ! i)) s")
    case None
    then show ?thesis using Cons.prems by (auto simp: only_vm_def intro!: exI [of _ "vm_cpus (vms s ! v)"] split: if_splits)
  next
    case (Some c)
    let ?s = "upd_cpu c (\<lambda>C. C\<lparr>is_assigned := True\<rparr>) (upd_vm v (\<lambda>V. V\<lparr>vm_cpus := (vm_cpus V)[i := cpu_id (cpus s ! c)]\<rparr>) s)"
    have r: "vm_assign_cpus v ids is ?s = Inr (ok, s')" using Cons.prems(1) Some by (auto split: if_splits)
    have c: "cpu_id (cpus s ! c) = ucast (ids ! i)" using Some by (auto simp: cpu_find_def find_Some_iff)
    have "map cpu_id ((cpus s)[c := (cpus s ! c)\<lparr>is_assigned := True\<rparr>]) = map cpu_id (cpus s)"
      by (cases "c < length (cpus s)") (simp_all add: map_update list_update_same_conv list_update_beyond)
    then have "only_vm v s ?s" by (simp add: only_vm_def upd_cpu_def upd_vm_def)
    moreover obtain xs where xs: "only_vm v ?s s'" "vms s' ! v = (vms ?s ! v)\<lparr>vm_cpus := xs\<rparr>"
      "length xs = length (vm_cpus (vms ?s ! v))"
      "ok \<longrightarrow> (\<forall>k < length xs. xs ! k = (if k \<in> set is then ucast (ids ! k) else vm_cpus (vms ?s ! v) ! k))"
      using Cons.IH [OF r] Cons.prems(2) by (auto simp: upd_cpu_def)
    moreover have v: "vms ?s ! v = (vms s ! v)\<lparr>vm_cpus := (vm_cpus (vms s ! v))[i := ucast (ids ! i)]\<rparr>"
      using Cons.prems(2) c by (simp add: upd_cpu_def)
    ultimately have "only_vm v s s'" "vms s' ! v = (vms s ! v)\<lparr>vm_cpus := xs\<rparr>" "length xs = length (vm_cpus (vms s ! v))"
      "ok \<longrightarrow> (\<forall>k < length xs. xs ! k = (if k \<in> set (i # is) then ucast (ids ! k) else vm_cpus (vms s ! v) ! k))"
      using only_vm_trans [of v s ?s s'] by (simp_all add: nth_list_update)
    then show ?thesis by blast
  qed
qed

text \<open>What a new VM looks like.\<close>

definition vm_created :: "u16 \<Rightarrow> u32 list \<Rightarrow> nat \<Rightarrow> vm \<Rightarrow> bool" where
  "vm_created vcpu_cnt ids v V \<longleftrightarrow>
     vcpu_count V = vcpu_cnt \<and> list_all (\<lambda>C. vcpu_state C = VCPU_STATE_OFF \<and> \<not> vcpu_held C) (vcpus V) \<and>
     list_all (\<lambda>i. vm_cpus V ! i = ucast (ids ! i)) [0..<unat vcpu_cnt] \<and> next_boot V = None"

lemma zero_wf: "vcpu_wf zero_vcpu" "vcpu_wf (new_vcpu v)"
  by (simp_all add: vcpu_wf_def zero_vcpu_def zero_regs_def zero_interrupts_def fields_ok_def NUM_GP_REGS_def)

lemma vm_init_steps:
  assumes "vm_init vmid vcpu_cnt pcpu_cnt ids ppool s = Inr (r, s')"
  defines "v \<equiv> unat (vmid - PG_VM_ID_OFFSET)"
  defines "s1 \<equiv> upd_vm v (\<lambda>_. (zero_vm (length (cpus s)) (length (vms s)))\<lparr>vm_id := vmid, vcpu_count := vcpu_cnt\<rparr>) s"
  obtains "r = None" "s' = s"
  | s2 where "v < length (vms s)" "mm_vm_init ppool s1 = Inr (None, s2)" "r = None" "s' = s2"
  | s2 t s3 ok where "v < length (vms s)" "unat vcpu_cnt \<le> length (cpus s)" "mm_vm_init ppool s1 = Inr (Some t, s2)"
      "fold_res (vm_init_vcpu v) [0..<unat vcpu_cnt] (vm_init_waiters v (upd_vm v (\<lambda>V. V\<lparr>vm_ptable := t\<rparr>) s2)) = Inr s3"
      "vm_assign_cpus v ids [0..<unat vcpu_cnt] s3 = Inr (ok, s')" "r = (if ok then Some v else None)"
  using assms(1)
  unfolding vm_init_def Let_def v_def [symmetric] s1_def [symmetric]
  by (fastforce simp: res_bind_eq_Inr the_vm_def split: if_splits option.splits)

lemma vm_init_spec:
  assumes "vm_init vmid vcpu_cnt pcpu_cnt ids ppool s = Inr (r, s')"
  defines "v \<equiv> unat (vmid - PG_VM_ID_OFFSET)"
  shows "only_vm v s s' \<and>
    (r \<noteq> None \<longrightarrow> r = Some v \<and> v < length (vms s) \<and> vm_wf (length (cpus s)) v (vms s' ! v) \<and> vm_created vcpu_cnt ids v (vms s' ! v))"
  using assms(1)
proof (cases rule: vm_init_steps)
  case 1
  then show ?thesis by (simp add: only_vm_def)
next
  case (2 s2)
  then show ?thesis using only_vm_trans [OF only_vm_upd(1) only_vm_rest [OF mm_vm_init_rest]] by (auto simp: v_def)
next
  case (3 s2 t s3 ok)
  define Z where "Z = (zero_vm (length (cpus s)) (length (vms s)))\<lparr>vm_id := vmid, vcpu_count := vcpu_cnt\<rparr>"
  let ?s1 = "upd_vm v (\<lambda>_. Z) s"
  note r = mm_vm_init_rest [OF 3(3) [folded v_def, folded Z_def]]
  have o2: "only_vm v s s2" using only_vm_trans [OF only_vm_upd(1) only_vm_rest [OF r]] .
  have v2: "v < length (vms s2)" "vms s2 ! v = Z" "length (cpus s2) = length (cpus s)"
    using 3(1) o2 only_vm_cpus [OF o2] rest_vms [OF r] by (simp_all add: only_vm_def v_def)
  let ?s2 = "vm_init_waiters v (upd_vm v (\<lambda>V. V\<lparr>vm_ptable := t\<rparr>) s2)"
  have Z: "length (vcpus Z) = length (cpus s)" "list_all vcpu_wf (vcpus Z)" by (simp_all add: Z_def zero_vm_def list_all_iff zero_wf)
  obtain W where W: "vms ?s2 ! v = Z\<lparr>vm_ptable := t, wait_entries := W\<rparr>" using v2 by (simp add: vm_init_waiters_def)
  have s3: "s3 = upd_vm v (\<lambda>V. V\<lparr>vcpus := replicate (unat vcpu_cnt) (new_vcpu v) @ drop (unat vcpu_cnt) (vcpus V)\<rparr>) ?s2"
    by (rule init_vcpus) (use v2 3 W Z unsigned_less [of vcpu_cnt] in \<open>auto simp: vm_init_waiters_def v_def\<close>)
  have v3: "v < length (vms s3)" using v2 by (simp add: s3 vm_init_waiters_def)
  have o3: "only_vm v s s3"
    unfolding s3 vm_init_waiters_def by (intro only_vm_trans [OF _ only_vm_upd(1)] o2)
  obtain xs where xs: "only_vm v s3 s'" "vms s' ! v = (vms s3 ! v)\<lparr>vm_cpus := xs\<rparr>" "length xs = length (vm_cpus (vms s3 ! v))"
    "ok \<longrightarrow> (\<forall>i < length xs. xs ! i = (if i < unat vcpu_cnt then ucast (ids ! i) else vm_cpus (vms s3 ! v) ! i))"
    using assign_cpus [OF 3(5) [folded v_def] v3] by auto
  have V: "vms s' ! v = Z\<lparr>vm_ptable := t, wait_entries := W, vm_cpus := xs,
      vcpus := replicate (unat vcpu_cnt) (new_vcpu v) @ drop (unat vcpu_cnt) (vcpus Z)\<rparr>"
    using xs(2) v2 W by (simp add: s3 vm_init_waiters_def)
  have x: "length xs = length (cpus s)" using xs(3) v2 W by (simp add: s3 vm_init_waiters_def Z_def zero_vm_def)
  have "vm_wf (length (cpus s)) v (vms s' ! v)"
    unfolding V using 3(2) x Z zero_wf
    by (simp add: vm_wf_def list_all_iff v_def Z_def zero_vm_def zero_arch_vm_def) (auto simp: in_set_replicate)
  moreover have "vm_created vcpu_cnt ids v (vms s' ! v)" if ok
    unfolding V using that xs(4) x 3(2)
    by (auto simp: vm_created_def list_all_iff Z_def zero_vm_def zero_vcpu_def dest!: in_set_dropD)
  ultimately show ?thesis using only_vm_trans [OF o3 xs(1)] 3 by (auto simp: v_def)
qed

lemma vm_init_next_wf:
  assumes "hyp_wf s" "vm_init_next vcpu_cnt pcpu_cnt ids ppool s = Inr (ok, new, s')"
  shows "hyp_wf s' \<and> (\<forall>v < unat (vm_count s). vms s' ! v = vms s ! v) \<and>
    (if ok then vm_count s' = vm_count s + 1 \<and> new = Some (Some (unat (vm_count s))) \<and>
       vm_find (vm_count s + PG_VM_ID_OFFSET) s' = Some (unat (vm_count s)) \<and>
       vm_created vcpu_cnt ids (unat (vm_count s)) (vms s' ! unat (vm_count s))
     else vm_count s' = vm_count s)"
proof -
  let ?n = "unat (vm_count s)"
  have m: "unat (vm_count s + PG_VM_ID_OFFSET - PG_VM_ID_OFFSET) = ?n" by simp
  have wf: "length (vms s) < 2 ^ 16" "?n \<le> length (vms s)" "\<And>v. v < ?n \<Longrightarrow> vm_wf (length (cpus s)) v (vms s ! v)"
    using assms(1) by (simp_all add: hyp_wf_def list_all_iff)
  show ?thesis
  proof (cases "?n \<ge> length (vms s) \<or> vcpu_cnt > pcpu_cnt")
    case True
    then show ?thesis using assms by (auto simp: vm_init_next_def split: if_splits)
  next
    case False
    then obtain r s1 where r: "vm_init (vm_count s + PG_VM_ID_OFFSET) vcpu_cnt pcpu_cnt ids ppool s = Inr (r, s1)"
      "ok = (r \<noteq> None)" "new = Some r" "s' = (if r = None then s1 else s1\<lparr>vm_count := vm_count s1 + 1\<rparr>)"
      using assms(2) by (auto simp: vm_init_next_def res_bind_eq_Inr split: option.splits)
    have sp: "only_vm ?n s s1"
      "r \<noteq> None \<Longrightarrow> r = Some ?n \<and> vm_wf (length (cpus s)) ?n (vms s1 ! ?n) \<and> vm_created vcpu_cnt ids ?n (vms s1 ! ?n)"
      using vm_init_spec [OF r(1)] unfolding m by blast+
    have old: "vms s1 ! v = vms s ! v" if "v < ?n" for v using sp(1) that by (simp add: only_vm_def)
    have s1: "vm_count s1 = vm_count s" "length (vms s1) = length (vms s)" "length (cpus s1) = length (cpus s)"
      using sp(1) only_vm_cpus by (auto simp: only_vm_def)
    show ?thesis
    proof (cases "r = None")
      case True
      then show ?thesis using r wf old s1 by (simp add: hyp_wf_def list_all_iff)
    next
      case c: False
      have n: "unat (vm_count s + 1) = Suc ?n" using False wf(1) by (simp add: unat_word_ariths)
      have "hyp_wf s'" using c r wf old s1 sp(2) False by (auto simp: hyp_wf_def list_all_iff n less_Suc_eq)
      moreover have "vm_find (vm_count s + PG_VM_ID_OFFSET) s' = Some ?n"
        using c r s1 False n by (auto simp: vm_find_def vm_find_index_def PG_VM_ID_OFFSET_def word_less_nat_alt word_le_nat_alt)
      ultimately show ?thesis using c r old s1 sp(2) by simp
    qed
  qed
qed

end
