(* ===== verification/Uart_Refine.thy ===== *)
theory Uart_Refine
  imports Virt_Devs
begin

text \<open>
  The console \<^verbatim>\<open>sanct_uart\<close> refines a stream: the characters a VM writes are kept in the buffer of the device until a line
  ends or the buffer is full, and then appear on the console in order, behind a tag if a line begins.
\<close>

section \<open>Printing\<close>

lemma put_chars_out:
  "n \<le> length xs \<Longrightarrow> put_chars dlog_putchar n xs w = Inr (w\<lparr>dlog_out := dlog_out w @ take n xs\<rparr>)"
proof (induction n arbitrary: xs w)
  case (Suc n)
  then show ?case by (cases xs) (auto simp: dlog_putchar_def)
qed simp

lemma raw_string_out:
  "0 \<notin> set xs \<Longrightarrow> raw_string dlog_putchar (xs @ [0]) n w = Inr (n + length xs, w\<lparr>dlog_out := dlog_out w @ xs\<rparr>)"
proof (induction xs arbitrary: n w)
  case (Cons x xs)
  then show ?case by (auto simp: dlog_putchar_def)
qed simp

definition uart_tag :: "u8 \<Rightarrow> u8 list" where
  "uart_tag i = map of_char ''sanct-uart['' @ [0x30 + i] @ map of_char '']: ''"

lemma print_tag_out: "print_tag i w = Inr (w\<lparr>dlog_out := dlog_out w @ uart_tag i\<rparr>)"
proof -
  have "0 \<notin> set (map of_char ''sanct-uart['' :: u8 list)" "0 \<notin> set (map of_char '']: '' :: u8 list)"
    by (simp_all add: of_char_def)
  from raw_string_out [OF this(1), of 0] raw_string_out [OF this(2), of 0] show ?thesis
    by (simp add: print_tag_def stdout_puts_def dlog_putchar_def uart_tag_def del: list.map)
qed

section \<open>The stream\<close>

definition uart_ok :: "dev_inst \<Rightarrow> dlog_state \<Rightarrow> bool" where
  "uart_ok D w \<longleftrightarrow> length (tx_buff D) = TX_BUFF_SZ \<and> tx_head D < TX_BUFF_SZ \<and> \<not> dlog_sl w"

definition unprinted :: "dev_inst \<Rightarrow> u8 list" where
  "unprinted D = take (tx_head D) (tx_buff D)"

lemma unprinted_empty: "unprinted (D\<lparr>tx_buff := b, tx_head := 0\<rparr>) = []"
  by (simp add: unprinted_def)

text \<open>Pieces of text as they appear: a tag comes before a piece if the text before it ended a line.\<close>

primrec tagged :: "u8 \<Rightarrow> u8 \<Rightarrow> u8 list list \<Rightarrow> u8 list" where
  "tagged i lpc [] = []"
| "tagged i lpc (c # cs) = (if lpc = 0x0A then uart_tag i else []) @ c @ tagged i (last c) cs"

lemma tagged_append: "\<forall>c \<in> set xs. c \<noteq> [] \<Longrightarrow>
    tagged i lpc (xs @ ys) = tagged i lpc xs @ tagged i (if xs = [] then lpc else last (concat xs)) ys"
  by (induction xs arbitrary: lpc) auto

lemma flush_out:
  assumes "length (tx_buff D) = TX_BUFF_SZ" "0 < tx_head D" "tx_head D \<le> TX_BUFF_SZ" "\<not> dlog_sl w"
  shows "\<exists>w'. flush_tx_buff i D (lpc, w) = Inr (D\<lparr>tx_head := 0\<rparr>, last (unprinted D), w') \<and>
    dlog_out w' = dlog_out w @ tagged i lpc [unprinted D] \<and> \<not> dlog_sl w'"
proof -
  have "last (unprinted D) = tx_buff D ! (tx_head D - 1)" 
    using assms(1-3) unfolding unprinted_def by (subst last_conv_nth) auto
  moreover obtain w1 where "dlog_lock w = Inr w1" "dlog_out w1 = dlog_out w" "dlog_lock_enabled w1 = dlog_lock_enabled w"
    using assms(4) by (cases "dlog_lock_enabled w") (simp_all add: dlog_lock_def)
  ultimately show ?thesis
    using assms by (simp add: flush_tx_buff_def print_tag_out stdout_puts_def put_chars_out unprinted_def dlog_unlock_def)
      (auto simp: dlog_lock_def)
qed

text \<open>One character.\<close>

lemma dev_write_char:
  assumes "uart_ok D w"
  shows "\<exists>D' lpc' w' cs. dev_write (ucast x) UTX i D (lpc, w) = Inr (D', lpc', w') \<and> uart_ok D' w' \<and>
    unprinted D @ [x] = concat cs @ unprinted D' \<and> dlog_out w' = dlog_out w @ tagged i lpc cs \<and>
    lpc' = (if cs = [] then lpc else last (concat cs)) \<and> (\<forall>c \<in> set cs. c \<noteq> []) \<and> (x = 0x0A \<longrightarrow> unprinted D' = [])"
proof -
  have x: "ucast (ucast x :: u64) = x" by (rule bit_word_eqI) (simp add: bit_simps)
  let ?D = "D\<lparr>tx_buff := (tx_buff D)[tx_head D := x], tx_head := tx_head D + 1\<rparr>"
  have s: "tx_store TX_BUFF_SZ x D = Inr ?D" using assms by (simp add: tx_store_def uart_ok_def)
  have u: "unprinted ?D = unprinted D @ [x]" using assms by (simp add: unprinted_def uart_ok_def take_Suc_conv_app_nth)
  show ?thesis
  proof (cases "tx_head ?D = TX_BUFF_SZ \<or> x = 0x0A")
    case True
    obtain w' where w': "flush_tx_buff i ?D (lpc, w) = Inr (?D\<lparr>tx_head := 0\<rparr>, last (unprinted ?D), w')"
      "dlog_out w' = dlog_out w @ tagged i lpc [unprinted ?D]" "\<not> dlog_sl w'"
      using flush_out [of ?D w i lpc] assms by (auto simp: uart_ok_def)
    have "dev_write (ucast x) UTX i D (lpc, w) = Inr (?D\<lparr>tx_head := 0\<rparr>, x, w')"
      using True s u w'(1) by (simp add: dev_write_def Let_def x)
    then show ?thesis
      using w' u assms by (intro exI [of _ "?D\<lparr>tx_head := 0\<rparr>"] exI [of _ x] exI [of _ w'] exI [of _ "[unprinted ?D]"])
        (auto simp: uart_ok_def unprinted_empty TX_BUFF_SZ_def)
  next
    case False
    then have "dev_write (ucast x) UTX i D (lpc, w) = Inr (?D, lpc, w)" using s by (simp add: dev_write_def Let_def x)
    then show ?thesis
      using u assms False by (intro exI [of _ ?D] exI [of _ lpc] exI [of _ w] exI [of _ "[]"]) (auto simp: uart_ok_def)
  qed
qed

text \<open>Many characters.\<close>

primrec uart_write :: "u8 \<Rightarrow> u8 list \<Rightarrow> dev_inst \<Rightarrow> u8 \<times> dlog_state \<Rightarrow> (dev_inst \<times> u8 \<times> dlog_state) res" where
  "uart_write i [] D lw = Inr (D, lw)"
| "uart_write i (x # xs) D lw = res_bind (dev_write (ucast x) UTX i D lw) (\<lambda>(D1, lw1). uart_write i xs D1 lw1)"

lemma uart_write_stream:
  "uart_ok D w \<Longrightarrow> \<exists>D' lpc' w' cs. uart_write i xs D (lpc, w) = Inr (D', lpc', w') \<and> uart_ok D' w' \<and>
    unprinted D @ xs = concat cs @ unprinted D' \<and> dlog_out w' = dlog_out w @ tagged i lpc cs \<and>
    (\<forall>c \<in> set cs. c \<noteq> [])"
proof (induction xs arbitrary: D lpc w)
  case Nil
  then show ?case by (intro exI [of _ D] exI [of _ lpc] exI [of _ w] exI [of _ "[]"]) simp
next
  case (Cons x xs)
  obtain D1 l1 w1 c1 where 1: "dev_write (ucast x) UTX i D (lpc, w) = Inr (D1, l1, w1)" "uart_ok D1 w1"
    "unprinted D @ [x] = concat c1 @ unprinted D1" "dlog_out w1 = dlog_out w @ tagged i lpc c1"
    "l1 = (if c1 = [] then lpc else last (concat c1))" "\<forall>c \<in> set c1. c \<noteq> []"
    using dev_write_char [OF Cons.prems] by metis
  obtain D2 l2 w2 c2 where 2: "uart_write i xs D1 (l1, w1) = Inr (D2, l2, w2)" "uart_ok D2 w2"
    "unprinted D1 @ xs = concat c2 @ unprinted D2" "dlog_out w2 = dlog_out w1 @ tagged i l1 c2" "\<forall>c \<in> set c2. c \<noteq> []"
    using Cons.IH [OF 1(2)] by metis
  have "unprinted D @ x # xs = (unprinted D @ [x]) @ xs" by simp
  then have "unprinted D @ x # xs = concat (c1 @ c2) @ unprinted D2" using 1(3) 2(3) by simp
  then show ?case
    using 1 2 tagged_append [OF 1(6), of i lpc c2]
    by (intro exI [of _ D2] exI [of _ l2] exI [of _ w2] exI [of _ "c1 @ c2"]) auto
qed

end
