(* ===== verification/Vm_Contract.thy ===== *)
theory Vm_Contract
  imports Exc_State Boot_Order Vm_Table Uart_Refine
begin

text \<open>
  The properties of the VMs, their virtual CPUs and the handlers of exceptions. The instances use two VMs with one
  virtual CPU each, both on CPU 0; interrupt 5 of the second is enabled and pending, and it asks for its next
  interrupt.
\<close>

unbundle bit_operations_syntax

declare the_vcpu.simps [simp del] upd_vcpu.simps [simp del]

section \<open>An instance\<close>


definition demo_vm :: "u16 \<Rightarrow> nat \<Rightarrow> u64 list \<Rightarrow> interrupts \<Rightarrow> vm" where
  "demo_vm i v r I = (zero_vm 1 2)\<lparr>vm_id := i, vcpu_count := 1,
     vcpus := [zero_vcpu\<lparr>vcpu_vm := Some v, vcpu_cpu := Some 0, vcpu_state := VCPU_STATE_RUNNING, regs_available := True,
       vcpu_regs := zero_regs\<lparr>regs_r := r\<rparr>, vcpu_interrupts := I\<rparr>]\<rparr>"

definition demo_interrupts :: interrupts where
  "demo_interrupts = \<lparr>interrupt_enabled = [0x20, 0], interrupt_pending = [0x20, 0], interrupt_type = [0, 0],
     enabled_and_pending_irq_count = 1, enabled_and_pending_fiq_count = 0\<rparr>"

definition demo_hyp :: hyp where
  "demo_hyp = \<lparr>mem = (\<lambda>_. 0), pools = (\<lambda>_. \<lparr>mp_lock = False, entry_size = 0x1000, chunk_list = 0, entry_list = 0, fallback = None\<rparr>),
     mpool_locks_enabled = True, mm_stage2_invalidate = True, mm_s2_max_level = 2, mm_s2_root_table_count = 1,
     mm_log = [], hyp_ptable = 0, ptable_lock = False,
     phys_start_address = 0, MEMORY_SIZE = 0x1000, branch_protection = False, pma_pages = [0], pages_addr = 0, pages_spinlock = False,
     alloc_cache = [], hypervisor_ptable = 0, hypervisor_ppool = 0,
     vms = [demo_vm 1 0 (replicate 31 0) zero_interrupts, demo_vm 2 1 (0xff04 # replicate 30 0) demo_interrupts],
     vm_count = 2, first_boot_vm = Some 0, cpus = [\<lparr>cpu_id = 0, stack_bottom = 0, cpu_held = False, is_on = True, is_assigned = True\<rparr>],
     cpu_count = 1, callstacks = 0, msr = (\<lambda>_. 0), vhe = False, bytes = (\<lambda>_. 0), interrupt_owners = [], gic_spinlock = False,
     el3_psci_version = 0, smc_log = [], cpu_entry = 0, cpus_addr = 0,
     dlog_st = \<lparr>dlog_out = [], dlog_lock_enabled = True, dlog_sl = False\<rparr>, devs = [], dev_states = (\<lambda>_. []), sanct_lpc = 0,
     devs_accessed = False, backing_accessed = False\<rparr>"

definition demo_platform :: platform where
  "demo_platform = \<lparr>plat_gic = \<lparr>FB_GICD = 0x8000000, FB_GICD_SIZE = 0x10000, FB_GICR = 0x80a0000, FB_GICR_SIZE = 0x20000,
       FB_GITS = None, FB_GICC = None, FB_GICV = None, FB_GICH = None, GIC_VERSION = 3\<rparr>,
     plat_hw = \<lparr>at_s1e1r = (\<lambda>a. a), at_s12e1r = (\<lambda>a. a)\<rparr>,
     plat_devs = (\<lambda>_. \<lparr>V_BASE = 0, V_SIZE = 0, V_DEVS = 0, V_ENABLED = False, V_DIRMAP = False\<rparr>), plat_ppool = 0, plat_fw = (\<lambda>_. ffa_call 0 0 0)\<rparr>"

lemma demo_the_vcpu:
  "the_vcpu p demo_hyp = Inr V \<longleftrightarrow>
     p = (0, 0) \<and> V = vcpus (vms demo_hyp ! 0) ! 0 \<or> p = (1, 0) \<and> V = vcpus (vms demo_hyp ! 1) ! 0"
  by (cases p) (auto simp: the_vcpu.simps demo_hyp_def demo_vm_def less_Suc_eq)

definition demo_vcpu :: vcpu where
  "demo_vcpu = vcpus (vms demo_hyp ! 1) ! 0"

lemma demo_facts:
  "the_vm 0 demo_hyp = Inr (vms demo_hyp ! 0)" "the_vm 1 demo_hyp = Inr (vms demo_hyp ! 1)"
  "length (vms demo_hyp) = 2" "length (cpus demo_hyp) = 1" "vm_count demo_hyp = 2"
  "vm_id (vms demo_hyp ! 0) = 1" "vm_id (vms demo_hyp ! 1) = 2"
  "vcpu_count (vms demo_hyp ! 0) = 1" "vcpu_count (vms demo_hyp ! 1) = 1"
  "vm_of_vcpu (0, 0) demo_hyp = Inr 0" "vm_of_vcpu (1, 0) demo_hyp = Inr 1"
  "the_vcpu (0, 0) demo_hyp = Inr (vcpus (vms demo_hyp ! 0) ! 0)" "the_vcpu (1, 0) demo_hyp = Inr demo_vcpu"
  "vcpu_interrupts demo_vcpu = demo_interrupts" "\<not> vcpu_held demo_vcpu"
  by (simp_all add: demo_vcpu_def demo_hyp_def demo_vm_def the_vm_def vm_of_vcpu_def the_vcpu.simps zero_vcpu_def)

lemma the_vcpu_upd_vm: "(\<And>V. vcpus (f V) = vcpus V) \<Longrightarrow> the_vcpu p (upd_vm v f s) = the_vcpu p s"
  by (cases p) (auto simp: the_vcpu.simps upd_vm_def nth_upd)

lemma bits_of_pair: "bits_of [a, b] = {n. n < 32 \<and> bit a n} \<union> {n. 32 \<le> n \<and> n < 64 \<and> bit b (n - 32)}"
proof (rule set_eqI)
  fix n
  show "n \<in> bits_of [a, b] \<longleftrightarrow> n \<in> {n. n < 32 \<and> bit a n} \<union> {n. 32 \<le> n \<and> n < 64 \<and> bit b (n - 32)}"
  proof (cases "n < 32")
    case False
    show ?thesis
    proof (cases "n < 64")
      case True
      then have "n div 32 = 1" "n mod 32 = n - 32" using False by presburger+
      then show ?thesis using False by (simp add: bits_of_def)
    qed (simp add: bits_of_def)
  qed (simp add: bits_of_def)
qed

lemma demo_sets: "enabled_set demo_interrupts = {5}" "pending_set demo_interrupts = {5}"
  "enabled_set zero_interrupts = {}" "pending_set zero_interrupts = {}"
proof -
  have "bit (0x20 :: u32) n \<longleftrightarrow> n = 5" for n
    using bit_or_bit [of 5 0 n] by (simp add: push_bit_eq_mult)
  then show "enabled_set demo_interrupts = {5}" "pending_set demo_interrupts = {5}"
    by (auto simp: demo_interrupts_def bits_of_pair)
qed (simp_all add: zero_interrupts_def bits_of_pair)

lemma demo_counts: "counts_ok demo_interrupts" "counts_ok zero_interrupts"
  by (simp_all add: counts_ok_def fields_ok_def demo_sets)
    (simp_all add: demo_interrupts_def zero_interrupts_def vcpu_interrupt_count_get_def vcpu_interrupt_irq_count_get_def
      vcpu_interrupt_fiq_count_get_def)

lemma demo_inv: "the_vcpu p demo_hyp = Inr V \<Longrightarrow> counts_ok (vcpu_interrupts V) \<and> \<not> vcpu_held V"
  unfolding demo_the_vcpu by (auto simp: demo_hyp_def demo_vm_def zero_vcpu_def demo_counts)

lemma update_virtual:
  assumes "the_vcpu q s = Inr V" "\<not> vcpu_held V" "q = (case next of None \<Rightarrow> p | Some n \<Rightarrow> n)"
  shows "\<exists>s' V'. vcpu_update_virtual_interrupts p next s = Inr s' \<and> the_vcpu q s' = Inr V' \<and>
    vcpu_interrupts V' = vcpu_interrupts V \<and>
    regs_hcr_el2 (vcpu_regs V') =
      regs_hcr_el2 (set_virtual_fiq (vcpu_interrupt_fiq_count_get (vcpu_interrupts V) > 0)
        (set_virtual_irq (vcpu_interrupt_irq_count_get (vcpu_interrupts V) > 0) (vcpu_regs V)))"
  using assms
  by (simp add: vcpu_update_virtual_interrupts_def vcpu_lock_def sl_lock_def upd_regs_def vcpu_unlock_def the_vcpu_upd Let_def)

lemma interrupt_get_value:
  assumes "the_vcpu p s = Inr V" "\<not> vcpu_held V" "take_interrupt [0..<2] (vcpu_interrupts V) = (n, I)"
  shows "\<exists>s'. api_interrupt_get p s = Inr (n, s') \<and> the_vcpu p s' = Inr (V\<lparr>vcpu_interrupts := I\<rparr>) \<and>
    (\<forall>q. q \<noteq> p \<longrightarrow> the_vcpu q s' = the_vcpu q s)"
proof -
  have two: "unat (PG_NUM_INTIDS div INTERRUPT_REGISTER_BITS) = 2"
    by (simp add: PG_NUM_INTIDS_def INTERRUPT_REGISTER_BITS_def unat_div)
  show ?thesis
    using assms by (simp add: api_interrupt_get_def vcpu_lock_def sl_lock_def vcpu_unlock_def upd_interrupts_def the_vcpu_upd two
        del: split_paired_All)
      (cases V, simp add: sl_unlock_def)
qed

section \<open>The instance asks for an interrupt\<close>

lemma demo_vcpu_args: "ffa_func (arch_regs_get_args (vcpu_regs demo_vcpu)) = PG_INTERRUPT_GET"
  by (simp add: demo_vcpu_def demo_hyp_def demo_vm_def arch_regs_get_args_def PG_INTERRUPT_GET_def)

lemma demo_not_psci:
  "hvc_smc_handler fw (arch_regs_get_args (vcpu_regs demo_vcpu)) (1, 0) demo_hyp =
     Inr (False, None, set_r0 (1, 0) SMCCC_ERROR_UNKNOWN demo_hyp)"
proof -
  have "(ucast PG_INTERRUPT_GET :: u32) AND SMCCC_SERVICE_CALL_MASK \<noteq> SMCCC_STANDARD_SECURE_SERVICE_CALL"
    by (simp add: PG_INTERRUPT_GET_def SMCCC_SERVICE_CALL_MASK_def SMCCC_STANDARD_SECURE_SERVICE_CALL_def)
  moreover have "plat_psci_version_get demo_hyp = 0" by (simp add: plat_psci_version_get_def demo_hyp_def)
  ultimately show ?thesis
    by (simp add: hvc_smc_handler_def psci_handler_def psci_primary_vm_handler_def demo_vcpu_args demo_facts [simplified])
qed

lemma demo_get_returns: "\<exists>n s'. hvc_handler fw (1, 0) demo_hyp = Inr (n, s')"
proof -
  let ?s1 = "set_r0 (1, 0) SMCCC_ERROR_UNKNOWN demo_hyp"
  obtain V where V: "the_vcpu (1, 0) ?s1 = Inr V" "\<not> vcpu_held V"
    using demo_facts(13,15) by (simp add: set_r0_def upd_regs_def the_vcpu_upd)
  obtain n I where "take_interrupt [0..<2] (vcpu_interrupts V) = (n, I)" by (cases "take_interrupt [0..<2] (vcpu_interrupts V)")
  then obtain s2 where s2: "api_interrupt_get (1, 0) ?s1 = Inr (n, s2)" "the_vcpu (1, 0) s2 = Inr (V\<lparr>vcpu_interrupts := I\<rparr>)"
    using interrupt_get_value [OF V] by blast
  obtain W where "the_vcpu (1, 0) (set_r0 (1, 0) (ucast n) s2) = Inr W" "\<not> vcpu_held W"
    using s2(2) V(2) by (simp add: set_r0_def upd_regs_def the_vcpu_upd)
  from update_virtual [OF this, of "(1, 0)" None] obtain s3 where
    "vcpu_update_virtual_interrupts (1, 0) None (set_r0 (1, 0) (ucast n) s2) = Inr s3" by auto
  then show ?thesis
    using s2(1) demo_not_psci demo_vcpu_args demo_facts(13)
    by (simp add: hvc_handler_def hvc_call_def PG_INTERRUPT_GET_def PG_INTERRUPT_ENABLE_def)
qed

section \<open>Sequences of exceptions\<close>

text \<open>C32. However VMs run and whatever sequence of exceptions, interrupts, hypercalls and accesses to devices they cause, as long as
  every handler returns: the IRQ and FIQ counts of every virtual CPU add up to the number of its interrupts that are enabled
  and pending, no virtual CPU is left locked, and the configuration of the VMs is as it was.\<close>
theorem exceptions_keep_vcpus:
  assumes "(exc_step D)\<^sup>*\<^sup>* s s'"
    and "\<And>p V. the_vcpu p s = Inr V \<Longrightarrow> counts_ok (vcpu_interrupts V) \<and> \<not> vcpu_held V"
  shows "(\<forall>p V. the_vcpu p s' = Inr V \<longrightarrow> counts_ok (vcpu_interrupts V) \<and> \<not> vcpu_held V) \<and> conf s' = conf s"
proof -
  have "exc_inv (\<lambda>_. counts_ok) s" using assms(2) by (auto simp: exc_inv_def all_interrupts_def locks_def)
  from exc_counted.exc_steps_keep [OF assms(1) this] show ?thesis
    by (auto simp: exc_inv_def all_interrupts_def locks_def)
qed

lemma demo_get: "sync_lower_exception demo_platform 0x58000000 0 (1, 0) demo_hyp = hvc_handler (plat_fw demo_platform) (1, 0) demo_hyp"
  by (simp add: sync_lower_exception_def GET_ESR_EC_def ESR_EC_OFFSET_def EC_HVC_def EC_WFI_WFE_def EC_DATA_ABORT_LOWER_EL_def
      EC_INSTRUCTION_ABORT_LOWER_EL_def drop_bit_eq_div)

theorem exceptions_keep_vcpus_witness:
  "\<exists>n s'. sync_lower_exception demo_platform 0x58000000 0 (1, 0) demo_hyp = Inr (n, s') \<and>
     (\<forall>p V. the_vcpu p s' = Inr V \<longrightarrow> counts_ok (vcpu_interrupts V) \<and> \<not> vcpu_held V) \<and> conf s' = conf demo_hyp"
proof -
  obtain n s' where r: "sync_lower_exception demo_platform 0x58000000 0 (1, 0) demo_hyp = Inr (n, s')"
    using demo_get_returns [of "plat_fw demo_platform"] demo_get by auto
  have "(exc_step demo_platform)\<^sup>*\<^sup>* demo_hyp s'" using exc_step.sync [OF r] by blast
  then have "(\<forall>p V. the_vcpu p s' = Inr V \<longrightarrow> counts_ok (vcpu_interrupts V) \<and> \<not> vcpu_held V) \<and> conf s' = conf demo_hyp"
    by (rule exceptions_keep_vcpus) (rule demo_inv)
  with r show ?thesis by blast
qed

section \<open>Virtual interrupts\<close>

lemma virtual_bits:
  "(regs_hcr_el2 (set_virtual_fiq f (set_virtual_irq i r)) AND HCR_EL2_VI = 0) = (\<not> i)"
    "(regs_hcr_el2 (set_virtual_fiq f (set_virtual_irq i r)) AND HCR_EL2_VF = 0) = (\<not> f)"
proof -
  have b: "x AND push_bit k 1 = 0 \<longleftrightarrow> \<not> bit x k" for x :: u64 and k
    using and_exp_eq_0_iff_not_bit [of x k] by (simp add: push_bit_eq_mult)
  show "(regs_hcr_el2 (set_virtual_fiq f (set_virtual_irq i r)) AND HCR_EL2_VI = 0) = (\<not> i)"
    "(regs_hcr_el2 (set_virtual_fiq f (set_virtual_irq i r)) AND HCR_EL2_VF = 0) = (\<not> f)"
    unfolding HCR_EL2_VI_def HCR_EL2_VF_def b
    by (auto simp: set_virtual_irq_def set_virtual_fiq_def HCR_EL2_VI_def HCR_EL2_VF_def bit_simps)
qed

lemma pending_count:
  assumes "counts_ok I" "enabled_set I \<inter> pending_set I \<noteq> {}"
  shows "vcpu_interrupt_irq_count_get I > 0 \<or> vcpu_interrupt_fiq_count_get I > 0"
proof (rule ccontr)
  assume "\<not> ?thesis"
  then have "vcpu_interrupt_count_get I = 0"
    by (simp add: vcpu_interrupt_count_get_def vcpu_interrupt_irq_count_get_def vcpu_interrupt_fiq_count_get_def word_gt_0)
  then have "(word_of_nat (card (enabled_set I \<inter> pending_set I)) :: u32) = 0" using assms(1) by (simp add: counts_ok_def)
  moreover have "card (enabled_set I \<inter> pending_set I) \<le> 64"
    using card_mono [of "{..<64::nat}" "enabled_set I \<inter> pending_set I"] by (auto simp: bits_of_def)
  moreover have "card (enabled_set I \<inter> pending_set I) > 0" using assms(2) by (simp add: card_gt_0_iff)
  ultimately show False by (auto simp: word_of_nat_eq_0_iff dest: dvd_imp_le)
qed

lemma irq_lower_signals:
  assumes "irq_lower p s = Inr (n, s')"
    and "\<And>p V. the_vcpu p s = Inr V \<Longrightarrow> counts_ok (vcpu_interrupts V)"
  shows "\<exists>V. the_vcpu (case n of None \<Rightarrow> p | Some q \<Rightarrow> q) s' = Inr V \<and>
    (let I = vcpu_interrupts V; h = regs_hcr_el2 (vcpu_regs V) in
     (h AND HCR_EL2_VI \<noteq> 0) = (vcpu_interrupt_irq_count_get I > 0) \<and> (h AND HCR_EL2_VF \<noteq> 0) = (vcpu_interrupt_fiq_count_get I > 0) \<and>
     (enabled_set I \<inter> pending_set I \<noteq> {} \<longrightarrow> h AND HCR_EL2_VI \<noteq> 0 \<or> h AND HCR_EL2_VF \<noteq> 0))"
proof -
  let ?q = "case n of None \<Rightarrow> p | Some q \<Rightarrow> q"
  have Q: "all_interrupts (\<lambda>_. counts_ok) s" using assms(2) by (auto simp: all_interrupts_def)
  obtain s1 where s1: "delegate_interrupt p s = Inr (n, s1)" "vcpu_update_virtual_interrupts p n s1 = Inr s'"
    using assms(1) by (auto simp: irq_lower_def res_bind_eq_Inr)
  have Q1: "all_interrupts (\<lambda>_. counts_ok) s1" using exc_counted.delegate_keeps [OF s1(1) Q] Q by (simp add: keeps_def)
  obtain V where V: "the_vcpu ?q s1 = Inr V" "\<not> vcpu_held V"
    using s1(2) by (auto simp: vcpu_update_virtual_interrupts_def Let_def res_bind_eq_Inr dest!: lock_same)
  obtain V' where V': "the_vcpu ?q s' = Inr V'" "vcpu_interrupts V' = vcpu_interrupts V"
    "regs_hcr_el2 (vcpu_regs V') =
      regs_hcr_el2 (set_virtual_fiq (vcpu_interrupt_fiq_count_get (vcpu_interrupts V) > 0)
        (set_virtual_irq (vcpu_interrupt_irq_count_get (vcpu_interrupts V) > 0) (vcpu_regs V)))"
    using update_virtual [OF V refl] s1(2) by auto
  have "counts_ok (vcpu_interrupts V)" using Q1 V(1) unfolding all_interrupts_def by blast
  then show ?thesis using V'(1) pending_count [of "vcpu_interrupts V"] by (auto simp: V'(2,3) virtual_bits Let_def)
qed

text \<open>C34. When the handler of an interrupt of the machine returns, the virtual CPU that runs next has the bit for a virtual IRQ in its
  \<^verbatim>\<open>HCR_EL2\<close> exactly if its IRQ count is not 0, the same for FIQ, and one of the two bits whenever one of its enabled interrupts is
  pending, provided that the counts of the virtual CPUs add up before.\<close>
theorem irq_lower_signals_pending:
  assumes "irq_lower p s = Inr (n, s')"
    and "\<And>p V. the_vcpu p s = Inr V \<Longrightarrow> counts_ok (vcpu_interrupts V)"
  shows "\<exists>V. the_vcpu (case n of None \<Rightarrow> p | Some q \<Rightarrow> q) s' = Inr V \<and>
    (let I = vcpu_interrupts V; h = regs_hcr_el2 (vcpu_regs V) in
     (h AND HCR_EL2_VI \<noteq> 0) = (vcpu_interrupt_irq_count_get I > 0) \<and> (h AND HCR_EL2_VF \<noteq> 0) = (vcpu_interrupt_fiq_count_get I > 0) \<and>
     (enabled_set I \<inter> pending_set I \<noteq> {} \<longrightarrow> h AND HCR_EL2_VI \<noteq> 0 \<or> h AND HCR_EL2_VF \<noteq> 0))"
  using assms by (rule irq_lower_signals)

text \<open>Interrupt 5 of the machine belongs to the second VM, which is running.\<close>

definition demo_irq :: hyp where
  "demo_irq = upd_vm 1 (\<lambda>V. V\<lparr>interrupt_desc := [\<lparr>interrupt_id = 5, type_config_sec_state = 0, desc_priority = 0, desc_valid = True\<rparr>]\<rparr>)
     (demo_hyp\<lparr>msr := (\<lambda>n. if n = ''ICC_IAR1_EL1'' then 5 else 0)\<rparr>)"

lemma demo_irq_vcpu: "the_vcpu p demo_irq = the_vcpu p demo_hyp"
  unfolding demo_irq_def by (subst the_vcpu_upd_vm) (cases p; simp add: the_vcpu.simps)+

lemma demo_irq_inv: "the_vcpu p demo_irq = Inr V \<Longrightarrow> counts_ok (vcpu_interrupts V)"
  using demo_inv [of p V] by (simp add: demo_irq_vcpu)

lemma demo_irq_target: "find_target_vcpu (1, 0) 5 demo_irq = Inr (1, 0)"
proof -
  have d: "vm_count demo_irq = 2" "length (vms demo_irq) = 2" "length (cpus demo_irq) = 1" "vm_id (vms demo_irq ! 1) = 2"
    "vcpu_count (vms demo_irq ! 1) = 1" "vcpu_cpu demo_vcpu = Some 0"
    by (simp_all add: demo_vcpu_def demo_irq_def upd_vm_def demo_hyp_def demo_vm_def)
  have h: "vm_has_interrupt 5 (vms demo_irq ! 1)" "\<not> vm_has_interrupt 5 (vms demo_irq ! 0)"
    by (simp_all add: vm_has_interrupt_def demo_irq_def upd_vm_def demo_hyp_def demo_vm_def zero_vm_def PG_NUM_INTIDS_def)
  have "find_interrupt_vm 5 [0, 1] demo_irq = Inr (Some 1)"
    using d h by (simp add: vm_find_index_def word_le_nat_alt)
  then show ?thesis
    using d by (simp add: find_target_vcpu_def vm_get_count_def upt_rec vm_find_def vm_find_index_def PG_VM_ID_OFFSET_def
        word_le_nat_alt word_less_nat_alt api_get_vm_vcpu_def demo_irq_vcpu demo_facts [simplified] the_vm_def vm_get_vcpu_def CHECK_def)
qed

lemma demo_irq_returns: "\<exists>s'. irq_lower (1, 0) demo_irq = Inr (None, s')"
proof -
  have i: "gicv3_get_pending_interrupt_id demo_irq = 5"
    by (simp add: gicv3_get_pending_interrupt_id_def demo_irq_def upd_vm_def IAR1_EL1_INTID_MASK_def)
  obtain s1 where s1: "set_vcpu_state (1, 0) VCPU_STATE_PREEMPTED demo_irq = Inr s1"
    "the_vcpu (1, 0) s1 = Inr (demo_vcpu\<lparr>vcpu_held := False, vcpu_state := VCPU_STATE_PREEMPTED\<rparr>)"
    using demo_facts(15) by (auto simp: set_vcpu_state_def vcpu_lock_def sl_lock_def vcpu_unlock_def sl_unlock_def the_vcpu_upd
        demo_irq_vcpu demo_facts [simplified])
  let ?s1 = "plat_interrupts_set_priority_mask 0 s1"
  have t: "the_vcpu (1, 0) ?s1 = Inr (demo_vcpu\<lparr>vcpu_held := False, vcpu_state := VCPU_STATE_PREEMPTED\<rparr>)"
    using s1(2) by (simp add: plat_interrupts_set_priority_mask_def write_msr_def the_vcpu.simps split: if_splits)
  obtain s2 where s2: "vcpu_lock (1, 0) ?s1 = Inr s2"
    "the_vcpu (1, 0) s2 = Inr (demo_vcpu\<lparr>vcpu_held := True, vcpu_state := VCPU_STATE_PREEMPTED\<rparr>)"
    using t by (simp add: vcpu_lock_def sl_lock_def the_vcpu_upd)
  have "vcpu_interrupts demo_vcpu = demo_interrupts" using demo_facts(14) .
  then obtain s3 where s3: "api_interrupt_inject_locked (1, 0) 5 (1, 0) False s2 = Inr (0, None, s3)"
    "s3 = upd_interrupts (1, 0) (make_pending 5) s2"
    using s2(2) by (simp add: api_interrupt_inject_locked_def intid_simps intid_mask_def demo_interrupts_def push_bit_eq_mult)
  let ?s4 = "vcpu_unlock (1, 0) (upd_vcpu (1, 0) (\<lambda>P. P\<lparr>vcpu_state := VCPU_STATE_RUNNING\<rparr>) s3)"
  have d: "delegate_interrupt (1, 0) demo_irq = Inr (None, ?s4)"
    using s1(1) s2(1) s3(1) by (simp add: delegate_interrupt_def i demo_irq_target [simplified])
  obtain W where W: "the_vcpu (1, 0) ?s4 = Inr W" "\<not> vcpu_held W"
    using s2(2) s3(2) by (simp add: upd_interrupts_def vcpu_unlock_def sl_unlock_def the_vcpu_upd)
  from update_virtual [OF W, of "(1, 0)" None] d show ?thesis by (auto simp: irq_lower_def)
qed

theorem irq_lower_signals_pending_witness:
  "\<exists>s' V. irq_lower (1, 0) demo_irq = Inr (None, s') \<and> the_vcpu (1, 0) s' = Inr V \<and>
     (enabled_set (vcpu_interrupts V) \<inter> pending_set (vcpu_interrupts V) \<noteq> {} \<longrightarrow>
        regs_hcr_el2 (vcpu_regs V) AND HCR_EL2_VI \<noteq> 0 \<or> regs_hcr_el2 (vcpu_regs V) AND HCR_EL2_VF \<noteq> 0)"
proof -
  obtain s' where "irq_lower (1, 0) demo_irq = Inr (None, s')" using demo_irq_returns by blast
  then show ?thesis using irq_lower_signals_pending [of "(1, 0)" demo_irq None s'] demo_irq_inv by (auto simp: Let_def)
qed

text \<open>C35. The hypercall for the next interrupt returns the least of the enabled and pending interrupts of the calling virtual
  CPU, which stops being pending, or \<^verbatim>\<open>PG_INVALID_INTID\<close> if there is none. Nothing else about the interrupts of any virtual CPU changes.\<close>
theorem interrupt_get_returns_least:
  assumes "the_vcpu p s = Inr V" "\<not> vcpu_held V" "counts_ok (vcpu_interrupts V)"
  shows "\<exists>n s' V'. api_interrupt_get p s = Inr (n, s') \<and> the_vcpu p s' = Inr V' \<and> counts_ok (vcpu_interrupts V') \<and>
    interrupt_enabled (vcpu_interrupts V') = interrupt_enabled (vcpu_interrupts V) \<and> \<not> vcpu_held V' \<and>
    (let A = enabled_set (vcpu_interrupts V) \<inter> pending_set (vcpu_interrupts V) in
     if A = {} then n = PG_INVALID_INTID \<and> V' = V
     else unat n = Min A \<and> pending_set (vcpu_interrupts V') = pending_set (vcpu_interrupts V) - {Min A}) \<and>
    (\<forall>q. q \<noteq> p \<longrightarrow> the_vcpu q s' = the_vcpu q s)"
proof -
  obtain n I where I: "take_interrupt [0..<2] (vcpu_interrupts V) = (n, I)" by (cases "take_interrupt [0..<2] (vcpu_interrupts V)")
  obtain s' where s': "api_interrupt_get p s = Inr (n, s')" "the_vcpu p s' = Inr (V\<lparr>vcpu_interrupts := I\<rparr>)"
    "\<forall>q. q \<noteq> p \<longrightarrow> the_vcpu q s' = the_vcpu q s"
    using interrupt_get_value [OF assms(1,2) I] by blast
  have f: "fields_ok (vcpu_interrupts V)" using assms(3) by (simp add: counts_ok_def)
  show ?thesis
    using s' take_interrupt_spec [OF f I] take_counts [OF assms(3) I] assms(2)
    by (intro exI [of _ n] exI [of _ s'] exI [of _ "V\<lparr>vcpu_interrupts := I\<rparr>"]) (auto simp: Let_def)
qed

theorem interrupt_get_returns_least_witness:
  "\<exists>s' V'. api_interrupt_get (1, 0) demo_hyp = Inr (5, s') \<and> the_vcpu (1, 0) s' = Inr V' \<and> pending_set (vcpu_interrupts V') = {}"
proof -
  have "unat n = 5 \<longleftrightarrow> n = (5 :: u32)" for n by (simp add: word_unat_eq_iff)
  with interrupt_get_returns_least [OF demo_facts(13)] demo_inv [OF demo_facts(13)] show ?thesis
    by (auto simp: demo_facts(14) demo_sets Let_def)
qed

section \<open>Injecting interrupts\<close>

lemma injection_others:
  assumes "api_interrupt_inject vmid i intid p want s = Inr (r, n, s')" "q \<noteq> (unat (vmid - PG_VM_ID_OFFSET), unat i)"
    "the_vcpu q s = Inr V" "the_vcpu q s' = Inr V'"
  shows "vcpu_interrupts V' = vcpu_interrupts V"
proof -
  let ?t = "(unat (vmid - PG_VM_ID_OFFSET), unat i)"
  define J where "J p = (case the_vcpu p s of Inr V \<Rightarrow> vcpu_interrupts V | Inl _ \<Rightarrow> zero_interrupts)" for p
  have "v = unat (vmid - PG_VM_ID_OFFSET)" if "vm_find vmid s = Some v" for v
    using that by (auto simp: vm_find_def vm_find_index_def split: if_splits)
  then have "keeps (\<lambda>p I. p \<noteq> ?t \<longrightarrow> I = J p) {} s s'"
    by (intro others.inject_keeps [OF assms(1)]) simp
  then have "all_interrupts (\<lambda>p I. p \<noteq> ?t \<longrightarrow> I = J p) s'"
    by (simp add: keeps_def) (auto simp: all_interrupts_def J_def)
  then have "vcpu_interrupts V' = J q" using assms(2,4) unfolding all_interrupts_def by blast
  then show ?thesis by (simp add: J_def assms(3))
qed

lemma ucast_u16_inject: "(ucast x :: u32) = ucast y \<longleftrightarrow> x = y" for x y :: u16
proof
  have r: "ucast (ucast z :: u32) = z" for z :: u16 by (rule bit_word_eqI) (simp add: bit_simps)
  show "(ucast x :: u32) = ucast y \<Longrightarrow> x = y" by (metis r)
qed simp

lemma injection_denied:
  assumes "vm_of_vcpu p s = Inr v" "the_vm v s = Inr V" "vm_id V \<noteq> PG_PRIMARY_VM_ID" "vm_id V \<noteq> vmid"
    "api_interrupt_inject vmid i intid p want s = Inr (r, n, s')"
  shows "r = - 1 \<and> n = None \<and> s' = s"
proof -
  have "(ucast (vm_id V) :: u32) \<noteq> ucast PG_PRIMARY_VM_ID" "(ucast (vm_id V) :: u32) \<noteq> ucast vmid"
    using assms(3,4) by (simp_all add: ucast_u16_inject)
  then have "is_injection_allowed (ucast vmid) p s = Inr False"
    by (simp add: is_injection_allowed_def assms(1,2))
  then show ?thesis
    using assms(5) by (auto simp: api_interrupt_inject_def res_bind_eq_Inr split: if_splits option.splits)
qed

lemma inject_locked_pending:
  assumes "api_interrupt_inject_locked t intid p want s = Inr (r, n, s')" "the_vcpu t s = Inr T" "fields_ok (vcpu_interrupts T)"
    "unat intid < 64"
  shows "\<exists>T'. the_vcpu t s' = Inr T' \<and> unat intid \<in> pending_set (vcpu_interrupts T') \<and> r \<noteq> - 1"
proof -
  have fin: "\<exists>T'. the_vcpu t (upd_interrupts t (make_pending intid) s1) = Inr T' \<and> unat intid \<in> pending_set (vcpu_interrupts T')"
    if "the_vcpu t s1 = Inr T1" "fields_ok (vcpu_interrupts T1)" for s1 T1
    using that make_pending_ok(3) [OF that(2) assms(4)] by (simp add: upd_interrupts_def the_vcpu_upd)
  define s1 where "s1 = upd_interrupts t (\<lambda>_. count_increment (intid_index intid) (intid_shift intid) (vcpu_interrupts T)) s"
  obtain T1 where T1: "the_vcpu t s1 = Inr T1" "fields_ok (vcpu_interrupts T1)"
    using assms(2,3) by (simp add: s1_def upd_interrupts_def the_vcpu_upd fields_ok_def)
  have woken: "\<exists>T2. the_vcpu t s2 = Inr T2 \<and> fields_ok (vcpu_interrupts T2)" if "api_wake_up p t s1 = Inr (m, s2)" for m s2
  proof -
    have "vcpu_view t s2 = vcpu_view t s1" using api_calls_view(1) [OF that] by (simp add: view_def) metis
    then show ?thesis using T1 by (cases "the_vcpu t s2") (auto simp: vcpu_view_def)
  qed
  show ?thesis
    using assms(1) fin [OF assms(2,3)] fin [OF T1] woken fin
    by (auto simp: api_interrupt_inject_locked_def assms(2) Let_def s1_def [symmetric] res_bind_eq_Inr split: if_splits)
qed

lemma injection_pending:
  assumes "api_interrupt_inject vmid i intid p want s = Inr (r, n, s')" "r \<noteq> - 1"
    "\<And>q V. the_vcpu q s = Inr V \<Longrightarrow> counts_ok (vcpu_interrupts V)"
  shows "unat intid < 64 \<and> (\<exists>T. the_vcpu (unat (vmid - PG_VM_ID_OFFSET), unat i) s' = Inr T \<and> unat intid \<in> pending_set (vcpu_interrupts T))"
proof -
  let ?t = "(unat (vmid - PG_VM_ID_OFFSET), unat i)"
  have i: "internal_interrupt_inject ?t intid p want s = Inr (r, n, s')" "unat intid < 64"
    using assms(1,2) intid_lt
    by (auto simp: api_interrupt_inject_def vm_find_def vm_find_index_def vm_get_vcpu_def CHECK_def res_bind_eq_Inr
        split: if_splits option.splits)
  obtain s1 s2 where s2: "vcpu_lock ?t s = Inr s1" "api_interrupt_inject_locked ?t intid p want s1 = Inr (r, n, s2)"
    "s' = vcpu_unlock ?t s2"
    using i(1) by (auto simp: internal_interrupt_inject_def res_bind_eq_Inr)
  obtain T where T: "the_vcpu ?t s = Inr T" "the_vcpu ?t s1 = Inr (T\<lparr>vcpu_held := True\<rparr>)" using lock_same [OF s2(1)] by blast
  have "fields_ok (vcpu_interrupts T)" using assms(3) [OF T(1)] by (simp add: counts_ok_def)
  with inject_locked_pending [OF s2(2) T(2) _ i(2)] i(2) show ?thesis
    by (auto simp: s2(3) vcpu_unlock_def the_vcpu_upd)
qed

text \<open>C33. A VM injects interrupts only into itself, unless it is the primary VM: a request of any other VM for another one is answered
  with -1 and changes nothing. A request that is not answered with -1 has made the interrupt pending at its target. The interrupts of all
  other virtual CPUs are as they were in any case.\<close>
theorem injection_is_confined:
  assumes "api_interrupt_inject vmid i intid p want s = Inr (r, n, s')" "vm_of_vcpu p s = Inr v" "the_vm v s = Inr V"
    and "\<And>q V. the_vcpu q s = Inr V \<Longrightarrow> counts_ok (vcpu_interrupts V)"
  shows "(vm_id V \<noteq> PG_PRIMARY_VM_ID \<and> vm_id V \<noteq> vmid \<longrightarrow> r = - 1 \<and> n = None \<and> s' = s) \<and>
    (r \<noteq> - 1 \<longrightarrow> unat intid < 64 \<and>
       (\<exists>T. the_vcpu (unat (vmid - PG_VM_ID_OFFSET), unat i) s' = Inr T \<and> unat intid \<in> pending_set (vcpu_interrupts T))) \<and>
    (\<forall>q C C'. q \<noteq> (unat (vmid - PG_VM_ID_OFFSET), unat i) \<longrightarrow> the_vcpu q s = Inr C \<longrightarrow> the_vcpu q s' = Inr C' \<longrightarrow>
       vcpu_interrupts C' = vcpu_interrupts C)"
proof (rule conjI [OF _ conjI])
  show "vm_id V \<noteq> PG_PRIMARY_VM_ID \<and> vm_id V \<noteq> vmid \<longrightarrow> r = - 1 \<and> n = None \<and> s' = s"
    using injection_denied [OF assms(2,3) _ _ assms(1)] by blast
  show "r \<noteq> - 1 \<longrightarrow> unat intid < 64 \<and>
       (\<exists>T. the_vcpu (unat (vmid - PG_VM_ID_OFFSET), unat i) s' = Inr T \<and> unat intid \<in> pending_set (vcpu_interrupts T))"
    by (rule impI, rule injection_pending [OF assms(1)], assumption, rule assms(4))
  show "\<forall>q C C'. q \<noteq> (unat (vmid - PG_VM_ID_OFFSET), unat i) \<longrightarrow> the_vcpu q s = Inr C \<longrightarrow> the_vcpu q s' = Inr C' \<longrightarrow>
       vcpu_interrupts C' = vcpu_interrupts C"
    using injection_others [OF assms(1)] by blast
qed

text \<open>The primary VM injects interrupt 7 into the second VM.\<close>

lemma demo_inject: "\<exists>r n s'. api_interrupt_inject 2 0 7 (0, 0) True demo_hyp = Inr (r, n, s') \<and> r = 0"
  by (simp add: api_interrupt_inject_def internal_interrupt_inject_def api_interrupt_inject_locked_def vm_find_def
      vm_find_index_def PG_NUM_INTIDS_def PG_VM_ID_OFFSET_def is_injection_allowed_def vm_get_vcpu_def
      CHECK_def vcpu_index_def vcpu_lock_def sl_lock_def PG_PRIMARY_VM_ID_def Let_def intid_simps intid_mask_def the_vcpu_upd
      demo_facts [simplified])
    (simp add: demo_interrupts_def push_bit_eq_mult word_le_nat_alt)

theorem injection_is_confined_witness:
  "\<exists>r n s' T. api_interrupt_inject 2 0 7 (0, 0) True demo_hyp = Inr (r, n, s') \<and> the_vcpu (1, 0) s' = Inr T \<and>
     7 \<in> pending_set (vcpu_interrupts T)"
proof -
  obtain r n s' where r: "api_interrupt_inject 2 0 7 (0, 0) True demo_hyp = Inr (r, n, s')" "r = 0" using demo_inject by blast
  have "unat (2 - PG_VM_ID_OFFSET) = 1" by (simp add: PG_VM_ID_OFFSET_def)
  with injection_is_confined [OF r(1) demo_facts(10,1)] demo_inv r show ?thesis by auto
qed

section \<open>Calls to the firmware\<close>






section \<open>System registers\<close>

lemma perfmon_not_debug: "perfmon_is_register_access esr \<Longrightarrow> \<not> debug_el1_is_register_access esr"
proof
  assume "perfmon_is_register_access esr" "debug_el1_is_register_access esr"
  moreover from this(2) have "GET_ISS_OP0 esr = 2" by (simp add: debug_el1_is_register_access_def)
  ultimately show False by (simp add: perfmon_is_register_access_def)
qed

lemma inject_el1_exception_frame:
  assumes "inject_el1_exception p esr far s = Inr s'" "the_vcpu p s = Inr V"
  shows "\<exists>V'. the_vcpu p s' = Inr V' \<and> regs_r (vcpu_regs V') = regs_r (vcpu_regs V) \<and>
    get_el1_exception_handler_addr V s = Inr (regs_pc (vcpu_regs V'))" (is ?v)
    "n \<notin> {''SPSR_EL1'', ''SPSR_EL12'', ''ELR_EL1'', ''ELR_EL12'', ''FAR_EL1'', ''FAR_EL12'', ''ESR_EL1'', ''ESR_EL12''} \<Longrightarrow> msr s' n = msr s n"
proof -
  obtain h s1 where h: "get_el1_exception_handler_addr V s = Inr h"
    "s' = upd_regs p (\<lambda>r. r\<lparr>regs_spsr := PSR_D OR PSR_A OR PSR_I OR PSR_F OR PSR_PE_MODE_EL1H, regs_pc := h\<rparr>) s1"
    "vms s1 = vms s"
    "n \<notin> {''SPSR_EL1'', ''SPSR_EL12'', ''ELR_EL1'', ''ELR_EL12'', ''FAR_EL1'', ''FAR_EL12'', ''ESR_EL1'', ''ESR_EL12''} \<Longrightarrow> msr s1 n = msr s n"
    using assms by (auto simp: inject_el1_exception_def Let_def res_bind_eq_Inr write_msr_def)
  have "the_vcpu p s1 = Inr V" using assms(2) h(3) by (cases p) (simp add: the_vcpu.simps split: if_splits)
  then show ?v using h by (simp add: upd_regs_def the_vcpu_upd)
  have "msr (upd_regs p f s1) = msr s1" for f by (cases p) (simp add: upd_regs_def upd_vcpu.simps upd_vm_def)
  then show "msr s' n = msr s n"
    if "n \<notin> {''SPSR_EL1'', ''SPSR_EL12'', ''ELR_EL1'', ''ELR_EL12'', ''FAR_EL1'', ''FAR_EL12'', ''ESR_EL1'', ''ESR_EL12''}"
    using that h by simp
qed

lemma perfmon_denied:
  assumes "the_vcpu p s = Inr C" "vcpu_vm C = Some v" "the_vm v s = Inr V" "vm_id V \<noteq> PG_PRIMARY_VM_ID"
    "GET_ESR_EC esr = EC_MSR" "perfmon_is_register_access esr"
  shows "handle_system_register_access esr p s = inject_el1_unknown_exception p esr s"
  using assms(4-6) perfmon_not_debug [OF assms(6)]
  by (simp add: handle_system_register_access_def vm_of_vcpu_def assms(1-3) CHECK_def perfmon_process_access_def)

text \<open>C37. Only the primary VM reaches the performance monitors: when the handler of an access of another VM to one of their registers
  returns, the VM is at its handler of exceptions with its general registers as they were, so that it has learned nothing, and of the
  system registers only those that describe the exception to it have changed.\<close>
theorem perfmon_only_for_primary:
  assumes "the_vcpu p s = Inr C" "vcpu_vm C = Some v" "the_vm v s = Inr V" "vm_id V \<noteq> PG_PRIMARY_VM_ID"
    and "GET_ESR_EC esr = EC_MSR" "perfmon_is_register_access esr" "handle_system_register_access esr p s = Inr s'"
  shows "(\<exists>C'. the_vcpu p s' = Inr C' \<and> regs_r (vcpu_regs C') = regs_r (vcpu_regs C) \<and>
      get_el1_exception_handler_addr C s = Inr (regs_pc (vcpu_regs C'))) \<and>
    (\<forall>n. n \<notin> {''SPSR_EL1'', ''SPSR_EL12'', ''ELR_EL1'', ''ELR_EL12'', ''FAR_EL1'', ''FAR_EL12'', ''ESR_EL1'', ''ESR_EL12''} \<longrightarrow>
       msr s' n = msr s n)"
proof -
  have "inject_el1_unknown_exception p esr s = Inr s'"
    using assms(7) perfmon_denied [OF assms(1-6)] by simp
  then obtain e where "inject_el1_exception p e 0 s = Inr s'" by (auto simp: inject_el1_unknown_exception_def)
  from inject_el1_exception_frame [OF this assms(1)] show ?thesis by blast
qed

text \<open>The second VM reads \<^verbatim>\<open>PMCR_EL0\<close>.\<close>

lemma demo_perfmon:
  "GET_ESR_EC 0x6230E419 = EC_MSR" "perfmon_is_register_access 0x6230E419"
  "\<exists>s'. handle_system_register_access 0x6230E419 (1, 0) demo_hyp = Inr s'"
proof -
  show e: "GET_ESR_EC 0x6230E419 = EC_MSR" "perfmon_is_register_access 0x6230E419"
    by (simp_all add: GET_ESR_EC_def ESR_EC_OFFSET_def EC_MSR_def perfmon_is_register_access_def iss_defs drop_bit_eq_div)
  have v: "vcpu_vm demo_vcpu = Some 1" "vm_id (vms demo_hyp ! 1) \<noteq> PG_PRIMARY_VM_ID" "regs_spsr (vcpu_regs demo_vcpu) = 0"
    by (simp_all add: demo_vcpu_def demo_hyp_def demo_vm_def PG_PRIMARY_VM_ID_def zero_vcpu_def zero_regs_def)
  have "\<exists>s'. inject_el1_unknown_exception (1, 0) 0x6230E419 demo_hyp = Inr s'"
    using v(3) demo_facts(13)
    by (simp add: inject_el1_unknown_exception_def inject_el1_exception_def get_el1_exception_handler_addr_def Let_def
        PSR_PE_MODE_EL0T_def)
  then show "\<exists>s'. handle_system_register_access 0x6230E419 (1, 0) demo_hyp = Inr s'"
    using perfmon_denied [OF demo_facts(13) v(1) demo_facts(2) v(2) e] by simp
qed

theorem perfmon_only_for_primary_witness:
  "\<exists>s'. handle_system_register_access 0x6230E419 (1, 0) demo_hyp = Inr s' \<and> msr s' ''PMCR_EL0'' = msr demo_hyp ''PMCR_EL0''"
proof -
  obtain s' where s': "handle_system_register_access 0x6230E419 (1, 0) demo_hyp = Inr s'" using demo_perfmon(3) by blast
  have v: "vcpu_vm demo_vcpu = Some 1" "vm_id (vms demo_hyp ! 1) \<noteq> PG_PRIMARY_VM_ID"
    by (simp_all add: demo_vcpu_def demo_hyp_def demo_vm_def PG_PRIMARY_VM_ID_def)
  from perfmon_only_for_primary [OF demo_facts(13) v(1) demo_facts(2) v(2) demo_perfmon(1,2) s'] s' show ?thesis by simp
qed

section \<open>The table of VMs\<close>

text \<open>C38. The table of VMs is well typed: the VMs in use have the ids of their places, no more virtual CPUs than CPUs exist, arrays of
  the right lengths and virtual CPUs that point back to them. Creating a VM keeps that whether it succeeds or fails, and
  leaves the VMs in use alone. On success the new VM is found by its id, its virtual CPUs are off and it has the CPUs that were asked for.\<close>
theorem vm_init_next_typed:
  assumes "hyp_wf s" "vm_init_next vcpu_cnt pcpu_cnt ids ppool s = Inr (ok, new, s')"
  shows "hyp_wf s' \<and> (\<forall>v < unat (vm_count s). vms s' ! v = vms s ! v) \<and>
    (if ok then vm_count s' = vm_count s + 1 \<and> new = Some (Some (unat (vm_count s))) \<and>
       vm_find (vm_count s + PG_VM_ID_OFFSET) s' = Some (unat (vm_count s)) \<and>
       vm_created vcpu_cnt ids (unat (vm_count s)) (vms s' ! unat (vm_count s))
     else vm_count s' = vm_count s)"
  using assms by (rule vm_init_next_wf)

text \<open>A state with no VM yet, one CPU and a pool with one page.\<close>

definition demo_empty :: hyp where
  "demo_empty = demo_hyp\<lparr>vm_count := 0, first_boot_vm := None, pools := (\<lambda>_. \<lparr>mp_lock = False, entry_size = 0x1000,
     chunk_list = 0, entry_list = 0x8000, fallback = None\<rparr>)\<rparr>"

lemma vm_init_vcpu_first:
  assumes "v < length (vms s)" "0 < unat (vcpu_count (vms s ! v))" "unat (vcpu_count (vms s ! v)) \<le> length (cpus s)"
  shows "vm_init_vcpu v 0 s = Inr (vcpu_init (v, 0) v s)"
  using assms by (simp add: vm_init_vcpu_def vm_get_vcpu_def the_vm_def CHECK_def word_less_nat_alt)

lemma alloc_one:
  fixes s :: hyp
  assumes "pools s 0 = \<lparr>mp_lock = False, entry_size = 0x1000, chunk_list = 0, entry_list = 0x8000, fallback = None\<rparr>"
    "mm_s2_root_table_count s = 1"
  shows "\<exists>s2. mm_vm_init 0 s = Inr (Some 0x8000, s2) \<and> rest s2 = rest s"
proof -
  have "\<exists>s2. mm_vm_init 0 s = Inr (Some 0x8000, s2)"
    using assms by (simp add: mm_vm_init_def mm_ptable_init_def mm_root_table_count_def mm_alloc_page_tables_def mpool_alloc_def
      mpool_alloc_loop.simps mpool_alloc_no_fallback_def mpool_lock_def mpool_unlock_def upd_pool_def MM_FLAG_STAGE1_def)
  then show ?thesis using mm_vm_init_rest by blast
qed
lemma rest_cpus: "rest s' = rest s \<Longrightarrow> cpus s' = cpus (s :: hyp) \<and> cpu_count s' = cpu_count s"
  by (cases s; cases s') simp

lemma demo_create: "\<exists>new s'. vm_init_next 1 1 [0] 0 demo_empty = Inr (True, new, s')"
proof -
  define Z where "Z = (zero_vm 1 2)\<lparr>vm_id := 1, vcpu_count := 1\<rparr>"
  let ?s1 = "upd_vm 0 (\<lambda>_. Z) demo_empty"
  have e: "length (vms demo_empty) = 2" "length (cpus demo_empty) = 1" "vm_count demo_empty = 0" "cpu_count demo_empty = 1"
    "cpu_id (cpus demo_empty ! 0) = 0"
    by (simp_all add: demo_empty_def demo_hyp_def)
  obtain s2 where s2: "mm_vm_init 0 ?s1 = Inr (Some 0x8000, s2)" "rest s2 = rest ?s1"
    using alloc_one [of ?s1] by (auto simp: demo_empty_def demo_hyp_def upd_vm_def)
  have f: "vms s2 = vms ?s1" "cpus s2 = cpus demo_empty" "cpu_count s2 = 1"
    using rest_vms [OF s2(2)] rest_cpus [OF s2(2)] e by (simp_all add: upd_vm_def)
  let ?s2 = "vm_init_waiters 0 (upd_vm 0 (\<lambda>V. V\<lparr>vm_ptable := 0x8000\<rparr>) s2)"
  have i: "vm_init_vcpu 0 0 ?s2 = Inr (vcpu_init (0, 0) 0 ?s2)"
    by (rule vm_init_vcpu_first) (use e f in \<open>simp_all add: vm_init_waiters_def Z_def\<close>)
  have c: "cpus (vcpu_init (0, 0) 0 ?s2) = cpus demo_empty" "cpu_count (vcpu_init (0, 0) 0 ?s2) = 1"
    using f by (simp_all add: vcpu_init_def vm_init_waiters_def upd_vcpu.simps upd_vm_def)
  have a: "\<exists>s'. vm_assign_cpus 0 [0] [0..<1] (vcpu_init (0, 0) 0 ?s2) = Inr (True, s')"
    using e c by (simp add: cpu_find_def)
  have "\<exists>s'. vm_init 1 1 1 [0] 0 demo_empty = Inr (Some 0, s')"
    using e s2(1) i a by (auto simp: vm_init_def PG_VM_ID_OFFSET_def the_vm_def Z_def)
  then show ?thesis using e by (auto simp: vm_init_next_def PG_VM_ID_OFFSET_def)
qed

theorem vm_init_next_typed_witness:
  "\<exists>s'. vm_init_next 1 1 [0] 0 demo_empty = Inr (True, Some (Some 0), s') \<and> hyp_wf s' \<and> vm_find 1 s' = Some 0"
proof -
  obtain new s' where r: "vm_init_next 1 1 [0] 0 demo_empty = Inr (True, new, s')" using demo_create by blast
  have "hyp_wf demo_empty" "vm_count demo_empty = 0" by (simp_all add: hyp_wf_def demo_empty_def demo_hyp_def)
  with vm_init_next_typed [OF _ r] r show ?thesis by (simp add: PG_VM_ID_OFFSET_def)
qed

text \<open>C39. The VMs boot in the order of their boot order, highest first, and among equals in the order in which they were added: adding a
  VM always ends, puts it behind the VMs of the same or a higher order and before those of a lower order, and keeps a sorted list sorted.\<close>
theorem vm_update_boot_sorted:
  assumes "boot_path xs s" "distinct xs" "v \<notin> set xs" "v < length (vms s)" "next_boot (vms s ! v) = None"
    "sorted_wrt (\<lambda>x y. order_of s y \<le> order_of s x) xs"
  shows "\<exists>s' ys zs. vm_update_boot v s = Inr s' \<and> xs = ys @ zs \<and> boot_path (ys @ v # zs) s' \<and>
    (\<forall>y \<in> set ys. order_of s v \<le> order_of s y) \<and> (\<forall>z \<in> set zs. order_of s z < order_of s v) \<and>
    (\<forall>x. order_of s' x = order_of s x)"
proof -
  let ?ys = "before s (order_of s v) xs" and ?zs = "behind s (order_of s v) xs"
  obtain s' where s': "vm_update_boot v s = Inr s'" "boot_path (?ys @ v # ?zs) s'" "\<forall>x. order_of s' x = order_of s x"
    using vm_update_boot_inserts [OF assms(1-5)] by blast
  have "sorted_wrt (\<lambda>x y. order_of s y \<le> order_of s x) (?ys @ ?zs)" using assms(6) by simp
  then have "sorted_wrt (\<lambda>x y. order_of s y \<le> order_of s x) ?zs" unfolding sorted_wrt_append by blast
  then have "order_of s z < order_of s v" if "z \<in> set ?zs" for z
    using that hd_dropWhile [of "\<lambda>x. order_of s v \<le> order_of s x" xs] by (cases ?zs) (auto intro: le_less_trans)
  then show ?thesis
    using s' by (intro exI [of _ s'] exI [of _ ?ys] exI [of _ ?zs]) (auto dest: set_takeWhileD)
qed

theorem vm_update_boot_sorted_witness: "\<exists>s'. vm_update_boot 1 demo_hyp = Inr s' \<and> boot_path [0, 1] s'"
proof -
  have o: "order_of demo_hyp 1 = order_of demo_hyp 0" by (simp add: demo_hyp_def demo_vm_def zero_vm_def)
  have "boot_path [0] demo_hyp" "next_boot (vms demo_hyp ! 1) = None" "length (vms demo_hyp) = 2"
    by (simp_all add: boot_path_def demo_hyp_def demo_vm_def zero_vm_def)
  with vm_update_boot_sorted [of "[0]" demo_hyp 1] obtain s' ys zs where
    "vm_update_boot 1 demo_hyp = Inr s'" "[0] = ys @ zs" "boot_path (ys @ 1 # zs) s'" "\<forall>z \<in> set zs. order_of demo_hyp z < order_of demo_hyp 1"
    by auto
  moreover from this(2) have "ys = [] \<and> zs = [0] \<or> ys = [0] \<and> zs = []" by (auto simp: Cons_eq_append_conv)
  ultimately show ?thesis using o by auto
qed

section \<open>The console of a VM\<close>

text \<open>C40. The virtual console loses and reorders nothing: writing any characters to its transmit register returns, and what was unprinted
  and is written is what is printed, in pieces with a tag before each piece that begins a line, followed by what is
  still unprinted. The buffer of the device never overflows and the lock of the log is released.\<close>
theorem uart_prints_stream:
  assumes "uart_ok D w"
  shows "\<exists>D' lpc' w' cs. uart_write i xs D (lpc, w) = Inr (D', lpc', w') \<and> uart_ok D' w' \<and>
    unprinted D @ xs = concat cs @ unprinted D' \<and> dlog_out w' = dlog_out w @ tagged i lpc cs \<and> (\<forall>c \<in> set cs. c \<noteq> [])"
  using assms by (rule uart_write_stream)

definition demo_uart :: dev_inst where
  "demo_uart = \<lparr>dev_held = False, dev_regs = (\<lambda>_. 0), tx_buff = replicate TX_BUFF_SZ 0, tx_head = 0\<rparr>"

theorem uart_prints_stream_witness:
  "\<exists>D' lpc' w' cs. uart_write 0 [0x48, 0x69, 0x0A] demo_uart (0x0A, dlog_st demo_hyp) = Inr (D', lpc', w') \<and>
     [0x48, 0x69, 0x0A] = concat cs @ unprinted D' \<and> dlog_out w' = tagged 0 0x0A cs"
proof -
  have "uart_ok demo_uart (dlog_st demo_hyp)" "unprinted demo_uart = []" "dlog_out (dlog_st demo_hyp) = []"
    by (simp_all add: uart_ok_def demo_uart_def TX_BUFF_SZ_def unprinted_def demo_hyp_def)
  with uart_prints_stream [where D = demo_uart and w = "dlog_st demo_hyp" and i = 0 and xs = "[0x48, 0x69, 0x0A]" and lpc = "0x0A"] show ?thesis by auto
qed

end
