(* ===== verification/Spec2Isabelle.thy ===== *)
theory Spec2Isabelle
  imports Mpool_Contract Mm_Contract Pma_Contract Text_Contract Vm_Contract
begin

text \<open>
  A verification development for the Peregrine hypervisor, which runs several virtual machines (VMs) on a 64-bit Arm
  computer. All file names below are relative to \<^verbatim>\<open>src/\<close>; \<^verbatim>\<open>A64\<close> stands for \<^verbatim>\<open>src/arch/aarch64\<close>.

  \<^bold>\<open>The program.\<close> Memory comes from three layers. A memory pool (\<^verbatim>\<open>src/mpool.c\<close>) hands out entries of a fixed size, in
  practice pages. The page-table code (\<^verbatim>\<open>src/mm.c\<close> over \<^verbatim>\<open>A64/mm.c\<close>) takes pages from a pool, builds translation tables in
  them and gives pages back. The physical memory allocator (\<^verbatim>\<open>src/pma.c\<close>) keeps the owner of every page of the main memory and
  maps the pages it gives away in the table of their owner. The tables of CPUs and VMs (\<^verbatim>\<open>src/cpu.c\<close>, \<^verbatim>\<open>src/vm.c\<close>,
  \<^verbatim>\<open>src/vcpu.c\<close>) hold the saved registers and virtual interrupts of each virtual CPU. An exception from a VM enters
  \<^verbatim>\<open>A64/hypervisor/handler.c\<close>, which calls the hypercalls of \<^verbatim>\<open>src/api.c\<close>, the power calls of
  \<^verbatim>\<open>A64/hypervisor/psci_handler.c\<close>, the filter for firmware calls, the emulated interrupt controller \<^verbatim>\<open>A64/emulator.c\<close>, the virtual
  devices, or one of the handlers of trapped system registers, and returns the virtual CPU to run next. Below all of it is
  a small C library (\<^verbatim>\<open>src/std.c\<close>, \<^verbatim>\<open>A64/std.c\<close>, \<^verbatim>\<open>src/string.c\<close>, \<^verbatim>\<open>src/dlog.c\<close>, \<^verbatim>\<open>src/uuid.c\<close>, \<^verbatim>\<open>src/cpio.c\<close>).

  \<^bold>\<open>Conventions.\<close> Integers are words of the width the source has, so arithmetic wraps around as in C. A call returns
  \<open>'a res\<close>, that is \<open>fault + 'a\<close>; a fault is a failed check, a lock taken twice, a loop without end, a division by zero, an access
  out of an array, a missing argument of a format, or a null pointer (theory \<open>Prelude\<close>). State is a record, passed and
  returned: \<open>machine\<close> (memory cells and pools), \<open>mm_machine\<close> (with the log of stores to table entries and of maintenance
  operations), \<open>pma_machine\<close> (with the page array, the lock and the cache of the allocator) and \<open>hyp\<close> (with CPUs, VMs, devices and
  system registers), each an extension of the one before. One CPU executes the code: spin locks are booleans, and taking a held
  one is the fault \<open>Deadlock\<close>. What the build or the hardware decides is an argument: addresses of devices, feature
  registers, the answers of the firmware and of the address translation instruction.

  \<^bold>\<open>Memory pool.\<close> \<open>Mpool\<close> has every operation of \<^verbatim>\<open>src/mpool.c\<close> on linked lists in memory cells. \<open>Mpool_Refine\<close> relates
  them to the list of free entries of a pool and its fallbacks, \<open>Mpool_Contig\<close> treats ranges and \<open>Mpool_Life\<close> whole pools. The locale
  \<open>page_allocator\<close> is what the page-table code relies on, interpreted on \<open>mpool_alloc\<close> and \<open>mpool_free\<close>. \<open>Mpool_Contract\<close>: on pools
  that are well formed the operations end and do to the list what the comments of the source promise.

  \<^bold>\<open>Entries and maintenance.\<close> \<open>Arch_Mm\<close> is \<^verbatim>\<open>A64/mm.c\<close>: encoding of entries, attributes of modes, invalidation of the
  TLB and cleaning of the cache as lists of operations, and the choice of the configuration. \<open>Arch_Mm_Laws\<close> has the laws of the
  encoding, \<open>Arch_Mm_Props\<close> the reach of the maintenance loops and the bounds of the configuration.

  \<^bold>\<open>Page tables.\<close> \<open>Mm\<close> is \<^verbatim>\<open>src/mm.c\<close>. \<open>Mm_Tree\<close> abstracts a table in memory to a tree and to the translation it defines;
  \<open>Mm_Pages\<close> and \<open>Mm_Populate\<close> treat single entries, new tables and freed ones; \<open>Mm_Request\<close> says what a request does to an
  address; \<open>Mm_Map\<close>, \<open>Mm_Root\<close> and \<open>Mm_Update\<close> carry this through the loop over a table, the roots and the public
  operations; \<open>Mm_Range\<close> says which addresses are reached without the arithmetic of the code; \<open>Mm_Read\<close> is about reading tables.
  \<open>Mm_Contract\<close>: updates change exactly the reached addresses, all or nothing between \<open>prepare\<close> and \<open>commit\<close>, neither
  lose nor share pages, follow break-before-make with an invalidation that reaches the replaced entry, and walks and
  queries read what was mapped.

  \<^bold>\<open>Physical memory.\<close> \<open>Pma\<close> is \<^verbatim>\<open>src/pma.c\<close>. \<open>Pma_Pages\<close> reads its loops as updates of ranges of the page array, \<open>Pma_Map\<close>
  ties it to the tables, \<open>Pma_Alloc\<close> and \<open>Pma_Free\<close> treat the operations. \<open>Pma_Contract\<close>: an allocation takes exactly a
  free run and finds one if there is one, the pages are mapped for their owner, freeing undoes it, queries answer with the
  chunk, and a reservation is all or nothing but for the first page, where undoing it leaves the array.

  \<^bold>\<open>Bytes and text.\<close> \<open>Bytes\<close> and \<open>Std\<close> are byte memory and the memory functions, statement by statement; \<open>Std_Copy\<close>,
  \<open>Std_Move\<close> and \<open>Std_Set\<close> prove the loops over words equal to the update of a range. \<open>Text\<close> has iterators, strings and archives,
  \<open>Format\<close> numbers, \<^verbatim>\<open>string_snprintf\<close>, the log and identifiers; \<open>Text_Props\<close>, \<open>Text_Copy\<close>, \<open>Format_Safe\<close>, \<open>Format_Exact\<close>, \<open>Uuid_Text\<close> and
  \<open>Uuid_Parse\<close> are their lemmas. The locales \<open>printer\<close> and \<open>writer\<close> are the two contracts of a function that writes a character,
  interpreted on the buffer and on the console. \<open>Text_Contract\<close>: the checked copies move every
  byte or panic, the copy by words is \<^verbatim>\<open>strncpy\<close>, printing stays in its buffer, an identifier is read back, a file lies in its archive.

  \<^bold>\<open>Virtual machines.\<close> \<open>Sysregs\<close> (\<^verbatim>\<open>A64/sysregs.c\<close>, \<^verbatim>\<open>.h\<close>), \<open>Vm_State\<close> (the records), \<open>Vcpu\<close> (\<^verbatim>\<open>src/vcpu.c\<close>,
  \<^verbatim>\<open>A64/hypervisor/cpu.c\<close>, \<^verbatim>\<open>A64/timer.c\<close>), \<open>Vm\<close> (\<^verbatim>\<open>src/vm.c\<close>, \<^verbatim>\<open>src/cpu.c\<close>), \<open>Traps\<close> (\<^verbatim>\<open>feature_id.c\<close>, \<^verbatim>\<open>perfmon.c\<close>,
  \<^verbatim>\<open>debug_el1.c\<close>), \<open>Api\<close> (\<^verbatim>\<open>src/api.c\<close>), \<open>Psci\<close> (\<^verbatim>\<open>psci_handler.c\<close>, \<^verbatim>\<open>A64/smc.c\<close>), \<open>Vgic\<close> (\<^verbatim>\<open>A64/emulator.c\<close>,
  \<^verbatim>\<open>A64/addr_translator.c\<close>), \<open>Virt_Devs\<close> (\<^verbatim>\<open>A64/virt_devs.c\<close> and its five drivers) and \<open>Handler\<close> (\<^verbatim>\<open>handler.c\<close>,
  \<^verbatim>\<open>default_mediator.c\<close>, \<^verbatim>\<open>A64/virtioac.c\<close>) are the code. \<open>Api_Interrupts\<close> reads the bit fields of virtual interrupts as sets; \<open>Api_State\<close>
  has the locales \<open>interrupt_contract\<close> and \<open>interrupt_invariant\<close>, what every call of \<^verbatim>\<open>api.c\<close> keeps of the interrupts of all virtual
  CPUs; \<open>Exc_Frame\<close> and \<open>Mm_Frame\<close> say what the handlers leave alone; \<open>Exc_State\<close> has the step relation \<open>exc_step\<close> over handlers
  and the locale \<open>exception_invariant\<close>, which lifts an invariant of the interrupts to sequences of exceptions; all are interpreted
  with the invariant that the two counters sum up to the number of interrupts enabled and pending. \<open>Vm_Table\<close>, \<open>Boot_Order\<close> and \<open>Uart_Refine\<close>
  treat the table of VMs, the boot list and the console of a VM as a stream. \<open>Vm_Contract\<close>: the counters stay right
  under every sequence of exceptions, injection is confined, an interrupt that is pending is signalled and the least one returned,
  firmware calls are filtered, performance monitors are closed to secondary VMs, the table of VMs is well typed, the boot
  list sorted, and the console prints the stream it was given.

  \<^bold>\<open>Loops, bounds and fuel.\<close> Loops that follow links in memory (the pool, the cache loop, turning a CPU on) are
  partial functions into \<open>option\<close>, and not returning is \<open>Diverge\<close>. The properties prove that those of the pool and of the cache
  return; whether a CPU is turned on is up to the firmware. The loops over the entries
  of a table carry a number of steps: 512, the entries of a table, or the number of root tables, and the loop over the
  boot list the number of VMs. Using it up while work is left is \<open>Diverge\<close> as well, and the properties of updates and of the boot
  list exclude it, so the bounds are enough. All other recursion is structural or has a termination proof. Properties of the handlers that
  say \<open>when the handler returns\<close> do not exclude a fault: an exception may panic the hypervisor by design.

  \<^bold>\<open>Not modelled.\<close> Interleaving of several CPUs, memory ordering and the effect of caches and of the TLB on later accesses. Drivers
  that only access device registers (consoles, SMMU, most of the GICv3 driver), assembly, start-up and the loader, the
  manifest and device trees (read through libfdt, which is not part of the sources), the Linux driver and the library
  for VMs, and messages that go to the log only. The polling loop \<^verbatim>\<open>rwp_wait\<close> only reads a device register, a bounded number of times.
\<close>

end
